(* ===== verification/Prelude.thy ===== *)
theory Prelude
  imports Main "HOL-Library.Word" "HOL-Library.AList"
begin

text \<open>
  Shared vocabulary of the development: machine integers, byte buffers with their
  big-endian readers and writers, and the generic facts about them that the component
  theories use. A Rust fixed array \<^verbatim>\<open>[u8; N]\<close> is a \<open>bytes\<close> list; a packet is the list of
  bytes between \<^verbatim>\<open>data\<close> and \<^verbatim>\<open>data_end\<close>, so the source's guard
  \<^verbatim>\<open>data + off + n > data_end\<close> is \<open>off + n > length p\<close>. Every access of the source stands
  behind such a guard; a reader returns 0 and a writer does nothing past the end.
\<close>

unbundle bit_operations_syntax

type_synonym u8 = "8 word"
type_synonym u16 = "16 word"
type_synonym u32 = "32 word"
type_synonym u64 = "64 word"
type_synonym bytes = "8 word list"

named_theorems pkt \<open>reading a packet after writes\<close>
named_theorems pkt_len \<open>writers keep the length of a packet\<close>

section \<open>Words\<close>

definition be16 :: "u8 \<Rightarrow> u8 \<Rightarrow> u16" where
  "be16 hi lo = of_nat (unat hi * 256 + unat lo)"

definition hi8 :: "u16 \<Rightarrow> u8" where
  "hi8 w = of_nat (unat w div 256)"

definition lo8 :: "u16 \<Rightarrow> u8" where
  "lo8 w = of_nat (unat w mod 256)"

lemma unat_lt8 [simp]: "unat (w :: u8) < 256"
  using unsigned_less [where ?'a = nat, of w] by simp

lemma unat_lt16 [simp]: "unat (w :: u16) < 65536"
  using unsigned_less [where ?'a = nat, of w] by simp

lemma unat_lt32 [simp]: "unat (w :: u32) < 4294967296"
  using unsigned_less [where ?'a = nat, of w] by simp

lemma unat_lt64 [simp]: "unat (w :: u64) < 18446744073709551616"
  using unsigned_less [where ?'a = nat, of w] by simp

lemma unat_le16 [simp]: "unat (w :: u16) \<le> 65535"
  using unat_lt16 [of w] by linarith

lemma unat_be16 [simp]: "unat (be16 a b) = unat a * 256 + unat b"
proof -
  have "unat a * 256 + unat b < 65536"
    using unat_lt8 [of a] unat_lt8 [of b] by linarith
  then show ?thesis unfolding be16_def unat_of_nat by simp
qed

lemma unat_hi8 [simp]: "unat (hi8 w) = unat w div 256"
proof -
  have "unat w div 256 < 256" using unat_lt16 [of w] by linarith
  then show ?thesis unfolding hi8_def unat_of_nat by simp
qed

lemma unat_lo8 [simp]: "unat (lo8 w) = unat w mod 256"
  unfolding lo8_def unat_of_nat by simp

lemma be16_hi8_lo8 [simp]: "be16 (hi8 w) (lo8 w) = w"
  by (simp add: word_unat_eq_iff)

lemma hi8_be16 [simp]: "hi8 (be16 a b) = a"
  using unat_lt8 [of b] by (simp add: word_unat_eq_iff)

lemma lo8_be16 [simp]: "lo8 (be16 a b) = b"
  by (simp add: word_unat_eq_iff)

lemma be16_inject [simp]: "be16 a b = be16 c d \<longleftrightarrow> a = c \<and> b = d"
  by (metis hi8_be16 lo8_be16)

lemma unat_not16: "unat (NOT (w :: u16)) = 65535 - unat w"
proof -
  have "NOT w = 65535 - w" by (simp add: not_eq_complement)
  moreover have "w \<le> 65535" by (simp add: word_le_nat_alt)
  ultimately show ?thesis by (simp add: unat_sub)
qed

lemma unat_ucast_mod: "unat (ucast (w :: 'a::len word) :: 'b::len word) = unat w mod 2 ^ LENGTH('b)"
  by (metis of_nat_unat unat_of_nat)

lemma unat_ucast_16_32 [simp]: "unat (ucast (w :: u16) :: u32) = unat w"
  by (simp add: unat_ucast_mod less_trans [OF unat_lt16])

lemma unat_ucast_8_16 [simp]: "unat (ucast (w :: u8) :: u16) = unat w"
  by (simp add: unat_ucast_mod less_trans [OF unat_lt8])

lemma unat_ucast_8_32 [simp]: "unat (ucast (w :: u8) :: u32) = unat w"
  by (simp add: unat_ucast_mod less_trans [OF unat_lt8])

lemma unat_ucast_32_16 [simp]: "unat (ucast (w :: u32) :: u16) = unat w mod 65536"
  by (simp add: unat_ucast_mod)

lemma unat_add_small:
  "unat (a :: 'a::len word) + unat b < 2 ^ LENGTH('a) \<Longrightarrow> unat (a + b) = unat a + unat b"
  by (simp add: unat_word_ariths)

lemma unat_Suc_below: "unat (i :: 'a::len word) < n \<Longrightarrow> n < 2 ^ LENGTH('a) \<Longrightarrow> unat (i + 1) = unat i + 1"
  by (subst unat_add_small) auto

lemma unat_mod: "unat ((a :: 'a::len word) mod b) = unat a mod unat b"
  by (simp add: unat_mod_distrib)

lemma unat_drop_bit: "unat (drop_bit n (w :: 'a::len word)) = unat w div 2 ^ n"
proof -
  have "unat w < 2 ^ LENGTH('a)" by (rule unsigned_less)
  then show ?thesis
    unfolding unsigned_drop_bit_eq by (simp add: drop_bit_eq_div take_bit_nat_eq_self)
qed

section \<open>Byte buffers\<close>

definition rd8 :: "bytes \<Rightarrow> nat \<Rightarrow> u8" where
  "rd8 p i = (if i < length p then p ! i else 0)"

definition rd16 :: "bytes \<Rightarrow> nat \<Rightarrow> u16" where
  "rd16 p i = be16 (rd8 p i) (rd8 p (i + 1))"

definition rdn :: "bytes \<Rightarrow> nat \<Rightarrow> nat \<Rightarrow> bytes" where
  "rdn p off n = map (\<lambda>k. rd8 p (off + k)) [0..<n]"

definition wr8 :: "bytes \<Rightarrow> nat \<Rightarrow> u8 \<Rightarrow> bytes" where
  "wr8 p i b = p[i := b]"

fun wrn :: "bytes \<Rightarrow> nat \<Rightarrow> bytes \<Rightarrow> bytes" where
  "wrn p off [] = p"
| "wrn p off (b # bs) = wrn (wr8 p off b) (off + 1) bs"

definition wr16 :: "bytes \<Rightarrow> nat \<Rightarrow> u16 \<Rightarrow> bytes" where
  "wr16 p i w = wrn p i [hi8 w, lo8 w]"

lemma length_wr8 [simp, pkt_len]: "length (wr8 p i b) = length p"
  by (simp add: wr8_def)

lemma length_wrn [simp, pkt_len]: "length (wrn p off bs) = length p"
  by (induction p off bs rule: wrn.induct) auto

lemma length_wr16 [simp, pkt_len]: "length (wr16 p i w) = length p"
  by (simp add: wr16_def)

lemma length_rdn [simp]: "length (rdn p off n) = n"
  by (simp add: rdn_def)

lemma rd8_wr8 [pkt]: "rd8 (wr8 p i b) j = (if j = i \<and> i < length p then b else rd8 p j)"
  by (auto simp: rd8_def wr8_def)

lemma rd8_wrn [pkt]:
  "rd8 (wrn p off bs) j =
     (if off \<le> j \<and> j < off + length bs \<and> j < length p then bs ! (j - off) else rd8 p j)"
proof (induction bs arbitrary: p off)
  case Nil
  then show ?case by auto
next
  case (Cons b bs)
  then show ?case by (auto simp: rd8_wr8 nth_Cons' Suc_diff_le)
qed

lemma rd8_wr16 [pkt]:
  "rd8 (wr16 p i w) j =
     (if j = i \<and> j < length p then hi8 w
      else if j = i + 1 \<and> j < length p then lo8 w else rd8 p j)"
  by (auto simp: wr16_def rd8_wr8)

lemma rd16_eqI: "rd8 p i = rd8 q i \<Longrightarrow> rd8 p (i + 1) = rd8 q (i + 1) \<Longrightarrow> rd16 p i = rd16 q i"
  by (simp add: rd16_def)

lemma rdn_nth [simp]: "k < n \<Longrightarrow> rdn p off n ! k = rd8 p (off + k)"
  by (simp add: rdn_def)

lemma rdn_eqI: "(\<And>k. k < n \<Longrightarrow> rd8 p (i + k) = rd8 q (j + k)) \<Longrightarrow> rdn p i n = rdn q j n"
  by (simp add: rdn_def)

lemma rdn_eq_take_drop: "off + n \<le> length p \<Longrightarrow> rdn p off n = take n (drop off p)"
  by (rule nth_equalityI) (auto simp: rdn_def rd8_def)

text \<open>A buffer is determined by its length and its bytes.\<close>

lemma bytes_eqI: "length p = length q \<Longrightarrow> (\<And>i. i < length p \<Longrightarrow> rd8 p i = rd8 q i) \<Longrightarrow> p = q"
  by (rule nth_equalityI) (auto simp: rd8_def)

lemma rdn_wrn_same [pkt]:
  "off + length bs \<le> length p \<Longrightarrow> n = length bs \<Longrightarrow> rdn (wrn p off bs) off n = bs"
  by (rule nth_equalityI) (auto simp: rd8_wrn)

lemma rdn_wrn_other [pkt]:
  "i + n \<le> off \<or> off + length bs \<le> i \<Longrightarrow> rdn (wrn p off bs) i n = rdn p i n"
  by (rule rdn_eqI) (auto simp: rd8_wrn)

lemma rd16_wr16_same [pkt]: "i + 1 < length p \<Longrightarrow> rd16 (wr16 p i w) i = w"
  by (simp add: rd16_def rd8_wr16)

lemma rd16_wr16_other [pkt]:
  "j + 1 < i \<or> i + 1 < j \<Longrightarrow> rd16 (wr16 p i w) j = rd16 p j"
  by (auto simp: rd16_def rd8_wr16)

lemma rd16_wrn_other [pkt]:
  "j + 1 < off \<or> off + length bs \<le> j \<Longrightarrow> rd16 (wrn p off bs) j = rd16 p j"
  by (auto simp: rd16_def rd8_wrn)

lemma rd16_wr8_other [pkt]: "j \<noteq> i \<Longrightarrow> j + 1 \<noteq> i \<Longrightarrow> rd16 (wr8 p i b) j = rd16 p j"
  by (auto simp: rd16_def rd8_wr8)

lemma rdn_wr16_other [pkt]: "j + n \<le> i \<or> i + 1 < j \<Longrightarrow> rdn (wr16 p i w) j n = rdn p j n"
  by (rule rdn_eqI) (auto simp: rd8_wr16)

lemma rdn_wr8_other [pkt]: "j + n \<le> i \<or> i < j \<Longrightarrow> rdn (wr8 p i b) j n = rdn p j n"
  by (rule rdn_eqI) (auto simp: rd8_wr8)

lemma rdn_4: "rdn p off 4 = [rd8 p off, rd8 p (off + 1), rd8 p (off + 2), rd8 p (off + 3)]"
  by (simp add: rdn_def upt_rec numeral_eq_Suc)

end
