(* ===== verification/Bpf_Maps.thy ===== *)
theory Bpf_Maps
  imports Prelude
begin

text \<open>
  The kernel tables the programs and the control plane share. They are data here, with the
  documented behaviour of their map types: a \<^verbatim>\<open>HashMap\<close> is an association list bounded by
  \<^verbatim>\<open>max_entries\<close>, whose insert fails on a full table and whose remove fails on a missing key;
  an \<^verbatim>\<open>Array\<close> is a list of fixed length; an \<^verbatim>\<open>LpmTrie\<close> is a bounded list of prefixes whose
  lookup returns the value of the longest matching prefix. The locales \<open>bounded_table\<close> and
  \<open>prefix_table\<close> state what clients rely on; both are interpreted on these definitions.
\<close>

datatype map_error = E2BIG | ENOENT

section \<open>Hash maps\<close>

record ('k, 'v) hmap =
  max_entries :: nat
  entries :: "('k \<times> 'v) list"

definition hnew :: "nat \<Rightarrow> ('k, 'v) hmap" where
  "hnew n = \<lparr>max_entries = n, entries = []\<rparr>"

definition hget :: "('k, 'v) hmap \<Rightarrow> 'k \<Rightarrow> 'v option" where
  "hget m k = map_of (entries m) k"

definition hinsert :: "('k, 'v) hmap \<Rightarrow> 'k \<Rightarrow> 'v \<Rightarrow> map_error + ('k, 'v) hmap" where
  "hinsert m k v =
     (if hget m k \<noteq> None \<or> length (entries m) < max_entries m
      then Inr (m\<lparr>entries := AList.update k v (entries m)\<rparr>) else Inl E2BIG)"

definition hremove :: "('k, 'v) hmap \<Rightarrow> 'k \<Rightarrow> map_error + ('k, 'v) hmap" where
  "hremove m k =
     (if hget m k \<noteq> None then Inr (m\<lparr>entries := AList.delete k (entries m)\<rparr>) else Inl ENOENT)"

text \<open>\<^verbatim>\<open>let _ = MAP.insert(..)\<close> and \<^verbatim>\<open>let _ = map.remove(..)\<close>: the result is ignored.\<close>

definition hput :: "('k, 'v) hmap \<Rightarrow> 'k \<Rightarrow> 'v \<Rightarrow> ('k, 'v) hmap" where
  "hput m k v = (case hinsert m k v of Inl e \<Rightarrow> m | Inr m' \<Rightarrow> m')"

definition hdel :: "('k, 'v) hmap \<Rightarrow> 'k \<Rightarrow> ('k, 'v) hmap" where
  "hdel m k = (case hremove m k of Inl e \<Rightarrow> m | Inr m' \<Rightarrow> m')"

text \<open>A loop \<^verbatim>\<open>for (k, v) in .. { map.insert(k, v)?; }\<close>: the first failure ends the loop, with
  the entries written so far in place.\<close>

fun hputs :: "('k, 'v) hmap \<Rightarrow> ('k \<times> 'v) list \<Rightarrow> map_error option \<times> ('k, 'v) hmap" where
  "hputs m [] = (None, m)"
| "hputs m ((k, v) # kvs) =
     (case hinsert m k v of Inl e \<Rightarrow> (Some e, m) | Inr m' \<Rightarrow> hputs m' kvs)"

fun hdels :: "('k, 'v) hmap \<Rightarrow> 'k list \<Rightarrow> ('k, 'v) hmap" where
  "hdels m [] = m"
| "hdels m (k # ks) = hdels (hdel m k) ks"

section \<open>The interface of a bounded table\<close>

locale bounded_table =
  fixes get :: "'m \<Rightarrow> 'k \<Rightarrow> 'v option"
    and ins :: "'m \<Rightarrow> 'k \<Rightarrow> 'v \<Rightarrow> map_error + 'm"
    and del :: "'m \<Rightarrow> 'k \<Rightarrow> 'm"
    and puts :: "'m \<Rightarrow> ('k \<times> 'v) list \<Rightarrow> map_error option \<times> 'm"
    and dels :: "'m \<Rightarrow> 'k list \<Rightarrow> 'm"
  assumes get_ins: "ins m k v = Inr m' \<Longrightarrow> get m' = (get m)(k \<mapsto> v)"
    and ins_upd: "get m k \<noteq> None \<Longrightarrow> \<exists>m'. ins m k v = Inr m'"
    and get_del: "get (del m k) = (get m)(k := None)"
    and puts_Nil: "puts m [] = (None, m)"
    and puts_Cons: "puts m ((k, v) # kvs) =
          (case ins m k v of Inl e \<Rightarrow> (Some e, m) | Inr m' \<Rightarrow> puts m' kvs)"
    and dels_Nil: "dels m [] = m"
    and dels_Cons: "dels m (k # ks) = dels (del m k) ks"
begin

lemma get_puts: "puts m kvs = (None, m') \<Longrightarrow> get m' = get m ++ map_of (rev kvs)"
proof (induction kvs arbitrary: m)
  case Nil
  then show ?case by (simp add: puts_Nil)
next
  case (Cons kv kvs)
  obtain k v where kv: "kv = (k, v)" by (cases kv)
  from Cons.prems obtain m1 where m1: "ins m k v = Inr m1" and rest: "puts m1 kvs = (None, m')"
    by (auto simp: kv puts_Cons split: sum.splits)
  have "get m' = get m1 ++ map_of (rev kvs)" using rest by (rule Cons.IH)
  also have "\<dots> = get m ++ map_of (rev (kv # kvs))"
    using get_ins [OF m1] by (simp add: kv)
  finally show ?case .
qed

lemma get_dels: "get (dels m ks) k = (if k \<in> set ks then None else get m k)"
  by (induction ks arbitrary: m) (auto simp: dels_Nil dels_Cons get_del)

lemma get_puts_other:
  "puts m kvs = (r, m') \<Longrightarrow> k \<notin> fst ` set kvs \<Longrightarrow> get m' k = get m k"
proof (induction kvs arbitrary: m)
  case Nil
  then show ?case by (simp add: puts_Nil)
next
  case (Cons kv kvs)
  then show ?case
    by (cases kv) (auto simp: puts_Cons get_ins split: sum.splits)
qed

text \<open>Overwriting keys that are present never fails, so a reprogramming loop over them ends.\<close>

lemma puts_present: "\<forall>k \<in> fst ` set kvs. get m k \<noteq> None \<Longrightarrow> fst (puts m kvs) = None"
proof (induction kvs arbitrary: m)
  case Nil
  then show ?case by (simp add: puts_Nil)
next
  case (Cons kv kvs)
  obtain k v where kv: "kv = (k, v)" by (cases kv)
  from Cons.prems have "get m k \<noteq> None" by (simp add: kv)
  then obtain m1 where m1: "ins m k v = Inr m1" using ins_upd by blast
  have "\<forall>j \<in> fst ` set kvs. get m1 j \<noteq> None"
    using Cons.prems get_ins [OF m1] by (auto simp: kv)
  then have "fst (puts m1 kvs) = None" by (rule Cons.IH)
  then show ?case by (simp add: kv puts_Cons m1)
qed

end

lemma hget_hput: "hget (hput m k v) = (if hinsert m k v = Inl E2BIG then hget m else (hget m)(k \<mapsto> v))"
  by (rule ext) (auto simp: hput_def hinsert_def hget_def update_conv')

lemma hget_hdel: "hget (hdel m k) = (hget m)(k := None)"
  by (rule ext) (auto simp: hdel_def hremove_def hget_def delete_conv')

interpretation ht: bounded_table hget hinsert hdel hputs hdels
  by unfold_locales
    (auto simp: hinsert_def hget_def update_conv' hget_hdel [unfolded hget_def] split: if_splits)

lemma hget_hinsert: "hinsert m k v = Inr m' \<Longrightarrow> hget m' = (hget m)(k \<mapsto> v)"
  by (rule ht.get_ins)

lemma max_entries_hinsert: "hinsert m k v = Inr m' \<Longrightarrow> max_entries m' = max_entries m"
  by (auto simp: hinsert_def split: if_splits)

section \<open>Arrays\<close>

definition aget :: "'v list \<Rightarrow> nat \<Rightarrow> 'v option" where
  "aget a i = (if i < length a then Some (a ! i) else None)"

definition aset :: "'v list \<Rightarrow> nat \<Rightarrow> 'v \<Rightarrow> map_error + 'v list" where
  "aset a i v = (if i < length a then Inr (a[i := v]) else Inl E2BIG)"

section \<open>Longest prefix match tries\<close>

type_synonym lpm_key = "nat \<times> bytes"

record 'v lpm =
  lpm_max :: nat
  lpm_entries :: "(lpm_key \<times> 'v) list"

definition key_bit :: "bytes \<Rightarrow> nat \<Rightarrow> bool" where
  "key_bit d i = bit (rd8 d (i div 8)) (7 - i mod 8)"

definition prefix_eq :: "nat \<Rightarrow> bytes \<Rightarrow> bytes \<Rightarrow> bool" where
  "prefix_eq n a b = list_all (\<lambda>i. key_bit a i = key_bit b i) [0..<n]"

definition same_prefix :: "lpm_key \<Rightarrow> lpm_key \<Rightarrow> bool" where
  "same_prefix k k' = (fst k = fst k' \<and> prefix_eq (fst k) (snd k) (snd k'))"

definition lpm_matches :: "lpm_key \<Rightarrow> lpm_key \<Rightarrow> bool" where
  "lpm_matches q k = (fst k \<le> fst q \<and> prefix_eq (fst k) (snd k) (snd q))"

fun lpm_best :: "(lpm_key \<times> 'v) list \<Rightarrow> lpm_key \<Rightarrow> (lpm_key \<times> 'v) option" where
  "lpm_best [] q = None"
| "lpm_best ((k, v) # es) q =
     (if lpm_matches q k
      then (case lpm_best es q of
              None \<Rightarrow> Some (k, v)
            | Some (k', v') \<Rightarrow> if fst k' \<le> fst k then Some (k, v) else Some (k', v'))
      else lpm_best es q)"

definition lpm_get :: "'v lpm \<Rightarrow> lpm_key \<Rightarrow> 'v option" where
  "lpm_get t q = map_option snd (lpm_best (lpm_entries t) q)"

definition lpm_remove_entries :: "lpm_key \<Rightarrow> (lpm_key \<times> 'v) list \<Rightarrow> (lpm_key \<times> 'v) list" where
  "lpm_remove_entries k es = filter (\<lambda>e. \<not> same_prefix k (fst e)) es"

definition lpm_has :: "'v lpm \<Rightarrow> lpm_key \<Rightarrow> bool" where
  "lpm_has t k = list_ex (\<lambda>e. same_prefix k (fst e)) (lpm_entries t)"

definition lpm_insert :: "'v lpm \<Rightarrow> lpm_key \<Rightarrow> 'v \<Rightarrow> map_error + 'v lpm" where
  "lpm_insert t k v =
     (if lpm_has t k \<or> length (lpm_entries t) < lpm_max t
      then Inr (t\<lparr>lpm_entries := (k, v) # lpm_remove_entries k (lpm_entries t)\<rparr>) else Inl E2BIG)"

definition lpm_del :: "'v lpm \<Rightarrow> lpm_key \<Rightarrow> 'v lpm" where
  "lpm_del t k = t\<lparr>lpm_entries := lpm_remove_entries k (lpm_entries t)\<rparr>"

lemma prefix_eq_iff: "prefix_eq n a b \<longleftrightarrow> (\<forall>i < n. key_bit a i = key_bit b i)"
  by (auto simp: prefix_eq_def list_all_iff)

lemma prefix_eq_refl [simp]: "prefix_eq n a a"
  by (simp add: prefix_eq_iff)

lemma lpm_matches_same_prefix: "same_prefix k k' \<Longrightarrow> lpm_matches q k \<longleftrightarrow> lpm_matches q k'"
  by (auto simp: same_prefix_def lpm_matches_def prefix_eq_iff)

text \<open>Two prefixes of the same length that both match a key are the same prefix.\<close>

lemma lpm_matches_unique:
  "lpm_matches q k \<Longrightarrow> lpm_matches q k' \<Longrightarrow> fst k = fst k' \<Longrightarrow> same_prefix k k'"
  by (simp add: lpm_matches_def same_prefix_def prefix_eq_iff)

lemma lpm_best_Some:
  "lpm_best es q = Some (k, v) \<Longrightarrow>
     (k, v) \<in> set es \<and> lpm_matches q k \<and> (\<forall>e \<in> set es. lpm_matches q (fst e) \<longrightarrow> fst (fst e) \<le> fst k)"
proof (induction es q arbitrary: k v rule: lpm_best.induct)
  case (2 k0 v0 es q)
  show ?case
  proof (cases "lpm_matches q k0")
    case False
    with 2 show ?thesis by simp
  next
    case True
    show ?thesis
    proof (cases "lpm_best es q")
      case None
      then have "\<forall>e \<in> set es. \<not> lpm_matches q (fst e)"
        by (induction es q rule: lpm_best.induct) (auto split: if_splits option.splits)
      with True None 2(3) show ?thesis by simp
    next
      case (Some b)
      obtain k1 v1 where b: "b = (k1, v1)" by (cases b)
      have "(k1, v1) \<in> set es \<and> lpm_matches q k1 \<and>
          (\<forall>e \<in> set es. lpm_matches q (fst e) \<longrightarrow> fst (fst e) \<le> fst k1)"
        using 2(1) [OF True] Some b by simp
      with True Some b 2(3) show ?thesis by (cases "fst k1 \<le> fst k0") auto
    qed
  qed
qed simp

lemma lpm_best_None: "lpm_best es q = None \<longleftrightarrow> (\<forall>e \<in> set es. \<not> lpm_matches q (fst e))"
  by (induction es q rule: lpm_best.induct) (auto split: if_splits option.splits)

section \<open>The interface of a longest prefix match table\<close>

locale prefix_table =
  fixes get :: "'m \<Rightarrow> lpm_key \<Rightarrow> 'v option"
    and ins :: "'m \<Rightarrow> lpm_key \<Rightarrow> 'v \<Rightarrow> map_error + 'm"
    and has :: "'m \<Rightarrow> lpm_key \<Rightarrow> 'v \<Rightarrow> bool"
  assumes get_has: "get m q = Some v \<Longrightarrow> \<exists>k. has m k v \<and> lpm_matches q k"
    and get_longest: "has m k v \<Longrightarrow> lpm_matches q k \<Longrightarrow>
          \<exists>k' v'. get m q = Some v' \<and> has m k' v' \<and> lpm_matches q k' \<and> fst k \<le> fst k'"
    and ins_has: "ins m k v = Inr m' \<Longrightarrow> has m' k v"
    and ins_only: "ins m k v = Inr m' \<Longrightarrow> has m' k' v' \<Longrightarrow>
          (k' = k \<and> v' = v) \<or> (has m k' v' \<and> \<not> same_prefix k k')"
begin

text \<open>After an insert of a full-length prefix, a lookup of that very key returns the new
  value: no other entry that matches can be as long.\<close>

lemma get_ins_exact:
  assumes i: "ins m k v = Inr m'"
  shows "get m' k = Some v"
proof -
  have self: "lpm_matches k k" by (simp add: lpm_matches_def)
  obtain k' v' where g: "get m' k = Some v'" and h: "has m' k' v'"
    and mt: "lpm_matches k k'" and le: "fst k \<le> fst k'"
    using get_longest [OF ins_has [OF i] self] by blast
  have "fst k' = fst k" using mt le by (simp add: lpm_matches_def)
  then have "same_prefix k k'" using lpm_matches_unique [OF self mt] by simp
  then have "v' = v" using ins_only [OF i h] by blast
  with g show ?thesis by simp
qed

end

definition lpm_mem :: "'v lpm \<Rightarrow> lpm_key \<Rightarrow> 'v \<Rightarrow> bool" where
  "lpm_mem t k v = ((k, v) \<in> set (lpm_entries t))"

interpretation lt: prefix_table lpm_get lpm_insert lpm_mem
proof unfold_locales
  fix m :: "'v lpm" and q v
  assume "lpm_get m q = Some v"
  then obtain k where "lpm_best (lpm_entries m) q = Some (k, v)"
    by (auto simp: lpm_get_def)
  from lpm_best_Some [OF this] show "\<exists>k. lpm_mem m k v \<and> lpm_matches q k"
    unfolding lpm_mem_def by blast
next
  fix m :: "'v lpm" and k v q
  assume h: "lpm_mem m k v" and mt: "lpm_matches q k"
  then obtain k' v' where b: "lpm_best (lpm_entries m) q = Some (k', v')"
    using lpm_best_None [of "lpm_entries m" q]
    by (metis fst_conv lpm_mem_def not_None_eq surj_pair)
  from lpm_best_Some [OF b] h mt b
  show "\<exists>k' v'. lpm_get m q = Some v' \<and> lpm_mem m k' v' \<and> lpm_matches q k' \<and> fst k \<le> fst k'"
    by (fastforce simp: lpm_mem_def lpm_get_def)
next
  fix m m' :: "'v lpm" and k v
  assume "lpm_insert m k v = Inr m'"
  then show "lpm_mem m' k v" by (auto simp: lpm_insert_def lpm_mem_def split: if_splits)
next
  fix m m' :: "'v lpm" and k v k' v'
  assume "lpm_insert m k v = Inr m'" and "lpm_mem m' k' v'"
  then show "(k' = k \<and> v' = v) \<or> (lpm_mem m k' v' \<and> \<not> same_prefix k k')"
    by (auto simp: lpm_insert_def lpm_mem_def lpm_remove_entries_def split: if_splits)
qed

end
