(* ===== verification/Types.thy ===== *)
theory Types
  imports Bpf_Maps
begin

text \<open>
  The plain-data types of \<^verbatim>\<open>xdp-dp-common/src/lib.rs\<close> (map keys and values), the constants of
  the datapath and the record \<open>maps\<close> of all tables declared in \<^verbatim>\<open>xdp-dp-ebpf/src/maps.rs\<close>.
  Explicit padding fields (\<^verbatim>\<open>_pad\<close>) are always written as zero and are left out. \<^verbatim>\<open>CONNTRACK\<close>
  is an LRU hash map, whose insert always succeeds and may evict other entries: it is a HOL
  map, and evictions are separate steps of the system (theory \<^verbatim>\<open>System\<close>).
\<close>

record IfaceKey =
  ik_vni :: u32
  ik_ipv4 :: bytes

record IfaceValue =
  iv_tap_ifindex :: u32
  iv_is_local :: u32
  iv_underlay_ipv6 :: bytes
  iv_guest_mac :: bytes

record UnderlayValue =
  uv_vni :: u32
  uv_tap_ifindex :: u32
  uv_guest_mac :: bytes

record PortMeta =
  pm_vni :: u32
  pm_guest_ipv4 :: bytes
  pm_gateway_ipv4 :: bytes
  pm_guest_mac :: bytes
  pm_underlay_ipv6 :: bytes
  pm_gateway_ipv6 :: bytes
  pm_guest_ipv6 :: bytes

record RouteValue =
  rv_nexthop_vni :: u32
  rv_nexthop_ipv6 :: bytes
  rv_is_external :: u8

record MeterState =
  ms_total_bps :: u64
  ms_total_burst :: u64
  ms_total_tokens :: u64
  ms_total_last_ns :: u64
  ms_public_bps :: u64
  ms_public_burst :: u64
  ms_public_tokens :: u64
  ms_public_last_ns :: u64

record Local =
  lo_uplink_ifindex :: u32
  lo_uplink_mac :: bytes
  lo_gateway_mac :: bytes
  lo_underlay_ipv6 :: bytes

record VipKey =
  vk_vni :: u32
  vk_ipv4 :: bytes

record LbKey =
  lk_vni :: u32
  lk_ipv4 :: bytes
  lk_port :: u16
  lk_proto :: u8

record LbValue =
  lv_table_id :: u32
  lv_size :: u32

record MaglevKey =
  mk_table_id :: u32
  mk_slot :: u32

record CtKey =
  ck_vni :: u32
  ck_src_ip :: bytes
  ck_dst_ip :: bytes
  ck_src_port :: u16
  ck_dst_port :: u16
  ck_proto :: u8

record NatKey =
  nk_vni :: u32
  nk_ipv4 :: bytes

record NatValue =
  nv_nat_ipv4 :: bytes
  nv_port_min :: u16
  nv_port_max :: u16

record CtEntry =
  ce_last_seen :: u64
  ce_xlate_ip :: bytes
  ce_xlate_port :: u16
  ce_flags :: u8
  ce_tcp_state :: u8
  ce_fwall_action :: u8

abbreviation (input) CT_REWRITE_SRC :: u8 where "CT_REWRITE_SRC \<equiv> 0x01"
abbreviation (input) CT_REWRITE_DST :: u8 where "CT_REWRITE_DST \<equiv> 0x02"
abbreviation (input) CT_F_SRC_NAT :: u8 where "CT_F_SRC_NAT \<equiv> 0x04"
abbreviation (input) CT_F_DEFAULT :: u8 where "CT_F_DEFAULT \<equiv> 0x10"
abbreviation (input) CT_F_NAT64 :: u8 where "CT_F_NAT64 \<equiv> 0x40"

abbreviation (input) TCP_NONE :: u8 where "TCP_NONE \<equiv> 0"
abbreviation (input) TCP_NEW_SYN :: u8 where "TCP_NEW_SYN \<equiv> 1"
abbreviation (input) TCP_NEW_SYNACK :: u8 where "TCP_NEW_SYNACK \<equiv> 2"
abbreviation (input) TCP_ESTABLISHED :: u8 where "TCP_ESTABLISHED \<equiv> 3"
abbreviation (input) TCP_FINWAIT :: u8 where "TCP_FINWAIT \<equiv> 4"
abbreviation (input) TCP_RST_FIN :: u8 where "TCP_RST_FIN \<equiv> 5"

abbreviation (input) FW_MAX_RULES :: nat where "FW_MAX_RULES \<equiv> 16"

record FwRuleKey =
  fk_ifindex :: u32
  fk_idx :: u32

record FwRule =
  fr_src_ip :: bytes
  fr_src_mask :: bytes
  fr_dst_ip :: bytes
  fr_dst_mask :: bytes
  fr_src_port_min :: u16
  fr_src_port_max :: u16
  fr_dst_port_min :: u16
  fr_dst_port_max :: u16
  fr_icmp_type :: u16
  fr_icmp_code :: u16
  fr_proto :: u8
  fr_action :: u8
  fr_direction :: u8
  fr_enabled :: u8

record FwMeta =
  fm_ingress_count :: u32
  fm_egress_count :: u32

abbreviation (input) DHCP_MAX_DNS :: nat where "DHCP_MAX_DNS \<equiv> 8"

record DhcpConfig =
  dc_mtu :: u16
  dc_dns4_len :: u8
  dc_dns6_len :: u8
  dc_dns4 :: "bytes list"
  dc_dns6 :: "bytes list"

record DhcpMeta =
  dm_hostname :: bytes
  dm_hostname_len :: u8
  dm_boot_filename :: bytes
  dm_boot_filename_len :: u8
  dm_pxe_host :: bytes
  dm_pxe_host_len :: u8

abbreviation (input) FW_DIR_INGRESS :: u8 where "FW_DIR_INGRESS \<equiv> 0"
abbreviation (input) FW_DIR_EGRESS :: u8 where "FW_DIR_EGRESS \<equiv> 1"
abbreviation (input) FW_ACTION_DROP :: u8 where "FW_ACTION_DROP \<equiv> 0"
abbreviation (input) FW_ACTION_ACCEPT :: u8 where "FW_ACTION_ACCEPT \<equiv> 1"

abbreviation (input) NB_MAX_ENTRIES :: nat where "NB_MAX_ENTRIES \<equiv> 64"

record NeighborNatEntry =
  nn_underlay :: bytes
  nn_nat_ip :: bytes
  nn_vni :: u32
  nn_port_min :: u16
  nn_port_max :: u16
  nn_enabled :: u8

record PacketSelectors =
  ps_src :: bytes
  ps_dst :: bytes
  ps_proto :: u8
  ps_sport :: u16
  ps_dport :: u16
  ps_icmp_type :: u16
  ps_icmp_code :: u16

section \<open>The tables\<close>

record maps =
  INTERFACES :: "(IfaceKey, IfaceValue) hmap"
  ROUTES :: "RouteValue lpm"
  ROUTES6 :: "RouteValue lpm"
  PORT_META :: "(u32, PortMeta) hmap"
  LOCAL :: "Local list"
  VIPS :: "(VipKey, bytes) hmap"
  LB :: "(LbKey, LbValue) hmap"
  MAGLEV :: "(MaglevKey, bytes) hmap"
  CONNTRACK :: "CtKey \<rightharpoonup> CtEntry"
  NAT :: "(NatKey, NatValue) hmap"
  NAT_IPS :: "(VipKey, u8) hmap"
  FW_RULES :: "(FwRuleKey, FwRule) hmap"
  FW_META :: "(u32, FwMeta) hmap"
  FW_CONFIG :: "u32 list"
  UNDERLAY :: "(bytes, UnderlayValue) hmap"
  NEIGHBOR_NAT :: "(u32, NeighborNatEntry) hmap"
  NEIGHBOR_NAT_COUNT :: "u32 list"
  METER :: "(u32, MeterState) hmap"
  DHCP_CONFIG :: "DhcpConfig list"
  DHCP_META :: "(u32, DhcpMeta) hmap"

text \<open>The tables of a freshly loaded object: hash maps and tries empty with the sizes of
  \<^verbatim>\<open>maps.rs\<close>, array maps zero-filled.\<close>

definition zero_local :: Local where
  "zero_local = \<lparr>lo_uplink_ifindex = 0, lo_uplink_mac = replicate 6 0,
     lo_gateway_mac = replicate 6 0, lo_underlay_ipv6 = replicate 16 0\<rparr>"

definition zero_dhcp_config :: DhcpConfig where
  "zero_dhcp_config = \<lparr>dc_mtu = 0, dc_dns4_len = 0, dc_dns6_len = 0,
     dc_dns4 = replicate DHCP_MAX_DNS (replicate 4 0),
     dc_dns6 = replicate DHCP_MAX_DNS (replicate 16 0)\<rparr>"

definition fresh_maps :: maps where
  "fresh_maps =
     \<lparr>INTERFACES = hnew 1024, ROUTES = \<lparr>lpm_max = 65536, lpm_entries = []\<rparr>,
      ROUTES6 = \<lparr>lpm_max = 65536, lpm_entries = []\<rparr>, PORT_META = hnew 1024,
      LOCAL = [zero_local], VIPS = hnew 1024, LB = hnew 1024, MAGLEV = hnew 65536,
      CONNTRACK = Map.empty, NAT = hnew 1024, NAT_IPS = hnew 1024, FW_RULES = hnew 16384,
      FW_META = hnew 1024, FW_CONFIG = [0], UNDERLAY = hnew 4096, NEIGHBOR_NAT = hnew 64,
      NEIGHBOR_NAT_COUNT = [0], METER = hnew 1024, DHCP_CONFIG = [zero_dhcp_config],
      DHCP_META = hnew 1024\<rparr>"

section \<open>Route keys\<close>

text \<open>The key of a route: the VNI in network order (\<^verbatim>\<open>to_be_bytes\<close>) in front of the address, so
  that a prefix of an address is a prefix of the key.\<close>

definition u32_be :: "u32 \<Rightarrow> bytes" where
  "u32_be v = [of_nat (unat v div 16777216), of_nat (unat v div 65536), of_nat (unat v div 256), of_nat (unat v)]"

definition route_lookup :: "maps \<Rightarrow> u32 \<Rightarrow> bytes \<Rightarrow> RouteValue option" where
  "route_lookup s vni dst = lpm_get (ROUTES s) (64, u32_be vni @ dst)"

definition route_lookup6 :: "maps \<Rightarrow> u32 \<Rightarrow> bytes \<Rightarrow> RouteValue option" where
  "route_lookup6 s vni dst = lpm_get (ROUTES6 s) (160, u32_be vni @ dst)"

section \<open>Packets handed to XDP\<close>

text \<open>
  An XDP buffer: the bytes of the packet with the headroom in front and the tailroom behind.
  The helper \<^verbatim>\<open>bpf_xdp_adjust_head\<close> moves the start of the packet by a signed number of bytes;
  it fails when the headroom is too short or when fewer than 14 bytes would remain.
  \<^verbatim>\<open>bpf_xdp_adjust_tail\<close> moves its end likewise. What growing exposes is whatever the buffer
  holds there, so no theorem depends on it. \<^verbatim>\<open>bpf_redirect\<close> selects the output interface.
\<close>

record xdp_ctx =
  headroom :: bytes
  pkt :: bytes
  tailroom :: bytes
  ingress_ifindex :: u32

datatype xdp_action = XDP_DROP | XDP_PASS | XDP_REDIRECT u32

text \<open>\<^verbatim>\<open>bpf_xdp_adjust_head(ctx, -n)\<close> and \<^verbatim>\<open>bpf_xdp_adjust_head(ctx, n)\<close>.\<close>

definition adjust_head_grow :: "xdp_ctx \<Rightarrow> nat \<Rightarrow> xdp_ctx option" where
  "adjust_head_grow c n =
     (if n \<le> length (headroom c)
      then Some (c\<lparr>headroom := take (length (headroom c) - n) (headroom c),
                   pkt := drop (length (headroom c) - n) (headroom c) @ pkt c\<rparr>)
      else None)"

definition adjust_head_shrink :: "xdp_ctx \<Rightarrow> nat \<Rightarrow> xdp_ctx option" where
  "adjust_head_shrink c n =
     (if n + 14 \<le> length (pkt c)
      then Some (c\<lparr>headroom := headroom c @ take n (pkt c), pkt := drop n (pkt c)\<rparr>)
      else None)"

text \<open>\<^verbatim>\<open>bpf_xdp_adjust_tail\<close>, by the packet length it leads to.\<close>

definition adjust_tail_to :: "xdp_ctx \<Rightarrow> nat \<Rightarrow> xdp_ctx option" where
  "adjust_tail_to c n =
     (let room = pkt c @ tailroom c
      in if 14 \<le> n \<and> n \<le> length room
         then Some (c\<lparr>pkt := take n room, tailroom := drop n room\<rparr>) else None)"

lemma adjust_head_grow_pkt:
  "adjust_head_grow c n = Some c' \<Longrightarrow> length (pkt c') = length (pkt c) + n \<and> drop n (pkt c') = pkt c"
  by (auto simp: adjust_head_grow_def split: if_splits)

lemma adjust_head_shrink_pkt: "adjust_head_shrink c n = Some c' \<Longrightarrow> pkt c' = drop n (pkt c)"
  by (auto simp: adjust_head_shrink_def split: if_splits)

lemma length_adjust_tail: "adjust_tail_to c n = Some c' \<Longrightarrow> length (pkt c') = n"
  by (auto simp: adjust_tail_to_def Let_def min_def split: if_splits)

end
