(* ===== verification/Parse.thy ===== *)
theory Parse
  imports Types
begin

text \<open>
  Header parsing of \<^verbatim>\<open>xdp-dp-ebpf/src/parse.rs\<close>: the L4 ports of an IPv4 packet, the TCP
  flags, the 5-tuple hash, and \<^verbatim>\<open>ct_key\<close> / \<^verbatim>\<open>invert_key\<close> of \<^verbatim>\<open>conntrack.rs\<close>.
\<close>

abbreviation (input) ETH_LEN :: nat where "ETH_LEN \<equiv> 14"
abbreviation (input) IPV6_LEN :: nat where "IPV6_LEN \<equiv> 40"
abbreviation (input) ETH_P_IP :: u16 where "ETH_P_IP \<equiv> 0x0800"
abbreviation (input) ETH_P_IPV6 :: u16 where "ETH_P_IPV6 \<equiv> 0x86DD"
abbreviation (input) IPPROTO_IPIP :: u8 where "IPPROTO_IPIP \<equiv> 4"
abbreviation (input) IPPROTO_IPV6 :: u8 where "IPPROTO_IPV6 \<equiv> 41"
abbreviation (input) IPPROTO_ICMPV6 :: u8 where "IPPROTO_ICMPV6 \<equiv> 58"
abbreviation (input) IPPROTO_ICMP :: u8 where "IPPROTO_ICMP \<equiv> 1"
abbreviation (input) IPPROTO_TCP :: u8 where "IPPROTO_TCP \<equiv> 6"
abbreviation (input) IPPROTO_UDP :: u8 where "IPPROTO_UDP \<equiv> 17"

section \<open>Definitions\<close>

definition ihl_bytes :: "bytes \<Rightarrow> nat \<Rightarrow> nat" where
  "ihl_bytes p ip_off = unat (rd8 p ip_off AND 0x0f) * 4"

definition l4_ports :: "bytes \<Rightarrow> nat \<Rightarrow> (u8 \<times> u16 \<times> u16) option" where
  "l4_ports p ip_off =
     (if ip_off + 20 > length p then None
      else
        let ihl = ihl_bytes p ip_off; proto = rd8 p (ip_off + 9); l4 = ip_off + ihl
        in if proto = IPPROTO_TCP \<or> proto = IPPROTO_UDP
           then if l4 + 4 > length p then None
                else Some (proto, rd16 p l4, rd16 p (l4 + 2))
           else if proto = IPPROTO_ICMP
           then if l4 + 6 > length p then None
                else Some (proto, rd16 p (l4 + 4), rd16 p (l4 + 4))
           else None)"

definition tcp_flags :: "bytes \<Rightarrow> nat \<Rightarrow> u8 option" where
  "tcp_flags p ip_off =
     (if ip_off + 20 > length p then None
      else if rd8 p (ip_off + 9) \<noteq> IPPROTO_TCP then None
      else if rd8 p ip_off AND 0x0f \<noteq> 5 then None
      else let l4 = ip_off + 20
           in if l4 + 14 > length p then None else Some (rd8 p (l4 + 13)))"

definition hash_mix :: "u32 \<Rightarrow> u8 \<Rightarrow> u32" where
  "hash_mix h b = (h XOR ucast b) * 16777619"

definition hash5 :: "bytes \<Rightarrow> bytes \<Rightarrow> u16 \<Rightarrow> u16 \<Rightarrow> u8 \<Rightarrow> u32" where
  "hash5 src dst sport dport proto =
     (let h = 2166136261;
          h = hash_mix h (src ! 0); h = hash_mix h (src ! 1);
          h = hash_mix h (src ! 2); h = hash_mix h (src ! 3);
          h = hash_mix h (dst ! 0); h = hash_mix h (dst ! 1);
          h = hash_mix h (dst ! 2); h = hash_mix h (dst ! 3);
          h = hash_mix h (lo8 sport); h = hash_mix h (hi8 sport);
          h = hash_mix h (lo8 dport); h = hash_mix h (hi8 dport);
          h = hash_mix h proto
      in h)"

definition ct_key :: "bytes \<Rightarrow> nat \<Rightarrow> u32 \<Rightarrow> CtKey option" where
  "ct_key p ip_off vni =
     (if ip_off + 20 > length p then None
      else
        let src = rdn p (ip_off + 12) 4; dst = rdn p (ip_off + 16) 4
        in case l4_ports p ip_off of
             None \<Rightarrow> None
           | Some (proto, sport, dport) \<Rightarrow>
               Some \<lparr>ck_vni = vni, ck_src_ip = src, ck_dst_ip = dst, ck_src_port = sport,
                     ck_dst_port = dport, ck_proto = proto\<rparr>)"

definition invert_key :: "CtKey \<Rightarrow> CtKey" where
  "invert_key k =
     \<lparr>ck_vni = ck_vni k, ck_src_ip = ck_dst_ip k, ck_dst_ip = ck_src_ip k,
      ck_src_port = ck_dst_port k, ck_dst_port = ck_src_port k, ck_proto = ck_proto k\<rparr>"

section \<open>Facts\<close>

lemma invert_key_invert_key [simp]: "invert_key (invert_key k) = k"
  by (simp add: invert_key_def)

lemma ihl_bytes_5: "rd8 p ip_off AND 0x0f = 5 \<Longrightarrow> ihl_bytes p ip_off = 20"
  by (simp add: ihl_bytes_def)

lemma l4_ports_proto: "l4_ports p off = Some (proto, sp, dp) \<Longrightarrow> proto = rd8 p (off + 9)"
  by (auto simp: l4_ports_def Let_def split: if_splits)

lemma l4_ports_bound: "l4_ports p off = Some x \<Longrightarrow> off + 20 \<le> length p"
  by (auto simp: l4_ports_def split: if_splits)

lemma ct_key_fields:
  "ct_key p off vni = Some k \<Longrightarrow>
     ck_vni k = vni \<and> ck_src_ip k = rdn p (off + 12) 4 \<and> ck_dst_ip k = rdn p (off + 16) 4 \<and>
     l4_ports p off = Some (ck_proto k, ck_src_port k, ck_dst_port k)"
  by (auto simp: ct_key_def Let_def split: if_splits option.splits)

section \<open>A sample packet\<close>

text \<open>A TCP SYN from 10.0.0.1 port 12345 to 10.0.0.2 port 80, both checksums valid.\<close>

definition sample_syn :: bytes where
  "sample_syn = [2, 0, 0, 0, 0, 16, 2, 0, 0, 0, 0, 1, 8, 0,
     69, 0, 0, 40, 0, 1, 0, 0, 64, 6, 102, 205, 10, 0, 0, 1, 10, 0, 0, 2,
     48, 57, 0, 80, 0, 0, 0, 1, 0, 0, 0, 0, 80, 2, 255, 255, 107, 86, 0, 0]"

end
