(* ===== verification/Csum.thy ===== *)
theory Csum
  imports Prelude
begin

text \<open>
  The Internet checksum of \<^verbatim>\<open>xdp-dp-common/src/lib.rs\<close> (module \<^verbatim>\<open>csum\<close>) and
  \<^verbatim>\<open>xdp-dp-ebpf/src/csum.rs\<close>: carry folding, the incremental RFC 1624 update of a checksum
  when a 32- or 16-bit field changes, and the full checksum over a byte range. The facts:
  the folding loop stops and is the canonical ones' complement representative, two unrolled
  rounds compute the same value, and the incremental update keeps the sum of checksum and
  field constant modulo 65535.
\<close>

section \<open>Definitions\<close>

text \<open>\<^verbatim>\<open>while (sum >> 16) != 0 { sum = (sum & 0xffff) + (sum >> 16) }\<close>; the 32-bit addition
  cannot wrap, since both operands are below \<open>2 ^ 16\<close>.\<close>

definition fold_step :: "u32 \<Rightarrow> u32" where
  "fold_step s = (s AND 0xffff) + drop_bit 16 s"

lemma unat_and_ffff: "unat ((s :: u32) AND 0xffff) = unat s mod 65536"
proof -
  have "s AND 0xffff = take_bit 16 s" by (simp add: take_bit_eq_mask mask_eq_exp_minus_1)
  then show ?thesis by (simp add: unsigned_take_bit_eq take_bit_nat_def)
qed

lemma unat_drop16: "unat (drop_bit 16 (s :: u32)) = unat s div 65536"
  using unat_drop_bit [of 16 s] by simp

lemma unat_fold_step: "unat (fold_step s) = unat s mod 65536 + unat s div 65536"
proof -
  have "unat s mod 65536 + unat s div 65536 < 4294967296"
    using unat_lt32 [of s] by linarith
  then show ?thesis
    by (simp add: fold_step_def unat_word_ariths unat_and_ffff unat_drop16)
qed

lemma fold_step_less: "drop_bit 16 s \<noteq> 0 \<Longrightarrow> unat (fold_step s) < unat s"
proof -
  assume "drop_bit 16 s \<noteq> 0"
  then have "0 < unat (drop_bit 16 s)" by (metis unat_gt_0)
  then have "0 < unat s div 65536" by (simp only: unat_drop16)
  then show ?thesis
    unfolding unat_fold_step using div_mult_mod_eq [of "unat s" 65536] by linarith
qed

function fold_csum :: "u32 \<Rightarrow> u16" where
  "fold_csum s = (if drop_bit 16 s \<noteq> 0 then fold_csum (fold_step s) else ucast s)"
  by pat_completeness auto
termination
  by (relation "measure unat") (auto simp: fold_step_less)

declare fold_csum.simps [simp del]

definition csum_replace4 :: "u16 \<Rightarrow> bytes \<Rightarrow> bytes \<Rightarrow> u16" where
  "csum_replace4 check old new =
     (let sum = ucast (NOT check) :: u32;
          sum = sum + ucast (NOT (be16 (old ! 0) (old ! 1)));
          sum = sum + ucast (NOT (be16 (old ! 2) (old ! 3)));
          sum = sum + ucast (be16 (new ! 0) (new ! 1));
          sum = sum + ucast (be16 (new ! 2) (new ! 3))
      in NOT (fold_csum sum))"

definition csum_replace2 :: "u16 \<Rightarrow> u16 \<Rightarrow> u16 \<Rightarrow> u16" where
  "csum_replace2 check old new =
     csum_replace4 check [hi8 old, lo8 old, 0, 0] [hi8 new, lo8 new, 0, 0]"

text \<open>The two-round fold of \<^verbatim>\<open>csum16\<close> and of the datapath's other full checksums.\<close>

definition fold2 :: "u32 \<Rightarrow> u16" where
  "fold2 s = ucast (fold_step (fold_step s))"

fun csum16_loop :: "u32 \<Rightarrow> bytes \<Rightarrow> u32" where
  "csum16_loop s (a # b # bs) = csum16_loop (s + ucast (be16 a b)) bs"
| "csum16_loop s [a] = s + push_bit 8 (ucast a)"
| "csum16_loop s [] = s"

definition csum16 :: "u32 \<Rightarrow> bytes \<Rightarrow> u16" where
  "csum16 s bs = NOT (fold2 (csum16_loop s bs))"

section \<open>Ones' complement arithmetic\<close>

text \<open>The canonical 16-bit ones' complement representative: 0 only for the empty sum.\<close>

definition oc_norm :: "nat \<Rightarrow> nat" where
  "oc_norm n = (if n = 0 then 0 else if n mod 65535 = 0 then 65535 else n mod 65535)"

lemma oc_norm_le: "oc_norm n \<le> 65535"
  using mod_less_divisor [of 65535 n] by (simp add: oc_norm_def)

lemma oc_norm_cong: "oc_norm n mod 65535 = n mod 65535"
  by (simp add: oc_norm_def)

lemma oc_norm_0 [simp]: "oc_norm n = 0 \<longleftrightarrow> n = 0"
  by (simp add: oc_norm_def)

lemma oc_norm_small: "n < 65536 \<Longrightarrow> oc_norm n = n"
proof (cases "n = 65535")
  case False
  assume "n < 65536"
  with False have "n < 65535" by simp
  then show ?thesis by (simp add: oc_norm_def)
qed (simp add: oc_norm_def)

lemma split_mod_65535: "(n mod 65536 + n div 65536) mod 65535 = n mod (65535 :: nat)"
proof -
  have "n = n div 65536 * 65536 + n mod 65536" by simp
  then have "n = n div 65536 * 65535 + (n mod 65536 + n div 65536)" by linarith
  then show ?thesis by (metis mod_mult_self3)
qed

lemma oc_norm_fold_step: "oc_norm (unat (fold_step s)) = oc_norm (unat s)"
proof -
  have "unat (fold_step s) = 0 \<longleftrightarrow> unat s = 0"
    unfolding unat_fold_step using div_mult_mod_eq [of "unat s" 65536] by linarith
  then show ?thesis by (simp add: oc_norm_def unat_fold_step split_mod_65535)
qed

lemma unat_fold_csum: "unat (fold_csum s) = oc_norm (unat s)"
proof (induction s rule: fold_csum.induct)
  case (1 s)
  show ?case
  proof (cases "drop_bit 16 s = 0")
    case True
    then have "unat s div 65536 = 0" using unat_drop16 [of s] by simp
    then have small: "unat s < 65536" by linarith
    then have "unat (ucast s :: u16) = unat s" by simp
    with True small show ?thesis
      by (simp add: fold_csum.simps [of s] oc_norm_small)
  next
    case False
    with 1 show ?thesis by (simp add: fold_csum.simps [of s] oc_norm_fold_step)
  qed
qed

lemma fold_round: "n mod 65536 + n div 65536 < 65536" if "n \<le> 131070" for n :: nat
proof (cases "n < 65536")
  case False
  then obtain k where "n = 65536 + k" by (metis le_Suc_ex not_less)
  with that show ?thesis by simp
qed simp

lemma fold2_fold_csum: "fold2 s = fold_csum s"
proof -
  have a: "unat (fold_step s) \<le> 131070"
    unfolding unat_fold_step using unat_lt32 [of s] by linarith
  then have b: "unat (fold_step (fold_step s)) < 65536"
    unfolding unat_fold_step [of "fold_step s"] by (rule fold_round)
  then have "unat (fold2 s) = unat (fold_step (fold_step s))"
    by (simp add: fold2_def)
  also have "\<dots> = oc_norm (unat (fold_step (fold_step s)))"
    using b by (simp add: oc_norm_small)
  also have "\<dots> = unat (fold_csum s)"
    by (simp add: oc_norm_fold_step unat_fold_csum)
  finally show ?thesis by (simp add: word_unat_eq_iff)
qed

section \<open>The incremental update\<close>

text \<open>The 16-bit words of a four byte field.\<close>

definition words4 :: "bytes \<Rightarrow> nat" where
  "words4 bs = unat (be16 (bs ! 0) (bs ! 1)) + unat (be16 (bs ! 2) (bs ! 3))"

definition csum4_acc :: "u16 \<Rightarrow> bytes \<Rightarrow> bytes \<Rightarrow> nat" where
  "csum4_acc c old new =
     (65535 - unat c) + (65535 - unat (be16 (old ! 0) (old ! 1)))
       + (65535 - unat (be16 (old ! 2) (old ! 3))) + words4 new"

lemma unat_csum_replace4: "unat (csum_replace4 c old new) = 65535 - oc_norm (csum4_acc c old new)"
proof -
  let ?s = "ucast (NOT c) + ucast (NOT (be16 (old ! 0) (old ! 1)))
      + ucast (NOT (be16 (old ! 2) (old ! 3))) + ucast (be16 (new ! 0) (new ! 1))
      + ucast (be16 (new ! 2) (new ! 3)) :: u32"
  have "csum4_acc c old new < 4294967296"
    unfolding csum4_acc_def words4_def
    using unat_le16 [of "be16 (new ! 0) (new ! 1)"] unat_le16 [of "be16 (new ! 2) (new ! 3)"]
    by linarith
  then have "unat ?s = csum4_acc c old new"
    unfolding csum4_acc_def words4_def
    by (simp add: unat_add_small unat_not16 del: unat_be16)
  then show ?thesis
    by (simp add: csum_replace4_def Let_def unat_not16 unat_fold_csum)
qed

lemma csum_replace4_cong:
  "(unat (csum_replace4 c old new) + words4 new) mod 65535 = (unat c + words4 old) mod 65535"
proof -
  let ?n = "csum4_acc c old new" and ?o = "words4 old"
  have c: "unat c \<le> 65535" by simp
  have w: "unat (be16 (old ! 0) (old ! 1)) \<le> 65535" "unat (be16 (old ! 2) (old ! 3)) \<le> 65535"
    by (rule unat_le16)+
  have n: "?n + unat c + ?o = 3 * 65535 + words4 new"
    using c w unfolding csum4_acc_def words4_def by linarith
  have "(65535 - oc_norm ?n + ?n) mod 65535 = (65535 - oc_norm ?n + oc_norm ?n) mod 65535"
    by (rule mod_add_cong) (simp_all add: oc_norm_cong)
  then have z: "(65535 - oc_norm ?n + ?n) mod 65535 = 0"
    using oc_norm_le [of ?n] by simp
  have "65535 - oc_norm ?n + words4 new + 65535 * 3 = (65535 - oc_norm ?n + ?n) + (unat c + ?o)"
    using n by linarith
  then have "(65535 - oc_norm ?n + words4 new + 65535 * 3) mod 65535 = (0 + (unat c + ?o)) mod 65535"
    using z by (metis mod_add_left_eq)
  then show ?thesis unfolding mod_mult_self2 by (simp add: unat_csum_replace4)
qed

lemma words4_2 [simp]: "words4 [hi8 w, lo8 w, 0, 0] = unat w"
  by (simp add: words4_def)

lemma csum_replace2_cong:
  "(unat (csum_replace2 c old new) + unat new) mod 65535 = (unat c + unat old) mod 65535"
  using csum_replace4_cong [of c "[hi8 old, lo8 old, 0, 0]" "[hi8 new, lo8 new, 0, 0]"]
  by (simp add: csum_replace2_def)

section \<open>Sums of the words of a packet\<close>

text \<open>
  \<open>wsum p off n\<close> adds the \<open>n\<close> big-endian 16-bit words from \<open>off\<close> on, with zero past the end
  of the packet, as the checksum of a header or of a segment of odd length does.
\<close>

definition wsum :: "bytes \<Rightarrow> nat \<Rightarrow> nat \<Rightarrow> nat" where
  "wsum p off n = (\<Sum>k < n. unat (rd16 p (off + 2 * k)))"

definition csum_ok :: "nat \<Rightarrow> bool" where
  "csum_ok n = (n \<noteq> 0 \<and> n mod 65535 = 0)"

lemma csum_ok_fold: "csum_ok (unat s) \<longleftrightarrow> fold_csum s = 0xffff"
proof -
  have "fold_csum s = 0xffff \<longleftrightarrow> oc_norm (unat s) = 65535"
    by (simp add: word_unat_eq_iff unat_fold_csum)
  also have "\<dots> \<longleftrightarrow> csum_ok (unat s)"
    using mod_less_divisor [of 65535 "unat s"] by (auto simp: oc_norm_def csum_ok_def)
  finally show ?thesis by simp
qed

lemma wsum_cong:
  "(\<And>k. k < n \<Longrightarrow> rd16 p (off + 2 * k) = rd16 q (off + 2 * k)) \<Longrightarrow> wsum p off n = wsum q off n"
  by (simp add: wsum_def)

lemma wsum_wr16_out [pkt]:
  "i + 1 < off \<or> off + 2 * n \<le> i \<Longrightarrow> wsum (wr16 p i w) off n = wsum p off n"
  by (rule wsum_cong) (auto intro!: rd16_wr16_other)

lemma wsum_wrn_out [pkt]:
  "i + length bs \<le> off \<or> off + 2 * n \<le> i \<Longrightarrow> wsum (wrn p i bs) off n = wsum p off n"
  by (rule wsum_cong) (auto intro!: rd16_wrn_other)

lemma wsum_wr16_in:
  assumes "j < n" and "off + 2 * j + 1 < length p"
  shows "wsum (wr16 p (off + 2 * j) w) off n + unat (rd16 p (off + 2 * j)) = wsum p off n + unat w"
proof -
  let ?q = "wr16 p (off + 2 * j) w"
  have split: "wsum r off n = (\<Sum>k \<in> {..<n} - {j}. unat (rd16 r (off + 2 * k))) + unat (rd16 r (off + 2 * j))" for r
    unfolding wsum_def using assms(1) by (simp add: sum.remove [of "{..<n}" j])
  have "rd16 ?q (off + 2 * k) = rd16 p (off + 2 * k)" if "k \<noteq> j" for k
    using that by (intro rd16_wr16_other) linarith
  then have "(\<Sum>k \<in> {..<n} - {j}. unat (rd16 ?q (off + 2 * k))) = (\<Sum>k \<in> {..<n} - {j}. unat (rd16 p (off + 2 * k)))"
    by (intro sum.cong) auto
  moreover have "rd16 ?q (off + 2 * j) = w" using assms(2) by (rule rd16_wr16_same)
  ultimately show ?thesis unfolding split [of ?q] split [of p] by simp
qed

lemma wrn_4: "wrn p i [a, b, c, d] = wr16 (wr16 p i (be16 a b)) (i + 2) (be16 c d)"
  by (simp add: wr16_def)

lemma length_4E: "length xs = 4 \<Longrightarrow> \<exists>a b c d. xs = [a, b, c, d]"
  by (auto simp: length_Suc_conv numeral_eq_Suc)

lemma words4_rdn: "words4 (rdn p i 4) = unat (rd16 p i) + unat (rd16 p (i + 2))"
  by (simp add: words4_def rd16_def rdn_4 add.assoc [symmetric] numeral_eq_Suc)

lemma words4_Cons: "words4 [a, b, c, d] = unat (be16 a b) + unat (be16 c d)"
  by (simp add: words4_def)

lemma wsum_wrn4_in:
  assumes "length bs = 4" and "j + 1 < n" and "off + 2 * j + 3 < length p"
  shows "wsum (wrn p (off + 2 * j) bs) off n + words4 (rdn p (off + 2 * j) 4) = wsum p off n + words4 bs"
proof -
  obtain a b c d where bs: "bs = [a, b, c, d]" using length_4E [OF assms(1)] by blast
  let ?i = "off + 2 * j" and ?q = "wr16 p (off + 2 * j) (be16 a b)"
  have 1: "wsum ?q off n + unat (rd16 p ?i) = wsum p off n + unat (be16 a b)"
    using assms by (intro wsum_wr16_in) auto
  have e: "off + 2 * Suc j = ?i + 2" by simp
  have 2: "wsum (wr16 ?q (?i + 2) (be16 c d)) off n + unat (rd16 ?q (?i + 2)) = wsum ?q off n + unat (be16 c d)"
    using wsum_wr16_in [of "Suc j" n off ?q] assms unfolding e by simp
  have 3: "rd16 ?q (?i + 2) = rd16 p (?i + 2)" by (intro rd16_wr16_other) simp
  show ?thesis
    using 1 2 unfolding bs wrn_4 words4_rdn words4_Cons 3 by linarith
qed

lemma mod_add_cancel:
  assumes "(a + x) mod m = (b + x) mod (m :: nat)" and "0 < m"
  shows "a mod m = b mod m"
proof -
  have e: "c + x + (m - 1) * x = c + m * x" for c
    using assms(2) by (cases m) auto
  have "(a + x + (m - 1) * x) mod m = (b + x + (m - 1) * x) mod m"
    using assms(1) by (metis mod_add_left_eq)
  then show ?thesis unfolding e by simp
qed

text \<open>Rewriting one address of an IPv4 header together with its checksum keeps the header's
  sum modulo 65535.\<close>

definition ip_rewrite :: "bytes \<Rightarrow> nat \<Rightarrow> nat \<Rightarrow> bytes \<Rightarrow> bytes" where
  "ip_rewrite p off a new =
     wr16 (wrn p (off + a) new) (off + 10)
       (csum_replace4 (rd16 p (off + 10)) (rdn p (off + a) 4) new)"

lemma length_ip_rewrite [simp, pkt_len]: "length (ip_rewrite p off a new) = length p"
  by (simp add: ip_rewrite_def)

lemma ip_rewrite_sum:
  assumes len: "length new = 4" "off + 20 \<le> length p" and a: "a = 12 \<or> a = 16" and n: "10 \<le> n"
  shows "wsum (ip_rewrite p off a new) off n mod 65535 = wsum p off n mod 65535"
proof -
  let ?old = "rdn p (off + a) 4" and ?c = "rd16 p (off + 10)"
  let ?c' = "csum_replace4 ?c ?old new" and ?p1 = "wrn p (off + a) new"
  obtain j where j: "a = 2 * j" "j = 6 \<or> j = 8" using a by auto
  have 1: "wsum ?p1 off n + words4 ?old = wsum p off n + words4 new"
    unfolding j(1) using len n j(2) by (intro wsum_wrn4_in) auto
  have r: "rd16 ?p1 (off + 10) = ?c" using a by (intro rd16_wrn_other) auto
  have 2: "wsum (ip_rewrite p off a new) off n + unat ?c = wsum ?p1 off n + unat ?c'"
    using wsum_wr16_in [of 5 n off ?p1 ?c'] len n r by (simp add: ip_rewrite_def)
  have 3: "(unat ?c' + words4 new) mod 65535 = (unat ?c + words4 ?old) mod 65535"
    by (rule csum_replace4_cong)
  have "wsum (ip_rewrite p off a new) off n + (unat ?c + words4 ?old) = wsum p off n + (unat ?c' + words4 new)"
    using 1 2 by linarith
  then have "(wsum (ip_rewrite p off a new) off n + (unat ?c + words4 ?old)) mod 65535
      = (wsum p off n + (unat ?c + words4 ?old)) mod 65535"
    using mod_add_cong [OF refl 3] by simp
  then show ?thesis by (rule mod_add_cancel) simp
qed

section \<open>Transport checksums\<close>

text \<open>
  The part of a TCP or UDP checksum's sum that a translation can change: the two addresses of
  the pseudo header and the \<open>n\<close> words of the segment at \<open>l4\<close>. (The pseudo header's protocol
  and length are not written by any translation.)
\<close>

definition addr_sum :: "bytes \<Rightarrow> nat \<Rightarrow> nat" where
  "addr_sum p off = words4 (rdn p (off + 12) 4) + words4 (rdn p (off + 16) 4)"

definition l4_sum :: "bytes \<Rightarrow> nat \<Rightarrow> nat \<Rightarrow> nat \<Rightarrow> nat" where
  "l4_sum p off l4 n = addr_sum p off + wsum p l4 n"

lemma addr_sum_wr16 [pkt]: "off + 20 \<le> i \<Longrightarrow> addr_sum (wr16 p i w) off = addr_sum p off"
  by (simp add: addr_sum_def rdn_wr16_other)

lemma addr_sum_ip_rewrite:
  assumes "length new = 4" "off + 20 \<le> length p" "a = 12 \<or> a = 16"
  shows "addr_sum (ip_rewrite p off a new) off + words4 (rdn p (off + a) 4) = addr_sum p off + words4 new"
  using assms by (auto simp: addr_sum_def ip_rewrite_def rdn_wr16_other rdn_wrn_same rdn_wrn_other)

lemma wsum_ip_rewrite [pkt]:
  "off + 20 \<le> l4 \<Longrightarrow> length new = 4 \<Longrightarrow> a = 12 \<or> a = 16 \<Longrightarrow>
     wsum (ip_rewrite p off a new) l4 n = wsum p l4 n"
  by (auto simp: ip_rewrite_def wsum_wr16_out wsum_wrn_out)

lemma rd16_ip_rewrite [pkt]:
  "off + 20 \<le> i \<Longrightarrow> length new = 4 \<Longrightarrow> a = 12 \<or> a = 16 \<Longrightarrow>
     rd16 (ip_rewrite p off a new) i = rd16 p i"
  by (auto simp: ip_rewrite_def rd16_wr16_other rd16_wrn_other)

text \<open>Writing a new checksum, and possibly a new port, into the segment.\<close>

definition l4_rewrite :: "bytes \<Rightarrow> nat \<Rightarrow> nat \<Rightarrow> nat \<Rightarrow> u16 \<Rightarrow> u16 \<Rightarrow> bytes" where
  "l4_rewrite p l4 jc jp c w = wr16 (wr16 p (l4 + 2 * jc) c) (l4 + 2 * jp) w"

lemma wsum_l4_rewrite:
  assumes "jc \<noteq> jp" "jc < n" "jp < n" "l4 + 2 * jc + 1 < length p" "l4 + 2 * jp + 1 < length p"
  shows "wsum (l4_rewrite p l4 jc jp c w) l4 n + (unat (rd16 p (l4 + 2 * jc)) + unat (rd16 p (l4 + 2 * jp)))
    = wsum p l4 n + (unat c + unat w)"
proof -
  let ?q = "wr16 p (l4 + 2 * jc) c"
  have "rd16 ?q (l4 + 2 * jp) = rd16 p (l4 + 2 * jp)"
    using assms(1) by (intro rd16_wr16_other) linarith
  then have "wsum (l4_rewrite p l4 jc jp c w) l4 n + unat (rd16 p (l4 + 2 * jp)) = wsum ?q l4 n + unat w"
    using wsum_wr16_in [of jp n l4 ?q w] assms by (simp add: l4_rewrite_def)
  moreover have "wsum ?q l4 n + unat (rd16 p (l4 + 2 * jc)) = wsum p l4 n + unat c"
    using assms by (intro wsum_wr16_in) auto
  ultimately show ?thesis by linarith
qed

text \<open>The two kinds of transport update: an address change alone, and an address and port
  change, both with the checksum at word \<open>jc\<close> updated incrementally.\<close>

lemma l4_sum_addr:
  assumes len: "length new = 4" "off + 20 \<le> l4" "l4 + 2 * jc + 1 < length p"
    and a: "a = 12 \<or> a = 16" and n: "jc < n"
  shows "l4_sum (wr16 (ip_rewrite p off a new) (l4 + 2 * jc)
           (csum_replace4 (rd16 p (l4 + 2 * jc)) (rdn p (off + a) 4) new)) off l4 n mod 65535
    = l4_sum p off l4 n mod 65535"
proof -
  let ?old = "rdn p (off + a) 4" and ?c = "rd16 p (l4 + 2 * jc)" and ?p1 = "ip_rewrite p off a new"
  let ?c' = "csum_replace4 ?c ?old new"
  let ?q = "wr16 ?p1 (l4 + 2 * jc) ?c'"
  have A: "addr_sum ?q off + words4 ?old = addr_sum p off + words4 new"
    using addr_sum_ip_rewrite [of new off p a] len a by (simp add: addr_sum_wr16)
  have W: "wsum ?q l4 n + unat ?c = wsum p l4 n + unat ?c'"
    using wsum_wr16_in [of jc n l4 ?p1 ?c'] len a n by (simp add: rd16_ip_rewrite wsum_ip_rewrite)
  have "l4_sum ?q off l4 n + (unat ?c + words4 ?old) = l4_sum p off l4 n + (unat ?c' + words4 new)"
    using A W by (simp add: l4_sum_def)
  then have "(l4_sum ?q off l4 n + (unat ?c + words4 ?old)) mod 65535
      = (l4_sum p off l4 n + (unat ?c + words4 ?old)) mod 65535"
    using mod_add_cong [OF refl csum_replace4_cong [of ?c ?old new]] by simp
  then show ?thesis by (rule mod_add_cancel) simp
qed

lemma l4_sum_addr_port:
  assumes len: "length new = 4" "off + 20 \<le> l4" "l4 + 2 * jc + 1 < length p" "l4 + 2 * jp + 1 < length p"
    and a: "a = 12 \<or> a = 16" and n: "jc < n" "jp < n" "jc \<noteq> jp"
  shows "l4_sum (l4_rewrite (ip_rewrite p off a new) l4 jc jp
           (csum_replace2 (csum_replace4 (rd16 p (l4 + 2 * jc)) (rdn p (off + a) 4) new)
              (rd16 p (l4 + 2 * jp)) w) w) off l4 n mod 65535
    = l4_sum p off l4 n mod 65535"
proof -
  let ?old = "rdn p (off + a) 4" and ?c = "rd16 p (l4 + 2 * jc)" and ?o = "rd16 p (l4 + 2 * jp)"
  let ?p1 = "ip_rewrite p off a new" and ?c1 = "csum_replace4 ?c ?old new"
  let ?c2 = "csum_replace2 ?c1 ?o w"
  let ?q = "l4_rewrite ?p1 l4 jc jp ?c2 w"
  have A: "addr_sum ?q off + words4 ?old = addr_sum p off + words4 new"
    using addr_sum_ip_rewrite [of new off p a] len a by (simp add: addr_sum_wr16 l4_rewrite_def)
  have W: "wsum ?q l4 n + (unat ?c + unat ?o) = wsum p l4 n + (unat ?c2 + unat w)"
    using wsum_l4_rewrite [of jc jp n l4 ?p1 ?c2 w] len a n
    by (simp add: rd16_ip_rewrite wsum_ip_rewrite)
  have C: "(unat ?c2 + unat w + words4 new) mod 65535 = (unat ?c + unat ?o + words4 ?old) mod 65535"
    using mod_add_cong [OF csum_replace2_cong [of ?c1 ?o w] refl, of "words4 new"]
      mod_add_cong [OF csum_replace4_cong [of ?c ?old new] refl, of "unat ?o"]
    by (simp add: ac_simps)
  have "l4_sum ?q off l4 n + (unat ?c + unat ?o + words4 ?old)
      = l4_sum p off l4 n + (unat ?c2 + unat w + words4 new)"
    using A W by (simp add: l4_sum_def)
  then have "(l4_sum ?q off l4 n + (unat ?c + unat ?o + words4 ?old)) mod 65535
      = (l4_sum p off l4 n + (unat ?c + unat ?o + words4 ?old)) mod 65535"
    using mod_add_cong [OF refl C] by simp
  then show ?thesis by (rule mod_add_cancel) simp
qed

lemma l4_sum_port:
  assumes len: "l4 + 2 * jc + 1 < length p" "l4 + 2 * jp + 1 < length p"
    and n: "jc < n" "jp < n" "jc \<noteq> jp"
  shows "wsum (l4_rewrite p l4 jc jp (csum_replace2 (rd16 p (l4 + 2 * jc)) (rd16 p (l4 + 2 * jp)) w) w) l4 n
           mod 65535 = wsum p l4 n mod 65535"
proof -
  let ?c = "rd16 p (l4 + 2 * jc)" and ?o = "rd16 p (l4 + 2 * jp)"
  let ?c2 = "csum_replace2 ?c ?o w"
  let ?q = "l4_rewrite p l4 jc jp ?c2 w"
  have "wsum ?q l4 n + (unat ?c + unat ?o) = wsum p l4 n + (unat ?c2 + unat w)"
    using wsum_l4_rewrite [of jc jp n l4 p ?c2 w] len n by simp
  then have "(wsum ?q l4 n + (unat ?c + unat ?o)) mod 65535 = (wsum p l4 n + (unat ?c + unat ?o)) mod 65535"
    using mod_add_cong [OF refl csum_replace2_cong [of ?c ?o w]] by simp
  then show ?thesis by (rule mod_add_cancel) simp
qed

section \<open>Full checksums\<close>

fun bsum :: "bytes \<Rightarrow> nat" where
  "bsum (a # b # bs) = unat (be16 a b) + bsum bs"
| "bsum [a] = unat a * 256"
| "bsum [] = 0"

lemma unat_push8: "unat (push_bit 8 (ucast (a :: u8) :: u32)) = unat a * 256"
proof -
  have "unat a * 256 < 4294967296" using unat_lt8 [of a] by linarith
  then show ?thesis
    by (simp add: push_bit_eq_mult unat_word_ariths)
qed

lemma unat_csum16_loop:
  "unat s + bsum bs < 2 ^ 32 \<Longrightarrow> unat (csum16_loop s bs) = unat s + bsum bs"
proof (induction s bs rule: csum16_loop.induct)
  case (1 s a b bs)
  have e: "unat (s + ucast (be16 a b)) = unat s + unat (be16 a b)"
    using 1(2) by (subst unat_add_small) simp_all
  then show ?case using 1 by simp
next
  case (2 s a)
  then show ?case by (simp add: unat_push8 unat_add_small)
qed simp

lemma bsum_rdn: "bsum (rdn p off (2 * n)) = wsum p off n"
proof (induction n arbitrary: off)
  case 0
  then show ?case by (simp add: rdn_def wsum_def)
next
  case (Suc n)
  have r: "rdn p off (2 * Suc n) = rd8 p off # rd8 p (off + 1) # rdn p (off + 2) (2 * n)"
    by (rule nth_equalityI) (auto simp: nth_Cons' add.commute less_Suc_eq_0_disj split: nat.splits)
  have w: "wsum p off (Suc n) = unat (rd16 p off) + wsum p (off + 2) n"
    unfolding wsum_def by (simp add: sum.lessThan_Suc_shift add.assoc del: sum.lessThan_Suc)
  show ?case unfolding r w using Suc by (simp add: rd16_def)
qed

text \<open>The checksum that makes the whole sum valid.\<close>

lemma csum16_valid:
  assumes "unat s + bsum bs < 2 ^ 32"
  shows "csum_ok (unat s + bsum bs + unat (csum16 s bs))"
proof -
  let ?n = "unat s + bsum bs"
  have c: "unat (csum16 s bs) = 65535 - oc_norm ?n"
    using assms by (simp add: csum16_def unat_not16 fold2_fold_csum unat_fold_csum unat_csum16_loop)
  have "(?n + (65535 - oc_norm ?n)) mod 65535 = (oc_norm ?n + (65535 - oc_norm ?n)) mod 65535"
    by (rule mod_add_cong) (simp_all add: oc_norm_cong)
  then have z: "(?n + (65535 - oc_norm ?n)) mod 65535 = 0"
    using oc_norm_le [of ?n] by simp
  have "?n + (65535 - oc_norm ?n) \<noteq> 0" by (cases "?n = 0") (auto simp: oc_norm_def)
  with z show ?thesis unfolding c csum_ok_def by simp
qed

section \<open>Evaluating sums on concrete packets\<close>

lemma wsum_numeral:
  "wsum p off (numeral n) = wsum p off (pred_numeral n) + unat (rd16 p (off + 2 * pred_numeral n))"
  by (simp add: wsum_def numeral_eq_Suc)

lemma wsum_small: "wsum p off 0 = 0" "wsum p off (Suc n) = wsum p off n + unat (rd16 p (off + 2 * n))"
  by (simp_all add: wsum_def)

lemmas packet_eval = wsum_numeral wsum_small csum_ok_def l4_sum_def addr_sum_def words4_def rdn_4
  rd16_def rd8_def be16_def

end
