(* ===== verification/Conntrack.thy ===== *)
theory Conntrack
  imports Parse Csum
begin

text \<open>
  Connection tracking of \<^verbatim>\<open>xdp-dp-ebpf/src/conntrack.rs\<close> and the aging sweep of
  \<^verbatim>\<open>xdp-dp/src/conntrack_gc.rs\<close>: applying a translation to a packet, advancing the TCP state,
  refreshing and creating entries, evicting idle ones. The clock \<^verbatim>\<open>bpf_ktime_get_ns\<close> is an
  argument \<open>now\<close>.
\<close>

section \<open>Applying a translation\<close>

definition ct_apply :: "bytes \<Rightarrow> nat \<Rightarrow> CtEntry \<Rightarrow> bytes" where
  "ct_apply p ip_off e =
     (if ce_flags e AND (CT_REWRITE_SRC OR CT_REWRITE_DST) = 0 then p
      else if ip_off + 20 > length p then p
      else if rd8 p ip_off AND 0x0f \<noteq> 5 then p
      else
        let l4 = ip_off + 20;
            proto = rd8 p (ip_off + 9);
            rewrite_src = (ce_flags e AND CT_REWRITE_SRC \<noteq> 0);
            addr_off = ip_off + (if rewrite_src then 12 else 16);
            old_addr = rdn p addr_off 4;
            new_addr = ce_xlate_ip e;
            old_ip_csum = rd16 p (ip_off + 10);
            tcp_ok = (proto = 6 \<and> l4 + 18 \<le> length p);
            udp_ok = (proto = 17 \<and> l4 + 8 \<le> length p);
            icmp_ok = (proto = 1 \<and> l4 + 8 \<le> length p);
            tcp_csum = (if tcp_ok then rd16 p (l4 + 16) else 0);
            udp_csum = (if udp_ok then rd16 p (l4 + 6) else 0);
            icmp_csum = (if icmp_ok then rd16 p (l4 + 2) else 0);
            icmp_id = (if icmp_ok then rd16 p (l4 + 4) else 0);
            port_off = (if rewrite_src then l4 else l4 + 2);
            xport = ce_xlate_port e;
            old_port = (if (tcp_ok \<or> udp_ok) \<and> xport \<noteq> 0 then rd16 p port_off else 0);
            new_ip_csum = csum_replace4 old_ip_csum old_addr new_addr;
            new_tcp_csum =
              (if tcp_ok
               then let c1 = csum_replace4 tcp_csum old_addr new_addr
                    in if xport \<noteq> 0 then csum_replace2 c1 old_port xport else c1
               else 0);
            new_udp_csum =
              (if udp_ok \<and> udp_csum \<noteq> 0
               then let c1 = csum_replace4 udp_csum old_addr new_addr
                    in if xport \<noteq> 0 then csum_replace2 c1 old_port xport else c1
               else 0);
            new_icmp_csum =
              (if icmp_ok \<and> xport \<noteq> 0 then csum_replace2 icmp_csum icmp_id xport else 0);
            p = wrn p addr_off new_addr;
            p = wr16 p (ip_off + 10) new_ip_csum
        in if tcp_ok
           then let p = wr16 p (l4 + 16) new_tcp_csum
                in if xport \<noteq> 0 then wr16 p port_off xport else p
           else if udp_ok
           then let p = (if udp_csum \<noteq> 0 then wr16 p (l4 + 6) new_udp_csum else p)
                in if xport \<noteq> 0 then wr16 p port_off xport else p
           else if icmp_ok \<and> xport \<noteq> 0
           then wr16 (wr16 p (l4 + 2) new_icmp_csum) (l4 + 4) xport
           else p)"

section \<open>TCP state and entry maintenance\<close>

definition tcp_advance :: "u8 \<Rightarrow> u8 \<Rightarrow> u8" where
  "tcp_advance state flags =
     (if flags AND 0x04 \<noteq> 0 then TCP_RST_FIN
      else if flags AND 0x01 \<noteq> 0 then TCP_FINWAIT
      else if flags AND 0x02 \<noteq> 0
      then (if flags AND 0x10 \<noteq> 0 then TCP_NEW_SYNACK else TCP_NEW_SYN)
      else if flags AND 0x10 \<noteq> 0 \<and>
              (state = TCP_NEW_SYNACK \<or> state = TCP_NEW_SYN \<or> state = TCP_ESTABLISHED)
      then TCP_ESTABLISHED
      else state)"

definition ct_touch :: "u64 \<Rightarrow> bytes \<Rightarrow> nat \<Rightarrow> CtKey \<Rightarrow> CtEntry \<Rightarrow> maps \<Rightarrow> maps" where
  "ct_touch now p ip_off key e s =
     (let e = e\<lparr>ce_last_seen := now\<rparr>;
          e = (case tcp_flags p ip_off of
                 Some fl \<Rightarrow> e\<lparr>ce_tcp_state := tcp_advance (ce_tcp_state e) fl\<rparr>
               | None \<Rightarrow> e)
      in s\<lparr>CONNTRACK := (CONNTRACK s)(key \<mapsto> e)\<rparr>)"

definition default_entry :: "u64 \<Rightarrow> bytes \<Rightarrow> nat \<Rightarrow> CtEntry" where
  "default_entry now p ip_off =
     \<lparr>ce_last_seen = now, ce_xlate_ip = [0, 0, 0, 0], ce_xlate_port = 0, ce_flags = CT_F_DEFAULT,
      ce_tcp_state = (case tcp_flags p ip_off of Some fl \<Rightarrow> tcp_advance 0 fl | None \<Rightarrow> 0),
      ce_fwall_action = 0\<rparr>"

definition ct_ensure_default :: "u64 \<Rightarrow> bytes \<Rightarrow> nat \<Rightarrow> CtKey \<Rightarrow> maps \<Rightarrow> maps" where
  "ct_ensure_default now p ip_off key s =
     (let e = default_entry now p ip_off;
          s = s\<lparr>CONNTRACK := (CONNTRACK s)(key \<mapsto> e)\<rparr>;
          rev = invert_key key
      in if CONNTRACK s rev = None then s\<lparr>CONNTRACK := (CONNTRACK s)(rev \<mapsto> e)\<rparr> else s)"

section \<open>Aging\<close>

definition DEFAULT_TIMEOUT_NS :: u64 where
  "DEFAULT_TIMEOUT_NS = 30 * 1000000000"

definition TCP_ESTABLISHED_TIMEOUT_NS :: u64 where
  "TCP_ESTABLISHED_TIMEOUT_NS = 24 * 60 * 60 * 1000000000"

definition timeout_ns :: "CtEntry \<Rightarrow> u64" where
  "timeout_ns e =
     (if ce_tcp_state e = TCP_ESTABLISHED then TCP_ESTABLISHED_TIMEOUT_NS else DEFAULT_TIMEOUT_NS)"

definition saturating_sub :: "'a::len word \<Rightarrow> 'a word \<Rightarrow> 'a word" where
  "saturating_sub a b = (if a < b then 0 else a - b)"

definition stale :: "u64 \<Rightarrow> CtEntry \<Rightarrow> bool" where
  "stale now e = (saturating_sub now (ce_last_seen e) > timeout_ns e)"

text \<open>One sweep: collect the stale keys of a snapshot, then remove them.\<close>

definition gc_sweep :: "u64 \<Rightarrow> (CtKey \<rightharpoonup> CtEntry) \<Rightarrow> (CtKey \<rightharpoonup> CtEntry)" where
  "gc_sweep now ct = (\<lambda>k. case ct k of Some e \<Rightarrow> if stale now e then None else Some e | None \<Rightarrow> None)"

section \<open>The translation, factored\<close>

definition xlates :: "CtEntry \<Rightarrow> bool" where
  "xlates e = (ce_flags e AND (CT_REWRITE_SRC OR CT_REWRITE_DST) \<noteq> 0)"

definition ct_applies :: "bytes \<Rightarrow> nat \<Rightarrow> CtEntry \<Rightarrow> bool" where
  "ct_applies p off e = (xlates e \<and> off + 20 \<le> length p \<and> rd8 p off AND 0x0f = 5)"

definition xlate_src :: "CtEntry \<Rightarrow> bool" where
  "xlate_src e = (ce_flags e AND CT_REWRITE_SRC \<noteq> 0)"

definition xlate_addr :: "CtEntry \<Rightarrow> nat" where
  "xlate_addr e = (if xlate_src e then 12 else 16)"

definition xlate_word :: "CtEntry \<Rightarrow> nat" where
  "xlate_word e = (if xlate_src e then 0 else 1)"

lemma xlate_addr_cases: "xlate_addr e = 12 \<or> xlate_addr e = 16"
  by (simp add: xlate_addr_def)

lemma ct_apply_noop: "\<not> ct_applies p off e \<Longrightarrow> ct_apply p off e = p"
  by (auto simp: ct_apply_def ct_applies_def xlates_def)

lemma ct_apply_factored:
  assumes "ct_applies p off e"
  defines "q \<equiv> ip_rewrite p off (xlate_addr e) (ce_xlate_ip e)"
    and "l4 \<equiv> off + 20" and "x \<equiv> ce_xlate_port e" and "proto \<equiv> rd8 p (off + 9)"
    and "old \<equiv> rdn p (off + xlate_addr e) 4" and "jp \<equiv> xlate_word e"
  shows "ct_apply p off e =
    (if proto = 6 \<and> l4 + 18 \<le> length p
     then if x = 0 then wr16 q (l4 + 2 * 8) (csum_replace4 (rd16 p (l4 + 2 * 8)) old (ce_xlate_ip e))
          else l4_rewrite q l4 8 jp
                 (csum_replace2 (csum_replace4 (rd16 p (l4 + 2 * 8)) old (ce_xlate_ip e))
                    (rd16 p (l4 + 2 * jp)) x) x
     else if proto = 17 \<and> l4 + 8 \<le> length p
     then if rd16 p (l4 + 2 * 3) = 0 then (if x = 0 then q else wr16 q (l4 + 2 * jp) x)
          else if x = 0 then wr16 q (l4 + 2 * 3) (csum_replace4 (rd16 p (l4 + 2 * 3)) old (ce_xlate_ip e))
          else l4_rewrite q l4 3 jp
                 (csum_replace2 (csum_replace4 (rd16 p (l4 + 2 * 3)) old (ce_xlate_ip e))
                    (rd16 p (l4 + 2 * jp)) x) x
     else if proto = 1 \<and> l4 + 8 \<le> length p \<and> x \<noteq> 0
     then l4_rewrite q l4 1 2 (csum_replace2 (rd16 p (l4 + 2 * 1)) (rd16 p (l4 + 2 * 2)) x) x
     else q)"
proof -
  have nz: "ce_flags e AND (CT_REWRITE_SRC OR CT_REWRITE_DST) \<noteq> 0" and len: "\<not> length p < off + 20"
    and ihl: "rd8 p off AND 0x0f = 5"
    using assms(1) by (auto simp: ct_applies_def xlates_def)
  show ?thesis
    unfolding ct_apply_def Let_def if_not_P [OF len] if_not_P [OF nz] q_def l4_def x_def proto_def
      old_def jp_def xlate_addr_def xlate_word_def xlate_src_def l4_rewrite_def ip_rewrite_def
    by (simp add: ihl)
qed

lemma length_ct_apply [simp, pkt_len]: "length (ct_apply p off e) = length p"
  by (cases "ct_applies p off e") (simp_all add: ct_apply_noop ct_apply_factored l4_rewrite_def)

end
