(* ===== verification/Conntrack_Props.thy ===== *)
theory Conntrack_Props
  imports Conntrack
begin

text \<open>
  What the conntrack operations guarantee: checksums stay valid under translation, a
  translation changes only the address, port and checksum fields, it is undone byte for byte
  by the translation of the opposite direction, the TCP state moves only along the handshake, and the aging
  sweep removes exactly the idle entries.
\<close>

section \<open>Round trips of the incremental checksum\<close>

lemma csum_replace4_neq_ffff: "c \<noteq> 0xffff \<Longrightarrow> csum_replace4 c old new \<noteq> 0xffff"
proof
  assume c: "c \<noteq> 0xffff" and r: "csum_replace4 c old new = 0xffff"
  from r have "unat (csum_replace4 c old new) = 65535" by simp
  then have "oc_norm (csum4_acc c old new) = 0"
    using oc_norm_le [of "csum4_acc c old new"] unfolding unat_csum_replace4 by linarith
  then have "csum4_acc c old new = 0" by simp
  then have "unat c = 65535" using unat_le16 [of c] unfolding csum4_acc_def by linarith
  with c show False by (simp add: word_unat_eq_iff)
qed

lemma csum_replace2_neq_ffff: "c \<noteq> 0xffff \<Longrightarrow> csum_replace2 c old new \<noteq> 0xffff"
  by (simp add: csum_replace2_def csum_replace4_neq_ffff)

lemma u16_eq_mod_65535:
  fixes a b :: u16
  assumes "unat a mod 65535 = unat b mod 65535" and "a \<noteq> 0xffff" and "b \<noteq> 0xffff"
  shows "a = b"
proof -
  have "unat a \<noteq> 65535" "unat b \<noteq> 65535" using assms(2,3) by (auto simp: word_unat_eq_iff)
  then have "unat a < 65535" "unat b < 65535"
    using unat_le16 [of a] unat_le16 [of b] by linarith+
  with assms(1) show ?thesis by (simp add: word_unat_eq_iff)
qed

lemma csum4_round_trip:
  assumes "c \<noteq> 0xffff"
  shows "csum_replace4 (csum_replace4 c a b) b a = c"
proof (rule u16_eq_mod_65535)
  let ?d = "csum_replace4 c a b"
  have "(unat (csum_replace4 ?d b a) + words4 a) mod 65535 = (unat ?d + words4 b) mod 65535"
    by (rule csum_replace4_cong)
  also have "\<dots> = (unat c + words4 a) mod 65535" by (rule csum_replace4_cong)
  finally show "unat (csum_replace4 ?d b a) mod 65535 = unat c mod 65535"
    by (rule mod_add_cancel) simp
qed (simp_all add: assms csum_replace4_neq_ffff)

lemma csum42_round_trip:
  assumes "c \<noteq> 0xffff"
  shows "csum_replace2 (csum_replace4 (csum_replace2 (csum_replace4 c a b) v w) b a) w v = c"
proof (rule u16_eq_mod_65535)
  let ?d1 = "csum_replace4 c a b"
  let ?d2 = "csum_replace2 ?d1 v w"
  let ?d3 = "csum_replace4 ?d2 b a"
  have 1: "(unat ?d1 + words4 b) mod 65535 = (unat c + words4 a) mod 65535"
    by (rule csum_replace4_cong)
  have 2: "(unat ?d2 + unat w) mod 65535 = (unat ?d1 + unat v) mod 65535"
    by (rule csum_replace2_cong)
  have 3: "(unat ?d3 + words4 a) mod 65535 = (unat ?d2 + words4 b) mod 65535"
    by (rule csum_replace4_cong)
  have 4: "(unat (csum_replace2 ?d3 w v) + unat v) mod 65535 = (unat ?d3 + unat w) mod 65535"
    by (rule csum_replace2_cong)
  have "(unat (csum_replace2 ?d3 w v) + unat v + words4 a) mod 65535
      = (unat ?d3 + words4 a + unat w) mod 65535"
    using mod_add_cong [OF 4 refl, of "words4 a"] by (simp add: ac_simps)
  also have "\<dots> = (unat ?d2 + unat w + words4 b) mod 65535"
    using mod_add_cong [OF 3 refl, of "unat w"] by (simp add: ac_simps)
  also have "\<dots> = (unat ?d1 + words4 b + unat v) mod 65535"
    using mod_add_cong [OF 2 refl, of "words4 b"] by (simp add: ac_simps)
  also have "\<dots> = (unat c + (unat v + words4 a)) mod 65535"
    using mod_add_cong [OF 1 refl, of "unat v"] by (simp add: ac_simps)
  finally have "(unat (csum_replace2 ?d3 w v) + (unat v + words4 a)) mod 65535
      = (unat c + (unat v + words4 a)) mod 65535" by (simp add: ac_simps)
  then show "unat (csum_replace2 ?d3 w v) mod 65535 = unat c mod 65535"
    by (rule mod_add_cancel) simp
qed (simp_all add: assms csum_replace4_neq_ffff csum_replace2_neq_ffff)

section \<open>Checksums under translation\<close>

lemma ct_apply_ip_sum:
  assumes "length (ce_xlate_ip e) = 4"
  shows "wsum (ct_apply p off e) off 10 mod 65535 = wsum p off 10 mod 65535"
proof (cases "ct_applies p off e")
  case True
  let ?q = "ip_rewrite p off (xlate_addr e) (ce_xlate_ip e)"
  have "wsum (ct_apply p off e) off 10 = wsum ?q off 10"
    using True by (simp add: ct_apply_factored l4_rewrite_def wsum_wr16_out)
  moreover have "wsum ?q off 10 mod 65535 = wsum p off 10 mod 65535"
    using True assms xlate_addr_cases by (intro ip_rewrite_sum) (auto simp: ct_applies_def)
  ultimately show ?thesis by simp
qed (simp add: ct_apply_noop)

lemma ct_apply_tcp_sum:
  assumes "length (ce_xlate_ip e) = 4" and "rd8 p (off + 9) = 6" and "off + 38 \<le> length p" and "9 \<le> n"
  shows "l4_sum (ct_apply p off e) off (off + 20) n mod 65535 = l4_sum p off (off + 20) n mod 65535"
proof (cases "ct_applies p off e")
  case True
  have "xlate_word e < n" "xlate_word e \<noteq> 8" "xlate_word e \<le> 1"
    using assms(4) by (auto simp: xlate_word_def)
  then show ?thesis
    using True assms xlate_addr_cases [of e]
      l4_sum_addr [of "ce_xlate_ip e" off "off + 20" 8 p "xlate_addr e" n]
      l4_sum_addr_port [of "ce_xlate_ip e" off "off + 20" 8 p "xlate_word e" "xlate_addr e" n]
    by (simp add: ct_apply_factored)
qed (simp add: ct_apply_noop)

lemma ct_apply_udp_sum:
  assumes "length (ce_xlate_ip e) = 4" and "rd8 p (off + 9) = 17" and "off + 28 \<le> length p" and "4 \<le> n"
    and "rd16 p (off + 26) \<noteq> 0"
  shows "l4_sum (ct_apply p off e) off (off + 20) n mod 65535 = l4_sum p off (off + 20) n mod 65535"
proof (cases "ct_applies p off e")
  case True
  have "xlate_word e < n" "xlate_word e \<noteq> 3" "xlate_word e \<le> 1"
    using assms(4) by (auto simp: xlate_word_def)
  moreover have "rd16 p (off + 20 + 2 * 3) \<noteq> 0" using assms(5) by (simp add: add.commute)
  ultimately show ?thesis
    using True assms(1-4) xlate_addr_cases [of e]
      l4_sum_addr [of "ce_xlate_ip e" off "off + 20" 3 p "xlate_addr e" n]
      l4_sum_addr_port [of "ce_xlate_ip e" off "off + 20" 3 p "xlate_word e" "xlate_addr e" n]
    by (simp add: ct_apply_factored)
qed (simp add: ct_apply_noop)

lemma ct_apply_icmp_sum:
  assumes "length (ce_xlate_ip e) = 4" and "rd8 p (off + 9) = 1" and "off + 28 \<le> length p" and "4 \<le> n"
  shows "wsum (ct_apply p off e) (off + 20) n mod 65535 = wsum p (off + 20) n mod 65535"
proof (cases "ct_applies p off e")
  case True
  let ?q = "ip_rewrite p off (xlate_addr e) (ce_xlate_ip e)"
  have r: "rd16 ?q (off + 20 + 2 * 1) = rd16 p (off + 20 + 2 * 1)"
      "rd16 ?q (off + 20 + 2 * 2) = rd16 p (off + 20 + 2 * 2)" "wsum ?q (off + 20) n = wsum p (off + 20) n"
    using assms(1) xlate_addr_cases [of e] by (auto intro: rd16_ip_rewrite wsum_ip_rewrite)
  show ?thesis
    using True assms l4_sum_port [of "off + 20" 1 ?q 2 n "ce_xlate_port e"]
    unfolding r by (simp add: ct_apply_factored r)
qed (simp add: ct_apply_noop)

section \<open>What a translation writes\<close>

text \<open>The byte offsets a translation may write.\<close>

definition xlate_fields :: "bytes \<Rightarrow> nat \<Rightarrow> CtEntry \<Rightarrow> nat set" where
  "xlate_fields p off e =
     {off + xlate_addr e..<off + xlate_addr e + 4} \<union> {off + 10, off + 11} \<union>
     (if rd8 p (off + 9) = 6
      then {off + 36, off + 37, off + 20 + 2 * xlate_word e, off + 21 + 2 * xlate_word e}
      else if rd8 p (off + 9) = 17
      then {off + 26, off + 27, off + 20 + 2 * xlate_word e, off + 21 + 2 * xlate_word e}
      else if rd8 p (off + 9) = 1 then {off + 22, off + 23, off + 24, off + 25} else {})"

lemma rd8_ip_rewrite:
  "length new = 4 \<Longrightarrow> i \<notin> {off + a..<off + a + 4} \<union> {off + 10, off + 11} \<Longrightarrow>
     rd8 (ip_rewrite p off a new) i = rd8 p i"
  by (auto simp: ip_rewrite_def rd8_wr16 rd8_wrn)

lemma rd8_wr16_other: "i \<noteq> j \<Longrightarrow> i \<noteq> j + 1 \<Longrightarrow> rd8 (wr16 p j w) i = rd8 p i"
  by (simp add: rd8_wr16)

lemma rd8_l4_rewrite_other:
  "i \<noteq> l4 + 2 * jc \<Longrightarrow> i \<noteq> l4 + 2 * jc + 1 \<Longrightarrow> i \<noteq> l4 + 2 * jp \<Longrightarrow> i \<noteq> l4 + 2 * jp + 1 \<Longrightarrow>
     rd8 (l4_rewrite p l4 jc jp c w) i = rd8 p i"
  by (simp add: l4_rewrite_def rd8_wr16_other)

lemma ct_apply_frame:
  assumes len: "length (ce_xlate_ip e) = 4" and i: "i \<notin> xlate_fields p off e"
  shows "rd8 (ct_apply p off e) i = rd8 p i"
proof (cases "ct_applies p off e")
  case True
  let ?q = "ip_rewrite p off (xlate_addr e) (ce_xlate_ip e)" and ?j = "xlate_word e"
  have q: "rd8 ?q i = rd8 p i"
    using assms by (intro rd8_ip_rewrite) (auto simp: xlate_fields_def)
  consider (tcp) "rd8 p (off + 9) = 6" | (udp) "rd8 p (off + 9) = 17" | (icmp) "rd8 p (off + 9) = 1"
    | (other) "rd8 p (off + 9) \<notin> {1, 6, 17}" by auto
  then show ?thesis
  proof cases
    case tcp
    with i have "i \<noteq> off + 20 + 2 * 8" "i \<noteq> off + 20 + 2 * 8 + 1" "i \<noteq> off + 20 + 2 * ?j"
        "i \<noteq> off + 20 + 2 * ?j + 1"
      by (auto simp: xlate_fields_def)
    then show ?thesis
      using True tcp q by (simp add: ct_apply_factored rd8_wr16_other rd8_l4_rewrite_other)
  next
    case udp
    with i have "i \<noteq> off + 20 + 2 * 3" "i \<noteq> off + 20 + 2 * 3 + 1" "i \<noteq> off + 20 + 2 * ?j"
        "i \<noteq> off + 20 + 2 * ?j + 1"
      by (auto simp: xlate_fields_def)
    then show ?thesis
      using True udp q by (simp add: ct_apply_factored rd8_wr16_other rd8_l4_rewrite_other)
  next
    case icmp
    with i have "i \<noteq> off + 20 + 2 * 1" "i \<noteq> off + 20 + 2 * 1 + 1" "i \<noteq> off + 20 + 2 * 2"
        "i \<noteq> off + 20 + 2 * 2 + 1"
      by (auto simp: xlate_fields_def)
    then show ?thesis
      using True icmp q by (simp add: ct_apply_factored rd8_wr16_other rd8_l4_rewrite_other)
  next
    case other
    then show ?thesis using True q by (simp add: ct_apply_factored)
  qed
qed (simp add: ct_apply_noop)

lemma rdn_ip_rewrite:
  assumes "length new = 4" and "off + 20 \<le> length p" and "a = 12 \<or> a = 16"
  shows "rdn (ip_rewrite p off a new) (off + a) 4 = new"
  using assms by (auto simp: ip_rewrite_def rdn_wr16_other rdn_wrn_same)

lemma ct_apply_addr:
  assumes "ct_applies p off e" and "length (ce_xlate_ip e) = 4"
  shows "rdn (ct_apply p off e) (off + xlate_addr e) 4 = ce_xlate_ip e"
proof -
  have "xlate_addr e \<le> 16" by (simp add: xlate_addr_def)
  then show ?thesis
    using assms rdn_ip_rewrite [OF assms(2) _ xlate_addr_cases, of off p e]
    by (auto simp: ct_apply_factored l4_rewrite_def rdn_wr16_other ct_applies_def)
qed

lemma ct_apply_port:
  assumes "ct_applies p off e" and "ce_xlate_port e \<noteq> 0"
    and "rd8 p (off + 9) = 6 \<and> off + 38 \<le> length p \<or> rd8 p (off + 9) = 17 \<and> off + 28 \<le> length p"
  shows "rd16 (ct_apply p off e) (off + 20 + 2 * xlate_word e) = ce_xlate_port e"
proof -
  have "xlate_word e \<le> 1" by (simp add: xlate_word_def)
  then show ?thesis
    using assms by (auto simp: ct_apply_factored l4_rewrite_def rd16_wr16_same)
qed

section \<open>Undoing a translation\<close>

lemma ct_apply_tcp:
  assumes "ct_applies p off e" and "rd8 p (off + 9) = 6" and "off + 38 \<le> length p"
    and "ce_xlate_port e \<noteq> 0"
  shows "ct_apply p off e = l4_rewrite (ip_rewrite p off (xlate_addr e) (ce_xlate_ip e)) (off + 20) 8
    (xlate_word e) (csum_replace2 (csum_replace4 (rd16 p (off + 36)) (rdn p (off + xlate_addr e) 4)
       (ce_xlate_ip e)) (rd16 p (off + 20 + 2 * xlate_word e)) (ce_xlate_port e)) (ce_xlate_port e)"
  using assms by (simp add: ct_apply_factored add.commute)

lemma ct_apply_tcp_csums:
  assumes "ct_applies p off e" and "rd8 p (off + 9) = 6" and "off + 38 \<le> length p"
    and "ce_xlate_port e \<noteq> 0" and "length (ce_xlate_ip e) = 4"
  shows "rd16 (ct_apply p off e) (off + 10) =
           csum_replace4 (rd16 p (off + 10)) (rdn p (off + xlate_addr e) 4) (ce_xlate_ip e)"
    and "rd16 (ct_apply p off e) (off + 36) =
           csum_replace2 (csum_replace4 (rd16 p (off + 36)) (rdn p (off + xlate_addr e) 4) (ce_xlate_ip e))
             (rd16 p (off + 20 + 2 * xlate_word e)) (ce_xlate_port e)"
proof -
  have "xlate_word e \<le> 1" by (simp add: xlate_word_def)
  then show "rd16 (ct_apply p off e) (off + 10) =
      csum_replace4 (rd16 p (off + 10)) (rdn p (off + xlate_addr e) 4) (ce_xlate_ip e)"
    using assms unfolding ct_apply_tcp [OF assms(1-4)]
    by (simp add: l4_rewrite_def ip_rewrite_def rd16_wr16_other rd16_wr16_same)
  have e: "off + 20 + 2 * 8 = off + 36" by simp
  show "rd16 (ct_apply p off e) (off + 36) =
           csum_replace2 (csum_replace4 (rd16 p (off + 36)) (rdn p (off + xlate_addr e) 4) (ce_xlate_ip e))
             (rd16 p (off + 20 + 2 * xlate_word e)) (ce_xlate_port e)"
    using assms \<open>xlate_word e \<le> 1\<close> unfolding ct_apply_tcp [OF assms(1-4)] l4_rewrite_def e
    by (simp add: rd16_wr16_other rd16_wr16_same)
qed

text \<open>The entry that puts back what \<open>e\<close> overwrites in \<open>p\<close>.\<close>

definition undo_entry :: "bytes \<Rightarrow> nat \<Rightarrow> CtEntry \<Rightarrow> CtEntry" where
  "undo_entry p off e = e\<lparr>ce_xlate_ip := rdn p (off + xlate_addr e) 4,
     ce_xlate_port := rd16 p (off + 20 + 2 * xlate_word e)\<rparr>"

lemma undo_entry_simps [simp]:
  "xlate_addr (undo_entry p off e) = xlate_addr e" "xlate_word (undo_entry p off e) = xlate_word e"
  "ce_xlate_ip (undo_entry p off e) = rdn p (off + xlate_addr e) 4"
  "ce_xlate_port (undo_entry p off e) = rd16 p (off + 20 + 2 * xlate_word e)"
  "xlates (undo_entry p off e) = xlates e"
  by (simp_all add: undo_entry_def xlate_addr_def xlate_word_def xlate_src_def xlates_def)

lemma rd16_eqD: "rd16 p i = rd16 q i \<Longrightarrow> rd8 p i = rd8 q i \<and> rd8 p (i + 1) = rd8 q (i + 1)"
  by (simp add: rd16_def)

lemma rdn_eqD: "rdn p i n = rdn q i n \<Longrightarrow> k < n \<Longrightarrow> rd8 p (i + k) = rd8 q (i + k)"
  by (metis rdn_nth)

lemma ct_applies_frame:
  assumes "ct_applies p off e" and "length (ce_xlate_ip e) = 4"
  shows "rd8 (ct_apply p off e) off = rd8 p off" "rd8 (ct_apply p off e) (off + 9) = rd8 p (off + 9)"
  using assms by (auto intro!: ct_apply_frame simp: xlate_fields_def xlate_addr_def split: if_splits)

text \<open>Translating a TCP packet and then putting back the overwritten address and port gives the
  original packet byte for byte, checksums included, provided neither checksum field was the
  non-canonical zero 0xffff.\<close>

lemma ct_apply_undo:
  assumes ap: "ct_applies p off e" and tcp: "rd8 p (off + 9) = 6" and len: "off + 38 \<le> length p"
    and x: "ce_xlate_port e \<noteq> 0" "rd16 p (off + 20 + 2 * xlate_word e) \<noteq> 0"
    and l4: "length (ce_xlate_ip e) = 4"
    and c: "rd16 p (off + 10) \<noteq> 0xffff" "rd16 p (off + 36) \<noteq> 0xffff"
  shows "ct_apply (ct_apply p off e) off (undo_entry p off e) = p"
proof (rule bytes_eqI)
  let ?q = "ct_apply p off e" and ?u = "undo_entry p off e" and ?a = "xlate_addr e" and ?w = "xlate_word e"
  let ?r = "ct_apply ?q off ?u"
  have apq: "ct_applies ?q off ?u"
    using ap len ct_applies_frame [OF ap l4] by (simp add: ct_applies_def)
  have tcpq: "rd8 ?q (off + 9) = 6" "off + 38 \<le> length ?q" "ce_xlate_port ?u \<noteq> 0" "length (ce_xlate_ip ?u) = 4"
    using ct_applies_frame [OF ap l4] tcp len x by simp_all
  have port: "rd16 ?q (off + 20 + 2 * ?w) = ce_xlate_port e"
    using ap x(1) tcp len by (intro ct_apply_port) auto
  have addr: "rdn ?q (off + ?a) 4 = ce_xlate_ip e" using ap l4 by (rule ct_apply_addr)
  have 1: "rdn ?r (off + ?a) 4 = rdn p (off + ?a) 4"
    using ct_apply_addr [OF apq tcpq(4)] by simp
  have 2: "rd16 ?r (off + 20 + 2 * ?w) = rd16 p (off + 20 + 2 * ?w)"
    using ct_apply_port [OF apq tcpq(3)] tcpq by simp
  have 3: "rd16 ?r (off + 10) = rd16 p (off + 10)"
    using ct_apply_tcp_csums(1) [OF apq tcpq] ct_apply_tcp_csums(1) [OF ap tcp len x(1) l4] c(1)
    by (simp add: addr csum4_round_trip)
  have 4: "rd16 ?r (off + 36) = rd16 p (off + 36)"
    using ct_apply_tcp_csums(2) [OF apq tcpq] ct_apply_tcp_csums(2) [OF ap tcp len x(1) l4] c(2)
    by (simp add: addr port csum42_round_trip)
  show "rd8 ?r i = rd8 p i" if "i < length ?r" for i
  proof (cases "i \<in> xlate_fields p off e")
    case False
    then have "i \<notin> xlate_fields ?q off ?u" using tcp tcpq by (simp add: xlate_fields_def)
    then show ?thesis using False l4 by (simp add: ct_apply_frame)
  next
    case True
    then consider (ad) "off + ?a \<le> i" "i < off + ?a + 4" | (ip) "i = off + 10 \<or> i = off + 10 + 1"
      | (seg) "i = off + 36 \<or> i = off + 36 + 1"
      | (sport) "i = off + 20 + 2 * ?w \<or> i = off + 20 + 2 * ?w + 1"
      unfolding xlate_fields_def if_P [OF tcp] by (auto simp: ac_simps)
    then show ?thesis
    proof cases
      case ad
      then show ?thesis using rdn_eqD [OF 1, of "i - (off + ?a)"] by simp
    qed (use rd16_eqD [OF 2] rd16_eqD [OF 3] rd16_eqD [OF 4] in auto)
  qed
qed simp

section \<open>The opposite direction\<close>

text \<open>The packet with the two IPv4 addresses and the two ports exchanged: what a peer sends that
  echoes a packet to its source. Where its byte \<open>i\<close> comes from:\<close>

definition turned :: "nat \<Rightarrow> nat \<Rightarrow> nat" where
  "turned off i =
     (if off + 12 \<le> i \<and> i < off + 16 then i + 4
      else if off + 16 \<le> i \<and> i < off + 20 then i - 4
      else if off + 20 \<le> i \<and> i < off + 22 then i + 2
      else if off + 22 \<le> i \<and> i < off + 24 then i - 2 else i)"

definition turn :: "bytes \<Rightarrow> nat \<Rightarrow> bytes" where
  "turn p off = map (\<lambda>i. rd8 p (turned off i)) [0..<length p]"

lemma length_turn [simp, pkt_len]: "length (turn p off) = length p"
  by (simp add: turn_def)

lemma turned_fix: "i < off + 12 \<or> off + 24 \<le> i \<Longrightarrow> turned off j = i \<longleftrightarrow> j = i"
  unfolding turned_def by (simp split: if_split) linarith

lemma turned_less: "off + 24 \<le> n \<Longrightarrow> turned off j < n \<longleftrightarrow> j < n"
  unfolding turned_def by (simp split: if_split) linarith

lemma rd8_turn: "off + 24 \<le> length p \<Longrightarrow> rd8 (turn p off) i = rd8 p (turned off i)"
  by (auto simp: rd8_def turn_def turned_def)

lemma turn_reads:
  assumes "off + 24 \<le> length p"
  shows "rdn (turn p off) (off + 12) 4 = rdn p (off + 16) 4" "rdn (turn p off) (off + 16) 4 = rdn p (off + 12) 4"
    "rd16 (turn p off) (off + 20) = rd16 p (off + 22)" "rd16 (turn p off) (off + 22) = rd16 p (off + 20)"
    "i < off + 12 \<or> off + 24 \<le> i \<Longrightarrow> rd8 (turn p off) i = rd8 p i"
    "i + 1 < off + 12 \<or> off + 24 \<le> i \<Longrightarrow> rd16 (turn p off) i = rd16 p i"
  using assms by (auto simp: rdn_4 rd16_def rd8_turn turned_def add.commute [of off])

lemma turn_writes:
  assumes "off + 24 \<le> length p"
  shows "length a = 4 \<Longrightarrow> turn (wrn p (off + 12) a) off = wrn (turn p off) (off + 16) a"
    "length a = 4 \<Longrightarrow> turn (wrn p (off + 16) a) off = wrn (turn p off) (off + 12) a"
    "turn (wr16 p (off + 20) w) off = wr16 (turn p off) (off + 22) w"
    "turn (wr16 p (off + 22) w) off = wr16 (turn p off) (off + 20) w"
    "i + 1 < off + 12 \<or> off + 24 \<le> i \<Longrightarrow> turn (wr16 p i w) off = wr16 (turn p off) i w"
proof -
  show "turn (wrn p (off + 12) a) off = wrn (turn p off) (off + 16) a" if "length a = 4"
    using assms that by (intro bytes_eqI) (auto simp: rd8_turn rd8_wrn turned_def add.commute [of off])
  show "turn (wrn p (off + 16) a) off = wrn (turn p off) (off + 12) a" if "length a = 4"
    using assms that by (intro bytes_eqI) (auto simp: rd8_turn rd8_wrn turned_def add.commute [of off])
  show "turn (wr16 p (off + 20) w) off = wr16 (turn p off) (off + 22) w"
    "turn (wr16 p (off + 22) w) off = wr16 (turn p off) (off + 20) w"
    using assms by (intro bytes_eqI; auto simp: rd8_turn rd8_wr16 turned_def)+
  show "turn (wr16 p i w) off = wr16 (turn p off) i w" if "i + 1 < off + 12 \<or> off + 24 \<le> i"
  proof (rule bytes_eqI)
    fix j
    have "turned off j = i \<longleftrightarrow> j = i" "turned off j = i + 1 \<longleftrightarrow> j = i + 1"
      using that by (intro turned_fix; linarith)+
    then show "rd8 (turn (wr16 p i w) off) j = rd8 (wr16 (turn p off) i w) j"
      using assms turned_less [OF assms, of j] by (auto simp: rd8_turn rd8_wr16)
  qed simp
qed

lemma turn_ip_rewrite:
  assumes "off + 24 \<le> length p" "length a = 4"
  shows "ip_rewrite (turn p off) off 16 a = turn (ip_rewrite p off 12 a) off"
  using assms by (simp add: ip_rewrite_def turn_writes turn_reads)

text \<open>A translation of the source, seen from the other side, is the translation of the
  destination.\<close>

lemma ct_apply_turn:
  assumes e: "xlates e" "xlate_src e" "length (ce_xlate_ip e) = 4" and d: "xlates d" "\<not> xlate_src d"
    and ed: "ce_xlate_ip d = ce_xlate_ip e" "ce_xlate_port d = ce_xlate_port e"
    and p: "rd8 p off AND 0x0f = 5" "off + 38 \<le> length p" "rd8 p (off + 9) = 6"
    and x: "ce_xlate_port e \<noteq> 0"
  shows "ct_apply (turn p off) off d = turn (ct_apply p off e) off"
proof -
  have len: "off + 24 \<le> length p" using p(2) by simp
  have ap: "ct_applies p off e" using e p by (simp add: ct_applies_def)
  have ad: "ct_applies (turn p off) off d" using d p len by (simp add: ct_applies_def turn_reads)
  have w: "xlate_addr e = 12" "xlate_word e = 0" "xlate_addr d = 16" "xlate_word d = 1"
    using e d by (simp_all add: xlate_addr_def xlate_word_def)
  have l4: "off + 20 + 2 * 8 = off + 36" "off + 20 + 2 * 0 = off + 20" "off + 20 + 2 * 1 = off + 22" by simp_all
  have lq: "off + 24 \<le> length (ip_rewrite p off 12 (ce_xlate_ip e))" using len by simp
  show ?thesis
    using p(2,3) x len e(3) unfolding ct_apply_factored [OF ap] ct_apply_factored [OF ad] w ed l4 l4_rewrite_def
    by (simp add: turn_reads turn_writes turn_ip_rewrite)
qed

text \<open>A source translation of a TCP packet \<open>p\<close> by an entry \<open>e\<close> and the destination translation of
  the echoed packet by an entry \<open>d\<close> that carries the original source cancel out.\<close>

lemma ct_apply_echo:
  assumes e: "xlates e" "xlate_src e" "length (ce_xlate_ip e) = 4" "ce_xlate_port e \<noteq> 0"
    and d: "xlates d" "\<not> xlate_src d" "ce_xlate_ip d = rdn p (off + 12) 4" "ce_xlate_port d = rd16 p (off + 20)"
    and p: "rd8 p off AND 0x0f = 5" "off + 38 \<le> length p" "rd8 p (off + 9) = 6" "rd16 p (off + 20) \<noteq> 0"
      "rd16 p (off + 10) \<noteq> 0xffff" "rd16 p (off + 36) \<noteq> 0xffff"
  shows "ct_apply (turn (ct_apply p off e) off) off d = turn p off"
proof -
  let ?q = "ct_apply p off e" and ?u = "undo_entry p off e"
  have w: "xlate_addr e = 12" "xlate_word e = 0" using e by (simp_all add: xlate_addr_def xlate_word_def)
  have u: "xlates ?u" "xlate_src ?u" "length (ce_xlate_ip ?u) = 4" "ce_xlate_ip d = ce_xlate_ip ?u"
      "ce_xlate_port d = ce_xlate_port ?u" "ce_xlate_port ?u \<noteq> 0"
    using e d p w by (simp_all add: undo_entry_def xlates_def xlate_src_def)
  have ap: "ct_applies p off e" using e p by (simp add: ct_applies_def)
  have q: "rd8 ?q off AND 0x0f = 5" "off + 38 \<le> length ?q" "rd8 ?q (off + 9) = 6"
    using ct_applies_frame [OF ap e(3)] p by simp_all
  have "ct_apply (turn ?q off) off d = turn (ct_apply ?q off ?u) off"
    by (rule ct_apply_turn [OF u(1-3) d(1,2) u(4,5) q u(6)])
  also have "ct_apply ?q off ?u = p"
    using ct_apply_undo [OF ap p(3,2) e(4) _ e(3) p(5,6)] p(4) w by simp
  finally show ?thesis .
qed

section \<open>The checksum property\<close>

lemma csum_ok_cong: "a mod 65535 = b mod 65535 \<Longrightarrow> b \<noteq> 0 \<Longrightarrow> csum_ok a \<Longrightarrow> csum_ok b"
  by (simp add: csum_ok_def)

lemma csum_ok_shift:
  "a mod 65535 = b mod 65535 \<Longrightarrow> 0 < k \<Longrightarrow> csum_ok (k + a) \<Longrightarrow> csum_ok (k + b)"
  using mod_add_cong [of k 65535 k a b] by (simp add: csum_ok_def)

lemma wsum_pos: "rd8 p off \<noteq> 0 \<Longrightarrow> 0 < n \<Longrightarrow> wsum p off n \<noteq> 0"
  unfolding wsum_def by (auto simp: rd16_def unat_eq_zero intro!: bexI [of _ 0])

text \<open>C1: Whatever translation a conntrack entry applies, a packet with a valid IPv4 header
  checksum keeps one, and a valid TCP checksum, or a UDP checksum that is present and valid,
  stays valid (\<open>k\<close> is the pseudo header's protocol and length, which no translation changes).\<close>

theorem ct_apply_keeps_checksums:
  assumes len: "length (ce_xlate_ip e) = 4" and ip: "csum_ok (wsum p off 10)" "rd8 p off \<noteq> 0"
    and l4: "rd8 p (off + 9) = 6 \<and> off + 38 \<le> length p \<and> 9 \<le> n \<or>
      rd8 p (off + 9) = 17 \<and> off + 28 \<le> length p \<and> 4 \<le> n \<and> rd16 p (off + 26) \<noteq> 0"
    and k: "0 < k" "csum_ok (k + l4_sum p off (off + 20) n)"
  shows "csum_ok (wsum (ct_apply p off e) off 10) \<and>
    csum_ok (k + l4_sum (ct_apply p off e) off (off + 20) n)"
proof
  let ?q = "ct_apply p off e"
  have "rd8 ?q off = rd8 p off"
    using len by (cases "ct_applies p off e") (simp_all add: ct_applies_frame ct_apply_noop)
  then have "wsum ?q off 10 \<noteq> 0" using ip(2) by (intro wsum_pos) simp_all
  then show "csum_ok (wsum ?q off 10)"
    using csum_ok_cong [OF ct_apply_ip_sum [OF len, symmetric]] ip(1) by blast
  have "l4_sum ?q off (off + 20) n mod 65535 = l4_sum p off (off + 20) n mod 65535"
    using l4
  proof (elim disjE conjE)
    assume "rd8 p (off + 9) = 6" "off + 38 \<le> length p" "9 \<le> n"
    then show ?thesis by (rule ct_apply_tcp_sum [OF len])
  next
    assume "rd8 p (off + 9) = 17" "off + 28 \<le> length p" "4 \<le> n" "rd16 p (off + 26) \<noteq> 0"
    then show ?thesis by (rule ct_apply_udp_sum [OF len])
  qed
  then show "csum_ok (k + l4_sum ?q off (off + 20) n)"
    by (rule csum_ok_shift [OF sym k])
qed

section \<open>TCP state\<close>

definition tcp_run :: "u8 \<Rightarrow> u8 list \<Rightarrow> u8" where
  "tcp_run st fls = foldl tcp_advance st fls"

definition resets :: "u8 \<Rightarrow> bool" where
  "resets fl = (fl AND 0x04 \<noteq> 0 \<or> fl AND 0x01 \<noteq> 0)"

definition opens :: "u8 \<Rightarrow> bool" where
  "opens fl = (\<not> resets fl \<and> fl AND 0x02 \<noteq> 0)"

definition quiet :: "u8 \<Rightarrow> bool" where
  "quiet fl = (\<not> resets fl \<and> \<not> opens fl)"

text \<open>A history in which a SYN (or SYN/ACK) was followed by at least one ACK and by no
  further SYN, FIN or RST.\<close>

definition handshaken :: "u8 list \<Rightarrow> bool" where
  "handshaken fls = (\<exists>pre syn post. fls = pre @ syn # post \<and> opens syn \<and>
     list_all quiet post \<and> list_ex (\<lambda>f. f AND 0x10 \<noteq> 0) post)"

definition half_open :: "u8 list \<Rightarrow> bool" where
  "half_open fls = (\<exists>pre syn post. fls = pre @ syn # post \<and> opens syn \<and>
     list_all quiet post \<and> \<not> list_ex (\<lambda>f. f AND 0x10 \<noteq> 0) post)"

lemma tcp_advance_quiet:
  "quiet f \<Longrightarrow> tcp_advance st f =
     (if f AND 0x10 \<noteq> 0 \<and> st \<in> {TCP_NEW_SYN, TCP_NEW_SYNACK, TCP_ESTABLISHED} then TCP_ESTABLISHED else st)"
  by (auto simp: tcp_advance_def quiet_def opens_def resets_def)

lemma ex_split_snoc:
  "(\<exists>pre syn post. fls @ [f] = pre @ syn # post \<and> Q syn post) \<longleftrightarrow>
     Q f [] \<or> (\<exists>pre syn post. fls = pre @ syn # post \<and> Q syn (post @ [f]))"  (is "?L \<longleftrightarrow> ?R")
proof
  assume ?L
  then obtain pre syn post where "fls @ [f] = pre @ syn # post" "Q syn post" by blast
  then show ?R by (cases post rule: rev_cases) auto
next
  assume ?R
  then consider "Q f []" | pre syn post where "fls = pre @ syn # post" "Q syn (post @ [f])" by blast
  then show ?L
  proof cases
    case 1
    then show ?thesis by (intro exI [of _ fls] exI [of _ f] exI [of _ "[]"]) simp
  next
    case 2
    then show ?thesis by (intro exI [of _ pre] exI [of _ syn] exI [of _ "post @ [f]"]) simp
  qed
qed

lemma handshaken_snoc:
  "handshaken (fls @ [f]) \<longleftrightarrow> quiet f \<and> (handshaken fls \<or> half_open fls \<and> f AND 0x10 \<noteq> 0)"
  unfolding handshaken_def half_open_def
    ex_split_snoc [where Q = "\<lambda>syn post. opens syn \<and> list_all quiet post \<and> list_ex (\<lambda>f. f AND 0x10 \<noteq> 0) post"]
  by (cases "quiet f"; cases "f AND 0x10 = 0"; simp; blast)

lemma half_open_snoc:
  "half_open (fls @ [f]) \<longleftrightarrow> opens f \<or> quiet f \<and> half_open fls \<and> f AND 0x10 = 0"
  unfolding half_open_def
    ex_split_snoc [where Q = "\<lambda>syn post. opens syn \<and> list_all quiet post \<and> \<not> list_ex (\<lambda>f. f AND 0x10 \<noteq> 0) post"]
  by (cases "quiet f"; cases "f AND 0x10 = 0"; simp; blast)

lemma tcp_run_states:
  "(tcp_run TCP_NONE fls = TCP_ESTABLISHED \<longleftrightarrow> handshaken fls) \<and>
   (tcp_run TCP_NONE fls \<in> {TCP_NEW_SYN, TCP_NEW_SYNACK} \<longleftrightarrow> half_open fls)"
proof (induction fls rule: rev_induct)
  case Nil
  then show ?case by (simp add: tcp_run_def handshaken_def half_open_def)
next
  case (snoc f fls)
  have step: "tcp_run TCP_NONE (fls @ [f]) = tcp_advance (tcp_run TCP_NONE fls) f"
    by (simp add: tcp_run_def)
  consider (q) "quiet f" | (r) "resets f" | (o) "opens f" by (auto simp: quiet_def)
  then show ?case
  proof cases
    case q
    then have "\<not> opens f" by (simp add: quiet_def)
    with q snoc.IH show ?thesis
      by (auto simp: step handshaken_snoc half_open_snoc tcp_advance_quiet)
  next
    case r
    then have "\<not> opens f" "\<not> quiet f" by (simp_all add: quiet_def opens_def)
    with r show ?thesis
      by (auto simp: step handshaken_snoc half_open_snoc tcp_advance_def resets_def)
  next
    case o
    then have "\<not> quiet f" by (simp add: quiet_def)
    with o show ?thesis
      by (auto simp: step handshaken_snoc half_open_snoc tcp_advance_def resets_def opens_def)
  qed
qed

text \<open>C16: Over any history of TCP flags on a new flow, the tracked state is ESTABLISHED exactly
  when a SYN was followed by an ACK with no later SYN, FIN or RST.\<close>

theorem tcp_established_iff: "tcp_run TCP_NONE fls = TCP_ESTABLISHED \<longleftrightarrow> handshaken fls"
  using tcp_run_states by blast

section \<open>Default entries and aging\<close>

text \<open>On a conntrack miss, creating the default entry makes both directions of the flow
  known, keeps a reverse entry that was already there (a NAT entry), and touches no other
  flow.\<close>

theorem ct_ensure_default_tracks:
  "CONNTRACK (ct_ensure_default now p off k s) = (\<lambda>j.
     if j = k then Some (default_entry now p off)
     else if j = invert_key k \<and> CONNTRACK s j = None then Some (default_entry now p off)
     else CONNTRACK s j)"
  by (rule ext) (auto simp: ct_ensure_default_def Let_def split: option.splits)

lemma saturating_sub_less: "c < saturating_sub a b \<longleftrightarrow> unat b + unat c < unat a"
  by (auto simp: saturating_sub_def word_less_nat_alt unat_sub word_le_nat_alt)

text \<open>C29: One aging sweep keeps exactly the entries seen within their timeout: 30 seconds, or
  one day for established TCP flows; everything else is gone and no entry is changed.\<close>

theorem gc_sweep_exact:
  "gc_sweep now ct k = Some e \<longleftrightarrow> ct k = Some e \<and>
     unat now \<le> unat (ce_last_seen e) +
       (if ce_tcp_state e = TCP_ESTABLISHED then 24 * 60 * 60 * 1000000000 else 30 * 1000000000)"
proof -
  have t: "unat (timeout_ns e) = (if ce_tcp_state e = TCP_ESTABLISHED then 24 * 60 * 60 * 1000000000 else 30 * 1000000000)"
    by (simp add: timeout_ns_def TCP_ESTABLISHED_TIMEOUT_NS_def DEFAULT_TIMEOUT_NS_def)
  show ?thesis
    unfolding t [symmetric]
    by (auto simp: gc_sweep_def stale_def saturating_sub_less split: option.splits if_splits)
qed

section \<open>Instances\<close>

text \<open>An entry that rewrites the source of a packet to 203.0.113.5 port 40000.\<close>

definition sample_snat :: CtEntry where
  "sample_snat = \<lparr>ce_last_seen = 0, ce_xlate_ip = [203, 0, 113, 5], ce_xlate_port = 40000,
     ce_flags = 0x05, ce_tcp_state = 0, ce_fwall_action = 0\<rparr>"

theorem ct_apply_keeps_checksums_witness:
  "csum_ok (wsum (ct_apply sample_syn 14 sample_snat) 14 10) \<and>
   csum_ok (26 + l4_sum (ct_apply sample_syn 14 sample_snat) 14 (14 + 20) 10)"
proof (rule ct_apply_keeps_checksums)
  show "csum_ok (wsum sample_syn 14 10)" "csum_ok (26 + l4_sum sample_syn 14 (14 + 20) 10)"
    by (simp_all add: sample_syn_def packet_eval)
qed (simp_all add: sample_syn_def sample_snat_def packet_eval)

end
