(* ===== verification/Snat.thy ===== *)
theory Snat
  imports Conntrack_Props
begin

text \<open>
  Network NAT, \<^verbatim>\<open>xdp-dp-ebpf/src/nat.rs\<close>: the egress source NAT with its port allocator, and
  the lookup of the neighbour that owns a NAT address and port.
\<close>

section \<open>Definitions\<close>

abbreviation (input) PROBE_LIMIT :: u16 where "PROBE_LIMIT \<equiv> 64"

text \<open>The peer-independent return key of a NAT address and port.\<close>

definition nat_rev_key :: "u32 \<Rightarrow> bytes \<Rightarrow> u16 \<Rightarrow> u8 \<Rightarrow> CtKey" where
  "nat_rev_key vni nat_ip port proto =
     \<lparr>ck_vni = vni, ck_src_ip = [0, 0, 0, 0], ck_dst_ip = nat_ip, ck_src_port = 0,
      ck_dst_port = port, ck_proto = proto\<rparr>"

text \<open>The probe loop: candidate \<open>i\<close> counts up to the limit, the first free return key wins.\<close>

function nat_probe :: "(CtKey \<rightharpoonup> CtEntry) \<Rightarrow> u32 \<Rightarrow> NatValue \<Rightarrow> u8 \<Rightarrow> u16 \<Rightarrow> u16 \<Rightarrow> u16 \<Rightarrow> u16 option" where
  "nat_probe ct vni nv proto start rng i =
     (if i < PROBE_LIMIT
      then let cand = nv_port_min nv + (start + i) mod rng
           in if ct (nat_rev_key vni (nv_nat_ipv4 nv) cand proto) = None then Some cand
              else nat_probe ct vni nv proto start rng (i + 1)
      else None)"
  by pat_completeness auto
termination
proof (relation "measure (\<lambda>(_, _, _, _, _, _, i). 64 - unat i)")
  fix ct :: "CtKey \<rightharpoonup> CtEntry" and vni :: u32 and nv :: NatValue and proto :: u8 and start rng i cand :: u16
  assume "i < PROBE_LIMIT"
  then have "unat i < 64" by (simp add: word_less_nat_alt)
  moreover from this have "unat (i + 1) = unat i + 1" by (simp add: unat_add_small)
  ultimately show "((ct, vni, nv, proto, start, rng, i + 1), (ct, vni, nv, proto, start, rng, i))
      \<in> measure (\<lambda>(_, _, _, _, _, _, i). 64 - unat i)" by simp
qed simp

declare nat_probe.simps [simp del]

definition nat_rev_entry :: "u64 \<Rightarrow> bytes \<Rightarrow> u16 \<Rightarrow> CtEntry" where
  "nat_rev_entry now src sport =
     \<lparr>ce_last_seen = now, ce_xlate_ip = src, ce_xlate_port = sport,
      ce_flags = CT_REWRITE_DST OR CT_F_SRC_NAT, ce_tcp_state = 0, ce_fwall_action = 0\<rparr>"

definition nat_fwd_entry :: "u64 \<Rightarrow> bytes \<Rightarrow> u16 \<Rightarrow> CtEntry" where
  "nat_fwd_entry now nat_ip port =
     \<lparr>ce_last_seen = now, ce_xlate_ip = nat_ip, ce_xlate_port = port,
      ce_flags = CT_REWRITE_SRC OR CT_F_SRC_NAT, ce_tcp_state = 0, ce_fwall_action = 0\<rparr>"

text \<open>The port of a flow: the one of its forward entry, or a newly allocated one.\<close>

definition nat_port_for :: "u64 \<Rightarrow> NatValue \<Rightarrow> CtKey \<Rightarrow> u16 \<Rightarrow> maps \<Rightarrow> u16 \<times> maps" where
  "nat_port_for now nv k rng s =
     (let alloc =
        (let start = ucast (hash5 (ck_src_ip k) (ck_dst_ip k) (ck_src_port k) (ck_dst_port k) (ck_proto k)
                              mod ucast rng);
             chosen = nv_port_min nv + start;
             (chosen, s) =
               (case nat_probe (CONNTRACK s) (ck_vni k) nv (ck_proto k) start rng 0 of
                  Some cand \<Rightarrow>
                    (cand, s\<lparr>CONNTRACK := (CONNTRACK s)
                       (nat_rev_key (ck_vni k) (nv_nat_ipv4 nv) cand (ck_proto k)
                          \<mapsto> nat_rev_entry now (ck_src_ip k) (ck_src_port k))\<rparr>)
                | None \<Rightarrow> (chosen, s))
         in (chosen, s\<lparr>CONNTRACK := (CONNTRACK s)(k \<mapsto> nat_fwd_entry now (nv_nat_ipv4 nv) chosen)\<rparr>))
      in case CONNTRACK s k of
           Some v \<Rightarrow> if ce_flags v AND CT_F_SRC_NAT \<noteq> 0 then (ce_xlate_port v, s) else alloc
         | None \<Rightarrow> alloc)"

text \<open>The packet rewrite: source address to the NAT address, then the source port or the ICMP
  identifier to the NAT port.\<close>

definition nat_rewrite :: "bytes \<Rightarrow> nat \<Rightarrow> u8 \<Rightarrow> bytes \<Rightarrow> u16 \<Rightarrow> bytes \<Rightarrow> u16 \<Rightarrow> bytes" where
  "nat_rewrite p ip_off proto src sport nat_ip nat_port =
     (let ihl = ihl_bytes p ip_off;
          p = wrn p (ip_off + 12) nat_ip;
          p = wr16 p (ip_off + 10) (csum_replace4 (rd16 p (ip_off + 10)) src nat_ip);
          l4 = ip_off + ihl
      in if proto = IPPROTO_TCP \<and> l4 + 18 \<le> length p
         then let c2 = csum_replace2 (csum_replace4 (rd16 p (l4 + 16)) src nat_ip) sport nat_port
              in wr16 (wr16 p (l4 + 16) c2) l4 nat_port
         else if proto = IPPROTO_UDP \<and> l4 + 8 \<le> length p
         then let c0 = rd16 p (l4 + 6);
                  p = (if c0 \<noteq> 0
                       then wr16 p (l4 + 6) (csum_replace2 (csum_replace4 c0 src nat_ip) sport nat_port)
                       else p)
              in wr16 p l4 nat_port
         else if proto = IPPROTO_ICMP \<and> l4 + 8 \<le> length p
         then wr16 (wr16 p (l4 + 2) (csum_replace2 (rd16 p (l4 + 2)) sport nat_port)) (l4 + 4) nat_port
         else p)"

definition nat_snat_egress ::
  "u64 \<Rightarrow> bytes \<Rightarrow> nat \<Rightarrow> u32 \<Rightarrow> bool \<Rightarrow> maps \<Rightarrow> bool \<times> bytes \<times> maps" where
  "nat_snat_egress now p ip_off vni is_external s =
     (if \<not> is_external then (False, p, s)
      else if ip_off + 20 > length p then (False, p, s)
      else
        let src = rdn p (ip_off + 12) 4; dst = rdn p (ip_off + 16) 4
        in case hget (NAT s) \<lparr>nk_vni = vni, nk_ipv4 = src\<rparr> of
             None \<Rightarrow> (False, p, s)
           | Some nv \<Rightarrow>
               let rng = nv_port_max nv - nv_port_min nv
               in if rng = 0 then (False, p, s)
                  else case l4_ports p ip_off of
                         None \<Rightarrow> (False, p, s)
                       | Some (proto, sport, dport) \<Rightarrow>
                           let fwd_key = \<lparr>ck_vni = vni, ck_src_ip = src, ck_dst_ip = dst,
                                 ck_src_port = sport, ck_dst_port = dport, ck_proto = proto\<rparr>;
                               (nat_port, s) = nat_port_for now nv fwd_key rng s
                           in (True, nat_rewrite p ip_off proto src sport (nv_nat_ipv4 nv) nat_port, s))"

text \<open>The scan over the neighbour NAT slots.\<close>

definition nb_hit :: "u32 \<Rightarrow> bytes \<Rightarrow> u16 \<Rightarrow> NeighborNatEntry \<Rightarrow> bool" where
  "nb_hit vni dst dport e =
     (nn_enabled e \<noteq> 0 \<and> nn_vni e = vni \<and> nn_nat_ip e = dst \<and> dport \<ge> nn_port_min e \<and> dport < nn_port_max e)"

function neighbor_nat_scan :: "maps \<Rightarrow> u32 \<Rightarrow> u32 \<Rightarrow> bytes \<Rightarrow> u16 \<Rightarrow> u32 \<Rightarrow> bytes option" where
  "neighbor_nat_scan s count vni dst dport idx =
     (if idx < 64
      then if idx \<ge> count then None
           else case hget (NEIGHBOR_NAT s) idx of
                  Some e \<Rightarrow> if nb_hit vni dst dport e then Some (nn_underlay e)
                            else neighbor_nat_scan s count vni dst dport (idx + 1)
                | None \<Rightarrow> neighbor_nat_scan s count vni dst dport (idx + 1)
      else None)"
  by pat_completeness auto
termination
  by (relation "measure (\<lambda>(_, _, _, _, _, idx). 64 - unat idx)") (auto simp: unat_Suc_below word_less_nat_alt)

declare neighbor_nat_scan.simps [simp del]

definition neighbor_nat_lookup :: "maps \<Rightarrow> u32 \<Rightarrow> bytes \<Rightarrow> u16 \<Rightarrow> bytes option" where
  "neighbor_nat_lookup s vni dst dport =
     (case aget (NEIGHBOR_NAT_COUNT s) 0 of
        None \<Rightarrow> None
      | Some count \<Rightarrow> neighbor_nat_scan s count vni dst dport 0)"

section \<open>The allocator\<close>

text \<open>Candidate \<open>j\<close> of a probe.\<close>

definition nat_cand :: "NatValue \<Rightarrow> u16 \<Rightarrow> u16 \<Rightarrow> nat \<Rightarrow> u16" where
  "nat_cand nv start rng j = nv_port_min nv + (start + of_nat j) mod rng"

lemma nat_probe_Some:
  "nat_probe ct vni nv proto start rng i = Some c \<Longrightarrow>
     ct (nat_rev_key vni (nv_nat_ipv4 nv) c proto) = None \<and> (\<exists>j < 64. c = nat_cand nv start rng j)"
proof (induction ct vni nv proto start rng i rule: nat_probe.induct)
  case (1 ct vni nv proto start rng i)
  show ?case
  proof (cases "ct (nat_rev_key vni (nv_nat_ipv4 nv) (nv_port_min nv + (start + i) mod rng) proto) = None")
    case True
    with 1(2) have "i < 64" "c = nv_port_min nv + (start + i) mod rng"
      by (auto simp: nat_probe.simps [of ct vni nv proto start rng i] Let_def split: if_splits)
    moreover from this have "c = nat_cand nv start rng (unat i)" "unat i < 64"
      by (simp_all add: nat_cand_def word_less_nat_alt)
    ultimately show ?thesis using True by blast
  next
    case False
    then show ?thesis
      using 1 by (auto simp: nat_probe.simps [of ct vni nv proto start rng i] Let_def split: if_splits)
  qed
qed

lemma nat_probe_None:
  "nat_probe ct vni nv proto start rng i = None \<Longrightarrow> unat i \<le> j \<Longrightarrow> j < 64 \<Longrightarrow>
     ct (nat_rev_key vni (nv_nat_ipv4 nv) (nat_cand nv start rng j) proto) \<noteq> None"
proof (induction ct vni nv proto start rng i rule: nat_probe.induct)
  case (1 ct vni nv proto start rng i)
  have i: "i < 64" "unat i < 64" using 1(3,4) by (simp_all add: word_less_nat_alt)
  let ?c = "nv_port_min nv + (start + i) mod rng"
  have c: "ct (nat_rev_key vni (nv_nat_ipv4 nv) ?c proto) \<noteq> None"
    and rest: "nat_probe ct vni nv proto start rng (i + 1) = None"
    using 1(2) i by (auto simp: nat_probe.simps [of ct vni nv proto start rng i] Let_def split: if_splits)
  show ?case
  proof (cases "j = unat i")
    case True
    then show ?thesis using c by (simp add: nat_cand_def)
  next
    case False
    then have "unat (i + 1) \<le> j" using 1(3) i by (simp add: unat_Suc_below)
    then show ?thesis using 1(1) [OF i(1) refl _ rest] c 1(4) by blast
  qed
qed

lemma unat_cand:
  assumes "nv_port_min nv < nv_port_max nv" "rng = nv_port_max nv - nv_port_min nv"
  shows "unat (nv_port_min nv + x mod rng) = unat (nv_port_min nv) + unat x mod unat rng"
    and "unat (nv_port_min nv) + unat x mod unat rng < unat (nv_port_max nv)"
proof -
  have r: "unat rng = unat (nv_port_max nv) - unat (nv_port_min nv)" "0 < unat rng"
    using assms by (simp_all add: unat_sub word_less_nat_alt word_le_nat_alt)
  have "unat x mod unat rng < unat rng" using r(2) by simp
  then show b: "unat (nv_port_min nv) + unat x mod unat rng < unat (nv_port_max nv)"
    using r by linarith
  then show "unat (nv_port_min nv + x mod rng) = unat (nv_port_min nv) + unat x mod unat rng"
    using less_trans [OF b unat_lt16] by (subst unat_add_small) (simp_all add: unat_mod)
qed

lemma nat_cand_in_range:
  assumes "nv_port_min nv < nv_port_max nv" "rng = nv_port_max nv - nv_port_min nv"
  shows "nv_port_min nv \<le> nat_cand nv start rng j \<and> nat_cand nv start rng j < nv_port_max nv"
  using unat_cand [OF assms, of "start + of_nat j"]
  by (simp add: nat_cand_def word_le_nat_alt word_less_nat_alt)

text \<open>The start slot is below the size of the range, so the first candidate is in range too.\<close>

definition nat_start :: "CtKey \<Rightarrow> u16 \<Rightarrow> u16" where
  "nat_start k rng = ucast (hash5 (ck_src_ip k) (ck_dst_ip k) (ck_src_port k) (ck_dst_port k) (ck_proto k)
                              mod ucast rng)"

lemma nat_start_less: "rng \<noteq> 0 \<Longrightarrow> unat (nat_start k rng) < unat rng"
proof -
  assume "rng \<noteq> 0"
  then have r: "0 < unat rng" by (simp add: unat_gt_0)
  let ?h = "hash5 (ck_src_ip k) (ck_dst_ip k) (ck_src_port k) (ck_dst_port k) (ck_proto k)"
  have "unat ?h mod unat rng < unat rng" using r by simp
  moreover from this have "unat ?h mod unat rng < 65536" using unat_lt16 [of rng] by linarith
  ultimately show ?thesis by (simp add: nat_start_def unat_mod)
qed

lemma nat_start_cand:
  assumes "nv_port_min nv < nv_port_max nv" "rng = nv_port_max nv - nv_port_min nv"
  shows "nv_port_min nv + nat_start k rng = nat_cand nv (nat_start k rng) rng 0"
proof -
  have "rng \<noteq> 0" using assms by auto
  then have "unat (nat_start k rng) < unat rng" by (rule nat_start_less)
  then have "nat_start k rng mod rng = nat_start k rng" by (simp add: word_unat_eq_iff unat_mod)
  then show ?thesis by (simp add: nat_cand_def)
qed

text \<open>Every port of a range of at most 64 ports is among the candidates.\<close>

lemma nat_cand_covers:
  assumes nv: "nv_port_min nv < nv_port_max nv" "rng = nv_port_max nv - nv_port_min nv"
    and small: "unat rng \<le> 64" and start: "unat start < unat rng"
    and port: "nv_port_min nv \<le> port" "port < nv_port_max nv"
  shows "\<exists>j < 64. port = nat_cand nv start rng j"
proof -
  let ?d = "unat port - unat (nv_port_min nv)"
  have r: "unat rng = unat (nv_port_max nv) - unat (nv_port_min nv)"
    using nv by (simp add: unat_sub word_less_nat_alt word_le_nat_alt)
  have d: "?d < unat rng" "unat (nv_port_min nv) + ?d = unat port"
    using port r unfolding word_le_nat_alt word_less_nat_alt by linarith+
  define j where "j = (if unat start \<le> ?d then ?d - unat start else ?d + unat rng - unat start)"
  have j: "j < unat rng" "(unat start + j) mod unat rng = ?d"
    using d(1) start by (auto simp: j_def)
  have "unat start + j < 65536" using j(1) start small by linarith
  then have "unat (start + of_nat j) = unat start + j"
    by (subst unat_add_small) (simp_all add: unat_of_nat)
  then have "unat (nat_cand nv start rng j) = unat port"
    using unat_cand(1) [OF nv, of "start + of_nat j"] j(2) d(2) by (simp add: nat_cand_def)
  then have "port = nat_cand nv start rng j" by (simp add: word_unat_eq_iff)
  then show ?thesis using j(1) small by (intro exI [of _ j]) simp
qed

section \<open>What egress NAT does to the tables\<close>

definition has_snat :: "maps \<Rightarrow> CtKey \<Rightarrow> bool" where
  "has_snat s k = (case CONNTRACK s k of Some v \<Rightarrow> ce_flags v AND CT_F_SRC_NAT \<noteq> 0 | None \<Rightarrow> False)"

lemma nat_port_for_new:
  assumes "\<not> has_snat s k"
  shows "nat_port_for now nv k rng s =
    (case nat_probe (CONNTRACK s) (ck_vni k) nv (ck_proto k) (nat_start k rng) rng 0 of
       Some c \<Rightarrow> (c, s\<lparr>CONNTRACK := (CONNTRACK s)
         (nat_rev_key (ck_vni k) (nv_nat_ipv4 nv) c (ck_proto k) \<mapsto> nat_rev_entry now (ck_src_ip k) (ck_src_port k),
          k \<mapsto> nat_fwd_entry now (nv_nat_ipv4 nv) c)\<rparr>)
     | None \<Rightarrow> (nv_port_min nv + nat_start k rng, s\<lparr>CONNTRACK := (CONNTRACK s)
         (k \<mapsto> nat_fwd_entry now (nv_nat_ipv4 nv) (nv_port_min nv + nat_start k rng))\<rparr>))"
  using assms
  by (auto simp: nat_port_for_def nat_start_def has_snat_def Let_def split: option.splits)

lemma nat_snat_egress_hit:
  assumes k: "ct_key p off vni = Some k"
    and nv: "hget (NAT s) \<lparr>nk_vni = vni, nk_ipv4 = ck_src_ip k\<rparr> = Some nv" "nv_port_min nv \<noteq> nv_port_max nv"
    and port: "nat_port_for now nv k (nv_port_max nv - nv_port_min nv) s = (port, s')"
  shows "nat_snat_egress now p off vni True s =
    (True, nat_rewrite p off (ck_proto k) (ck_src_ip k) (ck_src_port k) (nv_nat_ipv4 nv) port, s')"
proof -
  note kf = ct_key_fields [OF k]
  have key: "\<lparr>ck_vni = vni, ck_src_ip = rdn p (off + 12) 4, ck_dst_ip = rdn p (off + 16) 4,
      ck_src_port = ck_src_port k, ck_dst_port = ck_dst_port k, ck_proto = ck_proto k\<rparr> = k"
    using kf by (cases k) auto
  have l4: "l4_ports p off = Some (ck_proto k, ck_src_port k, ck_dst_port k)" using kf by blast
  have len: "\<not> length p < off + 20" using l4_ports_bound [OF l4] by simp
  have rng: "nv_port_max nv - nv_port_min nv \<noteq> 0" using nv(2) by simp
  have src: "hget (NAT s) \<lparr>nk_vni = vni, nk_ipv4 = rdn p (off + 12) 4\<rparr> = Some nv"
    using nv(1) kf by simp
  show ?thesis
    using len rng kf unfolding nat_snat_egress_def Let_def src option.case l4 prod.case key port
    by simp
qed

text \<open>The two outcomes of an allocation: a free candidate is taken, or all are busy.\<close>

lemma nat_alloc_cases:
  assumes k: "ct_key p off vni = Some k"
    and nv: "hget (NAT s) \<lparr>nk_vni = vni, nk_ipv4 = ck_src_ip k\<rparr> = Some nv"
      "nv_port_min nv < nv_port_max nv"
    and new: "\<not> has_snat s k"
  defines "ret \<equiv> \<lambda>port. nat_rev_key vni (nv_nat_ipv4 nv) port (ck_proto k)"
    and "cand \<equiv> nat_cand nv (nat_start k (nv_port_max nv - nv_port_min nv)) (nv_port_max nv - nv_port_min nv)"
  shows "\<exists>port ct'. nv_port_min nv \<le> port \<and> port < nv_port_max nv \<and>
    nat_snat_egress now p off vni True s =
      (True, nat_rewrite p off (ck_proto k) (ck_src_ip k) (ck_src_port k) (nv_nat_ipv4 nv) port,
       s\<lparr>CONNTRACK := ct'\<rparr>) \<and>
    (if \<exists>j < 64. CONNTRACK s (ret (cand j)) = None
     then CONNTRACK s (ret port) = None \<and>
          ct' = (CONNTRACK s)(ret port \<mapsto> nat_rev_entry now (ck_src_ip k) (ck_src_port k),
                              k \<mapsto> nat_fwd_entry now (nv_nat_ipv4 nv) port)
     else ct' = (CONNTRACK s)(k \<mapsto> nat_fwd_entry now (nv_nat_ipv4 nv) port))"
proof -
  define rng where "rng = nv_port_max nv - nv_port_min nv"
  have vni: "ck_vni k = vni" using ct_key_fields [OF k] by blast
  have ne: "nv_port_min nv \<noteq> nv_port_max nv" using nv(2) by simp
  note hit = nat_snat_egress_hit [OF k nv(1) ne]
  note rangeI = nat_cand_in_range [OF nv(2) rng_def]
  note new_eq = nat_port_for_new [OF new, of now nv rng, unfolded vni]
  show ?thesis
  proof (cases "nat_probe (CONNTRACK s) vni nv (ck_proto k) (nat_start k rng) rng 0")
    case None
    let ?port = "nat_cand nv (nat_start k rng) rng 0"
    have busy: "\<not> (\<exists>j < 64. CONNTRACK s (ret (cand j)) = None)"
      using nat_probe_None [OF None] by (simp add: ret_def cand_def rng_def)
    from hit [folded rng_def, OF new_eq [unfolded None option.case]] rangeI [of "nat_start k rng" 0] busy
    show ?thesis
      unfolding nat_start_cand [OF nv(2) rng_def] if_not_P [OF busy] by blast
  next
    case (Some c)
    from nat_probe_Some [OF Some] obtain j where free: "CONNTRACK s (ret c) = None" and j: "j < 64" "c = cand j"
      by (auto simp: ret_def cand_def rng_def)
    have "nv_port_min nv \<le> c" "c < nv_port_max nv"
      using rangeI [of "nat_start k rng" j] j(2) by (simp_all add: cand_def rng_def)
    moreover have "\<exists>j < 64. CONNTRACK s (ret (cand j)) = None" using free j by blast
    ultimately show ?thesis
      using hit [folded rng_def, OF new_eq [unfolded Some option.case]] free
      by (intro exI [of _ c]) (auto simp: ret_def)
  qed
qed

text \<open>C3: The port allocator. For a flow of a guest with a NAT range and no NAT entry yet,
  egress NAT succeeds and binds the flow to a port of the configured range. If one of the 64
  probed candidates is free (always the case when the range has at most 64 ports and any of them
  is free), the port was unused before, its return entry now points back to the guest's address
  and port, and apart from the two entries of the flow no entry is touched.\<close>

theorem nat_alloc_spec:
  assumes k: "ct_key p off vni = Some k" "ck_src_ip k \<noteq> [0, 0, 0, 0]"
    and nv: "hget (NAT s) \<lparr>nk_vni = vni, nk_ipv4 = ck_src_ip k\<rparr> = Some nv"
      "nv_port_min nv < nv_port_max nv"
    and new: "\<not> has_snat s k"
  shows "\<exists>port p' s'. nat_snat_egress now p off vni True s = (True, p', s') \<and>
    nv_port_min nv \<le> port \<and> port < nv_port_max nv \<and>
    CONNTRACK s' k = Some (nat_fwd_entry now (nv_nat_ipv4 nv) port) \<and>
    (\<forall>j. j \<noteq> k \<and> j \<noteq> nat_rev_key vni (nv_nat_ipv4 nv) port (ck_proto k) \<longrightarrow> CONNTRACK s' j = CONNTRACK s j) \<and>
    ((\<exists>j < 64. CONNTRACK s (nat_rev_key vni (nv_nat_ipv4 nv)
         (nat_cand nv (nat_start k (nv_port_max nv - nv_port_min nv)) (nv_port_max nv - nv_port_min nv) j)
         (ck_proto k)) = None) \<or>
     (unat (nv_port_max nv - nv_port_min nv) \<le> 64 \<and>
      (\<exists>q. nv_port_min nv \<le> q \<and> q < nv_port_max nv \<and>
           CONNTRACK s (nat_rev_key vni (nv_nat_ipv4 nv) q (ck_proto k)) = None)) \<longrightarrow>
     CONNTRACK s (nat_rev_key vni (nv_nat_ipv4 nv) port (ck_proto k)) = None \<and>
     CONNTRACK s' (nat_rev_key vni (nv_nat_ipv4 nv) port (ck_proto k)) =
       Some (nat_rev_entry now (ck_src_ip k) (ck_src_port k)))"
proof -
  define rng where "rng = nv_port_max nv - nv_port_min nv"
  let ?ret = "\<lambda>port. nat_rev_key vni (nv_nat_ipv4 nv) port (ck_proto k)"
  let ?cand = "nat_cand nv (nat_start k rng) rng"
  have k': "?ret port \<noteq> k" for port using k(2) by (cases k) (auto simp: nat_rev_key_def)
  have "rng \<noteq> 0" using nv(2) by (simp add: rng_def)
  then have start: "unat (nat_start k rng) < unat rng" by (rule nat_start_less)
  have covers: "\<exists>j < 64. CONNTRACK s (?ret (?cand j)) = None"
    if "unat rng \<le> 64" "nv_port_min nv \<le> q" "q < nv_port_max nv" "CONNTRACK s (?ret q) = None" for q
    using nat_cand_covers [OF nv(2) rng_def that(1) start that(2,3)] that(4) by blast
  from nat_alloc_cases [OF k(1) nv new, of now, folded rng_def] obtain port ct'
    where port: "nv_port_min nv \<le> port" "port < nv_port_max nv"
      and run: "nat_snat_egress now p off vni True s =
        (True, nat_rewrite p off (ck_proto k) (ck_src_ip k) (ck_src_port k) (nv_nat_ipv4 nv) port,
         s\<lparr>CONNTRACK := ct'\<rparr>)"
      and ct': "if \<exists>j < 64. CONNTRACK s (?ret (?cand j)) = None
         then CONNTRACK s (?ret port) = None \<and>
              ct' = (CONNTRACK s)(?ret port \<mapsto> nat_rev_entry now (ck_src_ip k) (ck_src_port k),
                                  k \<mapsto> nat_fwd_entry now (nv_nat_ipv4 nv) port)
         else ct' = (CONNTRACK s)(k \<mapsto> nat_fwd_entry now (nv_nat_ipv4 nv) port)" by blast
  have fwd: "ct' k = Some (nat_fwd_entry now (nv_nat_ipv4 nv) port)"
    and frame: "\<forall>j. j \<noteq> k \<and> j \<noteq> ?ret port \<longrightarrow> ct' j = CONNTRACK s j"
    using ct' by (auto split: if_splits)
  have fresh: "CONNTRACK s (?ret port) = None \<and>
      ct' (?ret port) = Some (nat_rev_entry now (ck_src_ip k) (ck_src_port k))"
    if "\<exists>j < 64. CONNTRACK s (?ret (?cand j)) = None"
    using ct' k' unfolding if_P [OF that] by simp
  have "(\<exists>j < 64. CONNTRACK s (?ret (?cand j)) = None) \<or>
     (unat rng \<le> 64 \<and> (\<exists>q. nv_port_min nv \<le> q \<and> q < nv_port_max nv \<and> CONNTRACK s (?ret q) = None)) \<longrightarrow>
     CONNTRACK s (?ret port) = None \<and> ct' (?ret port) = Some (nat_rev_entry now (ck_src_ip k) (ck_src_port k))"
    using fresh covers by blast
  with port run fwd frame show ?thesis
    unfolding rng_def [symmetric] by (intro exI [of _ port]) auto
qed

section \<open>The packet rewrite\<close>

lemma xlate_nat_fwd [simp]:
  "xlates (nat_fwd_entry now a port)" "xlate_addr (nat_fwd_entry now a port) = 12"
  "xlate_word (nat_fwd_entry now a port) = 0" "ce_xlate_ip (nat_fwd_entry now a port) = a"
  "ce_xlate_port (nat_fwd_entry now a port) = port"
  by (simp_all add: nat_fwd_entry_def xlates_def xlate_addr_def xlate_word_def xlate_src_def)

lemma xlate_nat_rev [simp]:
  "xlates (nat_rev_entry now a port)" "xlate_addr (nat_rev_entry now a port) = 16"
  "xlate_word (nat_rev_entry now a port) = 1" "ce_xlate_ip (nat_rev_entry now a port) = a"
  "ce_xlate_port (nat_rev_entry now a port) = port"
  by (simp_all add: nat_rev_entry_def xlates_def xlate_addr_def xlate_word_def xlate_src_def)

lemma nat_rewrite_ct_apply:
  assumes k: "ct_key p off vni = Some k" and ihl: "rd8 p off AND 0x0f = 5"
    and nv: "length nat_ip = 4" "port \<noteq> 0"
  shows "nat_rewrite p off (ck_proto k) (ck_src_ip k) (ck_src_port k) nat_ip port =
    ct_apply p off (nat_fwd_entry now nat_ip port)"
proof -
  note kf = ct_key_fields [OF k]
  have l4: "l4_ports p off = Some (ck_proto k, ck_src_port k, ck_dst_port k)" using kf by blast
  have len: "off + 20 \<le> length p" using l4_ports_bound [OF l4] .
  have proto: "ck_proto k = rd8 p (off + 9)" using l4_ports_proto [OF l4] .
  have src: "ck_src_ip k = rdn p (off + 12) 4" using kf by blast
  have i: "ihl_bytes p off = 20" using ihl by (rule ihl_bytes_5)
  let ?q = "ip_rewrite p off 12 nat_ip"
  have c: "rd16 (wrn p (off + 12) nat_ip) (off + 10) = rd16 p (off + 10)"
    by (intro rd16_wrn_other) simp
  have q: "wr16 (wrn p (off + 12) nat_ip) (off + 10)
      (csum_replace4 (rd16 (wrn p (off + 12) nat_ip) (off + 10)) (rdn p (off + 12) 4) nat_ip) = ?q"
    unfolding c ip_rewrite_def ..
  have r: "rd16 ?q (off + 20 + m) = rd16 p (off + 20 + m)" for m
    using nv by (intro rd16_ip_rewrite) auto
  have ap: "ct_applies p off (nat_fwd_entry now nat_ip port)"
    using len ihl by (simp add: ct_applies_def)
  have sport: "(ck_proto k = 6 \<or> ck_proto k = 17 \<longrightarrow> ck_src_port k = rd16 p (off + 20 + 2 * 0)) \<and>
      (ck_proto k = 1 \<longrightarrow> ck_src_port k = rd16 p (off + 20 + 2 * 2))"
    using l4 unfolding l4_ports_def Let_def i by (auto split: if_splits)
  show ?thesis
    using sport nv r [of 0]
    unfolding nat_rewrite_def Let_def i src q r ct_apply_factored [OF ap] proto l4_rewrite_def xlate_nat_fwd
    by auto
qed

text \<open>C38: The first packet of a NATed flow (no IP options), rewritten by the allocator's own code, is
  translated byte for byte as the later packets are by the conntrack entry it leaves behind.\<close>

theorem nat_first_packet_like_later:
  assumes "ct_key p off vni = Some k" "rd8 p off AND 0x0f = 5" "length nat_ip = 4" "port \<noteq> 0"
  shows "nat_rewrite p off (ck_proto k) (ck_src_ip k) (ck_src_port k) nat_ip port =
    ct_apply p off (nat_fwd_entry now nat_ip port)"
  using assms by (rule nat_rewrite_ct_apply)

section \<open>Instances\<close>

text \<open>Guest 10.0.0.1 of VNI 100 with ten ports of 203.0.113.5.\<close>

definition sample_nat_value :: NatValue where
  "sample_nat_value = \<lparr>nv_nat_ipv4 = [203, 0, 113, 5], nv_port_min = 1024, nv_port_max = 1034\<rparr>"

definition sample_nat :: maps where
  "sample_nat = fresh_maps\<lparr>NAT := \<lparr>max_entries = 1024, entries =
     [(\<lparr>nk_vni = 100, nk_ipv4 = [10, 0, 0, 1]\<rparr>, sample_nat_value)]\<rparr>\<rparr>"

definition sample_key :: CtKey where
  "sample_key = \<lparr>ck_vni = 100, ck_src_ip = [10, 0, 0, 1], ck_dst_ip = [10, 0, 0, 2],
     ck_src_port = 12345, ck_dst_port = 80, ck_proto = 6\<rparr>"

lemma ct_key_sample: "ct_key sample_syn 14 100 = Some sample_key"
  by (simp add: ct_key_def l4_ports_def ihl_bytes_def sample_syn_def sample_key_def packet_eval)

lemma sample_nat_get:
  "hget (NAT sample_nat) \<lparr>nk_vni = 100, nk_ipv4 = ck_src_ip sample_key\<rparr> = Some sample_nat_value"
  by (simp add: sample_nat_def hget_def sample_key_def)

lemma sample_nat_ct: "CONNTRACK sample_nat k = None"
  by (simp add: sample_nat_def fresh_maps_def)

theorem nat_alloc_spec_witness:
  "\<exists>port p' s'. nat_snat_egress 7 sample_syn 14 100 True sample_nat = (True, p', s') \<and>
     1024 \<le> port \<and> port < 1034 \<and>
     CONNTRACK s' sample_key = Some (nat_fwd_entry 7 [203, 0, 113, 5] port) \<and>
     CONNTRACK s' (nat_rev_key 100 [203, 0, 113, 5] port 6) = Some (nat_rev_entry 7 [10, 0, 0, 1] 12345)"
proof -
  have new: "\<not> has_snat sample_nat sample_key" by (simp add: has_snat_def sample_nat_ct)
  have ip: "ck_src_ip sample_key \<noteq> [0, 0, 0, 0]" by (simp add: sample_key_def)
  have rng: "nv_port_min sample_nat_value < nv_port_max sample_nat_value" by (simp add: sample_nat_value_def)
  from nat_alloc_spec [OF ct_key_sample ip sample_nat_get rng new, of 7]
  show ?thesis
    by (auto simp: sample_nat_ct sample_nat_value_def sample_key_def)
qed

theorem nat_first_packet_like_later_witness:
  "nat_rewrite sample_syn 14 (ck_proto sample_key) (ck_src_ip sample_key) (ck_src_port sample_key)
     [203, 0, 113, 5] 1030 = ct_apply sample_syn 14 (nat_fwd_entry 7 [203, 0, 113, 5] 1030)"
  by (rule nat_first_packet_like_later [OF ct_key_sample]) (simp_all add: sample_syn_def packet_eval)

end
