(* ===== verification/Encap.thy ===== *)
theory Encap
  imports Parse
begin

text \<open>
  Overlay encapsulation, \<^verbatim>\<open>xdp-dp-ebpf/src/encap.rs\<close>: writing the outer Ethernet and IPv6
  headers in front of an inner packet, and re-forwarding an encapsulated packet to another
  underlay address. A \<^verbatim>\<open>Result<u32, ()>\<close> is \<open>unit + xdp_action\<close>.
\<close>

record EncapParams =
  ep_gateway_mac :: bytes
  ep_uplink_mac :: bytes
  ep_uplink_ifindex :: u32
  ep_src_underlay :: bytes
  ep_nexthop_ipv6 :: bytes
  ep_inner_len :: u16
  ep_inner_proto :: u8

section \<open>Definitions\<close>

definition write_outer_v6 :: "bytes \<Rightarrow> EncapParams \<Rightarrow> bytes option" where
  "write_outer_v6 p e =
     (if ETH_LEN + IPV6_LEN > length p then None
      else
        let p = wrn p 0 (ep_gateway_mac e);
            p = wrn p 6 (ep_uplink_mac e);
            p = wr16 p 12 ETH_P_IPV6;
            ip = ETH_LEN;
            p = wr8 p (ip + 0) 0x60;
            p = wr8 p (ip + 1) 0;
            p = wr8 p (ip + 2) 0;
            p = wr8 p (ip + 3) 0;
            p = wr16 p (ip + 4) (ep_inner_len e);
            p = wr8 p (ip + 6) (ep_inner_proto e);
            p = wr8 p (ip + 7) 64;
            p = wrn p (ip + 8) (ep_src_underlay e);
            p = wrn p (ip + 24) (ep_nexthop_ipv6 e)
        in Some p)"

definition encap_and_redirect ::
  "xdp_ctx \<Rightarrow> Local \<Rightarrow> bytes \<Rightarrow> RouteValue \<Rightarrow> u16 \<Rightarrow> u8 \<Rightarrow> (unit + xdp_action) \<times> xdp_ctx" where
  "encap_and_redirect ctx local src_underlay route inner_len inner_proto =
     (case adjust_head_grow ctx IPV6_LEN of
        None \<Rightarrow> (Inl (), ctx)
      | Some ctx \<Rightarrow>
          let e = \<lparr>ep_gateway_mac = lo_gateway_mac local, ep_uplink_mac = lo_uplink_mac local,
                   ep_uplink_ifindex = lo_uplink_ifindex local, ep_src_underlay = src_underlay,
                   ep_nexthop_ipv6 = rv_nexthop_ipv6 route, ep_inner_len = inner_len,
                   ep_inner_proto = inner_proto\<rparr>
          in case write_outer_v6 (pkt ctx) e of
               Some p \<Rightarrow> (Inr (XDP_REDIRECT (ep_uplink_ifindex e)), ctx\<lparr>pkt := p\<rparr>)
             | None \<Rightarrow> (Inl (), ctx))"

definition reforward :: "xdp_ctx \<Rightarrow> Local \<Rightarrow> bytes \<Rightarrow> bytes \<Rightarrow> xdp_action \<times> xdp_ctx" where
  "reforward ctx local lb_underlay backend =
     (if ETH_LEN + IPV6_LEN > length (pkt ctx) then (XDP_DROP, ctx)
      else
        let p = pkt ctx;
            p = wrn p 0 (lo_gateway_mac local);
            p = wrn p 6 (lo_uplink_mac local);
            p = wrn p (ETH_LEN + 8) lb_underlay;
            p = wrn p (ETH_LEN + 24) backend
        in (XDP_REDIRECT (lo_uplink_ifindex local), ctx\<lparr>pkt := p\<rparr>))"

section \<open>Facts\<close>

definition encap_wf :: "EncapParams \<Rightarrow> bool" where
  "encap_wf e = (length (ep_gateway_mac e) = 6 \<and> length (ep_uplink_mac e) = 6 \<and>
     length (ep_src_underlay e) = 16 \<and> length (ep_nexthop_ipv6 e) = 16)"

lemma write_outer_v6_frame:
  "write_outer_v6 p e = Some q \<Longrightarrow> encap_wf e \<Longrightarrow> length q = length p \<and> drop 54 q = drop 54 p"
proof -
  assume w: "write_outer_v6 p e = Some q" and wf: "encap_wf e"
  have len: "length q = length p" using w by (auto simp: write_outer_v6_def Let_def split: if_splits)
  moreover have "rd8 q i = rd8 p i" if "54 \<le> i" for i
    using w wf that by (auto simp: write_outer_v6_def Let_def encap_wf_def pkt split: if_splits)
  ultimately have "drop 54 q = drop 54 p"
    by (intro nth_equalityI) (simp_all, metis add.commute diff_diff_cancel le_add2 less_diff_conv rd8_def)
  with len show ?thesis by simp
qed

lemma write_outer_v6_fields:
  assumes w: "write_outer_v6 p e = Some q" and wf: "encap_wf e"
  shows "rdn q 0 6 = ep_gateway_mac e" "rdn q 6 6 = ep_uplink_mac e" "rd16 q 12 = ETH_P_IPV6"
    "rd8 q 14 = 0x60" "rd16 q 18 = ep_inner_len e" "rd8 q 20 = ep_inner_proto e"
    "rdn q 22 16 = ep_src_underlay e" "rdn q 38 16 = ep_nexthop_ipv6 e"
  using w wf
  by (auto simp: write_outer_v6_def Let_def encap_wf_def rd16_def pkt split: if_splits)

end
