(* ===== verification/Arp_Nd.thy ===== *)
theory Arp_Nd
  imports Parse Csum
begin

text \<open>
  The ARP and Neighbor Discovery responders: module \<^verbatim>\<open>arp_nd\<close> of \<^verbatim>\<open>xdp-dp-common/src/lib.rs\<close>
  and the XDP glue of \<^verbatim>\<open>xdp-dp-ebpf/src/arp_nd.rs\<close>. A responder that rewrites the frame in
  place and returns true is \<open>Some\<close> of the new frame.
\<close>

abbreviation (input) ETH_P_ARP :: u16 where "ETH_P_ARP \<equiv> 0x0806"
abbreviation (input) ARP_LEN :: nat where "ARP_LEN \<equiv> 28"
abbreviation (input) ND_NS :: u8 where "ND_NS \<equiv> 135"
abbreviation (input) ND_NA :: u8 where "ND_NA \<equiv> 136"

definition GW_MAC :: bytes where
  "GW_MAC = [0x02, 0x00, 0x00, 0x00, 0x00, 0x01]"

section \<open>Definitions\<close>

text \<open>The pseudo header sum: both IPv6 addresses word by word, the length and the protocol.\<close>

definition nd_pseudo_sum :: "bytes \<Rightarrow> nat \<Rightarrow> u32" where
  "nd_pseudo_sum p ip =
     (let sum = foldl (\<lambda>sum k. sum + ucast (rd16 p (ip + 8 + k)) + ucast (rd16 p (ip + 24 + k))) 0
                  [0, 2, 4, 6, 8, 10, 12, 14]
      in sum + 32 + ucast IPPROTO_ICMPV6)"

definition try_write_nd_reply :: "bytes \<Rightarrow> bytes \<Rightarrow> bytes \<Rightarrow> bytes option" where
  "try_write_nd_reply p gateway_ipv6 reply_mac =
     (if ETH_LEN + IPV6_LEN + 32 > length p then None
      else if rd16 p 12 \<noteq> ETH_P_IPV6 then None
      else
        let ip = ETH_LEN
        in if rd8 p (ip + 6) \<noteq> IPPROTO_ICMPV6 then None
           else
             let icmp = ETH_LEN + IPV6_LEN
             in if rd8 p icmp \<noteq> ND_NS then None
                else if rdn p (icmp + 8) 16 \<noteq> gateway_ipv6 then None
                else
                  let req_mac = rdn p 6 6;
                      req_src = rdn p (ip + 8) 16;
                      gw_mac = reply_mac;
                      p = wrn p 0 req_mac;
                      p = wrn p 6 gw_mac;
                      p = wrn p (ip + 8) gateway_ipv6;
                      p = wrn p (ip + 24) req_src;
                      p = wr8 p (ip + 7) 255;
                      p = wr16 p (ip + 4) 32;
                      p = wr8 p icmp ND_NA;
                      p = wr8 p (icmp + 1) 0;
                      p = wr16 p (icmp + 2) 0;
                      p = wr8 p (icmp + 4) 0x60;
                      p = wr8 p (icmp + 5) 0;
                      p = wr8 p (icmp + 6) 0;
                      p = wr8 p (icmp + 7) 0;
                      p = wr8 p (icmp + 24) 2;
                      p = wr8 p (icmp + 25) 1;
                      p = wrn p (icmp + 26) gw_mac;
                      sum = nd_pseudo_sum p ip;
                      cks = csum16 sum (rdn p icmp 32)
                  in Some (wr16 p (icmp + 2) cks))"

definition try_write_arp_reply :: "bytes \<Rightarrow> bytes \<Rightarrow> bytes \<Rightarrow> bytes option" where
  "try_write_arp_reply p gateway_ipv4 reply_mac =
     (if ETH_LEN + ARP_LEN > length p then None
      else if rd16 p 12 \<noteq> ETH_P_ARP then None
      else
        let arp = ETH_LEN
        in if rd16 p (arp + 6) \<noteq> 1 then None
           else if rdn p (arp + 24) 4 \<noteq> gateway_ipv4 then None
           else
             let sender_mac = rdn p (arp + 8) 6;
                 spa = rdn p (arp + 14) 4;
                 p = wrn p 0 sender_mac;
                 p = wrn p 6 reply_mac;
                 p = wr16 p (arp + 6) 2;
                 p = wrn p (arp + 8) reply_mac;
                 p = wrn p (arp + 14) gateway_ipv4;
                 p = wrn p (arp + 18) sender_mac;
                 p = wrn p (arp + 24) spa
             in Some p)"

definition reflect :: "xdp_ctx \<Rightarrow> xdp_action" where
  "reflect ctx = XDP_REDIRECT (ingress_ifindex ctx)"

definition try_arp_reply :: "xdp_ctx \<Rightarrow> PortMeta \<Rightarrow> (xdp_action \<times> xdp_ctx) option" where
  "try_arp_reply ctx meta =
     (case try_write_arp_reply (pkt ctx) (pm_gateway_ipv4 meta) (pm_guest_mac meta) of
        Some p \<Rightarrow> Some (reflect ctx, ctx\<lparr>pkt := p\<rparr>)
      | None \<Rightarrow> None)"

definition try_nd_reply :: "xdp_ctx \<Rightarrow> PortMeta \<Rightarrow> (xdp_action \<times> xdp_ctx) option" where
  "try_nd_reply ctx meta =
     (case try_write_nd_reply (pkt ctx) (pm_gateway_ipv6 meta) (pm_guest_mac meta) of
        Some p \<Rightarrow> Some (reflect ctx, ctx\<lparr>pkt := p\<rparr>)
      | None \<Rightarrow> None)"

section \<open>ARP\<close>

text \<open>C31: ARP. A frame is answered exactly when it is an ARP request for the gateway's IPv4
  address. The answer is an ARP reply of the same length, sent to the asker, that binds the
  gateway address to the reply MAC and carries the asker's addresses as target; the fixed ARP
  header fields and everything after the ARP body are unchanged.\<close>

theorem arp_reply_spec:
  assumes "length gw = 4" and "length mac = 6"
  shows "(try_write_arp_reply p gw mac = None \<longleftrightarrow>
     \<not> (42 \<le> length p \<and> rd16 p 12 = ETH_P_ARP \<and> rd16 p 20 = 1 \<and> rdn p 38 4 = gw)) \<and>
   (\<forall>q. try_write_arp_reply p gw mac = Some q \<longrightarrow>
     length q = length p \<and> rdn q 0 6 = rdn p 22 6 \<and> rdn q 6 6 = mac \<and> rd16 q 12 = ETH_P_ARP \<and>
     rdn q 14 6 = rdn p 14 6 \<and> rd16 q 20 = 2 \<and> rdn q 22 6 = mac \<and> rdn q 28 4 = gw \<and>
     rdn q 32 6 = rdn p 22 6 \<and> rdn q 38 4 = rdn p 28 4 \<and> (\<forall>i. 42 \<le> i \<longrightarrow> rd8 q i = rd8 p i))"
proof (intro conjI allI impI)
  show "try_write_arp_reply p gw mac = None \<longleftrightarrow>
     \<not> (42 \<le> length p \<and> rd16 p 12 = ETH_P_ARP \<and> rd16 p 20 = 1 \<and> rdn p 38 4 = gw)"
    by (auto simp: try_write_arp_reply_def Let_def)
qed (use assms in \<open>auto simp: try_write_arp_reply_def Let_def pkt split: if_splits\<close>)

definition sample_arp :: bytes where
  "sample_arp = [255, 255, 255, 255, 255, 255, 82, 84, 0, 0, 0, 2, 8, 6,
     0, 1, 8, 0, 6, 4, 0, 1, 82, 84, 0, 0, 0, 2, 10, 0, 0, 2, 0, 0, 0, 0, 0, 0, 10, 0, 0, 1]"

theorem arp_reply_spec_witness:
  "\<exists>q. try_write_arp_reply sample_arp [10, 0, 0, 1] [102, 0, 0, 0, 0, 1] = Some q \<and>
     rdn q 28 4 = [10, 0, 0, 1] \<and> rdn q 22 6 = [102, 0, 0, 0, 0, 1]"
proof -
  have "42 \<le> length sample_arp \<and> rd16 sample_arp 12 = ETH_P_ARP \<and> rd16 sample_arp 20 = 1 \<and>
      rdn sample_arp 38 4 = [10, 0, 0, 1]"
    by (simp add: sample_arp_def packet_eval)
  then show ?thesis
    using arp_reply_spec [of "[10, 0, 0, 1]" "[102, 0, 0, 0, 0, 1]" sample_arp] by auto
qed

section \<open>Neighbor Discovery\<close>

lemma unat_foldl_words:
  fixes f g :: "nat \<Rightarrow> u16" and s0 :: u32
  shows "unat s0 + length ks * 131070 < 2 ^ 32 \<Longrightarrow>
     unat (foldl (\<lambda>s k. s + ucast (f k) + ucast (g k)) s0 ks) =
       unat s0 + sum_list (map (\<lambda>k. unat (f k) + unat (g k)) ks)"
proof (induction ks arbitrary: s0)
  case (Cons k ks)
  let ?s = "s0 + ucast (f k) + ucast (g k) :: u32"
  have p: "unat s0 + 131070 + length ks * 131070 < 4294967296" using Cons.prems by simp
  then have "unat s0 + unat (f k) + unat (g k) < 4294967296"
    using unat_le16 [of "f k"] unat_le16 [of "g k"] by linarith
  then have e: "unat ?s = unat s0 + unat (f k) + unat (g k)" by (simp add: unat_add_small)
  then have "unat ?s + length ks * 131070 < 4294967296"
    using p unat_le16 [of "f k"] unat_le16 [of "g k"] by linarith
  with Cons.IH [of ?s] show ?case by (simp add: e)
qed simp

lemma unat_nd_pseudo_sum: "unat (nd_pseudo_sum p ip) = wsum p (ip + 8) 16 + 90"
proof -
  let ?ks = "[0, 2, 4, 6, 8, 10, 12, 14] :: nat list"
  define s where "s = foldl (\<lambda>s k. s + ucast (rd16 p (ip + 8 + k)) + ucast (rd16 p (ip + 24 + k))) (0 :: u32) ?ks"
  have "unat s = unat (0 :: u32) +
      sum_list (map (\<lambda>k. unat (rd16 p (ip + 8 + k)) + unat (rd16 p (ip + 24 + k))) ?ks)"
    unfolding s_def by (rule unat_foldl_words) simp
  then have s: "unat s = wsum p (ip + 8) 16" by (simp add: wsum_numeral wsum_small add.commute)
  have "wsum p (ip + 8) 16 \<le> (\<Sum>k < 16 :: nat. 65535)" unfolding wsum_def by (rule sum_mono) simp
  then have b: "unat s + 90 < 4294967296" unfolding s by simp
  have "nd_pseudo_sum p ip = s + 90" by (simp add: nd_pseudo_sum_def Let_def s_def)
  then show ?thesis using b by (simp add: unat_add_small s)
qed

text \<open>The frame just before the checksum is stored.\<close>

lemma nd_reply_cases:
  assumes r: "try_write_nd_reply p gw mac = Some q" and len: "length gw = 16" "length mac = 6"
  obtains p' where "q = wr16 p' 56 (csum16 (nd_pseudo_sum p' 14) (rdn p' 54 32))"
    "length p' = length p" "rd16 p' 56 = 0" "rdn p' 0 6 = rdn p 6 6" "rdn p' 6 6 = mac"
    "rdn p' 22 16 = gw" "rdn p' 38 16 = rdn p 22 16" "rd8 p' 54 = ND_NA" "rd8 p' 58 = 0x60"
    "rdn p' 62 16 = gw" "rd16 p' 78 = 0x0201" "rdn p' 80 6 = mac" "86 \<le> length p" "rd16 p' 12 = ETH_P_IPV6"
    "rd8 p' 20 = IPPROTO_ICMPV6" "rd8 p' 21 = 255" "rd16 p' 18 = 32" "rd8 p' 55 = 0"
proof -
  have g: "86 \<le> length p" "rd16 p 12 = ETH_P_IPV6" "rd8 p 20 = IPPROTO_ICMPV6" "rdn p 62 16 = gw"
    using r by (auto simp: try_write_nd_reply_def Let_def split: if_splits)
  let ?p1 = "wr16 (wr8 (wrn (wrn (wrn (wrn p 0 (rdn p 6 6)) 6 mac) 22 gw) 38 (rdn p 22 16)) 21 255) 18 32"
  let ?p2 = "wr8 (wr8 (wr8 (wr8 (wr16 (wr8 (wr8 ?p1 54 ND_NA) 55 0) 56 0) 58 0x60) 59 0) 60 0) 61 0"
  let ?p' = "wrn (wr8 (wr8 ?p2 78 2) 79 1) 80 mac"
  have "q = wr16 ?p' 56 (csum16 (nd_pseudo_sum ?p' 14) (rdn ?p' 54 32))"
    using r by (auto simp: try_write_nd_reply_def Let_def split: if_splits)
  then show thesis
    by (rule that) (use g len in \<open>simp_all add: pkt, simp_all add: rd16_def be16_def pkt\<close>)
qed

lemma nd_reply_fields:
  assumes r: "try_write_nd_reply p gw mac = Some q" and len: "length gw = 16" "length mac = 6"
  shows "length q = length p \<and> rdn q 0 6 = rdn p 6 6 \<and> rdn q 6 6 = mac \<and> rd16 q 12 = ETH_P_IPV6 \<and>
    rd16 q 18 = 32 \<and> rd8 q 20 = IPPROTO_ICMPV6 \<and> rd8 q 21 = 255 \<and> rdn q 22 16 = gw \<and>
    rdn q 38 16 = rdn p 22 16 \<and> rd8 q 54 = ND_NA \<and> rd8 q 55 = 0 \<and> rd8 q 58 = 0x60 \<and> rdn q 62 16 = gw \<and>
    rd16 q 78 = 0x0201 \<and> rdn q 80 6 = mac \<and> csum_ok (wsum q 22 16 + 32 + 58 + wsum q 54 16)"
proof -
  obtain p' where p': "q = wr16 p' 56 (csum16 (nd_pseudo_sum p' 14) (rdn p' 54 32))"
    "length p' = length p" "rd16 p' 56 = 0" "rdn p' 0 6 = rdn p 6 6" "rdn p' 6 6 = mac"
    "rdn p' 22 16 = gw" "rdn p' 38 16 = rdn p 22 16" "rd8 p' 54 = ND_NA" "rd8 p' 58 = 0x60"
    "rdn p' 62 16 = gw" "rd16 p' 78 = 0x0201" "rdn p' 80 6 = mac" "86 \<le> length p" "rd16 p' 12 = ETH_P_IPV6"
    "rd8 p' 20 = IPPROTO_ICMPV6" "rd8 p' 21 = 255" "rd16 p' 18 = 32" "rd8 p' 55 = 0"
    using nd_reply_cases [OF assms] by metis
  let ?s = "nd_pseudo_sum p' 14" and ?c = "csum16 (nd_pseudo_sum p' 14) (rdn p' 54 32)"
  have ps: "unat ?s = wsum p' 22 16 + 90" using unat_nd_pseudo_sum [of p' 14] by simp
  have bs: "bsum (rdn p' 54 32) = wsum p' 54 16" using bsum_rdn [of p' 54 16] by simp
  have le: "wsum p' i 16 \<le> 1048560" for i
  proof -
    have "wsum p' i 16 \<le> (\<Sum>k < 16 :: nat. 65535)" unfolding wsum_def by (rule sum_mono) simp
    then show ?thesis by simp
  qed
  have "unat ?s + bsum (rdn p' 54 32) < 2 ^ 32" unfolding ps bs using le [of 22] le [of 54] by simp
  from csum16_valid [OF this] have "csum_ok (wsum p' 22 16 + 90 + wsum p' 54 16 + unat ?c)"
    by (simp add: ps bs)
  moreover have w: "wsum q 54 16 = wsum p' 54 16 + unat ?c"
    using wsum_wr16_in [of 1 16 54 p' ?c] p'(1-3,13) by simp
  moreover have "wsum q 22 16 = wsum p' 22 16" unfolding p'(1) by (simp add: wsum_wr16_out)
  then have "wsum p' 22 16 + 90 + wsum p' 54 16 + unat ?c = wsum q 22 16 + 32 + 58 + wsum q 54 16"
    using w by linarith
  ultimately have "csum_ok (wsum q 22 16 + 32 + 58 + wsum q 54 16)" by simp
  moreover have "length q = length p" "rdn q 0 6 = rdn p 6 6" "rdn q 6 6 = mac" "rd16 q 12 = ETH_P_IPV6"
    "rd16 q 18 = 32" "rd8 q 20 = IPPROTO_ICMPV6" "rd8 q 21 = 255" "rdn q 22 16 = gw"
    "rdn q 38 16 = rdn p 22 16" "rd8 q 54 = ND_NA" "rd8 q 55 = 0" "rd8 q 58 = 0x60" "rdn q 62 16 = gw"
    "rd16 q 78 = 0x0201" "rdn q 80 6 = mac"
    unfolding p'(1) by (simp_all add: pkt p'(2-18))
  ultimately show ?thesis by blast
qed

text \<open>C32: Neighbor Discovery. A frame is answered exactly when it is a Neighbor Solicitation
  for the gateway's IPv6 address (an IPv6 frame of at least 86 bytes, ICMPv6, type 135). The
  answer is a Neighbor Advertisement of the same length from the reply MAC and the gateway
  address to the asker, for the same target, with the link-layer option set, and the ICMPv6
  checksum over pseudo header and message is valid.\<close>

theorem nd_reply_spec:
  assumes len: "length gw = 16" "length mac = 6"
  shows "(try_write_nd_reply p gw mac = None \<longleftrightarrow>
      \<not> (86 \<le> length p \<and> rd16 p 12 = ETH_P_IPV6 \<and> rd8 p 20 = IPPROTO_ICMPV6 \<and> rd8 p 54 = ND_NS \<and>
         rdn p 62 16 = gw)) \<and>
    (\<forall>q. try_write_nd_reply p gw mac = Some q \<longrightarrow>
      length q = length p \<and> rdn q 0 6 = rdn p 6 6 \<and> rdn q 6 6 = mac \<and> rd16 q 12 = ETH_P_IPV6 \<and>
      rd16 q 18 = 32 \<and> rd8 q 20 = IPPROTO_ICMPV6 \<and> rd8 q 21 = 255 \<and> rdn q 22 16 = gw \<and>
      rdn q 38 16 = rdn p 22 16 \<and> rd8 q 54 = ND_NA \<and> rd8 q 55 = 0 \<and> rd8 q 58 = 0x60 \<and> rdn q 62 16 = gw \<and>
      rd16 q 78 = 0x0201 \<and> rdn q 80 6 = mac \<and> csum_ok (wsum q 22 16 + 32 + 58 + wsum q 54 16))"
proof (intro conjI allI impI)
  show "try_write_nd_reply p gw mac = None \<longleftrightarrow>
      \<not> (86 \<le> length p \<and> rd16 p 12 = ETH_P_IPV6 \<and> rd8 p 20 = IPPROTO_ICMPV6 \<and> rd8 p 54 = ND_NS \<and>
         rdn p 62 16 = gw)"
    by (auto simp: try_write_nd_reply_def Let_def)
qed (use nd_reply_fields [OF _ len] in blast)+

text \<open>A solicitation for fe80::1 from 52:54:00:00:00:02.\<close>

definition sample_gw6 :: bytes where
  "sample_gw6 = [0xfe, 0x80, 0, 0, 0, 0, 0, 0, 0, 0, 0, 0, 0, 0, 0, 1]"

definition sample_ns :: bytes where
  "sample_ns = [51, 51, 255, 0, 0, 1, 82, 84, 0, 0, 0, 2, 0x86, 0xdd] @
     [0x60, 0, 0, 0, 0, 32, 58, 255] @ [0xfe, 0x80, 0, 0, 0, 0, 0, 0, 0, 0, 0, 0, 0, 0, 0, 2] @
     [0xff, 2, 0, 0, 0, 0, 0, 0, 0, 0, 0, 1, 255, 0, 0, 1] @ [135, 0, 0, 0, 0, 0, 0, 0] @ sample_gw6 @
     [1, 1, 82, 84, 0, 0, 0, 2]"

lemma sample_ns_target: "rdn sample_ns 62 16 = sample_gw6"
  by (simp add: rdn_eq_take_drop sample_ns_def sample_gw6_def)

theorem nd_reply_spec_witness:
  "\<exists>q. try_write_nd_reply sample_ns sample_gw6 [102, 0, 0, 0, 0, 1] = Some q \<and> rd8 q 54 = ND_NA \<and>
     rdn q 22 16 = sample_gw6 \<and> csum_ok (wsum q 22 16 + 32 + 58 + wsum q 54 16)"
proof -
  have "86 \<le> length sample_ns \<and> rd16 sample_ns 12 = ETH_P_IPV6 \<and> rd8 sample_ns 20 = IPPROTO_ICMPV6 \<and>
      rd8 sample_ns 54 = ND_NS \<and> rdn sample_ns 62 16 = sample_gw6"
    by (simp add: sample_ns_target) (simp add: sample_ns_def sample_gw6_def packet_eval)
  moreover have "length sample_gw6 = 16" "length [102, 0, 0, 0, 0, 1 :: u8] = 6"
    by (simp_all add: sample_gw6_def)
  ultimately show ?thesis
    using nd_reply_spec [of sample_gw6 "[102, 0, 0, 0, 0, 1]" sample_ns] by auto
qed

end
