(* ===== verification/Nat64.thy ===== *)
theory Nat64
  imports Snat Encap Arp_Nd
begin

text \<open>
  NAT64, \<^verbatim>\<open>xdp-dp-ebpf/src/nat64.rs\<close>: translation of guest IPv6 packets to 64:ff9b::/96 into
  NATed IPv4 packets and of the replies back. This theory holds the checksum helpers and both
  XDP translations; the tc variant is in theory \<open>Tc\<close>. Checksums and ports are host-order values
  here, so the source's \<^verbatim>\<open>to_be\<close>/\<^verbatim>\<open>from_be\<close> pairs around raw reads and writes disappear.
\<close>

abbreviation (input) ICMPV6_ECHO_REQUEST :: u8 where "ICMPV6_ECHO_REQUEST \<equiv> 128"
abbreviation (input) ICMPV6_ECHO_REPLY :: u8 where "ICMPV6_ECHO_REPLY \<equiv> 129"
abbreviation (input) ICMP_ECHO_REQUEST :: u8 where "ICMP_ECHO_REQUEST \<equiv> 8"

section \<open>Addresses\<close>

definition NAT64_PFX :: bytes where
  "NAT64_PFX = [0x00, 0x64, 0xff, 0x9b, 0, 0, 0, 0, 0, 0, 0, 0]"

definition is_nat64_addr :: "bytes \<Rightarrow> bool" where
  "is_nat64_addr a =
     (a ! 0 = NAT64_PFX ! 0 \<and> a ! 1 = NAT64_PFX ! 1 \<and> a ! 2 = NAT64_PFX ! 2 \<and> a ! 3 = NAT64_PFX ! 3 \<and>
      a ! 4 = NAT64_PFX ! 4 \<and> a ! 5 = NAT64_PFX ! 5 \<and> a ! 6 = NAT64_PFX ! 6 \<and> a ! 7 = NAT64_PFX ! 7 \<and>
      a ! 8 = NAT64_PFX ! 8 \<and> a ! 9 = NAT64_PFX ! 9 \<and> a ! 10 = NAT64_PFX ! 10 \<and> a ! 11 = NAT64_PFX ! 11)"

definition nat64_embed :: "bytes \<Rightarrow> bytes" where
  "nat64_embed ipv4 = [0x00, 0x64, 0xff, 0x9b, 0, 0, 0, 0, 0, 0, 0, 0, ipv4 ! 0, ipv4 ! 1, ipv4 ! 2, ipv4 ! 3]"

section \<open>Checksum helpers\<close>

definition csum_fold :: "u32 \<Rightarrow> u16" where
  "csum_fold s = NOT (fold2 s)"

definition csum_add16 :: "u32 \<Rightarrow> u8 \<Rightarrow> u8 \<Rightarrow> u32" where
  "csum_add16 s hi lo = s + (push_bit 8 (ucast hi) OR ucast lo)"

definition ipv4_hdr_checksum :: "bytes \<Rightarrow> u16" where
  "ipv4_hdr_checksum h =
     (let s = 0;
          s = csum_add16 s (h ! 0) (h ! 1);
          s = csum_add16 s (h ! 2) (h ! 3);
          s = csum_add16 s (h ! 4) (h ! 5);
          s = csum_add16 s (h ! 6) (h ! 7);
          s = csum_add16 s (h ! 8) (h ! 9);
          s = csum_add16 s (h ! 10) (h ! 11);
          s = csum_add16 s (h ! 12) (h ! 13);
          s = csum_add16 s (h ! 14) (h ! 15);
          s = csum_add16 s (h ! 16) (h ! 17);
          s = csum_add16 s (h ! 18) (h ! 19)
      in csum_fold s)"

definition icmpv4_echo_checksum :: "bytes \<Rightarrow> u16" where
  "icmpv4_echo_checksum h =
     (let s = 0;
          s = csum_add16 s (h ! 0) (h ! 1);
          s = csum_add16 s (h ! 2) (h ! 3);
          s = csum_add16 s (h ! 4) (h ! 5);
          s = csum_add16 s (h ! 6) (h ! 7)
      in csum_fold s)"

definition csum_add_addr16 :: "u32 \<Rightarrow> bytes \<Rightarrow> u32" where
  "csum_add_addr16 s a =
     (let s = csum_add16 s (a ! 0) (a ! 1);
          s = csum_add16 s (a ! 2) (a ! 3);
          s = csum_add16 s (a ! 4) (a ! 5);
          s = csum_add16 s (a ! 6) (a ! 7);
          s = csum_add16 s (a ! 8) (a ! 9);
          s = csum_add16 s (a ! 10) (a ! 11);
          s = csum_add16 s (a ! 12) (a ! 13);
          s = csum_add16 s (a ! 14) (a ! 15)
      in s)"

definition icmpv6_echo_checksum :: "bytes \<Rightarrow> bytes \<Rightarrow> bytes \<Rightarrow> u16" where
  "icmpv6_echo_checksum src dst h =
     (let s = csum_add_addr16 0 src;
          s = csum_add_addr16 s dst;
          s = csum_add16 s 0 8;
          s = csum_add16 s 0 IPPROTO_ICMPV6;
          s = csum_add16 s (h ! 0) (h ! 1);
          s = csum_add16 s (h ! 2) (h ! 3);
          s = csum_add16 s (h ! 4) (h ! 5);
          s = csum_add16 s (h ! 6) (h ! 7)
      in csum_fold s)"

definition pseudo_v4 :: "bytes \<Rightarrow> bytes \<Rightarrow> u8 \<Rightarrow> u16 \<Rightarrow> u32" where
  "pseudo_v4 src dst proto l4_len =
     (let s = 0;
          s = csum_add16 s (src ! 0) (src ! 1);
          s = csum_add16 s (src ! 2) (src ! 3);
          s = csum_add16 s (dst ! 0) (dst ! 1);
          s = csum_add16 s (dst ! 2) (dst ! 3);
          s = csum_add16 s 0 proto;
          s = csum_add16 s (hi8 l4_len) (lo8 l4_len)
      in fold_step (fold_step s))"

definition pseudo_v6 :: "bytes \<Rightarrow> bytes \<Rightarrow> u8 \<Rightarrow> u16 \<Rightarrow> u32" where
  "pseudo_v6 src dst proto l4_len =
     (let s = csum_add_addr16 0 src;
          s = csum_add_addr16 s dst;
          s = csum_add16 s 0 0;
          s = csum_add16 s (hi8 l4_len) (lo8 l4_len);
          s = csum_add16 s 0 proto
      in fold_step (fold_step s))"

definition tcp_udp_v6_to_v4 ::
  "u16 \<Rightarrow> bytes \<Rightarrow> bytes \<Rightarrow> bytes \<Rightarrow> bytes \<Rightarrow> u8 \<Rightarrow> u16 \<Rightarrow> u16 \<Rightarrow> u16 \<Rightarrow> u16" where
  "tcp_udp_v6_to_v4 cksum src6 dst6 src4 dst4 proto l4_len old_sport new_sport =
     (let s0 = ucast (NOT cksum) :: u32;
          pv6 = pseudo_v6 src6 dst6 proto l4_len;
          pv4 = pseudo_v4 src4 dst4 proto l4_len;
          old_sp = ucast (NOT old_sport);
          new_sp = ucast new_sport;
          s = s0 + ucast (ucast (NOT pv6) :: u16) + pv4 + old_sp + new_sp
      in NOT (fold2 s))"

definition tcp_udp_v4_to_v6 ::
  "u16 \<Rightarrow> bytes \<Rightarrow> bytes \<Rightarrow> bytes \<Rightarrow> bytes \<Rightarrow> u8 \<Rightarrow> u16 \<Rightarrow> u16" where
  "tcp_udp_v4_to_v6 cksum src4 dst4 src6 dst6 proto l4_len =
     (let s0 = ucast (NOT cksum) :: u32;
          pv4 = pseudo_v4 src4 dst4 proto l4_len;
          pv6 = pseudo_v6 src6 dst6 proto l4_len;
          s = s0 + ucast (ucast (NOT pv4) :: u16) + pv6
      in NOT (fold2 s))"

section \<open>Egress\<close>

text \<open>Protocol, ports and checksum of the transport header at offset 54.\<close>

definition nat64_l4 :: "bytes \<Rightarrow> u8 \<Rightarrow> (u8 \<times> u16 \<times> u16 \<times> u16) option" where
  "nat64_l4 p nh =
     (let l4 = ETH_LEN + IPV6_LEN
      in if nh = IPPROTO_ICMPV6
         then if l4 + 8 > length p then None
              else if rd8 p l4 \<noteq> ICMPV6_ECHO_REQUEST then None
              else let ident = rd16 p (l4 + 4); cksum = rd16 p (l4 + 2) in Some (IPPROTO_ICMP, ident, ident, cksum)
         else if nh = IPPROTO_TCP
         then if l4 + 20 > length p then None
              else Some (IPPROTO_TCP, rd16 p l4, rd16 p (l4 + 2), rd16 p (l4 + 16))
         else if nh = IPPROTO_UDP
         then if l4 + 8 > length p then None
              else Some (IPPROTO_UDP, rd16 p l4, rd16 p (l4 + 2), rd16 p (l4 + 6))
         else None)"

definition nat64_rev_entry :: "u64 \<Rightarrow> bytes \<Rightarrow> u16 \<Rightarrow> CtEntry" where
  "nat64_rev_entry now guest sport =
     \<lparr>ce_last_seen = now, ce_xlate_ip = guest, ce_xlate_port = sport,
      ce_flags = CT_REWRITE_DST OR CT_F_SRC_NAT OR CT_F_NAT64, ce_tcp_state = 0, ce_fwall_action = 0\<rparr>"

definition nat64_fwd_entry :: "u64 \<Rightarrow> bytes \<Rightarrow> u16 \<Rightarrow> CtEntry" where
  "nat64_fwd_entry now nat_ip port =
     \<lparr>ce_last_seen = now, ce_xlate_ip = nat_ip, ce_xlate_port = port,
      ce_flags = CT_REWRITE_SRC OR CT_F_SRC_NAT OR CT_F_NAT64, ce_tcp_state = 0, ce_fwall_action = 0\<rparr>"

definition nat64_port_for :: "u64 \<Rightarrow> NatValue \<Rightarrow> CtKey \<Rightarrow> u16 \<Rightarrow> maps \<Rightarrow> u16 \<times> maps" where
  "nat64_port_for now nv k rng s =
     (let alloc =
        (let start = ucast (hash5 (ck_src_ip k) (ck_dst_ip k) (ck_src_port k) (ck_dst_port k) (ck_proto k)
                              mod ucast rng);
             chosen = nv_port_min nv + start;
             (chosen, s) =
               (case nat_probe (CONNTRACK s) (ck_vni k) nv (ck_proto k) start rng 0 of
                  Some cand \<Rightarrow>
                    (cand, s\<lparr>CONNTRACK := (CONNTRACK s)
                       (nat_rev_key (ck_vni k) (nv_nat_ipv4 nv) cand (ck_proto k)
                          \<mapsto> nat64_rev_entry now (ck_src_ip k) (ck_src_port k))\<rparr>)
                | None \<Rightarrow> (chosen, s))
         in (chosen, s\<lparr>CONNTRACK := (CONNTRACK s)(k \<mapsto> nat64_fwd_entry now (nv_nat_ipv4 nv) chosen)\<rparr>))
      in case CONNTRACK s k of
           Some v \<Rightarrow> if ce_flags v AND CT_F_SRC_NAT \<noteq> 0 then (ce_xlate_port v, s) else alloc
         | None \<Rightarrow> alloc)"

text \<open>The IPv4 header, first with a zero checksum, then with the computed one.\<close>

definition nat64_ip4hdr :: "u16 \<Rightarrow> u8 \<Rightarrow> u8 \<Rightarrow> bytes \<Rightarrow> bytes \<Rightarrow> bytes" where
  "nat64_ip4hdr l4_len hop_limit proto src dst =
     (let total_len = 20 + l4_len;
          h = [0x45, 0, hi8 total_len, lo8 total_len, 0, 0, 0, 0, hop_limit, proto, 0, 0,
               src ! 0, src ! 1, src ! 2, src ! 3, dst ! 0, dst ! 1, dst ! 2, dst ! 3];
          chk = ipv4_hdr_checksum h
      in h[10 := hi8 chk, 11 := lo8 chk])"

text \<open>The transport header at \<open>l4\<close>; \<open>Inl\<close> is the error return, \<open>Inr None\<close> the fall-through.\<close>

definition nat64_l4_to_v4 ::
  "bytes \<Rightarrow> nat \<Rightarrow> u8 \<Rightarrow> u16 \<Rightarrow> bytes \<Rightarrow> bytes \<Rightarrow> bytes \<Rightarrow> bytes \<Rightarrow> u16 \<Rightarrow> u16 \<Rightarrow> u16 \<Rightarrow> unit + bytes option" where
  "nat64_l4_to_v4 p l4 proto old_ck ip6_src ip6_dst nat_ip ipv4_dst l4_len sport nat_port =
     (if proto = IPPROTO_ICMP
      then let seq = rd16 p (l4 + 6);
               icmp4 = [ICMP_ECHO_REQUEST, 0, 0, 0, hi8 nat_port, lo8 nat_port, hi8 seq, lo8 seq];
               chk = icmpv4_echo_checksum icmp4;
               p = wr8 p l4 ICMP_ECHO_REQUEST;
               p = wr8 p (l4 + 1) 0;
               p = wr16 p (l4 + 2) chk;
               p = wr16 p (l4 + 4) nat_port
           in Inr (Some p)
      else if proto = IPPROTO_TCP
      then if l4 + 20 > length p then Inl ()
           else let new_ck = tcp_udp_v6_to_v4 old_ck ip6_src ip6_dst nat_ip ipv4_dst IPPROTO_TCP l4_len sport nat_port;
                    p = wr16 p l4 nat_port;
                    p = wr16 p (l4 + 16) new_ck
                in Inr (Some p)
      else if proto = IPPROTO_UDP
      then if l4 + 8 > length p then Inl ()
           else let new_ck = tcp_udp_v6_to_v4 old_ck ip6_src ip6_dst nat_ip ipv4_dst IPPROTO_UDP l4_len sport nat_port;
                    p = wr16 p l4 nat_port;
                    p = wr16 p (l4 + 6) new_ck
                in Inr (Some p)
      else Inr None)"

definition nat64_egress ::
  "u64 \<Rightarrow> xdp_ctx \<Rightarrow> u32 \<Rightarrow> bytes \<Rightarrow> bytes \<Rightarrow> maps \<Rightarrow> (unit + xdp_action option) \<times> xdp_ctx \<times> maps" where
  "nat64_egress now ctx vni guest_ipv4 underlay_ipv6 s =
     (let p = pkt ctx
      in if ETH_LEN + IPV6_LEN + 8 > length p then (Inr None, ctx, s)
         else
           let ip6_dst = rdn p (ETH_LEN + 24) 16
           in if \<not> is_nat64_addr ip6_dst then (Inr None, ctx, s)
              else
                let ipv4_dst = [ip6_dst ! 12, ip6_dst ! 13, ip6_dst ! 14, ip6_dst ! 15]
                in case hget (NAT s) \<lparr>nk_vni = vni, nk_ipv4 = guest_ipv4\<rparr> of
                     None \<Rightarrow> (Inr None, ctx, s)
                   | Some nv \<Rightarrow>
                       let rng = nv_port_max nv - nv_port_min nv;
                           ip6_src = rdn p (ETH_LEN + 8) 16;
                           nh = rd8 p (ETH_LEN + 6);
                           l4_len = rd16 p (ETH_LEN + 4)
                       in if rng = 0 then (Inr None, ctx, s)
                          else if ETH_LEN + IPV6_LEN + unat l4_len > length p then (Inr None, ctx, s)
                          else case nat64_l4 p nh of
                                 None \<Rightarrow> (Inr None, ctx, s)
                               | Some (proto, sport, dport, old_ck) \<Rightarrow>
                                   let fwd_key = \<lparr>ck_vni = vni, ck_src_ip = guest_ipv4, ck_dst_ip = ipv4_dst,
                                         ck_src_port = sport, ck_dst_port = dport, ck_proto = proto\<rparr>;
                                       (nat_port, s) = nat64_port_for now nv fwd_key rng s;
                                       eth_dst = rdn p 0 6;
                                       eth_src = rdn p 6 6;
                                       hop_limit = rd8 p (ETH_LEN + 7)
                                   in case adjust_head_shrink ctx 20 of
                                        None \<Rightarrow> (Inl (), ctx, s)
                                      | Some ctx \<Rightarrow>
                                          if ETH_LEN + 20 + 8 > length (pkt ctx) then (Inl (), ctx, s)
                                          else
                                            let p = pkt ctx;
                                                p = wrn p 0 eth_dst;
                                                p = wrn p 6 eth_src;
                                                p = wr16 p 12 ETH_P_IP;
                                                p = wrn p ETH_LEN
                                                      (nat64_ip4hdr l4_len hop_limit proto (nv_nat_ipv4 nv) ipv4_dst);
                                                l4_off = ETH_LEN + 20
                                            in case nat64_l4_to_v4 p l4_off proto old_ck ip6_src ip6_dst
                                                      (nv_nat_ipv4 nv) ipv4_dst l4_len sport nat_port of
                                                 Inl _ \<Rightarrow> (Inl (), ctx\<lparr>pkt := p\<rparr>, s)
                                               | Inr None \<Rightarrow> (Inr None, ctx\<lparr>pkt := p\<rparr>, s)
                                               | Inr (Some p) \<Rightarrow>
                                                   let ctx = ctx\<lparr>pkt := p\<rparr>
                                                   in case route_lookup s vni ipv4_dst of
                                                        None \<Rightarrow> (Inr None, ctx, s)
                                                      | Some route \<Rightarrow>
                                                          let inner_len = of_nat (length p - ETH_LEN)
                                                          in case aget (LOCAL s) 0 of
                                                               None \<Rightarrow> (Inl (), ctx, s)
                                                             | Some loc \<Rightarrow>
                                                                 (case encap_and_redirect ctx loc underlay_ipv6 route
                                                                         inner_len IPPROTO_IPIP of
                                                                    (Inl _, ctx) \<Rightarrow> (Inl (), ctx, s)
                                                                  | (Inr act, ctx) \<Rightarrow> (Inr (Some act), ctx, s)))"

section \<open>Ingress\<close>

text \<open>The checksum field of the transport header, with its bounds check.\<close>

definition nat64_in_csum :: "bytes \<Rightarrow> nat \<Rightarrow> u8 \<Rightarrow> u16 option" where
  "nat64_in_csum p l4 proto =
     (if proto = IPPROTO_TCP then (if l4 + 20 > length p then None else Some (rd16 p (l4 + 16)))
      else if proto = IPPROTO_UDP then (if l4 + 8 > length p then None else Some (rd16 p (l4 + 6)))
      else if proto = IPPROTO_ICMP then (if l4 + 8 > length p then None else Some (rd16 p (l4 + 2)))
      else None)"

definition nat64_write_v6 :: "bytes \<Rightarrow> bytes \<Rightarrow> u8 \<Rightarrow> u8 \<Rightarrow> u16 \<Rightarrow> bytes \<Rightarrow> bytes \<Rightarrow> bytes" where
  "nat64_write_v6 p guest_mac proto ttl payload_len ipv6_src guest_ipv6 =
     (let p = wrn p 0 guest_mac;
          p = wrn p 6 GW_MAC;
          p = wr16 p 12 ETH_P_IPV6;
          ip6 = ETH_LEN;
          p = wr8 p (ip6 + 0) 0x60;
          p = wr8 p (ip6 + 1) 0;
          p = wr8 p (ip6 + 2) 0;
          p = wr8 p (ip6 + 3) 0;
          p = wr16 p (ip6 + 4) payload_len;
          p = wr8 p (ip6 + 6) proto;
          p = wr8 p (ip6 + 7) ttl;
          p = wrn p (ip6 + 8) ipv6_src;
          p = wrn p (ip6 + 24) guest_ipv6
      in p)"

definition nat64_l4_to_v6 ::
  "bytes \<Rightarrow> nat \<Rightarrow> u8 \<Rightarrow> u16 \<Rightarrow> bytes \<Rightarrow> bytes \<Rightarrow> bytes \<Rightarrow> bytes \<Rightarrow> u16 \<Rightarrow> u16 \<Rightarrow> unit + bytes option" where
  "nat64_l4_to_v6 p l4 proto old_ck src4 dst4 ipv6_src guest_ipv6 l4_len orig_sport =
     (if proto = IPPROTO_ICMP
      then let seq = rd16 p (l4 + 6);
               icmp6 = [ICMPV6_ECHO_REPLY, 0, 0, 0, hi8 orig_sport, lo8 orig_sport, hi8 seq, lo8 seq];
               chk = icmpv6_echo_checksum ipv6_src guest_ipv6 icmp6;
               p = wr8 p l4 ICMPV6_ECHO_REPLY;
               p = wr8 p (l4 + 1) 0;
               p = wr16 p (l4 + 2) chk;
               p = wr16 p (l4 + 4) orig_sport
           in Inr (Some p)
      else if proto = IPPROTO_TCP
      then if l4 + 20 > length p then Inl ()
           else Inr (Some (wr16 p (l4 + 16) (tcp_udp_v4_to_v6 old_ck src4 dst4 ipv6_src guest_ipv6 IPPROTO_TCP l4_len)))
      else if proto = IPPROTO_UDP
      then if l4 + 8 > length p then Inl ()
           else Inr (Some (wr16 p (l4 + 6) (tcp_udp_v4_to_v6 old_ck src4 dst4 ipv6_src guest_ipv6 IPPROTO_UDP l4_len)))
      else Inr None)"

definition nat64_ingress ::
  "xdp_ctx \<Rightarrow> u32 \<Rightarrow> bytes \<Rightarrow> bytes \<Rightarrow> u16 \<Rightarrow> maps \<Rightarrow> (unit + xdp_action option) \<times> xdp_ctx" where
  "nat64_ingress ctx tap_ifindex guest_mac nat_guest_ipv4 orig_sport s =
     (let p = pkt ctx; inner_off = ETH_LEN + IPV6_LEN
      in if ETH_LEN + IPV6_LEN + 20 + 8 > length p then (Inr None, ctx)
         else if rd8 p inner_off AND 0x0f \<noteq> 5 then (Inr None, ctx)
         else
           let l4_proto = rd8 p (inner_off + 9)
           in if l4_proto \<noteq> IPPROTO_ICMP \<and> l4_proto \<noteq> IPPROTO_TCP \<and> l4_proto \<noteq> IPPROTO_UDP then (Inr None, ctx)
              else
                let inner_ttl = rd8 p (inner_off + 8);
                    inner_src_v4 = rdn p (inner_off + 12) 4;
                    inner_dst_v4 = rdn p (inner_off + 16) 4;
                    inner_total_len = unat (rd16 p (inner_off + 2))
                in if inner_total_len < 20 then (Inr None, ctx)
                   else
                     let l4_len = of_nat (inner_total_len - 20); l4_off_abs = inner_off + 20
                     in case nat64_in_csum p l4_off_abs l4_proto of
                          None \<Rightarrow> (Inr None, ctx)
                        | Some old_ck \<Rightarrow>
                            (case hget (PORT_META s) tap_ifindex of
                               None \<Rightarrow> (Inr None, ctx)
                             | Some m \<Rightarrow>
                                 let guest_ipv6 = pm_guest_ipv6 m; ipv6_src = nat64_embed inner_src_v4
                                 in if guest_ipv6 = replicate 16 0 then (Inr None, ctx)
                                    else case adjust_head_shrink ctx 20 of
                                           None \<Rightarrow> (Inl (), ctx)
                                         | Some ctx \<Rightarrow>
                                             if ETH_LEN + IPV6_LEN + 8 > length (pkt ctx) then (Inl (), ctx)
                                             else
                                               let l4_proto_v6 = (if l4_proto = IPPROTO_ICMP then IPPROTO_ICMPV6 else l4_proto);
                                                   p = nat64_write_v6 (pkt ctx) guest_mac l4_proto_v6 inner_ttl l4_len
                                                         ipv6_src guest_ipv6;
                                                   l4_off = ETH_LEN + IPV6_LEN
                                               in case nat64_l4_to_v6 p l4_off l4_proto old_ck inner_src_v4 inner_dst_v4
                                                         ipv6_src guest_ipv6 l4_len orig_sport of
                                                    Inl _ \<Rightarrow> (Inl (), ctx\<lparr>pkt := p\<rparr>)
                                                  | Inr None \<Rightarrow> (Inr None, ctx\<lparr>pkt := p\<rparr>)
                                                  | Inr (Some p) \<Rightarrow>
                                                      (Inr (Some (XDP_REDIRECT tap_ifindex)), ctx\<lparr>pkt := p\<rparr>)))"

end
