(* ===== verification/Nat64_Props.thy ===== *)
theory Nat64_Props
  imports Nat64
begin

text \<open>
  What the NAT64 translation guarantees: the unrolled checksum helpers are the generic
  checksum, the generated IPv4 header carries a valid checksum, and translating a TCP or UDP
  segment between the two pseudo headers keeps a valid checksum valid, in both directions.
\<close>

section \<open>The helpers are the generic checksum\<close>

lemma be16_or: "push_bit 8 (ucast (hi :: u8)) OR ucast (lo :: u8) = (ucast (be16 hi lo) :: u32)"
proof -
  have "push_bit 8 (ucast hi :: u32) AND ucast lo = 0"
    by (rule bit_word_eqI) (auto simp: bit_simps dest: bit_imp_le_length)
  then have "push_bit 8 (ucast hi) OR ucast lo = push_bit 8 (ucast hi :: u32) + ucast lo"
    by (simp add: disjunctive_add_eq_or)
  moreover have "unat (push_bit 8 (ucast hi :: u32) + ucast lo) = unat hi * 256 + unat lo"
  proof -
    have "unat hi * 256 + unat lo < 4294967296"
      using unat_lt8 [of hi] unat_lt8 [of lo] by linarith
    then show ?thesis by (simp add: unat_word_ariths unat_push8)
  qed
  ultimately show ?thesis by (simp add: word_unat_eq_iff)
qed

lemma csum_add16_word: "csum_add16 s hi lo = s + ucast (be16 hi lo)"
  by (simp add: csum_add16_def be16_or)

lemma csum16_loop_append:
  "even (length a) \<Longrightarrow> csum16_loop s (a @ b) = csum16_loop (csum16_loop s a) b"
  by (induction s a rule: csum16_loop.induct) auto

lemma bsum_append: "even (length a) \<Longrightarrow> bsum (a @ b) = bsum a + bsum b"
  by (induction a rule: bsum.induct) auto

lemma bsum_le: "bsum a \<le> (length a + 1) * 32768"
proof (induction a rule: bsum.induct)
  case (1 a b bs)
  have "bsum (a # b # bs) = unat (be16 a b) + bsum bs"
      "(length (a # b # bs) + 1) * 32768 = 65536 + (length bs + 1) * 32768"
    by simp_all
  then show ?case using 1 unat_le16 [of "be16 a b"] by linarith
next
  case (2 a)
  have "unat a * 256 \<le> 65536" using unat_lt8 [of a] by linarith
  then show ?case by simp
qed simp

lemma csum_add_addr16_loop: "length a = 16 \<Longrightarrow> csum_add_addr16 s a = csum16_loop s a"
  by (auto simp: length_Suc_conv numeral_eq_Suc csum_add_addr16_def csum_add16_word Let_def)

lemma ipv4_hdr_checksum_csum16: "length h = 20 \<Longrightarrow> ipv4_hdr_checksum h = csum16 0 h"
  by (auto simp: length_Suc_conv numeral_eq_Suc ipv4_hdr_checksum_def csum_add16_word csum16_def
      csum_fold_def Let_def)

section \<open>Pseudo headers\<close>

definition p4sum :: "bytes \<Rightarrow> bytes \<Rightarrow> u8 \<Rightarrow> u16 \<Rightarrow> nat" where
  "p4sum src dst proto len = bsum src + bsum dst + unat proto + unat len"

lemma unat_fold_twice: "unat (fold_step (fold_step s)) = oc_norm (unat s)"
proof -
  have a: "unat (fold_step s) \<le> 131070"
    unfolding unat_fold_step using unat_lt32 [of s] by linarith
  then have "unat (fold_step (fold_step s)) < 65536"
    unfolding unat_fold_step [of "fold_step s"] by (rule fold_round)
  then have "unat (fold_step (fold_step s)) = unat (fold2 s)" by (simp add: fold2_def)
  then show ?thesis by (simp add: fold2_fold_csum unat_fold_csum)
qed

lemma unat_pseudo:
  assumes "even (length src)" "even (length dst)" "length src + length dst \<le> 32"
    and "s = csum16_loop 0 (src @ dst @ tail)" "bsum tail = unat proto + unat len"
  shows "unat (fold_step (fold_step s)) = oc_norm (p4sum src dst proto len)"
proof -
  have e: "bsum (src @ dst @ tail) = p4sum src dst proto len"
    using assms by (simp add: bsum_append p4sum_def)
  have "bsum src + bsum dst \<le> 34 * 32768"
    using bsum_le [of src] bsum_le [of dst] assms(3) unfolding distrib_right by linarith
  then have "p4sum src dst proto len < 4294967296"
    using unat_lt8 [of proto] unat_lt16 [of len] unfolding p4sum_def by linarith
  then have "unat s = p4sum src dst proto len"
    using unat_csum16_loop [of 0 "src @ dst @ tail"] e assms(4) by simp
  then show ?thesis by (simp add: unat_fold_twice)
qed

lemma unat_pseudo_v6:
  assumes "length src = 16" "length dst = 16"
  shows "unat (pseudo_v6 src dst proto len) = oc_norm (p4sum src dst proto len)"
  unfolding pseudo_v6_def Let_def using assms
  by (intro unat_pseudo [where tail = "[0, 0, hi8 len, lo8 len, 0, proto]"])
    (simp_all add: csum_add_addr16_loop csum16_loop_append csum_add16_word)

lemma unat_pseudo_v4:
  assumes "length src = 4" "length dst = 4"
  shows "unat (pseudo_v4 src dst proto len) = oc_norm (p4sum src dst proto len)"
proof -
  obtain a b c d e f g h where l: "src = [a, b, c, d]" "dst = [e, f, g, h]"
    using length_4E [OF assms(1)] length_4E [OF assms(2)] by blast
  show ?thesis
    unfolding pseudo_v4_def Let_def
    by (intro unat_pseudo [where tail = "[0, proto, hi8 len, lo8 len]"])
      (simp_all add: l csum_add16_word)
qed

section \<open>Translating a checksum\<close>

lemma oc_complement_cong:
  assumes "n + c = k * 65535 + d"
  shows "(65535 - oc_norm n + d) mod 65535 = c mod 65535"
proof -
  have "(65535 - oc_norm n + n) mod 65535 = (65535 - oc_norm n + oc_norm n) mod 65535"
    by (rule mod_add_cong) (simp_all add: oc_norm_cong)
  then have z: "(65535 - oc_norm n + n) mod 65535 = 0" using oc_norm_le [of n] by simp
  have "65535 - oc_norm n + d + k * 65535 = (65535 - oc_norm n + n) + c" using assms by linarith
  then have "(65535 - oc_norm n + d + k * 65535) mod 65535 = (0 + c) mod 65535"
    using z by (metis mod_add_left_eq)
  then show ?thesis by simp
qed

lemma ucast_not_16: "(ucast (NOT (x :: u32)) :: u16) = NOT (ucast x)"
  by (rule bit_word_eqI) (auto simp: bit_simps)

lemma unat_not_fold: "unat x \<le> 65535 \<Longrightarrow> unat (ucast (NOT (x :: u32)) :: u16) = 65535 - unat x"
  by (simp add: ucast_not_16 unat_not16)

lemma unat_add5:
  "unat a + unat b + unat c + unat d + unat e < 4294967296 \<Longrightarrow>
     unat ((a :: u32) + b + c + d + e) = unat a + unat b + unat c + unat d + unat e"
  by (simp add: unat_add_small)

lemma unat_add3:
  "unat a + unat b + unat c < 4294967296 \<Longrightarrow> unat ((a :: u32) + b + c) = unat a + unat b + unat c"
  by (simp add: unat_add_small)

lemma v6_to_v4_cong:
  assumes "length src6 = 16" "length dst6 = 16" "length src4 = 4" "length dst4 = 4"
  shows "(unat (tcp_udp_v6_to_v4 ck src6 dst6 src4 dst4 proto len osp nsp) + p4sum src4 dst4 proto len + unat nsp)
      mod 65535 = (unat ck + p4sum src6 dst6 proto len + unat osp) mod 65535"
proof -
  let ?p6 = "oc_norm (p4sum src6 dst6 proto len)" and ?p4 = "oc_norm (p4sum src4 dst4 proto len)"
  let ?n = "(65535 - unat ck) + (65535 - ?p6) + ?p4 + (65535 - unat osp) + unat nsp"
  have p: "?p6 \<le> 65535" "?p4 \<le> 65535" by (rule oc_norm_le)+
  have u: "unat (ucast (NOT (pseudo_v6 src6 dst6 proto len)) :: u16) = 65535 - ?p6"
    using unat_not_fold [of "pseudo_v6 src6 dst6 proto len"] p by (simp add: unat_pseudo_v6 assms)
  have v: "unat (pseudo_v4 src4 dst4 proto len) = ?p4" by (rule unat_pseudo_v4 [OF assms(3,4)])
  have b: "?n < 4294967296" using p unat_le16 [of nsp] by linarith
  have "unat (tcp_udp_v6_to_v4 ck src6 dst6 src4 dst4 proto len osp nsp) = 65535 - oc_norm ?n"
    unfolding tcp_udp_v6_to_v4_def Let_def unat_not16 fold2_fold_csum unat_fold_csum
    using b by (subst unat_add5) (simp_all only: u v unat_ucast_16_32 unat_not16)
  moreover have "?n + (unat ck + ?p6 + unat osp) = 3 * 65535 + (?p4 + unat nsp)"
    using p unat_le16 [of ck] unat_le16 [of osp] by linarith
  note oc_complement_cong [OF this]
  ultimately have c: "(unat (tcp_udp_v6_to_v4 ck src6 dst6 src4 dst4 proto len osp nsp) + (?p4 + unat nsp)) mod 65535
      = (unat ck + ?p6 + unat osp) mod 65535" by simp
  have "(unat (tcp_udp_v6_to_v4 ck src6 dst6 src4 dst4 proto len osp nsp) + unat nsp + p4sum src4 dst4 proto len) mod 65535
      = (unat (tcp_udp_v6_to_v4 ck src6 dst6 src4 dst4 proto len osp nsp) + unat nsp + ?p4) mod 65535"
    by (rule mod_add_cong [OF refl oc_norm_cong [symmetric]])
  also have "\<dots> = (unat ck + unat osp + ?p6) mod 65535" using c by (simp add: ac_simps)
  also have "\<dots> = (unat ck + unat osp + p4sum src6 dst6 proto len) mod 65535"
    by (rule mod_add_cong [OF refl oc_norm_cong])
  finally show ?thesis by (simp add: ac_simps)
qed

lemma v4_to_v6_cong:
  assumes "length src6 = 16" "length dst6 = 16" "length src4 = 4" "length dst4 = 4"
  shows "(unat (tcp_udp_v4_to_v6 ck src4 dst4 src6 dst6 proto len) + p4sum src6 dst6 proto len) mod 65535
     = (unat ck + p4sum src4 dst4 proto len) mod 65535"
proof -
  let ?p6 = "oc_norm (p4sum src6 dst6 proto len)" and ?p4 = "oc_norm (p4sum src4 dst4 proto len)"
  let ?n = "(65535 - unat ck) + (65535 - ?p4) + ?p6" and ?c = "tcp_udp_v4_to_v6 ck src4 dst4 src6 dst6 proto len"
  have p: "?p6 \<le> 65535" "?p4 \<le> 65535" by (rule oc_norm_le)+
  have u: "unat (ucast (NOT (pseudo_v4 src4 dst4 proto len)) :: u16) = 65535 - ?p4"
    using unat_not_fold [of "pseudo_v4 src4 dst4 proto len"] p by (simp add: unat_pseudo_v4 assms)
  have v: "unat (pseudo_v6 src6 dst6 proto len) = ?p6" by (rule unat_pseudo_v6 [OF assms(1,2)])
  have b: "?n < 4294967296" using p by linarith
  have "unat ?c = 65535 - oc_norm ?n"
    unfolding tcp_udp_v4_to_v6_def Let_def unat_not16 fold2_fold_csum unat_fold_csum
    using b by (subst unat_add3) (simp_all only: u v unat_ucast_16_32 unat_not16)
  moreover have "?n + (unat ck + ?p4) = 2 * 65535 + ?p6" using p unat_le16 [of ck] by linarith
  note oc_complement_cong [OF this]
  ultimately have c: "(unat ?c + ?p6) mod 65535 = (unat ck + ?p4) mod 65535" by simp
  have "(unat ?c + p4sum src6 dst6 proto len) mod 65535 = (unat ?c + ?p6) mod 65535"
    by (rule mod_add_cong [OF refl oc_norm_cong [symmetric]])
  also have "\<dots> = (unat ck + p4sum src4 dst4 proto len) mod 65535"
    unfolding c by (rule mod_add_cong [OF refl oc_norm_cong])
  finally show ?thesis .
qed

section \<open>Segments\<close>

text \<open>Exchanging a checksum together with the pseudo header it belongs to.\<close>

lemma csum_transfer:
  assumes w: "wq + u = wp + v" and c: "(v + b) mod 65535 = (u + a) mod 65535"
    and ok: "csum_ok (a + wp)" and b: "b \<noteq> 0"
  shows "csum_ok (b + wq)"
proof -
  have e: "b + wq + u = wp + (v + b)" "a + wp + u = wp + (u + a)" using w by linarith+
  have "(b + wq + u) mod 65535 = (a + wp + u) mod 65535"
    unfolding e by (rule mod_add_cong [OF refl c])
  then have "(b + wq) mod 65535 = (a + wp) mod 65535" by (rule mod_add_cancel) simp
  then show ?thesis using ok b by (simp add: csum_ok_def)
qed

lemma p4sum_pos: "proto \<noteq> 0 \<Longrightarrow> p4sum src dst proto len \<noteq> 0"
  by (simp add: p4sum_def unat_eq_zero)

text \<open>Where the transport checksum is, and the words and bytes a header needs.\<close>

definition csum_word :: "u8 \<Rightarrow> nat" where
  "csum_word proto = (if proto = IPPROTO_TCP then 8 else 3)"

definition l4_min :: "u8 \<Rightarrow> nat" where
  "l4_min proto = (if proto = IPPROTO_TCP then 20 else 8)"

text \<open>C23: NAT64, guest to Internet. The transport header of a TCP segment or UDP datagram whose
  checksum is valid under the IPv6 pseudo header becomes one whose source port is the allocated
  NAT port and whose checksum is valid under the IPv4 pseudo header of the NAT address and the
  embedded destination; the rest is unchanged. (Valid: the ones' complement sum including the
  checksum field is minus zero; for UDP over IPv4 a field that comes out as 0 also reads as
  absent.)\<close>

theorem nat64_egress_checksum:
  assumes proto: "proto \<in> {IPPROTO_TCP, IPPROTO_UDP}"
    and len: "length src6 = 16" "length dst6 = 16" "length nat_ip = 4" "length dst4 = 4"
    and n: "csum_word proto < n" "l4 + l4_min proto \<le> length p"
    and ok: "csum_ok (p4sum src6 dst6 proto l4_len + wsum p l4 n)"
  defines "c \<equiv> l4 + 2 * csum_word proto"
  shows "\<exists>q. nat64_l4_to_v4 p l4 proto (rd16 p c) src6 dst6 nat_ip dst4 l4_len (rd16 p l4) port
      = Inr (Some q) \<and> rd16 q l4 = port \<and> csum_ok (p4sum nat_ip dst4 proto l4_len + wsum q l4 n) \<and>
    (\<forall>i. i \<in> {l4, l4 + 1, c, c + 1} \<or> rd8 q i = rd8 p i)"
proof -
  let ?c = "rd16 p c" and ?o = "rd16 p (l4 + 2 * 0)"
  let ?c' = "tcp_udp_v6_to_v4 ?c src6 dst6 nat_ip dst4 proto l4_len ?o port"
  let ?q = "wr16 (wr16 p l4 port) c ?c'"
  have c: "c = l4 + 16 \<and> proto = IPPROTO_TCP \<or> c = l4 + 6 \<and> proto = IPPROTO_UDP"
    using proto by (auto simp: c_def csum_word_def)
  have run: "nat64_l4_to_v4 p l4 proto (rd16 p c) src6 dst6 nat_ip dst4 l4_len (rd16 p l4) port = Inr (Some ?q)"
    using n c by (auto simp: nat64_l4_to_v4_def Let_def l4_min_def)
  have b: "0 < csum_word proto" "c + 1 < length p" using n(2) c by (auto simp: csum_word_def l4_min_def)
  have q: "?q = l4_rewrite p l4 0 (csum_word proto) port ?c'" by (simp add: l4_rewrite_def c_def)
  have w: "wsum ?q l4 n + (unat ?o + unat ?c) = wsum p l4 n + (unat port + unat ?c')"
    unfolding q unfolding c_def using n b by (intro wsum_l4_rewrite) (auto simp: c_def)
  have "(unat port + unat ?c' + p4sum nat_ip dst4 proto l4_len) mod 65535 =
      (unat ?o + unat ?c + p4sum src6 dst6 proto l4_len) mod 65535"
    using v6_to_v4_cong [OF len, of ?c proto l4_len ?o port] by (simp add: ac_simps)
  moreover have "proto \<noteq> 0" using proto by auto
  ultimately have "csum_ok (p4sum nat_ip dst4 proto l4_len + wsum ?q l4 n)"
    using csum_transfer [OF w _ ok] p4sum_pos by simp
  moreover have "rd16 ?q l4 = port" using b c by (auto simp: rd16_wr16_other rd16_wr16_same)
  moreover have "\<forall>i. i \<in> {l4, l4 + 1, c, c + 1} \<or> rd8 ?q i = rd8 p i" by (auto simp: rd8_wr16)
  ultimately show ?thesis using run by blast
qed

text \<open>C24: NAT64, Internet to guest. A TCP segment or UDP datagram whose checksum is valid under
  the IPv4 pseudo header (so not a UDP datagram sent without one) gets a checksum whose ones'
  complement sum under the IPv6 pseudo header of the embedded peer address and the guest is
  valid; nothing else in it changes.\<close>

theorem nat64_ingress_checksum:
  assumes proto: "proto \<in> {IPPROTO_TCP, IPPROTO_UDP}"
    and len: "length src6 = 16" "length dst6 = 16" "length src4 = 4" "length dst4 = 4"
    and n: "csum_word proto < n" "l4 + l4_min proto \<le> length p"
    and ok: "csum_ok (p4sum src4 dst4 proto l4_len + wsum p l4 n)"
  defines "c \<equiv> l4 + 2 * csum_word proto"
  shows "\<exists>q. nat64_l4_to_v6 p l4 proto (rd16 p c) src4 dst4 src6 dst6 l4_len port
      = Inr (Some q) \<and> csum_ok (p4sum src6 dst6 proto l4_len + wsum q l4 n) \<and>
    (\<forall>i. i \<in> {c, c + 1} \<or> rd8 q i = rd8 p i)"
proof -
  let ?c = "rd16 p c"
  let ?c' = "tcp_udp_v4_to_v6 ?c src4 dst4 src6 dst6 proto l4_len"
  let ?q = "wr16 p c ?c'"
  have c: "c = l4 + 16 \<and> proto = IPPROTO_TCP \<or> c = l4 + 6 \<and> proto = IPPROTO_UDP"
    using proto by (auto simp: c_def csum_word_def)
  have run: "nat64_l4_to_v6 p l4 proto (rd16 p c) src4 dst4 src6 dst6 l4_len port = Inr (Some ?q)"
    using n c by (auto simp: nat64_l4_to_v6_def Let_def l4_min_def)
  have "c + 1 < length p" using n(2) c by (auto simp: l4_min_def)
  then have w: "wsum ?q l4 n + unat ?c = wsum p l4 n + unat ?c'"
    using wsum_wr16_in [of "csum_word proto" n l4 p ?c'] n by (simp add: c_def)
  have "proto \<noteq> 0" using proto by auto
  then have "csum_ok (p4sum src6 dst6 proto l4_len + wsum ?q l4 n)"
    using csum_transfer [OF w v4_to_v6_cong [OF len] ok] p4sum_pos by simp
  moreover have "\<forall>i. i \<in> {c, c + 1} \<or> rd8 ?q i = rd8 p i" by (auto simp: rd8_wr16)
  ultimately show ?thesis using run by blast
qed

section \<open>Instances\<close>

text \<open>A TCP header and a UDP header with a valid checksum for 2001:db8::1 to 64:ff9b::192.0.2.1, and those valid for
  192.0.2.1 to 10.0.0.1.\<close>

definition sample_src6 :: bytes where "sample_src6 = [32, 1, 13, 184, 0, 0, 0, 0, 0, 0, 0, 0, 0, 0, 0, 1]"
definition sample_dst6 :: bytes where "sample_dst6 = [0, 100, 255, 155, 0, 0, 0, 0, 0, 0, 0, 0, 192, 0, 2, 1]"
definition sample_tcp6 :: bytes where "sample_tcp6 = [48, 57, 0, 80, 0, 0, 0, 1, 0, 0, 0, 0, 80, 2, 255, 255, 143, 157, 0, 0]"
definition sample_tcp4 :: bytes where "sample_tcp4 = [48, 57, 0, 80, 0, 0, 0, 1, 0, 0, 0, 0, 80, 2, 255, 255, 179, 86, 0, 0]"

definition sample_udp6 :: bytes where "sample_udp6 = [48, 57, 0, 53, 0, 8, 223, 180]"
definition sample_udp4 :: bytes where "sample_udp4 = [48, 57, 0, 53, 0, 8, 3, 110]"

lemmas sample_nat64_defs = sample_src6_def sample_dst6_def sample_tcp6_def sample_tcp4_def sample_udp6_def
  sample_udp4_def p4sum_def csum_word_def l4_min_def

theorem nat64_egress_checksum_witness:
  "(\<exists>q. nat64_l4_to_v4 sample_tcp6 0 IPPROTO_TCP (rd16 sample_tcp6 16) sample_src6 sample_dst6
       [203, 0, 113, 5] [192, 0, 2, 1] 20 (rd16 sample_tcp6 0) 1030 = Inr (Some q) \<and> rd16 q 0 = 1030 \<and>
     csum_ok (p4sum [203, 0, 113, 5] [192, 0, 2, 1] IPPROTO_TCP 20 + wsum q 0 10)) \<and>
   (\<exists>q. nat64_l4_to_v4 sample_udp6 0 IPPROTO_UDP (rd16 sample_udp6 6) sample_src6 sample_dst6
       [203, 0, 113, 5] [192, 0, 2, 1] 8 (rd16 sample_udp6 0) 1030 = Inr (Some q) \<and> rd16 q 0 = 1030 \<and>
     csum_ok (p4sum [203, 0, 113, 5] [192, 0, 2, 1] IPPROTO_UDP 8 + wsum q 0 4))"
proof -
  have "csum_ok (p4sum sample_src6 sample_dst6 IPPROTO_TCP 20 + wsum sample_tcp6 0 10)"
      "csum_ok (p4sum sample_src6 sample_dst6 IPPROTO_UDP 8 + wsum sample_udp6 0 4)"
    by (simp_all add: sample_nat64_defs packet_eval)
  moreover have "csum_word IPPROTO_TCP = 8" "csum_word IPPROTO_UDP = 3" "l4_min IPPROTO_TCP = 20"
      "l4_min IPPROTO_UDP = 8" "length sample_src6 = 16" "length sample_dst6 = 16" "length sample_tcp6 = 20"
      "length sample_udp6 = 8"
    by (simp_all add: sample_nat64_defs)
  ultimately show ?thesis
    using nat64_egress_checksum [of IPPROTO_TCP sample_src6 sample_dst6 "[203, 0, 113, 5]" "[192, 0, 2, 1]" 10 0
        sample_tcp6 20 1030]
      nat64_egress_checksum [of IPPROTO_UDP sample_src6 sample_dst6 "[203, 0, 113, 5]" "[192, 0, 2, 1]" 4 0
        sample_udp6 8 1030] by auto
qed

theorem nat64_ingress_checksum_witness:
  "(\<exists>q. nat64_l4_to_v6 sample_tcp4 0 IPPROTO_TCP (rd16 sample_tcp4 16) [192, 0, 2, 1] [10, 0, 0, 1]
       sample_dst6 sample_src6 20 12345 = Inr (Some q) \<and>
     csum_ok (p4sum sample_dst6 sample_src6 IPPROTO_TCP 20 + wsum q 0 10)) \<and>
   (\<exists>q. nat64_l4_to_v6 sample_udp4 0 IPPROTO_UDP (rd16 sample_udp4 6) [192, 0, 2, 1] [10, 0, 0, 1]
       sample_dst6 sample_src6 8 12345 = Inr (Some q) \<and>
     csum_ok (p4sum sample_dst6 sample_src6 IPPROTO_UDP 8 + wsum q 0 4))"
proof -
  have "csum_ok (p4sum [192, 0, 2, 1] [10, 0, 0, 1] IPPROTO_TCP 20 + wsum sample_tcp4 0 10)"
      "csum_ok (p4sum [192, 0, 2, 1] [10, 0, 0, 1] IPPROTO_UDP 8 + wsum sample_udp4 0 4)"
    by (simp_all add: sample_nat64_defs packet_eval)
  moreover have "csum_word IPPROTO_TCP = 8" "csum_word IPPROTO_UDP = 3" "l4_min IPPROTO_TCP = 20"
      "l4_min IPPROTO_UDP = 8" "length sample_src6 = 16" "length sample_dst6 = 16" "length sample_tcp4 = 20"
      "length sample_udp4 = 8"
    by (simp_all add: sample_nat64_defs)
  ultimately show ?thesis
    using nat64_ingress_checksum [of IPPROTO_TCP sample_dst6 sample_src6 "[192, 0, 2, 1]" "[10, 0, 0, 1]" 10 0
        sample_tcp4 20 12345]
      nat64_ingress_checksum [of IPPROTO_UDP sample_dst6 sample_src6 "[192, 0, 2, 1]" "[10, 0, 0, 1]" 4 0
        sample_udp4 8 12345] by auto
qed

end
