(* ===== verification/Dhcp.thy ===== *)
theory Dhcp
  imports Arp_Nd
begin

text \<open>
  The DHCPv4 responder: request parsing and reply construction of module \<^verbatim>\<open>dhcp\<close> in
  \<^verbatim>\<open>xdp-dp-common/src/lib.rs\<close>, MAC learning, reply assembly and the XDP glue of
  \<^verbatim>\<open>xdp-dp-ebpf/src/dhcp.rs\<close>. A frame is Ethernet, IPv4 without options, UDP, BOOTP and the
  option block.
\<close>

abbreviation (input) DHCP_MAGIC :: bytes where "DHCP_MAGIC \<equiv> [0x63, 0x82, 0x53, 0x63]"
abbreviation (input) OPT_PAD :: u8 where "OPT_PAD \<equiv> 0"
abbreviation (input) OPT_END :: u8 where "OPT_END \<equiv> 255"
abbreviation (input) OPT_MESSAGE_TYPE :: u8 where "OPT_MESSAGE_TYPE \<equiv> 53"
abbreviation (input) OPT_LEASE_TIME :: u8 where "OPT_LEASE_TIME \<equiv> 51"
abbreviation (input) OPT_SERVER_ID :: u8 where "OPT_SERVER_ID \<equiv> 54"
abbreviation (input) OPT_CLASSLESS_ROUTE :: u8 where "OPT_CLASSLESS_ROUTE \<equiv> 121"
abbreviation (input) OPT_SUBNET_MASK :: u8 where "OPT_SUBNET_MASK \<equiv> 1"
abbreviation (input) OPT_DNS :: u8 where "OPT_DNS \<equiv> 6"
abbreviation (input) OPT_HOSTNAME :: u8 where "OPT_HOSTNAME \<equiv> 12"
abbreviation (input) OPT_MTU :: u8 where "OPT_MTU \<equiv> 26"
abbreviation (input) DHCP_MSG_DISCOVER :: u8 where "DHCP_MSG_DISCOVER \<equiv> 1"
abbreviation (input) DHCP_MSG_REQUEST :: u8 where "DHCP_MSG_REQUEST \<equiv> 3"
abbreviation (input) DHCP_MSG_OFFER :: u8 where "DHCP_MSG_OFFER \<equiv> 2"
abbreviation (input) DHCP_MSG_ACK :: u8 where "DHCP_MSG_ACK \<equiv> 5"
abbreviation (input) F_BOOTP :: nat where "F_BOOTP \<equiv> 42"
abbreviation (input) F_OPTS :: nat where "F_OPTS \<equiv> 282"
abbreviation (input) OPT_BLOCK_MAX :: nat where "OPT_BLOCK_MAX \<equiv> 146"
abbreviation (input) REPLY_LEN :: nat where "REPLY_LEN \<equiv> 428"
abbreviation (input) MAX_HOSTNAME :: nat where "MAX_HOSTNAME \<equiv> 64"
abbreviation (input) OPTS_SCAN_BYTES :: nat where "OPTS_SCAN_BYTES \<equiv> 128"

record Dhcpv4Request =
  dq_reply_type :: u8
  dq_client_mac :: bytes
  dq_xid_secs_flags :: bytes

record Dhcpv4Reply =
  dr_reply_type :: u8
  dr_client_mac :: bytes
  dr_yiaddr :: bytes
  dr_gateway_ipv4 :: bytes
  dr_server_mac :: bytes
  dr_xid_secs_flags :: bytes
  dr_mtu :: u16
  dr_dns :: "bytes list"
  dr_dns_len :: u8
  dr_lease_secs :: u32
  dr_hostname :: bytes
  dr_hostname_len :: u8

section \<open>Requests\<close>

definition looks_like_dhcpv4 :: "bytes \<Rightarrow> bool" where
  "looks_like_dhcpv4 p =
     (F_OPTS \<le> length p \<and> rd16 p 12 = ETH_P_IP \<and> rd8 p ETH_LEN AND 0x0f = 5 \<and>
      rd8 p (ETH_LEN + 9) = IPPROTO_UDP \<and> rd16 p (ETH_LEN + 22) = 67)"

definition looks_like_dhcpv6 :: "bytes \<Rightarrow> bool" where
  "looks_like_dhcpv6 p =
     (ETH_LEN + 40 + 8 + 4 \<le> length p \<and> rd16 p 12 = ETH_P_IPV6 \<and> rd8 p (ETH_LEN + 6) = IPPROTO_UDP \<and>
      rd16 p (ETH_LEN + 40 + 2) = 547)"

text \<open>The option state machine, one byte at a time: state 0 expects a code, 1 a length, 2 value
  bytes counted down by \<open>remain\<close>.\<close>

fun opt_scan :: "bytes \<Rightarrow> u8 \<Rightarrow> nat \<Rightarrow> bool \<Rightarrow> u8 \<Rightarrow> u8" where
  "opt_scan [] st remain is_msgtype msg = msg"
| "opt_scan (b # bs) st remain is_msgtype msg =
     (if st = 0
      then if b = OPT_PAD then opt_scan bs 0 remain is_msgtype msg
           else if b = OPT_END then msg
           else opt_scan bs 1 remain (b = OPT_MESSAGE_TYPE) msg
      else if st = 1
      then if unat b = 0 then opt_scan bs 0 0 is_msgtype msg
           else opt_scan bs 2 (unat b) is_msgtype msg
      else let msg = (if is_msgtype \<and> remain = 1 then b else msg); remain = remain - 1
           in opt_scan bs (if remain = 0 then 0 else 2) remain is_msgtype msg)"

definition dhcp_msg_type :: "bytes \<Rightarrow> u8" where
  "dhcp_msg_type p = opt_scan (take OPTS_SCAN_BYTES (drop F_OPTS p)) 0 0 False 0"

definition parse_dhcpv4_request :: "bytes \<Rightarrow> Dhcpv4Request option" where
  "parse_dhcpv4_request p =
     (if F_OPTS > length p then None
      else if rd16 p 12 \<noteq> ETH_P_IP then None
      else if rd8 p ETH_LEN AND 0x0f \<noteq> 5 then None
      else if rd8 p (ETH_LEN + 9) \<noteq> IPPROTO_UDP then None
      else if rd16 p (ETH_LEN + 22) \<noteq> 67 then None
      else if rdn p (F_BOOTP + 236) 4 \<noteq> DHCP_MAGIC then None
      else
        let msg_type = dhcp_msg_type p
        in if msg_type \<noteq> DHCP_MSG_DISCOVER \<and> msg_type \<noteq> DHCP_MSG_REQUEST then None
           else
             let reply_type = (if msg_type = DHCP_MSG_DISCOVER then DHCP_MSG_OFFER else DHCP_MSG_ACK)
             in Some \<lparr>dq_reply_type = reply_type, dq_client_mac = rdn p 6 6,
                      dq_xid_secs_flags = rdn p (F_BOOTP + 4) 8\<rparr>)"

section \<open>Replies\<close>

definition dhcp_write_bootp :: "bytes \<Rightarrow> Dhcpv4Reply \<Rightarrow> bytes" where
  "dhcp_write_bootp p r =
     (let gw = dr_gateway_ipv4 r;
          p = wr8 p F_BOOTP 2;
          p = wrn p (F_BOOTP + 4) (dr_xid_secs_flags r);
          p = wrn p (F_BOOTP + 16) (dr_yiaddr r);
          p = wrn p (F_BOOTP + 20) gw;
          p = wrn p (F_BOOTP + 24) gw;
          p = wrn p (F_BOOTP + 28) (dr_client_mac r);
          p = wrn p (F_BOOTP + 44) (replicate 192 0)
      in p)"

definition dhcp_write_fixed :: "bytes \<Rightarrow> Dhcpv4Reply \<Rightarrow> bytes" where
  "dhcp_write_fixed p r =
     (let gw = dr_gateway_ipv4 r;
          p = wrn p F_OPTS [OPT_MESSAGE_TYPE, 1, dr_reply_type r];
          p = wrn p (F_OPTS + 3) ([OPT_LEASE_TIME, 4] @ u32_be (dr_lease_secs r));
          p = wrn p (F_OPTS + 9) [OPT_SERVER_ID, 4, gw ! 0, gw ! 1, gw ! 2, gw ! 3];
          p = wrn p (F_OPTS + 15) [OPT_CLASSLESS_ROUTE, 12, 16, 169, 254, 0, 0, 0, 0, 0,
                                   gw ! 0, gw ! 1, gw ! 2, gw ! 3];
          p = wrn p (F_OPTS + 29) [OPT_SUBNET_MASK, 4, 0xff, 0xff, 0xff, 0xff]
      in p)"

definition dhcp_write_mtu :: "bytes \<Rightarrow> Dhcpv4Reply \<Rightarrow> bytes" where
  "dhcp_write_mtu p r =
     (let p = (if dr_mtu r \<noteq> 0 then wr16 (wrn p (F_OPTS + 35) [OPT_MTU, 2]) (F_OPTS + 37) (dr_mtu r)
               else wrn p (F_OPTS + 35) (replicate 4 OPT_PAD))
      in wrn p (F_OPTS + 39) (replicate 6 OPT_PAD))"

definition dhcp_write_dns :: "bytes \<Rightarrow> Dhcpv4Reply \<Rightarrow> bytes" where
  "dhcp_write_dns p r =
     (let p = wrn p (F_OPTS + 45) (replicate 34 OPT_PAD);
          dns_len = min (unat (dr_dns_len r)) DHCP_MAX_DNS
      in if dns_len > 0
         then let p = wrn p (F_OPTS + 45) [OPT_DNS, of_nat (dns_len * 4)]
              in foldl (\<lambda>p j. wrn p (F_OPTS + 47 + j * 4)
                   [dr_dns r ! j ! 0, dr_dns r ! j ! 1, dr_dns r ! j ! 2, dr_dns r ! j ! 3]) p [0..<dns_len]
         else p)"

definition dhcp_write_hostname :: "bytes \<Rightarrow> Dhcpv4Reply \<Rightarrow> bytes" where
  "dhcp_write_hostname p r =
     (let p = wrn p (F_OPTS + 79) (replicate 66 OPT_PAD);
          hn_len = min (unat (dr_hostname_len r)) MAX_HOSTNAME;
          p = (if hn_len > 0
               then let p = wrn p (F_OPTS + 79) [OPT_HOSTNAME, of_nat hn_len]
                    in foldl (\<lambda>p k. wr8 p (F_OPTS + 81 + k) (dr_hostname r ! k)) p [0..<hn_len]
               else p)
      in wr8 p (F_OPTS + OPT_BLOCK_MAX - 1) OPT_END)"

definition dhcp_ip_sum :: "bytes \<Rightarrow> u32" where
  "dhcp_ip_sum h =
     (let s = 0;
          s = s + (push_bit 8 (ucast (h ! 0)) OR ucast (h ! 1));
          s = s + (push_bit 8 (ucast (h ! 2)) OR ucast (h ! 3));
          s = s + (push_bit 8 (ucast (h ! 4)) OR ucast (h ! 5));
          s = s + (push_bit 8 (ucast (h ! 6)) OR ucast (h ! 7));
          s = s + (push_bit 8 (ucast (h ! 8)) OR ucast (h ! 9));
          s = s + (push_bit 8 (ucast (h ! 12)) OR ucast (h ! 13));
          s = s + (push_bit 8 (ucast (h ! 14)) OR ucast (h ! 15));
          s = s + (push_bit 8 (ucast (h ! 16)) OR ucast (h ! 17));
          s = s + (push_bit 8 (ucast (h ! 18)) OR ucast (h ! 19))
      in s)"

definition dhcp_write_ip_udp :: "bytes \<Rightarrow> Dhcpv4Reply \<Rightarrow> bytes" where
  "dhcp_write_ip_udp p r =
     (let p = wrn p 0 (dr_client_mac r);
          p = wrn p 6 (dr_server_mac r);
          p = wr16 p 12 ETH_P_IP;
          ip_total = of_nat (REPLY_LEN - ETH_LEN) :: u16;
          vihl = rd8 p ETH_LEN;
          tos = rd8 p (ETH_LEN + 1);
          gw = dr_gateway_ipv4 r;
          ip_hdr = [vihl, tos, hi8 ip_total, lo8 ip_total, 0, 0, 0, 0, 64, IPPROTO_UDP, 0, 0,
                    gw ! 0, gw ! 1, gw ! 2, gw ! 3, 255, 255, 255, 255];
          ip_csum = NOT (fold2 (dhcp_ip_sum ip_hdr));
          p = wrn p ETH_LEN ip_hdr;
          p = wr16 p (ETH_LEN + 10) ip_csum;
          udp_len = of_nat (REPLY_LEN - ETH_LEN - 20) :: u16;
          p = wr16 p (ETH_LEN + 20) 67;
          p = wr16 p (ETH_LEN + 22) 68;
          p = wr16 p (ETH_LEN + 24) udp_len;
          p = wr16 p (ETH_LEN + 26) 0
      in p)"

definition write_dhcpv4_reply :: "bytes \<Rightarrow> Dhcpv4Reply \<Rightarrow> bytes option" where
  "write_dhcpv4_reply p r =
     (if REPLY_LEN > length p then None
      else Some (dhcp_write_ip_udp (dhcp_write_hostname (dhcp_write_dns (dhcp_write_mtu
             (dhcp_write_fixed (dhcp_write_bootp p r) r) r) r) r) r))"

section \<open>Glue\<close>

definition learn_mac :: "u32 \<Rightarrow> PortMeta \<Rightarrow> bytes \<Rightarrow> maps \<Rightarrow> maps" where
  "learn_mac ifindex meta eth_src s =
     (if eth_src \<noteq> pm_guest_mac meta
      then
        let s = s\<lparr>PORT_META := hput (PORT_META s) ifindex (meta\<lparr>pm_guest_mac := eth_src\<rparr>)\<rparr>;
            s = (case hget (UNDERLAY s) (pm_underlay_ipv6 meta) of
                   Some u \<Rightarrow> s\<lparr>UNDERLAY := hput (UNDERLAY s) (pm_underlay_ipv6 meta) (u\<lparr>uv_guest_mac := eth_src\<rparr>)\<rparr>
                 | None \<Rightarrow> s);
            ikey = \<lparr>ik_vni = pm_vni meta, ik_ipv4 = pm_guest_ipv4 meta\<rparr>
        in (case hget (INTERFACES s) ikey of
              Some iv \<Rightarrow> s\<lparr>INTERFACES := hput (INTERFACES s) ikey (iv\<lparr>iv_guest_mac := eth_src\<rparr>)\<rparr>
            | None \<Rightarrow> s)
      else s)"

definition gather_dhcpv4_reply :: "Dhcpv4Request \<Rightarrow> PortMeta \<Rightarrow> u32 \<Rightarrow> maps \<Rightarrow> Dhcpv4Reply" where
  "gather_dhcpv4_reply req meta ifindex s =
     (let r = \<lparr>dr_reply_type = dq_reply_type req, dr_client_mac = dq_client_mac req,
               dr_yiaddr = pm_guest_ipv4 meta, dr_gateway_ipv4 = pm_gateway_ipv4 meta,
               dr_server_mac = GW_MAC, dr_xid_secs_flags = dq_xid_secs_flags req, dr_mtu = 1500,
               dr_dns = replicate DHCP_MAX_DNS (replicate 4 0), dr_dns_len = 0,
               dr_lease_secs = 0xffffffff, dr_hostname = replicate MAX_HOSTNAME 0, dr_hostname_len = 0\<rparr>;
          r = (case aget (DHCP_CONFIG s) 0 of
                 Some cfg \<Rightarrow>
                   let dns_len = min (unat (dc_dns4_len cfg)) DHCP_MAX_DNS
                   in r\<lparr>dr_mtu := dc_mtu cfg,
                        dr_dns := foldl (\<lambda>ds j. ds[j := dc_dns4 cfg ! j]) (dr_dns r) [0..<dns_len],
                        dr_dns_len := of_nat dns_len\<rparr>
               | None \<Rightarrow> r)
      in case hget (DHCP_META s) ifindex of
           Some dm \<Rightarrow>
             let hn_len = min (unat (dm_hostname_len dm)) MAX_HOSTNAME
             in r\<lparr>dr_hostname := foldl (\<lambda>hs k. hs[k := dm_hostname dm ! k]) (dr_hostname r) [0..<hn_len],
                  dr_hostname_len := of_nat hn_len\<rparr>
         | None \<Rightarrow> r)"

definition try_dhcpv4_reply ::
  "xdp_ctx \<Rightarrow> PortMeta \<Rightarrow> maps \<Rightarrow> xdp_action option \<times> xdp_ctx \<times> maps" where
  "try_dhcpv4_reply ctx meta s =
     (case parse_dhcpv4_request (pkt ctx) of
        None \<Rightarrow> (None, ctx, s)
      | Some req \<Rightarrow>
          let ifindex = ingress_ifindex ctx;
              s = learn_mac ifindex meta (dq_client_mac req) s;
              r = gather_dhcpv4_reply req meta ifindex s
          in case (if length (pkt ctx) \<noteq> REPLY_LEN then adjust_tail_to ctx REPLY_LEN else Some ctx) of
               None \<Rightarrow> (None, ctx, s)
             | Some ctx \<Rightarrow>
                 (case write_dhcpv4_reply (pkt ctx) r of
                    None \<Rightarrow> (None, ctx, s)
                  | Some p \<Rightarrow> (Some (reflect ctx), ctx\<lparr>pkt := p\<rparr>, s)))"

end
