(* ===== verification/Dhcp6.thy ===== *)
theory Dhcp6
  imports Dhcp
begin

text \<open>
  The DHCPv6 responder for XDP, \<^verbatim>\<open>xdp-dp-ebpf/src/dhcp.rs\<close>: option parsing, reply sizing,
  emission of the options at a running offset and the UDP checksum. The helpers
  \<^verbatim>\<open>bpf_xdp_load_bytes\<close> and \<^verbatim>\<open>bpf_xdp_store_bytes\<close> check their range against the packet and do
  nothing when it does not fit.
\<close>

abbreviation (input) D6_SOLICIT :: u8 where "D6_SOLICIT \<equiv> 1"
abbreviation (input) D6_ADVERTISE :: u8 where "D6_ADVERTISE \<equiv> 2"
abbreviation (input) D6_REQUEST :: u8 where "D6_REQUEST \<equiv> 3"
abbreviation (input) D6_CONFIRM :: u8 where "D6_CONFIRM \<equiv> 4"
abbreviation (input) D6_REPLY :: u8 where "D6_REPLY \<equiv> 7"
abbreviation (input) D6_OPT_CLIENTID :: u16 where "D6_OPT_CLIENTID \<equiv> 1"
abbreviation (input) D6_OPT_SERVERID :: u16 where "D6_OPT_SERVERID \<equiv> 2"
abbreviation (input) D6_OPT_IA_NA :: u16 where "D6_OPT_IA_NA \<equiv> 3"
abbreviation (input) D6_OPT_RAPID_COMMIT :: u16 where "D6_OPT_RAPID_COMMIT \<equiv> 14"
abbreviation (input) D6_OPT_USER_CLASS :: u16 where "D6_OPT_USER_CLASS \<equiv> 15"
abbreviation (input) D6_OPT_VENDOR_CLASS :: u16 where "D6_OPT_VENDOR_CLASS \<equiv> 16"
abbreviation (input) D6_OPT_DNS :: u16 where "D6_OPT_DNS \<equiv> 23"
abbreviation (input) D6_OPT_BOOT_FILE :: u16 where "D6_OPT_BOOT_FILE \<equiv> 59"
abbreviation (input) F6_DHCP :: nat where "F6_DHCP \<equiv> 62"
abbreviation (input) F6_OPTS :: nat where "F6_OPTS \<equiv> 66"
abbreviation (input) PXE_NONE :: u8 where "PXE_NONE \<equiv> 0"
abbreviation (input) PXE_TFTP :: u8 where "PXE_TFTP \<equiv> 1"
abbreviation (input) PXE_HTTP :: u8 where "PXE_HTTP \<equiv> 2"
abbreviation (input) D6_MAX_DUID :: nat where "D6_MAX_DUID \<equiv> 10"
abbreviation (input) D6_MAX_URL :: nat where "D6_MAX_URL \<equiv> 120"
abbreviation (input) D6_MAX_OPTS :: nat where "D6_MAX_OPTS \<equiv> 338"
abbreviation (input) D6_SCAN :: nat where "D6_SCAN \<equiv> 128"
abbreviation (input) D6_MAX_TOTAL :: nat where "D6_MAX_TOTAL \<equiv> 404"

definition ascii :: "string \<Rightarrow> bytes" where
  "ascii = map (\<lambda>c. of_nat (of_char c))"

definition TFTP_PATH :: bytes where "TFTP_PATH = ascii ''ipxe/x86_64/ipxe.new''"
definition TFTP_SCHEME :: bytes where "TFTP_SCHEME = ascii ''tftp://''"
definition HTTP_SCHEME :: bytes where "HTTP_SCHEME = ascii ''http://''"

definition IA_TEMPLATE :: bytes where
  "IA_TEMPLATE =
     [0, 3, 0, 46] @ [0, 0, 0, 0] @ [0xff, 0xff, 0xff, 0xff] @ [0xff, 0xff, 0xff, 0xff] @
     [0, 5, 0, 30] @ [0, 0, 0, 0, 0, 0, 0, 0, 0, 0, 0, 0, 0, 0, 0, 0] @
     [0xff, 0xff, 0xff, 0xff] @ [0xff, 0xff, 0xff, 0xff] @ [0, 13, 0, 2, 0, 0]"

record D6Reply =
  d6_got_clientid :: bool
  d6_duid :: bytes
  d6_duid_len :: u16
  d6_got_iana :: bool
  d6_iaid :: bytes
  d6_rapid_commit :: bool
  d6_pxe_mode :: u8
  d6_reply_type :: u8
  d6_tid :: bytes
  d6_dns6_count :: u16
  d6_url_len :: u16
  d6_real_reply_len :: u16
  d6_req_src6 :: bytes
  d6_req_eth_src :: bytes

section \<open>Helpers\<close>

definition d6_url_len_of :: "u8 \<Rightarrow> DhcpMeta \<Rightarrow> nat" where
  "d6_url_len_of pxe_mode dm =
     (if pxe_mode = PXE_NONE then 0
      else
        let host_len = unat (dm_pxe_host_len dm)
        in if host_len = 0 \<or> host_len > 46 then 0
           else
             let path_len = (if pxe_mode = PXE_TFTP then length TFTP_PATH else unat (dm_boot_filename_len dm))
             in 7 + 1 + host_len + 2 + path_len)"

definition load_bytes :: "bytes \<Rightarrow> nat \<Rightarrow> nat \<Rightarrow> bytes option" where
  "load_bytes p off n = (if off + n \<le> length p then Some (rdn p off n) else None)"

definition store :: "bytes \<Rightarrow> nat \<Rightarrow> bytes \<Rightarrow> bytes" where
  "store p off bs = (if off + length bs \<le> length p then wrn p off bs else p)"

definition d6_store_url :: "bytes \<Rightarrow> nat \<Rightarrow> u8 \<Rightarrow> DhcpMeta \<Rightarrow> bytes \<times> nat" where
  "d6_store_url p base pxe_mode dm =
     (let host_len = unat (dm_pxe_host_len dm)
      in if host_len = 0 \<or> host_len > 46 then (p, 0)
         else
           let scheme = (if pxe_mode = PXE_TFTP then TFTP_SCHEME else HTTP_SCHEME);
               up = 0;
               p = store p (base + up) scheme;
               up = up + 7;
               p = store p (base + up) (ascii ''['');
               up = up + 1;
               p = store p (base + up) (take host_len (dm_pxe_host dm));
               up = up + host_len;
               p = store p (base + up) (ascii '']/'');
               up = up + 2
           in if pxe_mode = PXE_TFTP
              then (store p (base + up) TFTP_PATH, up + length TFTP_PATH)
              else
                let file_len = min (unat (dm_boot_filename_len dm)) 64
                in if file_len > 0
                   then (store p (base + up) (take file_len (dm_boot_filename dm)), up + file_len)
                   else (p, up))"

section \<open>Option parsing\<close>

text \<open>One option: code, clamped length and the offset of its value.\<close>

definition d6_option :: "bytes \<Rightarrow> u16 \<Rightarrow> nat \<Rightarrow> nat \<Rightarrow> D6Reply \<Rightarrow> D6Reply" where
  "d6_option p code olen v r =
     (if code = D6_OPT_RAPID_COMMIT then r\<lparr>d6_rapid_commit := True\<rparr>
      else if code = D6_OPT_USER_CLASS
      then if d6_pxe_mode r = PXE_NONE then r\<lparr>d6_pxe_mode := PXE_HTTP\<rparr> else r
      else if code = D6_OPT_IA_NA
      then (case load_bytes p (F6_OPTS + v) 4 of
              Some vb \<Rightarrow> r\<lparr>d6_iaid := vb, d6_got_iana := True\<rparr>
            | None \<Rightarrow> r)
      else if code = D6_OPT_VENDOR_CLASS
      then (case load_bytes p (F6_OPTS + v) 4 of
              Some vb \<Rightarrow> if vb = [0, 0, 1, 87] \<and> d6_pxe_mode r = PXE_NONE then r\<lparr>d6_pxe_mode := PXE_TFTP\<rparr> else r
            | None \<Rightarrow> r)
      else if code = D6_OPT_CLIENTID
      then let r = r\<lparr>d6_got_clientid := True, d6_duid_len := of_nat (min olen D6_MAX_DUID)\<rparr>
           in (case load_bytes p (F6_OPTS + v) D6_MAX_DUID of
                 Some d \<Rightarrow> r\<lparr>d6_duid := d\<rparr>
               | None \<Rightarrow> r)
      else r)"

text \<open>The option walk: \<open>guard\<close> bounds the number of options, \<open>n\<close> the option bytes.\<close>

function d6_parse :: "bytes \<Rightarrow> D6Reply \<Rightarrow> nat \<Rightarrow> nat \<Rightarrow> nat \<Rightarrow> D6Reply" where
  "d6_parse p r n i guard =
     (if i + 4 \<le> n \<and> i + 4 \<le> D6_SCAN \<and> guard < 12
      then case load_bytes p (F6_OPTS + i) 4 of
             None \<Rightarrow> r
           | Some hb \<Rightarrow>
               let code = be16 (hb ! 0) (hb ! 1);
                   olen = min (unat (be16 (hb ! 2) (hb ! 3))) D6_SCAN;
                   v = i + 4
               in d6_parse p (d6_option p code olen v r) n (v + olen) (guard + 1)
      else r)"
  by pat_completeness auto
termination
  by (relation "measure (\<lambda>(_, _, _, _, guard). 12 - guard)") auto

declare d6_parse.simps [simp del]

section \<open>Emission\<close>

definition d6_write_headers :: "bytes \<Rightarrow> PortMeta \<Rightarrow> D6Reply \<Rightarrow> bytes" where
  "d6_write_headers p meta r =
     (let payload_len = d6_real_reply_len r - 54;
          p = wrn p 0 (d6_req_eth_src r);
          p = wrn p 6 GW_MAC;
          p = wr16 p 12 ETH_P_IPV6;
          p = wr16 p (ETH_LEN + 4) payload_len;
          p = wr8 p (ETH_LEN + 6) IPPROTO_UDP;
          p = wr8 p (ETH_LEN + 7) 64;
          p = wrn p (ETH_LEN + 8) (pm_gateway_ipv6 meta);
          p = wrn p (ETH_LEN + 24) (d6_req_src6 r);
          p = wr16 p (ETH_LEN + 40) 547;
          p = wr16 p (ETH_LEN + 42) 546;
          p = wr16 p (ETH_LEN + 44) payload_len;
          p = wr16 p (ETH_LEN + 46) 0;
          p = wr8 p F6_DHCP (d6_reply_type r);
          p = wr8 p (F6_DHCP + 1) (d6_tid r ! 0);
          p = wr8 p (F6_DHCP + 2) (d6_tid r ! 1);
          p = wr8 p (F6_DHCP + 3) (d6_tid r ! 2)
      in p)"

definition d6_emit_ids :: "bytes \<Rightarrow> PortMeta \<Rightarrow> D6Reply \<Rightarrow> bytes \<times> nat" where
  "d6_emit_ids p meta r =
     (let off = 0;
          p = wr16 p (F6_OPTS + off) D6_OPT_SERVERID;
          p = wr16 p (F6_OPTS + off + 2) 10;
          p = wr16 p (F6_OPTS + off + 4) 3;
          p = wr16 p (F6_OPTS + off + 6) 0xabcd;
          p = wrn p (F6_OPTS + off + 8) (pm_guest_mac meta);
          off = off + 14;
          duid_len = min (unat (d6_duid_len r)) D6_MAX_DUID
      in if d6_got_clientid r \<and> duid_len > 0
         then let p = wr16 p (F6_OPTS + off) D6_OPT_CLIENTID;
                  p = wr16 p (F6_OPTS + off + 2) (of_nat duid_len);
                  p = wrn p (F6_OPTS + off + 4) (take duid_len (d6_duid r))
              in (p, off + 4 + duid_len)
         else (p, off))"

definition d6_emit_opts :: "bytes \<Rightarrow> nat \<Rightarrow> PortMeta \<Rightarrow> D6Reply \<Rightarrow> DhcpConfig option \<Rightarrow> DhcpMeta option \<Rightarrow> bytes" where
  "d6_emit_opts p off meta r cfg dm =
     (let (p, off) =
            (if d6_got_iana r
             then let p = store p (F6_OPTS + off) IA_TEMPLATE;
                      p = store p (F6_OPTS + off + 4) (d6_iaid r);
                      p = store p (F6_OPTS + off + 20) (pm_guest_ipv6 meta)
                  in (p, off + 50)
             else (p, off));
          (p, off) =
            (if d6_rapid_commit r then (store p (F6_OPTS + off) [0, 14, 0, 0], off + 4) else (p, off));
          dns6_count = min (unat (d6_dns6_count r)) DHCP_MAX_DNS;
          (p, off) =
            (if dns6_count > 0
             then (case cfg of
                     Some c \<Rightarrow>
                       let len = of_nat dns6_count * 16 :: u16;
                           p = store p (F6_OPTS + off) [hi8 D6_OPT_DNS, lo8 D6_OPT_DNS, hi8 len, lo8 len];
                           p = foldl (\<lambda>p di. store p (F6_OPTS + off + 4 + di * 16) (dc_dns6 c ! di)) p [0..<dns6_count]
                       in (p, off + 4 + dns6_count * 16)
                   | None \<Rightarrow> (p, off))
             else (p, off));
          (p, off) =
            (if unat (d6_url_len r) > 0
             then (case dm of
                     Some m \<Rightarrow>
                       let p = store p (F6_OPTS + off) [hi8 D6_OPT_BOOT_FILE, lo8 D6_OPT_BOOT_FILE,
                                 hi8 (d6_url_len r), lo8 (d6_url_len r)];
                           (p, written) = d6_store_url p (F6_OPTS + off + 4) (d6_pxe_mode r) m
                       in (p, off + 4 + written)
                   | None \<Rightarrow> (p, off))
             else (p, off))
      in store p (unat (d6_real_reply_len r)) [0])"

definition d6_emit :: "bytes \<Rightarrow> u32 \<Rightarrow> PortMeta \<Rightarrow> D6Reply \<Rightarrow> maps \<Rightarrow> bytes" where
  "d6_emit p ifindex meta r s =
     (if D6_MAX_TOTAL > length p then p
      else
        let p = d6_write_headers p meta r;
            cfg = aget (DHCP_CONFIG s) 0;
            dm = hget (DHCP_META s) ifindex;
            (p, off) = d6_emit_ids p meta r
        in d6_emit_opts p off meta r cfg dm)"

definition d6_checksum :: "bytes \<Rightarrow> u16 \<Rightarrow> bytes" where
  "d6_checksum p udp_len =
     (if D6_MAX_TOTAL > length p then p
      else
        let n = min (unat udp_len) 350;
            cs = foldl (\<lambda>cs k. cs + ucast (rd16 p (ETH_LEN + 8 + k)) + ucast (rd16 p (ETH_LEN + 24 + k))) (0 :: u32)
                   [0, 2, 4, 6, 8, 10, 12, 14];
            cs = cs + ucast udp_len;
            cs = cs + ucast IPPROTO_UDP;
            cs = foldl (\<lambda>cs i. if 2 * i < n then cs + ucast (rd16 p (ETH_LEN + 40 + 2 * i)) else cs) cs [0..<175];
            cksum = NOT (fold2 cs)
        in wr16 p (ETH_LEN + 46) cksum)"

section \<open>The responder\<close>

definition d6_request :: "bytes \<Rightarrow> D6Reply option" where
  "d6_request p =
     (if F6_OPTS > length p then None
      else if rd16 p 12 \<noteq> ETH_P_IPV6 then None
      else if rd8 p (ETH_LEN + 6) \<noteq> IPPROTO_UDP then None
      else if rd16 p (ETH_LEN + 40 + 2) \<noteq> 547 then None
      else
        let msg_type = rd8 p F6_DHCP
        in if msg_type \<noteq> D6_SOLICIT \<and> msg_type \<noteq> D6_REQUEST \<and> msg_type \<noteq> D6_CONFIRM then None
           else Some
             \<lparr>d6_got_clientid = False, d6_duid = replicate D6_MAX_DUID 0, d6_duid_len = 0,
              d6_got_iana = False, d6_iaid = [0, 0, 0, 0], d6_rapid_commit = False, d6_pxe_mode = PXE_NONE,
              d6_reply_type = D6_REPLY, d6_tid = [rd8 p (F6_DHCP + 1), rd8 p (F6_DHCP + 2), rd8 p (F6_DHCP + 3)],
              d6_dns6_count = 0, d6_url_len = 0, d6_real_reply_len = 0,
              d6_req_src6 = rdn p (ETH_LEN + 8) 16, d6_req_eth_src = rdn p 6 6\<rparr>)"

definition d6_opts_len :: "D6Reply \<Rightarrow> nat \<Rightarrow> nat \<Rightarrow> nat" where
  "d6_opts_len r dns6_count url_len =
     (let duid_len = min (unat (d6_duid_len r)) D6_MAX_DUID
      in min (14 + (if d6_got_clientid r \<and> duid_len > 0 then 4 + duid_len else 0)
              + (if d6_got_iana r then 50 else 0) + (if d6_rapid_commit r then 4 else 0)
              + (if dns6_count > 0 then 4 + dns6_count * 16 else 0)
              + (if url_len > 0 then 4 + url_len else 0)) D6_MAX_OPTS)"

definition d6_fill :: "D6Reply \<Rightarrow> u8 \<Rightarrow> u32 \<Rightarrow> maps \<Rightarrow> D6Reply" where
  "d6_fill r msg_type ifindex s =
     (let r = r\<lparr>d6_reply_type := (if msg_type = D6_SOLICIT \<and> \<not> d6_rapid_commit r then D6_ADVERTISE else D6_REPLY)\<rparr>;
          dns6_count = (case aget (DHCP_CONFIG s) 0 of
                          Some cfg \<Rightarrow> min (unat (dc_dns6_len cfg)) DHCP_MAX_DNS | None \<Rightarrow> 0);
          url_len = (if d6_pxe_mode r \<noteq> PXE_NONE
                     then (case hget (DHCP_META s) ifindex of
                             Some dm \<Rightarrow> min (d6_url_len_of (d6_pxe_mode r) dm) D6_MAX_URL | None \<Rightarrow> 0)
                     else 0);
          r = r\<lparr>d6_dns6_count := of_nat dns6_count, d6_url_len := of_nat url_len\<rparr>
      in r\<lparr>d6_real_reply_len := of_nat (F6_OPTS + d6_opts_len r dns6_count url_len)\<rparr>)"

definition try_dhcpv6_reply :: "xdp_ctx \<Rightarrow> PortMeta \<Rightarrow> maps \<Rightarrow> xdp_action option \<times> xdp_ctx" where
  "try_dhcpv6_reply ctx meta s =
     (case d6_request (pkt ctx) of
        None \<Rightarrow> (None, ctx)
      | Some r \<Rightarrow>
          let msg_type = rd8 (pkt ctx) F6_DHCP;
              n = min (length (pkt ctx) - F6_OPTS) D6_SCAN
          in case adjust_tail_to ctx D6_MAX_TOTAL of
               None \<Rightarrow> (None, ctx)
             | Some ctx \<Rightarrow>
                 let ifindex = ingress_ifindex ctx;
                     r = d6_parse (pkt ctx) r n 0 0;
                     r = d6_fill r msg_type ifindex s;
                     p = d6_emit (pkt ctx) ifindex meta r s;
                     udp_len = of_nat (unat (d6_real_reply_len r) - ETH_LEN - 40);
                     p = d6_checksum p udp_len
                 in (Some (reflect ctx), ctx\<lparr>pkt := p\<rparr>))"

end
