(* ===== verification/Dhcp_Props.thy ===== *)
theory Dhcp_Props
  imports Dhcp
begin

text \<open>
  What a DHCP client reads from the responder's answer. \<open>dhcp_options\<close> is the reader of RFC 2132: options
  are code, length and value, zero bytes are padding, 255 ends the list. The byte-at-a-time scanner of the
  code is compared with it, and the option block of the reply is read back with it.
\<close>

section \<open>Reading options\<close>

function dhcp_options :: "bytes \<Rightarrow> (u8 \<times> bytes) list option" where
  "dhcp_options [] = None"
| "dhcp_options (b # bs) =
     (if b = 0 then dhcp_options bs
      else if b = 255 then Some []
      else case bs of
             [] \<Rightarrow> None
           | l # vs \<Rightarrow>
               if unat l \<le> length vs
               then map_option (Cons (b, take (unat l) vs)) (dhcp_options (drop (unat l) vs))
               else None)"
  by pat_completeness auto
termination
  by (relation "measure length") auto

lemma options_pad [simp]: "dhcp_options (replicate n 0 @ bs) = dhcp_options bs"
  by (induction n) auto

lemma options_tlv:
  assumes "c \<noteq> 0" "c \<noteq> 255" "length v < 256"
  shows "dhcp_options (c # of_nat (length v) # v @ bs) = map_option (Cons (c, v)) (dhcp_options bs)"
proof -
  have "unat (of_nat (length v) :: u8) = length v" using assms(3) by (simp add: unat_of_nat)
  then show ?thesis using assms(1,2) by simp
qed

section \<open>The scanner\<close>

text \<open>The message type: the last byte of the last option 53 that has a value.\<close>

definition last_type :: "u8 \<Rightarrow> (u8 \<times> bytes) list \<Rightarrow> u8" where
  "last_type = foldl (\<lambda>m (c, v). if c = OPT_MESSAGE_TYPE \<and> v \<noteq> [] then last v else m)"

lemma scan_value:
  "v \<noteq> [] \<Longrightarrow> opt_scan (v @ bs) 2 (length v) t m = opt_scan bs 0 0 t (if t then last v else m)"
proof (induction v arbitrary: m)
  case (Cons b v)
  then show ?case by (cases "v = []") (auto simp: Let_def)
qed simp

lemma scan_reads_options: "dhcp_options bs = Some os \<Longrightarrow> opt_scan bs 0 n t m = last_type m os"
proof (induction bs arbitrary: os n t m rule: dhcp_options.induct)
  case (2 b bs)
  show ?case
  proof (cases "b = 0 \<or> b = 255")
    case True
    then show ?thesis using 2 by (auto simp: last_type_def)
  next
    case False
    then obtain l vs os' where bs: "bs = l # vs" "unat l \<le> length vs" "dhcp_options (drop (unat l) vs) = Some os'"
      "os = (b, take (unat l) vs) # os'"
      using 2 by (auto split: list.splits if_splits)
    have rest: "opt_scan (drop (unat l) vs) 0 n t m = last_type m os'" for n t m
      using 2(2) [of l vs] False bs by auto
    show ?thesis
    proof (cases "unat l = 0")
      case True
      then show ?thesis using rest False bs by (auto simp: last_type_def)
    next
      case l: False
      let ?v = "take (unat l) vs"
      have v: "length ?v = unat l" "?v \<noteq> []" using bs(2) l by auto
      have "opt_scan vs 2 (unat l) (b = 53) m = opt_scan (drop (unat l) vs) 0 0 (b = 53) (if b = 53 then last ?v else m)"
        using scan_value [OF v(2), of "drop (unat l) vs" "b = 53" m] v(1) by simp
      then show ?thesis using rest False l bs v(2) by (auto simp: last_type_def)
    qed
  qed
qed simp

section \<open>Writing option blocks\<close>

lemma wrn_append: "wrn p off (xs @ ys) = wrn (wrn p off xs) (off + length xs) ys"
  by (induction xs arbitrary: p off) simp_all

lemma foldl_wrn:
  assumes "\<And>j. length (f j) = k"
  shows "foldl (\<lambda>p j. wrn p (off + j * k) (f j)) p [0..<n] = wrn p off (concat (map f [0..<n]))"
proof (induction n)
  case (Suc n)
  have "length (concat (map f [0..<n])) = n * k" using assms by (induction n) simp_all
  then show ?case using Suc by (simp add: wrn_append)
qed simp

lemma foldl_wr8: "foldl (\<lambda>p j. wr8 p (off + j) (f j)) p [0..<n] = wrn p off (map f [0..<n])"
  by (induction n) (simp_all add: wrn_append)

lemma rdn_append: "rdn p off (a + b) = rdn p off a @ rdn p (off + a) b"
  by (rule nth_equalityI) (auto simp: nth_append rdn_def)

lemma rdn_overwrite:
  assumes "off + length xs \<le> length p" "length ys \<le> length xs" "n = length xs"
  shows "rdn (wrn (wrn p off xs) off ys) off n = ys @ drop (length ys) xs"
  using assms by (intro nth_equalityI) (auto simp: rd8_wrn nth_append)

section \<open>The option block of a reply\<close>

definition reply_wf :: "Dhcpv4Reply \<Rightarrow> bool" where
  "reply_wf r = (length (dr_gateway_ipv4 r) = 4 \<and> length (dr_yiaddr r) = 4 \<and> length (dr_client_mac r) = 6 \<and>
     length (dr_server_mac r) = 6 \<and> length (dr_xid_secs_flags r) = 8 \<and> length (dr_dns r) = DHCP_MAX_DNS \<and>
     list_all (\<lambda>a. length a = 4) (dr_dns r) \<and> length (dr_hostname r) = MAX_HOSTNAME)"

definition dns_servers :: "Dhcpv4Reply \<Rightarrow> bytes" where
  "dns_servers r = concat (take (unat (dr_dns_len r)) (dr_dns r))"

definition host_name :: "Dhcpv4Reply \<Rightarrow> bytes" where
  "host_name r = take (unat (dr_hostname_len r)) (dr_hostname r)"

text \<open>What the reply says, as a list of options.\<close>

definition reply_options :: "Dhcpv4Reply \<Rightarrow> (u8 \<times> bytes) list" where
  "reply_options r =
     [(OPT_MESSAGE_TYPE, [dr_reply_type r]), (OPT_LEASE_TIME, u32_be (dr_lease_secs r)),
      (OPT_SERVER_ID, dr_gateway_ipv4 r), (OPT_CLASSLESS_ROUTE, [16, 169, 254, 0, 0, 0, 0, 0] @ dr_gateway_ipv4 r),
      (OPT_SUBNET_MASK, [255, 255, 255, 255])] @
     (if dr_mtu r \<noteq> 0 then [(OPT_MTU, [hi8 (dr_mtu r), lo8 (dr_mtu r)])] else []) @
     (if dns_servers r \<noteq> [] then [(OPT_DNS, dns_servers r)] else []) @
     (if host_name r \<noteq> [] then [(OPT_HOSTNAME, host_name r)] else [])"

definition tlv :: "u8 \<Rightarrow> bytes \<Rightarrow> bytes" where
  "tlv c v = (if v = [] then [] else c # of_nat (length v) # v)"

lemma options_tlv_pad:
  assumes "c \<noteq> 0" "c \<noteq> 255" "length v < 256"
  shows "dhcp_options (tlv c v @ replicate n 0 @ bs) = map_option ((@) (if v \<noteq> [] then [(c, v)] else [])) (dhcp_options bs)"
  using options_tlv [OF assms] by (cases "dhcp_options bs") (simp_all add: tlv_def option.map_ident)

lemma map_nth_take: "n \<le> length xs \<Longrightarrow> map ((!) xs) [0..<n] = take n xs"
  by (rule nth_equalityI) auto

lemma length_4_nth: "length d = 4 \<Longrightarrow> [d ! 0, d ! 1, d ! 2, d ! 3] = d"
  by (auto dest!: length_4E)

lemma concat_quads:
  assumes "list_all (\<lambda>a. length a = 4) ds" "n \<le> length ds"
  shows "concat (map (\<lambda>j. [ds ! j ! 0, ds ! j ! 1, ds ! j ! 2, ds ! j ! 3]) [0..<n]) = concat (take n ds)"
    "length (concat (take n ds)) = 4 * n"
proof -
  have "map (\<lambda>j. [ds ! j ! 0, ds ! j ! 1, ds ! j ! 2, ds ! j ! 3]) [0..<n] = map ((!) ds) [0..<n]"
    using assms by (intro map_cong refl length_4_nth) (auto simp: list_all_length)
  then show "concat (map (\<lambda>j. [ds ! j ! 0, ds ! j ! 1, ds ! j ! 2, ds ! j ! 3]) [0..<n]) = concat (take n ds)"
    using assms(2) by (simp only: map_nth_take)
  show "length (concat (take n ds)) = 4 * n"
    using assms by (induction n) (simp_all add: take_Suc_conv_app_nth list_all_length)
qed

lemma dns_block:
  assumes "reply_wf r"
  shows "dhcp_write_dns p r = wrn (wrn p (F_OPTS + 45) (replicate 34 0)) (F_OPTS + 45) (tlv OPT_DNS (dns_servers r))"
    "length (dns_servers r) = 4 * min (unat (dr_dns_len r)) DHCP_MAX_DNS"
proof -
  let ?n = "min (unat (dr_dns_len r)) DHCP_MAX_DNS"
  have ds: "list_all (\<lambda>a. length a = 4) (dr_dns r)" "?n \<le> length (dr_dns r)" using assms by (auto simp: reply_wf_def)
  have s: "dns_servers r = concat (take ?n (dr_dns r))" using assms by (simp add: dns_servers_def reply_wf_def min_def)
  then show len: "length (dns_servers r) = 4 * ?n" using concat_quads(2) [OF ds] by simp
  then have ne: "dns_servers r = [] \<longleftrightarrow> ?n = 0" by (metis length_0_conv mult_is_0 zero_neq_numeral)
  show "dhcp_write_dns p r = wrn (wrn p (F_OPTS + 45) (replicate 34 0)) (F_OPTS + 45) (tlv OPT_DNS (dns_servers r))"
    using foldl_wrn [where k = 4 and off = "F_OPTS + 47" and n = ?n and f = "\<lambda>j. [dr_dns r ! j ! 0, dr_dns r ! j ! 1, dr_dns r ! j ! 2, dr_dns r ! j ! 3]"]
      concat_quads(1) [OF ds] s [symmetric]
    by (simp add: dhcp_write_dns_def tlv_def Let_def mult.commute ne len) (simp add: min_def)
qed

lemma host_block:
  assumes "reply_wf r"
  shows "dhcp_write_hostname p r =
    wr8 (wrn (wrn p (F_OPTS + 79) (replicate 66 0)) (F_OPTS + 79) (tlv OPT_HOSTNAME (host_name r))) (F_OPTS + 145) 255"
    "length (host_name r) = min (unat (dr_hostname_len r)) MAX_HOSTNAME"
proof -
  let ?n = "min (unat (dr_hostname_len r)) MAX_HOSTNAME"
  have l: "length (dr_hostname r) = MAX_HOSTNAME" using assms by (simp add: reply_wf_def)
  then show len: "length (host_name r) = ?n" by (simp add: host_name_def)
  have "map ((!) (dr_hostname r)) [0..<?n] = host_name r" using l by (simp add: host_name_def map_nth_take min_def)
  then show "dhcp_write_hostname p r =
      wr8 (wrn (wrn p (F_OPTS + 79) (replicate 66 0)) (F_OPTS + 79) (tlv OPT_HOSTNAME (host_name r))) (F_OPTS + 145) 255"
    using foldl_wr8 [where off = "F_OPTS + 81" and n = ?n and f = "(!) (dr_hostname r)"] len
    by (cases "?n = 0") (auto simp: dhcp_write_hostname_def tlv_def Let_def)
qed

text \<open>The parts of the block at their offsets.\<close>

lemma length_writers [simp, pkt_len]:
  "length (dhcp_write_bootp p r) = length p" "length (dhcp_write_fixed p r) = length p" "length (dhcp_write_mtu p r) = length p"
  "length (dhcp_write_ip_udp p r) = length p"
  by (simp_all add: dhcp_write_bootp_def dhcp_write_fixed_def dhcp_write_mtu_def dhcp_write_ip_udp_def Let_def)

lemma fixed_block:
  assumes "reply_wf r" "F_OPTS + 35 \<le> length p"
  shows "rdn (dhcp_write_fixed p r) F_OPTS 35 =
    tlv OPT_MESSAGE_TYPE [dr_reply_type r] @ tlv OPT_LEASE_TIME (u32_be (dr_lease_secs r)) @ tlv OPT_SERVER_ID (dr_gateway_ipv4 r) @
    tlv OPT_CLASSLESS_ROUTE ([16, 169, 254, 0, 0, 0, 0, 0] @ dr_gateway_ipv4 r) @ tlv OPT_SUBNET_MASK [255, 255, 255, 255]"
proof -
  obtain a b c d where gw: "dr_gateway_ipv4 r = [a, b, c, d]" using assms(1) length_4E [of "dr_gateway_ipv4 r"] by (auto simp: reply_wf_def)
  have l: "length (u32_be x) = 4" "u32_be x \<noteq> []" for x by (simp_all add: u32_be_def)
  have split: "rdn q F_OPTS 35 = rdn q F_OPTS 3 @ rdn q (F_OPTS + 3) 6 @ rdn q (F_OPTS + 9) 6 @ rdn q (F_OPTS + 15) 14 @ rdn q (F_OPTS + 29) 6" for q
    using rdn_append [of q F_OPTS 3 32] rdn_append [of q "F_OPTS + 3" 6 26] rdn_append [of q "F_OPTS + 9" 6 20] rdn_append [of q "F_OPTS + 15" 14 6]
    by simp
  show ?thesis
    unfolding split using assms(2) by (simp add: dhcp_write_fixed_def Let_def gw tlv_def l pkt del: wrn.simps)
qed

lemma mtu_block:
  assumes "F_OPTS + 45 \<le> length p"
  shows "rdn (dhcp_write_mtu p r) (F_OPTS + 35) 10 =
    tlv OPT_MTU (if dr_mtu r \<noteq> 0 then [hi8 (dr_mtu r), lo8 (dr_mtu r)] else []) @ replicate (if dr_mtu r \<noteq> 0 then 6 else 10) 0"
    "rdn (dhcp_write_mtu p r) F_OPTS 35 = rdn p F_OPTS 35"
proof -
  have split: "rdn q (F_OPTS + 35) 10 = rdn q (F_OPTS + 35) 4 @ rdn q (F_OPTS + 39) 6" for q
    using rdn_append [of q "F_OPTS + 35" 4 6] by simp
  have "wr16 (wrn p (F_OPTS + 35) [OPT_MTU, 2]) (F_OPTS + 37) w = wrn p (F_OPTS + 35) [OPT_MTU, 2, hi8 w, lo8 w]" for w
    by (simp add: wr16_def)
  then show "rdn (dhcp_write_mtu p r) (F_OPTS + 35) 10 =
      tlv OPT_MTU (if dr_mtu r \<noteq> 0 then [hi8 (dr_mtu r), lo8 (dr_mtu r)] else []) @ replicate (if dr_mtu r \<noteq> 0 then 6 else 10) 0"
    unfolding split using assms by (simp add: dhcp_write_mtu_def Let_def tlv_def pkt del: wrn.simps) (simp add: replicate_add [symmetric])
  show "rdn (dhcp_write_mtu p r) F_OPTS 35 = rdn p F_OPTS 35"
    by (simp add: dhcp_write_mtu_def Let_def pkt del: wrn.simps)
qed

lemma reply_block:
  assumes w: "write_dhcpv4_reply p r = Some q" and wf: "reply_wf r"
  shows "\<exists>a b c. rdn q F_OPTS OPT_BLOCK_MAX =
    (tlv OPT_MESSAGE_TYPE [dr_reply_type r] @ tlv OPT_LEASE_TIME (u32_be (dr_lease_secs r)) @ tlv OPT_SERVER_ID (dr_gateway_ipv4 r) @
      tlv OPT_CLASSLESS_ROUTE ([16, 169, 254, 0, 0, 0, 0, 0] @ dr_gateway_ipv4 r) @ tlv OPT_SUBNET_MASK [255, 255, 255, 255]) @
    (tlv OPT_MTU (if dr_mtu r \<noteq> 0 then [hi8 (dr_mtu r), lo8 (dr_mtu r)] else []) @ replicate a 0) @
    (tlv OPT_DNS (dns_servers r) @ replicate b 0) @ (tlv OPT_HOSTNAME (host_name r) @ replicate c 0) @ [255]"
proof -
  let ?f = "dhcp_write_fixed (dhcp_write_bootp p r) r"
  let ?m = "dhcp_write_mtu ?f r" let ?d = "dhcp_write_dns ?m r" let ?h = "dhcp_write_hostname ?d r"
  have len: "REPLY_LEN \<le> length p" and q: "q = dhcp_write_ip_udp ?h r" using w by (auto simp: write_dhcpv4_reply_def split: if_splits)
  have lens: "length (tlv OPT_DNS (dns_servers r)) \<le> 34" "length (tlv OPT_HOSTNAME (host_name r)) \<le> 66"
    using dns_block(2) [OF wf] host_block(2) [OF wf] by (auto simp: tlv_def)
  have split: "rdn x F_OPTS OPT_BLOCK_MAX = rdn x F_OPTS 35 @ rdn x (F_OPTS + 35) 10 @ rdn x (F_OPTS + 45) 34 @ rdn x (F_OPTS + 79) 66 @ rdn x (F_OPTS + 145) 1" for x
    using rdn_append [of x F_OPTS 35 111] rdn_append [of x "F_OPTS + 35" 10 101] rdn_append [of x "F_OPTS + 45" 34 67] rdn_append [of x "F_OPTS + 79" 66 1]
    by simp
  have ip: "rdn q i n = rdn ?h i n" if "F_OPTS \<le> i" for i n
    unfolding q using that wf by (simp add: dhcp_write_ip_udp_def Let_def pkt reply_wf_def del: wrn.simps)
  have hd: "rdn ?h i n = rdn ?d i n" if "i + n \<le> F_OPTS + 79" for i n
    unfolding host_block(1) [OF wf] using that lens(2) by (simp add: pkt del: wrn.simps)
  have dd: "rdn ?d i n = rdn ?m i n" if "i + n \<le> F_OPTS + 45" for i n
    unfolding dns_block(1) [OF wf] using that by (simp add: pkt del: wrn.simps)
  have "rdn ?d (F_OPTS + 45) 34 = tlv OPT_DNS (dns_servers r) @ replicate (34 - length (tlv OPT_DNS (dns_servers r))) 0"
    unfolding dns_block(1) [OF wf] using len lens(1) by (subst rdn_overwrite) (simp_all del: wrn.simps)
  moreover have "rdn ?h (F_OPTS + 79) 66 = tlv OPT_HOSTNAME (host_name r) @ replicate (66 - length (tlv OPT_HOSTNAME (host_name r))) 0"
  proof -
    have l: "length ?d = length p" by (simp add: dns_block(1) [OF wf] del: wrn.simps)
    show ?thesis unfolding host_block(1) [OF wf] using len lens(2) l
      by (simp add: rdn_wr8_other, subst rdn_overwrite) (simp_all del: wrn.simps)
  qed
  moreover have "rdn ?h (F_OPTS + 145) 1 = [255]"
    using len by (simp add: host_block(1) [OF wf] dns_block(1) [OF wf] rdn_def rd8_wr8)
  ultimately show ?thesis
    unfolding split using ip hd dd mtu_block [of ?f r] fixed_block [OF wf, of "dhcp_write_bootp p r"] len by simp blast
qed

lemma reply_reads_back:
  assumes "write_dhcpv4_reply p r = Some q" "reply_wf r"
  shows "dhcp_options (rdn q F_OPTS OPT_BLOCK_MAX) = Some (reply_options r)"
proof -
  obtain a b c where block: "rdn q F_OPTS OPT_BLOCK_MAX =
    (tlv OPT_MESSAGE_TYPE [dr_reply_type r] @ tlv OPT_LEASE_TIME (u32_be (dr_lease_secs r)) @ tlv OPT_SERVER_ID (dr_gateway_ipv4 r) @
      tlv OPT_CLASSLESS_ROUTE ([16, 169, 254, 0, 0, 0, 0, 0] @ dr_gateway_ipv4 r) @ tlv OPT_SUBNET_MASK [255, 255, 255, 255]) @
    (tlv OPT_MTU (if dr_mtu r \<noteq> 0 then [hi8 (dr_mtu r), lo8 (dr_mtu r)] else []) @ replicate a 0) @
    (tlv OPT_DNS (dns_servers r) @ replicate b 0) @ (tlv OPT_HOSTNAME (host_name r) @ replicate c 0) @ [255]"
    using reply_block [OF assms] by blast
  have tlv: "dhcp_options (tlv k v @ bs) = map_option (Cons (k, v)) (dhcp_options bs)" if "k \<noteq> 0" "k \<noteq> 255" "length v < 256" "v \<noteq> []" for k v bs
    using options_tlv_pad [OF that(1-3), of 0 bs] that(4) by (cases "dhcp_options bs") simp_all
  have ne: "length (u32_be x) = 4" "u32_be x \<noteq> []" for x by (simp_all add: u32_be_def)
  have gw: "length (dr_gateway_ipv4 r) = 4" "dr_gateway_ipv4 r \<noteq> []" using assms(2) by (auto simp: reply_wf_def)
  have small: "length (dns_servers r) < 256" "length (host_name r) < 256"
    using dns_block(2) [OF assms(2)] host_block(2) [OF assms(2)] by simp_all
  have eof: "dhcp_options [255] = Some []" by simp
  show ?thesis
    unfolding block append_assoc using gw small
    by (simp add: tlv options_tlv_pad ne eof reply_options_def del: dhcp_options.simps)
qed

section \<open>Headers\<close>

lemma unat_pair: "unat (push_bit 8 (ucast (a :: u8)) OR ucast (b :: u8) :: u32) = unat (be16 a b)"
proof -
  have "push_bit 8 (ucast a) AND ucast b = (0 :: u32)"
    by (rule bit_eqI) (auto simp: bit_simps dest: bit_imp_le_length)
  then have "push_bit 8 (ucast a) OR ucast b = push_bit 8 (ucast a) + (ucast b :: u32)"
    by (rule disjunctive_add_eq_or [symmetric])
  moreover have "unat a * 256 + unat b < 4294967296" using unat_lt8 [of a] unat_lt8 [of b] by linarith
  ultimately show ?thesis by (simp add: unat_add_small unat_push8)
qed

lemma unat_sum_le:
  "unat (s :: u32) = n \<Longrightarrow> n \<le> 65535 * k \<Longrightarrow> k < 100 \<Longrightarrow>
     unat (s + (push_bit 8 (ucast (a :: u8)) OR ucast (b :: u8))) = n + unat (be16 a b)"
  using unat_le16 [of "be16 a b"] by (subst unat_add_small) (simp_all only: unat_pair, simp)

lemma unat_dhcp_ip_sum:
  "unat (dhcp_ip_sum h) = sum_list (map (\<lambda>i. unat (be16 (h ! i) (h ! Suc i))) [0, 2, 4, 6, 8, 12, 14, 16, 18])"
proof -
  have "unat (foldl (\<lambda>s i. s + (push_bit 8 (ucast (h ! i)) OR ucast (h ! Suc i))) (0 :: u32) is) =
      sum_list (map (\<lambda>i. unat (be16 (h ! i) (h ! Suc i))) is) \<and>
      sum_list (map (\<lambda>i. unat (be16 (h ! i) (h ! Suc i))) is) \<le> 65535 * length is" if "length is < 100" for "is"
    using that
  proof (induction "is" rule: rev_induct)
    case (snoc i "is")
    then show ?case
      using unat_sum_le [of _ _ "length is" "h ! i" "h ! Suc i"] unat_le16 [of "be16 (h ! i) (h ! Suc i)"] by simp
  qed simp
  from this [of "[0, 2, 4, 6, 8, 12, 14, 16, 18]"] show ?thesis
    by (simp add: dhcp_ip_sum_def Let_def del: unat_be16)
qed

text \<open>Addresses, lengths, ports and the IPv4 checksum of a reply.\<close>

definition reply_headers :: "Dhcpv4Reply \<Rightarrow> bytes \<Rightarrow> bool" where
  "reply_headers r q =
     (rdn q 0 6 = dr_client_mac r \<and> rdn q 6 6 = dr_server_mac r \<and> rd16 q 12 = ETH_P_IP \<and>
      rd16 q 16 = 414 \<and> rd8 q 23 = IPPROTO_UDP \<and> rdn q 26 4 = dr_gateway_ipv4 r \<and> rdn q 30 4 = [255, 255, 255, 255] \<and>
      csum_ok (wsum q 14 10) \<and> rd16 q 34 = 67 \<and> rd16 q 36 = 68 \<and> rd16 q 38 = 394 \<and> rd16 q 40 = 0 \<and>
      rd8 q 42 = 2 \<and> rdn q 46 8 = dr_xid_secs_flags r \<and> rdn q 58 4 = dr_yiaddr r \<and> rdn q 62 4 = dr_gateway_ipv4 r \<and>
      rdn q 70 6 = dr_client_mac r)"

lemma ip_udp_headers:
  assumes len: "REPLY_LEN \<le> length p" and wf: "reply_wf r"
  defines "q \<equiv> dhcp_write_ip_udp p r"
  shows "csum_ok (wsum q 14 10)"
    "rdn q 0 6 = dr_client_mac r" "rdn q 6 6 = dr_server_mac r" "rd16 q 12 = ETH_P_IP" "rd16 q 16 = 414" "rd8 q 23 = IPPROTO_UDP"
    "rdn q 26 4 = dr_gateway_ipv4 r" "rdn q 30 4 = [255, 255, 255, 255]" "rd16 q 34 = 67" "rd16 q 36 = 68" "rd16 q 38 = 394" "rd16 q 40 = 0"
    "\<And>i. 42 \<le> i \<Longrightarrow> rd8 q i = rd8 p i"
proof -
  obtain a b c d where gw: "dr_gateway_ipv4 r = [a, b, c, d]" using wf length_4E [of "dr_gateway_ipv4 r"] by (auto simp: reply_wf_def)
  have wl: "length (dr_client_mac r) = 6" "length (dr_server_mac r) = 6" using wf by (auto simp: reply_wf_def)
  let ?e = "wr16 (wrn (wrn p 0 (dr_client_mac r)) 6 (dr_server_mac r)) 12 ETH_P_IP"
  let ?h = "[rd8 ?e 14, rd8 ?e 15, hi8 414, lo8 414, 0, 0, 0, 0, 64, IPPROTO_UDP, 0, 0, a, b, c, d, 255, 255, 255, 255]"
  let ?c = "NOT (fold2 (dhcp_ip_sum ?h))"
  let ?p = "wrn ?e 14 ?h"
  have q: "q = wr16 (wr16 (wr16 (wr16 (wr16 ?p 24 ?c) 34 67) 36 68) 38 394) 40 0"
    unfolding q_def by (simp add: dhcp_write_ip_udp_def Let_def gw)
  have h: "rdn ?p 14 20 = ?h" using len by (intro rdn_wrn_same) simp_all
  have "wsum ?p 14 10 = bsum (rdn ?p 14 20)" using bsum_rdn [of ?p 14 10] by simp
  also have "\<dots> = bsum ?h" by (simp only: h)
  also have "\<dots> = unat (dhcp_ip_sum ?h)" by (simp add: unat_dhcp_ip_sum del: unat_be16) simp
  finally have sum: "wsum ?p 14 10 = unat (dhcp_ip_sum ?h)" .
  have "rd16 ?p 24 = 0" using len by (simp add: rd16_def pkt be16_def del: wrn.simps)
  then have "wsum (wr16 ?p 24 ?c) 14 10 = wsum ?p 14 10 + unat ?c" using wsum_wr16_in [of 5 10 14 ?p ?c] len by simp
  moreover have "wsum q 14 10 = wsum (wr16 ?p 24 ?c) 14 10" unfolding q by (simp add: wsum_wr16_out)
  ultimately show "csum_ok (wsum q 14 10)" using csum16_valid [of "dhcp_ip_sum ?h" "[]"] sum by (simp add: csum16_def)
  show "rdn q 0 6 = dr_client_mac r" "rdn q 6 6 = dr_server_mac r" "rd16 q 12 = ETH_P_IP" "rd16 q 34 = 67" "rd16 q 36 = 68"
    "rd16 q 38 = 394" "rd16 q 40 = 0" "\<And>i. 42 \<le> i \<Longrightarrow> rd8 q i = rd8 p i"
    unfolding q using len wl by (simp_all add: pkt del: wrn.simps)
  show "rd16 q 16 = 414" "rd8 q 23 = IPPROTO_UDP" "rdn q 26 4 = dr_gateway_ipv4 r" "rdn q 30 4 = [255, 255, 255, 255]"
    unfolding q using len by (simp_all add: rd16_def rdn_4 gw pkt del: wrn.simps)
qed

lemma headers_written:
  assumes w: "write_dhcpv4_reply p r = Some q" and wf: "reply_wf r"
  shows "reply_headers r q" "length q = length p" "rdn q 278 4 = rdn p 278 4"
proof -
  let ?b = "dhcp_write_bootp p r"
  let ?m = "dhcp_write_mtu (dhcp_write_fixed ?b r) r"
  let ?h = "dhcp_write_hostname (dhcp_write_dns ?m r) r"
  have len: "REPLY_LEN \<le> length p" and q: "q = dhcp_write_ip_udp ?h r" using w by (auto simp: write_dhcpv4_reply_def split: if_splits)
  have lh: "length ?h = length p" by (simp add: host_block(1) [OF wf] dns_block(1) [OF wf] del: wrn.simps)
  then show "length q = length p" unfolding q by simp
  have "rd8 ?m i = rd8 ?b i" if "i < F_OPTS" for i
    using that by (simp add: dhcp_write_mtu_def dhcp_write_fixed_def Let_def pkt del: wrn.simps)
  then have opts: "rd8 ?h i = rd8 ?b i" if "i < F_OPTS" for i
    using that by (simp add: host_block(1) [OF wf] dns_block(1) [OF wf] pkt del: wrn.simps)
  have low: "rdn q i n = rdn ?b i n" "k < F_OPTS \<Longrightarrow> 42 \<le> k \<Longrightarrow> rd8 q k = rd8 ?b k" if "42 \<le> i" "i + n \<le> F_OPTS" for i n k
    using ip_udp_headers(13) [of ?h r] len lh wf opts that by (auto simp: q intro!: rdn_eqI)
  show "rdn q 278 4 = rdn p 278 4"
    using low(1) [of 278 4] wf by (simp add: dhcp_write_bootp_def Let_def pkt reply_wf_def del: wrn.simps)
  have "rd8 q 42 = 2" "rdn q 46 8 = dr_xid_secs_flags r" "rdn q 58 4 = dr_yiaddr r" "rdn q 62 4 = dr_gateway_ipv4 r" "rdn q 70 6 = dr_client_mac r"
    using low(2) [of 42 0 42] low(1) [of 46 8] low(1) [of 58 4] low(1) [of 62 4] low(1) [of 70 6] wf len
    by (simp_all add: dhcp_write_bootp_def Let_def pkt reply_wf_def del: wrn.simps)
  then show "reply_headers r q" using ip_udp_headers(1-12) [of ?h r] len lh wf by (simp add: reply_headers_def q)
qed

section \<open>The responder\<close>

lemma foldl_fill: "n \<le> length xs \<Longrightarrow> n \<le> length ys \<Longrightarrow> foldl (\<lambda>ys j. ys[j := xs ! j]) ys [0..<n] = take n xs @ drop n ys"
proof (induction n)
  case (Suc n)
  then show ?case by (simp add: take_Suc_conv_app_nth list_update_append Cons_nth_drop_Suc [symmetric])
qed simp

text \<open>The sizes of the arrays in the configuration tables.\<close>

definition dhcp_tables_wf :: "maps \<Rightarrow> bool" where
  "dhcp_tables_wf s =
     ((\<exists>cfg. DHCP_CONFIG s = [cfg] \<and> length (dc_dns4 cfg) = DHCP_MAX_DNS \<and> list_all (\<lambda>a. length a = 4) (dc_dns4 cfg)) \<and>
      (\<forall>ix m. hget (DHCP_META s) ix = Some m \<longrightarrow> length (dm_hostname m) = MAX_HOSTNAME))"

definition configured_name :: "maps \<Rightarrow> u32 \<Rightarrow> bytes" where
  "configured_name s ix = (case hget (DHCP_META s) ix of Some m \<Rightarrow> take (unat (dm_hostname_len m)) (dm_hostname m) | None \<Rightarrow> [])"

lemma gathered:
  fixes ix :: u32
  assumes tab: "DHCP_CONFIG s = [cfg]" "dhcp_tables_wf s" and len: "length (pm_guest_ipv4 meta) = 4" "length (pm_gateway_ipv4 meta) = 4"
    and req: "length (dq_client_mac req) = 6" "length (dq_xid_secs_flags req) = 8"
  defines "r \<equiv> gather_dhcpv4_reply req meta ix s"
  shows "dr_reply_type r = dq_reply_type req" "dr_client_mac r = dq_client_mac req" "dr_yiaddr r = pm_guest_ipv4 meta"
    "dr_gateway_ipv4 r = pm_gateway_ipv4 meta" "dr_server_mac r = GW_MAC" "dr_xid_secs_flags r = dq_xid_secs_flags req"
    "dr_lease_secs r = 0xffffffff" "dr_mtu r = dc_mtu cfg"
    "dns_servers r = concat (take (unat (dc_dns4_len cfg)) (dc_dns4 cfg))" "host_name r = configured_name s ix" "reply_wf r"
proof -
  have cfg: "length (dc_dns4 cfg) = DHCP_MAX_DNS" "list_all (\<lambda>a. length a = 4) (dc_dns4 cfg)" using tab by (auto simp: dhcp_tables_wf_def)
  have name: "length (dm_hostname m) = MAX_HOSTNAME" if "hget (DHCP_META s) ix = Some m" for m using tab that by (auto simp: dhcp_tables_wf_def)
  have small: "unat (of_nat (min n k) :: u8) = min n k" if "k < 256" for n k using that by (simp add: unat_of_nat)
  note defs = r_def gather_dhcpv4_reply_def Let_def tab(1) aget_def
  show sel: "dr_reply_type r = dq_reply_type req" "dr_client_mac r = dq_client_mac req" "dr_yiaddr r = pm_guest_ipv4 meta"
    "dr_gateway_ipv4 r = pm_gateway_ipv4 meta" "dr_server_mac r = GW_MAC" "dr_xid_secs_flags r = dq_xid_secs_flags req"
    "dr_lease_secs r = 0xffffffff" "dr_mtu r = dc_mtu cfg"
    by (simp_all add: defs split: option.splits)
  have dns: "dr_dns r = take (min (unat (dc_dns4_len cfg)) 8) (dc_dns4 cfg) @ drop (min (unat (dc_dns4_len cfg)) 8) (replicate 8 (replicate 4 0))"
    "unat (dr_dns_len r) = min (unat (dc_dns4_len cfg)) 8"
    using cfg by (auto simp: defs foldl_fill small split: option.splits)
  then show "dns_servers r = concat (take (unat (dc_dns4_len cfg)) (dc_dns4 cfg))" using cfg by (simp add: dns_servers_def min_def)
  have named: "host_name r = configured_name s ix \<and> length (dr_hostname r) = MAX_HOSTNAME"
    using name by (cases "hget (DHCP_META s) ix") (auto simp: host_name_def configured_name_def defs foldl_fill small min_def)
  then show "host_name r = configured_name s ix" by (rule conjunct1)
  have "list_all (\<lambda>a. length a = 4) (dr_dns r)" "length (dr_dns r) = DHCP_MAX_DNS"
    using cfg by (auto simp: dns list_all_iff dest: in_set_takeD)
  then show "reply_wf r" using named len req by (simp add: reply_wf_def sel GW_MAC_def)
qed

lemma learn_mac_dhcp [simp]: "DHCP_CONFIG (learn_mac ix meta mac s) = DHCP_CONFIG s" "DHCP_META (learn_mac ix meta mac s) = DHCP_META s"
  by (simp_all add: learn_mac_def Let_def split: option.splits)

lemma tail_keeps: "adjust_tail_to c n = Some c' \<Longrightarrow> i + k \<le> n \<Longrightarrow> i + k \<le> length (pkt c) \<Longrightarrow> rdn (pkt c') i k = rdn (pkt c) i k"
  by (auto simp: adjust_tail_to_def Let_def nth_append rd8_def intro!: rdn_eqI split: if_splits)

lemma tail_room:
  assumes "14 \<le> n" "n \<le> length (pkt c @ tailroom c)"
  obtains c' where "adjust_tail_to c n = Some c'" "length (pkt c') = n" "ingress_ifindex c' = ingress_ifindex c"
proof -
  obtain c' where c': "adjust_tail_to c n = Some c'" "ingress_ifindex c' = ingress_ifindex c" using assms by (auto simp: adjust_tail_to_def Let_def)
  then show thesis using that length_adjust_tail by blast
qed

text \<open>The fields of the answer to a request, whatever buffer it is written into.\<close>

lemma answer_fields:
  assumes w: "write_dhcpv4_reply p' (gather_dhcpv4_reply req meta ix s) = Some q"
    and req: "length (dq_client_mac req) = 6" "length (dq_xid_secs_flags req) = 8"
    and len: "length (pm_guest_ipv4 meta) = 4" "length (pm_gateway_ipv4 meta) = 4"
    and tab: "DHCP_CONFIG s = [cfg]" "dhcp_tables_wf s"
  shows "length q = length p'" "rdn q 278 4 = rdn p' 278 4"
    "rdn q 0 6 = dq_client_mac req \<and> rdn q 6 6 = GW_MAC \<and> rd16 q 12 = ETH_P_IP \<and>
     rd16 q 16 = 414 \<and> rd8 q 23 = IPPROTO_UDP \<and> rdn q 26 4 = pm_gateway_ipv4 meta \<and> rdn q 30 4 = [255, 255, 255, 255] \<and>
     csum_ok (wsum q 14 10) \<and> rd16 q 34 = 67 \<and> rd16 q 36 = 68 \<and> rd16 q 38 = 394 \<and> rd16 q 40 = 0 \<and>
     rd8 q 42 = 2 \<and> rdn q 46 8 = dq_xid_secs_flags req \<and> rdn q 58 4 = pm_guest_ipv4 meta \<and> rdn q 70 6 = dq_client_mac req"
    "dhcp_options (rdn q F_OPTS OPT_BLOCK_MAX) = Some
      ([(OPT_MESSAGE_TYPE, [dq_reply_type req]), (OPT_LEASE_TIME, [255, 255, 255, 255]), (OPT_SERVER_ID, pm_gateway_ipv4 meta),
        (OPT_CLASSLESS_ROUTE, [16, 169, 254, 0, 0, 0, 0, 0] @ pm_gateway_ipv4 meta), (OPT_SUBNET_MASK, [255, 255, 255, 255])] @
       (if dc_mtu cfg \<noteq> 0 then [(OPT_MTU, [hi8 (dc_mtu cfg), lo8 (dc_mtu cfg)])] else []) @
       (let dns = concat (take (unat (dc_dns4_len cfg)) (dc_dns4 cfg)) in if dns \<noteq> [] then [(OPT_DNS, dns)] else []) @
       (if configured_name s ix \<noteq> [] then [(OPT_HOSTNAME, configured_name s ix)] else []))"
proof -
  note r = gathered [OF tab len req, of ix]
  have lease: "u32_be 0xffffffff = [255, 255, 255, 255]" by (simp add: u32_be_def)
  note h = headers_written [OF w r(11)]
  show "length q = length p'" "rdn q 278 4 = rdn p' 278 4" by (rule h(2), rule h(3))
  show "rdn q 0 6 = dq_client_mac req \<and> rdn q 6 6 = GW_MAC \<and> rd16 q 12 = ETH_P_IP \<and>
     rd16 q 16 = 414 \<and> rd8 q 23 = IPPROTO_UDP \<and> rdn q 26 4 = pm_gateway_ipv4 meta \<and> rdn q 30 4 = [255, 255, 255, 255] \<and>
     csum_ok (wsum q 14 10) \<and> rd16 q 34 = 67 \<and> rd16 q 36 = 68 \<and> rd16 q 38 = 394 \<and> rd16 q 40 = 0 \<and>
     rd8 q 42 = 2 \<and> rdn q 46 8 = dq_xid_secs_flags req \<and> rdn q 58 4 = pm_guest_ipv4 meta \<and> rdn q 70 6 = dq_client_mac req"
    using h(1) by (simp add: reply_headers_def r)
  show "dhcp_options (rdn q F_OPTS OPT_BLOCK_MAX) = Some
      ([(OPT_MESSAGE_TYPE, [dq_reply_type req]), (OPT_LEASE_TIME, [255, 255, 255, 255]), (OPT_SERVER_ID, pm_gateway_ipv4 meta),
        (OPT_CLASSLESS_ROUTE, [16, 169, 254, 0, 0, 0, 0, 0] @ pm_gateway_ipv4 meta), (OPT_SUBNET_MASK, [255, 255, 255, 255])] @
       (if dc_mtu cfg \<noteq> 0 then [(OPT_MTU, [hi8 (dc_mtu cfg), lo8 (dc_mtu cfg)])] else []) @
       (let dns = concat (take (unat (dc_dns4_len cfg)) (dc_dns4 cfg)) in if dns \<noteq> [] then [(OPT_DNS, dns)] else []) @
       (if configured_name s ix \<noteq> [] then [(OPT_HOSTNAME, configured_name s ix)] else []))"
    unfolding reply_reads_back [OF w r(11)] reply_options_def Let_def r(1-10) lease ..
qed

lemma parse_request:
  assumes "looks_like_dhcpv4 p" "rdn p 278 4 = DHCP_MAGIC" "dhcp_options (take OPTS_SCAN_BYTES (drop F_OPTS p)) = Some os"
    "last_type 0 os = DHCP_MSG_DISCOVER \<or> last_type 0 os = DHCP_MSG_REQUEST"
  shows "parse_dhcpv4_request p = Some \<lparr>dq_reply_type = (if last_type 0 os = DHCP_MSG_DISCOVER then DHCP_MSG_OFFER else DHCP_MSG_ACK),
    dq_client_mac = rdn p 6 6, dq_xid_secs_flags = rdn p 46 8\<rparr>"
  using assms(1,2,4) scan_reads_options [OF assms(3), of 0 False 0]
  by (auto simp: parse_dhcpv4_request_def looks_like_dhcpv4_def dhcp_msg_type_def Let_def)

text \<open>C12: the DHCPv4 responder answers a client correctly. A DISCOVER or REQUEST whose options are well
  formed is answered whenever the frame can be resized: the reply is an OFFER or ACK to the client's own
  MAC and transaction, with the guest's address, a valid IPv4 checksum and consistent lengths and
  ports, and a client that reads its options finds exactly the message type, an infinite lease, the
  gateway as server and route, the subnet mask and the configured MTU, name servers and host name.\<close>

theorem dhcpv4_answer:
  assumes p: "looks_like_dhcpv4 (pkt ctx)" "rdn (pkt ctx) 278 4 = DHCP_MAGIC"
      "dhcp_options (take OPTS_SCAN_BYTES (drop F_OPTS (pkt ctx))) = Some os"
      "last_type 0 os = DHCP_MSG_DISCOVER \<or> last_type 0 os = DHCP_MSG_REQUEST"
    and room: "REPLY_LEN \<le> length (pkt ctx @ tailroom ctx)"
    and len: "length (pm_guest_ipv4 meta) = 4" "length (pm_gateway_ipv4 meta) = 4"
    and tab: "DHCP_CONFIG s = [cfg]" "dhcp_tables_wf s"
  shows "\<exists>ctx'. try_dhcpv4_reply ctx meta s =
      (Some (XDP_REDIRECT (ingress_ifindex ctx)), ctx', learn_mac (ingress_ifindex ctx) meta (rdn (pkt ctx) 6 6) s) \<and>
    (let q = pkt ctx' in
      length q = REPLY_LEN \<and> rdn q 278 4 = DHCP_MAGIC \<and>
      (rdn q 0 6 = rdn (pkt ctx) 6 6 \<and> rdn q 6 6 = GW_MAC \<and> rd16 q 12 = ETH_P_IP \<and>
       rd16 q 16 = 414 \<and> rd8 q 23 = IPPROTO_UDP \<and> rdn q 26 4 = pm_gateway_ipv4 meta \<and> rdn q 30 4 = [255, 255, 255, 255] \<and>
       csum_ok (wsum q 14 10) \<and> rd16 q 34 = 67 \<and> rd16 q 36 = 68 \<and> rd16 q 38 = 394 \<and> rd16 q 40 = 0 \<and>
       rd8 q 42 = 2 \<and> rdn q 46 8 = rdn (pkt ctx) 46 8 \<and> rdn q 58 4 = pm_guest_ipv4 meta \<and> rdn q 70 6 = rdn (pkt ctx) 6 6) \<and>
      dhcp_options (rdn q F_OPTS OPT_BLOCK_MAX) = Some
        ([(OPT_MESSAGE_TYPE, [if last_type 0 os = DHCP_MSG_DISCOVER then DHCP_MSG_OFFER else DHCP_MSG_ACK]),
          (OPT_LEASE_TIME, [255, 255, 255, 255]), (OPT_SERVER_ID, pm_gateway_ipv4 meta),
          (OPT_CLASSLESS_ROUTE, [16, 169, 254, 0, 0, 0, 0, 0] @ pm_gateway_ipv4 meta), (OPT_SUBNET_MASK, [255, 255, 255, 255])] @
         (if dc_mtu cfg \<noteq> 0 then [(OPT_MTU, [hi8 (dc_mtu cfg), lo8 (dc_mtu cfg)])] else []) @
         (let dns = concat (take (unat (dc_dns4_len cfg)) (dc_dns4 cfg)) in if dns \<noteq> [] then [(OPT_DNS, dns)] else []) @
         (if configured_name s (ingress_ifindex ctx) \<noteq> [] then [(OPT_HOSTNAME, configured_name s (ingress_ifindex ctx))] else [])))"
proof -
  let ?ix = "ingress_ifindex ctx" and ?s = "learn_mac (ingress_ifindex ctx) meta (rdn (pkt ctx) 6 6) s"
  let ?req = "\<lparr>dq_reply_type = (if last_type 0 os = DHCP_MSG_DISCOVER then DHCP_MSG_OFFER else DHCP_MSG_ACK),
    dq_client_mac = rdn (pkt ctx) 6 6, dq_xid_secs_flags = rdn (pkt ctx) 46 8\<rparr>"
  let ?r = "gather_dhcpv4_reply ?req meta ?ix ?s"
  have lp: "F_OPTS \<le> length (pkt ctx)" using p(1) by (simp add: looks_like_dhcpv4_def)
  obtain c where c: "(if length (pkt ctx) \<noteq> REPLY_LEN then adjust_tail_to ctx REPLY_LEN else Some ctx) = Some c"
    "length (pkt c) = REPLY_LEN" "ingress_ifindex c = ?ix" "rdn (pkt c) 278 4 = DHCP_MAGIC"
  proof (cases "length (pkt ctx) = REPLY_LEN")
    case False
    obtain c where c: "adjust_tail_to ctx REPLY_LEN = Some c" "length (pkt c) = REPLY_LEN" "ingress_ifindex c = ?ix"
      using tail_room [OF _ room] by auto
    then show thesis using that False p(2) lp tail_keeps [OF c(1), of 278 4] by simp
  qed (use that p(2) in simp)
  obtain q where q: "write_dhcpv4_reply (pkt c) ?r = Some q" using c(2) by (simp add: write_dhcpv4_reply_def)
  have t: "DHCP_CONFIG ?s = [cfg]" "dhcp_tables_wf ?s" "configured_name ?s ?ix = configured_name s ?ix"
    using tab by (simp_all add: dhcp_tables_wf_def configured_name_def)
  note f = answer_fields [OF q _ _ len t(1,2)]
  have "try_dhcpv4_reply ctx meta s = (Some (XDP_REDIRECT ?ix), c\<lparr>pkt := q\<rparr>, ?s)"
    by (simp only: try_dhcpv4_reply_def parse_request [OF p] Let_def option.case Dhcpv4Request.simps c(1) q reflect_def c(3))
  moreover have "length q = REPLY_LEN" "rdn q 278 4 = DHCP_MAGIC" using f(1,2) c(2,4) by simp_all
  ultimately show ?thesis
    using f(3,4) unfolding t(3) Let_def by (intro exI [of _ "c\<lparr>pkt := q\<rparr>"]) simp
qed

text \<open>A DISCOVER from 52:54:00:00:00:02 with room behind it, on a port for 10.0.0.5.\<close>

definition sample_discover :: bytes where
  "sample_discover = [255, 255, 255, 255, 255, 255, 82, 84, 0, 0, 0, 2, 8, 0] @ [69, 0, 1, 10, 0, 0, 0, 0, 64, 17, 0, 0] @
     [0, 0, 0, 0, 255, 255, 255, 255] @ [0, 68, 0, 67, 0, 246, 0, 0] @ replicate 236 0 @ DHCP_MAGIC @ [53, 1, 1, 255]"

definition sample_dhcp_ctx :: xdp_ctx where
  "sample_dhcp_ctx = \<lparr>headroom = [], pkt = sample_discover, tailroom = replicate 200 0, ingress_ifindex = 7\<rparr>"

definition sample_dhcp_port :: PortMeta where
  "sample_dhcp_port = \<lparr>pm_vni = 100, pm_guest_ipv4 = [10, 0, 0, 5], pm_gateway_ipv4 = [169, 254, 0, 1],
     pm_guest_mac = [82, 84, 0, 0, 0, 2], pm_underlay_ipv6 = replicate 16 0, pm_gateway_ipv6 = replicate 16 0, pm_guest_ipv6 = replicate 16 0\<rparr>"

theorem dhcpv4_answer_witness:
  "\<exists>ctx'. fst (try_dhcpv4_reply sample_dhcp_ctx sample_dhcp_port fresh_maps) = Some (XDP_REDIRECT 7) \<and>
     fst (snd (try_dhcpv4_reply sample_dhcp_ctx sample_dhcp_port fresh_maps)) = ctx' \<and>
     rdn (pkt ctx') 58 4 = [10, 0, 0, 5] \<and> csum_ok (wsum (pkt ctx') 14 10) \<and>
     dhcp_options (rdn (pkt ctx') F_OPTS OPT_BLOCK_MAX) = Some
       [(OPT_MESSAGE_TYPE, [DHCP_MSG_OFFER]), (OPT_LEASE_TIME, [255, 255, 255, 255]), (OPT_SERVER_ID, [169, 254, 0, 1]),
        (OPT_CLASSLESS_ROUTE, [16, 169, 254, 0, 0, 0, 0, 0, 169, 254, 0, 1]), (OPT_SUBNET_MASK, [255, 255, 255, 255])]"
proof -
  have p: "looks_like_dhcpv4 (pkt sample_dhcp_ctx)" "rdn (pkt sample_dhcp_ctx) 278 4 = DHCP_MAGIC"
    "REPLY_LEN \<le> length (pkt sample_dhcp_ctx @ tailroom sample_dhcp_ctx)"
    by (simp_all add: sample_dhcp_ctx_def sample_discover_def looks_like_dhcpv4_def rdn_4 rd16_def rd8_def nth_append be16_def)
  have o: "dhcp_options (take OPTS_SCAN_BYTES (drop F_OPTS (pkt sample_dhcp_ctx))) = Some [(53, [1])]"
    by (simp add: sample_dhcp_ctx_def sample_discover_def)
  have t: "DHCP_CONFIG fresh_maps = [zero_dhcp_config]" "dhcp_tables_wf fresh_maps"
    by (simp_all add: dhcp_tables_wf_def fresh_maps_def zero_dhcp_config_def hnew_def hget_def list_all_iff)
  have l: "length (pm_guest_ipv4 sample_dhcp_port) = 4" "length (pm_gateway_ipv4 sample_dhcp_port) = 4" by (simp_all add: sample_dhcp_port_def)
  have "last_type 0 [(53, [1])] = DHCP_MSG_DISCOVER \<or> last_type 0 [(53, [1])] = DHCP_MSG_REQUEST" by (simp add: last_type_def)
  from dhcpv4_answer [OF p(1,2) o this p(3) l t] show ?thesis
    by (auto simp: Let_def zero_dhcp_config_def configured_name_def fresh_maps_def hnew_def hget_def sample_dhcp_port_def last_type_def
        sample_dhcp_ctx_def)
qed

end
