(* ===== verification/Dhcp6_Props.thy ===== *)
theory Dhcp6_Props
  imports Dhcp6 Dhcp_Props
begin

text \<open>
  What a DHCPv6 client reads from the responder's answer. \<open>d6_options\<close> is the reader of RFC 8415: options are
  a code and a length of two bytes each and a value. The options the code emits at a running offset are
  read back with it, and the UDP checksum over pseudo header and message is shown valid.
\<close>

section \<open>Options\<close>

function d6_options :: "bytes \<Rightarrow> (u16 \<times> bytes) list option" where
  "d6_options [] = Some []"
| "d6_options [a] = None"
| "d6_options [a, b] = None"
| "d6_options [a, b, c] = None"
| "d6_options (a # b # c # d # vs) =
     (let n = unat (be16 c d)
      in if n \<le> length vs then map_option (Cons (be16 a b, take n vs)) (d6_options (drop n vs)) else None)"
  by pat_completeness auto
termination
  by (relation "measure length") auto

definition o6 :: "u16 \<Rightarrow> bytes \<Rightarrow> bytes" where
  "o6 c v = [hi8 c, lo8 c, hi8 (of_nat (length v)), lo8 (of_nat (length v))] @ v"

lemma length_o6 [simp]: "length (o6 c v) = 4 + length v"
  by (simp add: o6_def)

lemma options_o6: "length v < 65536 \<Longrightarrow> d6_options (o6 c v @ bs) = map_option (Cons (c, v)) (d6_options bs)"
  by (simp add: o6_def Let_def unat_of_nat del: unat_be16)

text \<open>A group of options: present under a condition.\<close>

definition given :: "bool \<Rightarrow> 'a list \<Rightarrow> 'a list" where
  "given b xs = (if b then xs else [])"

lemma options_given:
  "length v < 65536 \<Longrightarrow> d6_options (given b (o6 c v) @ bs) = map_option ((@) (given b [(c, v)])) (d6_options bs)"
  by (cases "d6_options bs") (simp_all add: given_def options_o6)

section \<open>Writing at a running offset\<close>

lemma wrn_overwrite:
  assumes "length b' = length b" "i = off + length a"
  shows "wrn (wrn p off (a @ b @ c)) i b' = wrn p off (a @ b' @ c)"
  using assms by (intro bytes_eqI) (auto simp: rd8_wrn nth_append)

lemma store_fits: "off + length bs \<le> length p \<Longrightarrow> store p off bs = wrn p off bs"
  by (simp add: store_def)

definition server_id :: "PortMeta \<Rightarrow> bytes" where
  "server_id meta = [0, 3, 0xab, 0xcd] @ pm_guest_mac meta"

definition client_id :: "D6Reply \<Rightarrow> bytes" where
  "client_id r = take (min (unat (d6_duid_len r)) D6_MAX_DUID) (d6_duid r)"

definition address_id :: "PortMeta \<Rightarrow> D6Reply \<Rightarrow> bytes" where
  "address_id meta r = d6_iaid r @ replicate 8 255 @ o6 5 (pm_guest_ipv6 meta @ replicate 8 255 @ o6 13 [0, 0])"

definition boot_url :: "u8 \<Rightarrow> DhcpMeta \<Rightarrow> bytes" where
  "boot_url mode dm = (if mode = PXE_TFTP then TFTP_SCHEME else HTTP_SCHEME) @ ascii ''['' @ take (unat (dm_pxe_host_len dm)) (dm_pxe_host dm) @
     ascii '']/'' @ (if mode = PXE_TFTP then TFTP_PATH else take (unat (dm_boot_filename_len dm)) (dm_boot_filename dm))"

definition d6_wf :: "PortMeta \<Rightarrow> D6Reply \<Rightarrow> bool" where
  "d6_wf meta r = (length (pm_guest_mac meta) = 6 \<and> length (pm_guest_ipv6 meta) = 16 \<and> length (pm_gateway_ipv6 meta) = 16 \<and>
     length (d6_duid r) = D6_MAX_DUID \<and> length (d6_iaid r) = 4 \<and> length (d6_tid r) = 3 \<and>
     length (d6_req_src6 r) = 16 \<and> length (d6_req_eth_src r) = 6)"

lemma emit_ids:
  assumes "d6_wf meta r"
  shows "d6_emit_ids p meta r =
    (wrn p F6_OPTS (o6 D6_OPT_SERVERID (server_id meta) @ given (d6_got_clientid r \<and> client_id r \<noteq> []) (o6 D6_OPT_CLIENTID (client_id r))),
     length (o6 D6_OPT_SERVERID (server_id meta) @ given (d6_got_clientid r \<and> client_id r \<noteq> []) (o6 D6_OPT_CLIENTID (client_id r))))"
proof -
  have l: "length (client_id r) = min (unat (d6_duid_len r)) D6_MAX_DUID" using assms by (simp add: client_id_def d6_wf_def)
  then have ne: "client_id r \<noteq> [] \<longleftrightarrow> min (unat (d6_duid_len r)) D6_MAX_DUID > 0" by (metis length_greater_0_conv)
  have k: "hi8 3 = 0" "lo8 3 = 3" "hi8 43981 = 171" "lo8 43981 = 205" by (simp_all add: hi8_def lo8_def)
  show ?thesis using assms l ne
    by (auto simp: k d6_emit_ids_def Let_def o6_def given_def server_id_def wrn_append wr16_def d6_wf_def client_id_def)
qed

lemma emit_address:
  assumes "d6_wf meta r" "off + 50 \<le> length p"
  shows "store (store (store p off IA_TEMPLATE) (off + 4) (d6_iaid r)) (off + 20) (pm_guest_ipv6 meta) = wrn p off (o6 D6_OPT_IA_NA (address_id meta r))"
proof -
  let ?a = "[0, 3, 0, 46] :: bytes" and ?b = "[0, 0, 0, 0] :: bytes" and ?f = "replicate 8 255 @ [0, 5, 0, 30] :: bytes"
    and ?z = "replicate 16 0 :: bytes" and ?e = "replicate 8 255 @ [0, 13, 0, 2, 0, 0] :: bytes"
  have t: "IA_TEMPLATE = ?a @ ?b @ (?f @ ?z @ ?e)" by (simp add: IA_TEMPLATE_def numeral_eq_Suc)
  have l: "length (d6_iaid r) = 4" "length (pm_guest_ipv6 meta) = 16" using assms(1) by (simp_all add: d6_wf_def)
  have o: "o6 D6_OPT_IA_NA (address_id meta r) = (?a @ d6_iaid r @ ?f) @ pm_guest_ipv6 meta @ ?e"
    using l by (simp add: o6_def address_id_def hi8_def lo8_def)
  have "wrn (wrn p off IA_TEMPLATE) (off + 4) (d6_iaid r) = wrn p off ((?a @ d6_iaid r @ ?f) @ ?z @ ?e)"
    unfolding t append_assoc by (rule wrn_overwrite) (simp_all add: l)
  moreover have "wrn (wrn p off ((?a @ d6_iaid r @ ?f) @ ?z @ ?e)) (off + 20) (pm_guest_ipv6 meta) = wrn p off (o6 D6_OPT_IA_NA (address_id meta r))"
    unfolding o by (rule wrn_overwrite) (simp_all add: l)
  moreover have "length IA_TEMPLATE = 50" by (simp add: t)
  ultimately show ?thesis using assms(2) l by (simp add: store_fits)
qed

text \<open>The boot URL, within the sizes of the host and file name fields.\<close>

definition boot_wf :: "DhcpMeta \<Rightarrow> bool" where
  "boot_wf dm = (length (dm_pxe_host dm) = 46 \<and> length (dm_boot_filename dm) = 64 \<and> unat (dm_boot_filename_len dm) \<le> 64)"

lemma boot_url_length:
  assumes "boot_wf dm" "mode \<noteq> PXE_NONE" "0 < unat (dm_pxe_host_len dm)" "unat (dm_pxe_host_len dm) \<le> 46"
  shows "length (boot_url mode dm) = d6_url_len_of mode dm" "length (boot_url mode dm) \<le> D6_MAX_URL"
  using assms by (auto simp: boot_url_def d6_url_len_of_def Let_def boot_wf_def TFTP_SCHEME_def HTTP_SCHEME_def TFTP_PATH_def ascii_def)

lemma emit_url:
  assumes "boot_wf dm" "0 < unat (dm_pxe_host_len dm)" "unat (dm_pxe_host_len dm) \<le> 46" "base + length (boot_url mode dm) \<le> length p"
  shows "d6_store_url p base mode dm = (wrn p base (boot_url mode dm), length (boot_url mode dm))"
proof -
  have l: "length TFTP_SCHEME = 7" "length HTTP_SCHEME = 7" "length TFTP_PATH = 20" "length (ascii ''['') = 1" "length (ascii '']/'') = 2"
    by (simp_all add: TFTP_SCHEME_def HTTP_SCHEME_def TFTP_PATH_def ascii_def)
  show ?thesis
    using assms
    by (auto simp: d6_store_url_def Let_def boot_url_def store_fits wrn_append boot_wf_def l min_def ac_simps)
qed

lemma foldl_store:
  assumes "list_all (\<lambda>a. length a = k) xs"
  shows "n \<le> length xs \<Longrightarrow> off + n * k \<le> length p \<Longrightarrow>
    foldl (\<lambda>p j. store p (off + j * k) (xs ! j)) p [0..<n] = wrn p off (concat (take n xs)) \<and> length (concat (take n xs)) = n * k"
proof (induction n)
  case (Suc n)
  have "length (xs ! n) = k" using assms Suc.prems(1) by (simp add: list_all_length)
  then show ?case using Suc by (simp add: take_Suc_conv_app_nth wrn_append store_fits)
qed simp

lemma store_append: "off + length bs + length x \<le> length p \<Longrightarrow> i = off + length bs \<Longrightarrow> store (wrn p off bs) i x = wrn p off (bs @ x)"
  by (simp add: store_fits wrn_append)

section \<open>The options of a reply\<close>

definition d6_dns :: "D6Reply \<Rightarrow> DhcpConfig \<Rightarrow> bytes" where
  "d6_dns r c = concat (take (unat (d6_dns6_count r)) (dc_dns6 c))"

definition d6_url :: "D6Reply \<Rightarrow> DhcpMeta option \<Rightarrow> bytes" where
  "d6_url r dm = (case dm of Some m \<Rightarrow> if d6_url_len r \<noteq> 0 then boot_url (d6_pxe_mode r) m else [] | None \<Rightarrow> [])"

definition d6_later :: "PortMeta \<Rightarrow> D6Reply \<Rightarrow> DhcpConfig \<Rightarrow> DhcpMeta option \<Rightarrow> (u16 \<times> bytes) list" where
  "d6_later meta r c dm = given (d6_got_iana r) [(D6_OPT_IA_NA, address_id meta r)] @ given (d6_rapid_commit r) [(D6_OPT_RAPID_COMMIT, [])] @
     given (d6_dns r c \<noteq> []) [(D6_OPT_DNS, d6_dns r c)] @ given (d6_url r dm \<noteq> []) [(D6_OPT_BOOT_FILE, d6_url r dm)]"

definition d6_reply_options :: "PortMeta \<Rightarrow> D6Reply \<Rightarrow> DhcpConfig \<Rightarrow> DhcpMeta option \<Rightarrow> (u16 \<times> bytes) list" where
  "d6_reply_options meta r c dm = [(D6_OPT_SERVERID, server_id meta)] @
     given (d6_got_clientid r \<and> client_id r \<noteq> []) [(D6_OPT_CLIENTID, client_id r)] @ d6_later meta r c dm"

definition encode6 :: "(u16 \<times> bytes) list \<Rightarrow> bytes" where
  "encode6 os = concat (map (\<lambda>(c, v). o6 c v) os)"

lemma encode6_simps [simp]: "encode6 [] = []" "encode6 ((c, v) # os) = o6 c v @ encode6 os" "encode6 (os @ os') = encode6 os @ encode6 os'"
  by (simp_all add: encode6_def)

lemma decode_encode6: "list_all (\<lambda>(c, v). length v < 65536) os \<Longrightarrow> d6_options (encode6 os) = Some os"
  by (induction os) (auto simp: options_o6)

lemma encode6_bound: "(c, v) \<in> set os \<Longrightarrow> length v \<le> length (encode6 os)"
  by (induction os) auto

text \<open>What the sizing of the reply guarantees the writer.\<close>

definition d6_sized :: "D6Reply \<Rightarrow> DhcpConfig \<Rightarrow> DhcpMeta option \<Rightarrow> bool" where
  "d6_sized r c dm = (length (dc_dns6 c) = DHCP_MAX_DNS \<and> list_all (\<lambda>a. length a = 16) (dc_dns6 c) \<and> unat (d6_dns6_count r) \<le> DHCP_MAX_DNS \<and>
     (d6_url_len r = 0 \<or> (\<exists>m. dm = Some m \<and> boot_wf m \<and> d6_pxe_mode r \<noteq> PXE_NONE \<and> 0 < unat (dm_pxe_host_len m) \<and>
        unat (dm_pxe_host_len m) \<le> 46 \<and> d6_url_len r = of_nat (length (boot_url (d6_pxe_mode r) m)))))"

lemma dns_length: "d6_sized r c dm \<Longrightarrow> length (d6_dns r c) = unat (d6_dns6_count r) * 16"
  unfolding d6_dns_def d6_sized_def using foldl_store [of 16 "dc_dns6 c" "unat (d6_dns6_count r)" 0 "replicate 400 0"] by simp

lemma url_length: "d6_sized r c dm \<Longrightarrow> length (d6_url r dm) \<le> D6_MAX_URL \<and> of_nat (length (d6_url r dm)) = d6_url_len r"
  using boot_url_length by (auto simp: d6_url_def d6_sized_def split: option.splits)

lemma emit_dns:
  assumes sz: "d6_sized r c dm" and len: "D6_MAX_TOTAL \<le> length p" and bs: "length bs \<le> 82"
  shows "(if 0 < min (unat (d6_dns6_count r)) DHCP_MAX_DNS
      then let l = of_nat (min (unat (d6_dns6_count r)) DHCP_MAX_DNS) * 16 :: u16;
               p = store (wrn p F6_OPTS bs) (F6_OPTS + length bs) [hi8 D6_OPT_DNS, lo8 D6_OPT_DNS, hi8 l, lo8 l];
               p = foldl (\<lambda>p di. store p (F6_OPTS + length bs + 4 + di * 16) (dc_dns6 c ! di)) p [0..<min (unat (d6_dns6_count r)) DHCP_MAX_DNS]
           in (p, length bs + 4 + min (unat (d6_dns6_count r)) DHCP_MAX_DNS * 16)
      else (wrn p F6_OPTS bs, length bs)) =
      (let bs = bs @ given (d6_dns r c \<noteq> []) (o6 D6_OPT_DNS (d6_dns r c)) in (wrn p F6_OPTS bs, length bs))"
proof -
  have pos: "0 < min (unat (d6_dns6_count r)) DHCP_MAX_DNS \<longleftrightarrow> d6_dns r c \<noteq> []"
    using dns_length [OF sz] by (metis length_greater_0_conv min_less_iff_conj nat_0_less_mult_iff zero_less_numeral)
  show ?thesis
    using bs len dns_length [OF sz] foldl_store [of 16 "dc_dns6 c" "unat (d6_dns6_count r)"] sz unfolding pos
    by (simp add: given_def Let_def store_append o6_def d6_sized_def d6_dns_def wrn_append)
qed

lemma emit_boot:
  assumes sz: "d6_sized r c dm" and len: "D6_MAX_TOTAL \<le> length p" and bs: "length bs \<le> 214"
  shows "(if 0 < unat (d6_url_len r)
      then (case dm of
              Some m \<Rightarrow>
                let p = store (wrn p F6_OPTS bs) (F6_OPTS + length bs) [hi8 D6_OPT_BOOT_FILE, lo8 D6_OPT_BOOT_FILE, hi8 (d6_url_len r), lo8 (d6_url_len r)];
                    (p, written) = d6_store_url p (F6_OPTS + length bs + 4) (d6_pxe_mode r) m
                in (p, length bs + 4 + written)
            | None \<Rightarrow> (wrn p F6_OPTS bs, length bs))
      else (wrn p F6_OPTS bs, length bs)) =
      (let bs = bs @ given (d6_url r dm \<noteq> []) (o6 D6_OPT_BOOT_FILE (d6_url r dm)) in (wrn p F6_OPTS bs, length bs))"
proof (cases "d6_url_len r = 0")
  case True
  then show ?thesis by (simp add: d6_url_def given_def split: option.splits)
next
  case False
  then obtain m where m: "dm = Some m" "boot_wf m" "d6_pxe_mode r \<noteq> PXE_NONE" "0 < unat (dm_pxe_host_len m)" "unat (dm_pxe_host_len m) \<le> 46"
    "d6_url_len r = of_nat (length (boot_url (d6_pxe_mode r) m))"
    using sz by (auto simp: d6_sized_def)
  have u: "length (boot_url (d6_pxe_mode r) m) \<le> D6_MAX_URL" "boot_url (d6_pxe_mode r) m \<noteq> []"
    using boot_url_length(2) [OF m(2,3,4,5)] False m(6) by auto
  have "0 < unat (d6_url_len r)" using False by (simp add: unat_gt_0)
  then show ?thesis
    using emit_url [OF m(2,4,5)] bs len u False m(1)
    by (simp add: d6_url_def given_def Let_def store_append m(6) [symmetric] o6_def wrn_append)
qed

lemma emit_opts:
  assumes wf: "d6_wf meta r" and sz: "d6_sized r c dm" and len: "D6_MAX_TOTAL \<le> length p" and ids: "length bs \<le> 28"
  shows "d6_emit_opts (wrn p F6_OPTS bs) (length bs) meta r (Some c) dm =
    store (wrn p F6_OPTS (bs @ encode6 (d6_later meta r c dm))) (unat (d6_real_reply_len r)) [0]"
proof -
  define b1 where "b1 = bs @ given (d6_got_iana r) (o6 D6_OPT_IA_NA (address_id meta r))"
  define b2 where "b2 = b1 @ given (d6_rapid_commit r) (o6 D6_OPT_RAPID_COMMIT [])"
  define b3 where "b3 = b2 @ given (d6_dns r c \<noteq> []) (o6 D6_OPT_DNS (d6_dns r c))"
  have l1: "length b1 \<le> 78" using wf ids by (auto simp: b1_def given_def address_id_def d6_wf_def)
  have l2: "length b2 \<le> 82" using l1 by (auto simp: b2_def given_def)
  have l3: "length b3 \<le> 214" using l2 dns_length [OF sz] sz by (auto simp: b3_def given_def d6_sized_def)
  have s1: "(if d6_got_iana r
      then let p = store (wrn p F6_OPTS bs) (F6_OPTS + length bs) IA_TEMPLATE;
               p = store p (F6_OPTS + length bs + 4) (d6_iaid r);
               p = store p (F6_OPTS + length bs + 20) (pm_guest_ipv6 meta)
           in (p, length bs + 50)
      else (wrn p F6_OPTS bs, length bs)) = (wrn p F6_OPTS b1, length b1)"
    using emit_address [OF wf, of "F6_OPTS + length bs" "wrn p F6_OPTS bs"] len ids wf
    by (simp add: b1_def given_def Let_def wrn_append address_id_def d6_wf_def)
  have s2: "(if d6_rapid_commit r then (store (wrn p F6_OPTS b1) (F6_OPTS + length b1) [0, 14, 0, 0], length b1 + 4) else (wrn p F6_OPTS b1, length b1)) =
      (wrn p F6_OPTS b2, length b2)"
    using l1 len by (simp add: b2_def given_def store_append o6_def hi8_def lo8_def)
  note s3 = emit_dns [OF sz len l2] and s4 = emit_boot [OF sz len l3]
  show ?thesis
    unfolding d6_emit_opts_def Let_def option.case s1 [unfolded Let_def] case_prod_conv s2 s3 [unfolded Let_def] b3_def [symmetric] s4 [unfolded Let_def]
    by (simp add: d6_later_def b1_def b2_def b3_def given_def)
qed

section \<open>Reading the request\<close>

text \<open>What the responder takes from the options of a request.\<close>

record d6_ask =
  ask_client :: "bytes option"
  ask_iaid :: "bytes option"
  ask_rapid :: bool
  ask_boot :: u8

definition ask_option :: "d6_ask \<Rightarrow> u16 \<times> bytes \<Rightarrow> d6_ask" where
  "ask_option a cv =
     (if fst cv = D6_OPT_RAPID_COMMIT then a\<lparr>ask_rapid := True\<rparr>
      else if fst cv = D6_OPT_USER_CLASS then a\<lparr>ask_boot := (if ask_boot a = PXE_NONE then PXE_HTTP else ask_boot a)\<rparr>
      else if fst cv = D6_OPT_IA_NA then a\<lparr>ask_iaid := Some (take 4 (snd cv))\<rparr>
      else if fst cv = D6_OPT_VENDOR_CLASS
      then a\<lparr>ask_boot := (if ask_boot a = PXE_NONE \<and> take 4 (snd cv) = [0, 0, 1, 87] then PXE_TFTP else ask_boot a)\<rparr>
      else if fst cv = D6_OPT_CLIENTID then a\<lparr>ask_client := Some (take D6_MAX_DUID (snd cv))\<rparr>
      else a)"

definition ask_of :: "D6Reply \<Rightarrow> d6_ask" where
  "ask_of r = \<lparr>ask_client = (if d6_got_clientid r then Some (client_id r) else None),
     ask_iaid = (if d6_got_iana r then Some (d6_iaid r) else None), ask_rapid = d6_rapid_commit r, ask_boot = d6_pxe_mode r\<rparr>"

text \<open>Identity associations and vendor classes have at least four bytes.\<close>

definition long_enough :: "u16 \<times> bytes \<Rightarrow> bool" where
  "long_enough cv = (fst cv \<in> {D6_OPT_IA_NA, D6_OPT_VENDOR_CLASS} \<longrightarrow> 4 \<le> length (snd cv))"

lemma rdn_take: "k \<le> n \<Longrightarrow> rdn p off k = take k (rdn p off n)"
  by (rule nth_equalityI) simp_all

lemma read_option:
  assumes p: "F6_OPTS + v + D6_MAX_DUID \<le> length p" and val: "rdn p (F6_OPTS + v) (length val) = val" and n: "length val \<le> D6_SCAN"
    and l: "long_enough (c, val)"
  shows "ask_of (d6_option p c (length val) v r) = ask_option (ask_of r) (c, val)"
proof -
  have four: "rdn p (F6_OPTS + v) 4 = take 4 val" if "4 \<le> length val" using rdn_take [OF that, of p "F6_OPTS + v"] val by simp
  have id: "take (min (length val) 10) (rdn p (F6_OPTS + v) 10) = take 10 val"
  proof (cases "length val \<le> 10")
    case True
    then show ?thesis using rdn_take [OF True, of p "F6_OPTS + v"] val by (simp add: min_def)
  next
    case False
    then show ?thesis using rdn_take [of 10 "length val" p "F6_OPTS + v"] val by (simp add: min_def)
  qed
  have "unat (of_nat (min (length val) 10) :: u16) = min (length val) 10" by (simp add: unat_of_nat min_def)
  then show ?thesis
    using p l four id
    by (auto simp: d6_option_def ask_option_def ask_of_def long_enough_def load_bytes_def client_id_def Let_def)
qed

lemma options_step:
  assumes "d6_options (rdn p off m) = Some os"
  shows "m = 0 \<and> os = [] \<or> (\<exists>n os'. n = unat (rd16 p (off + 2)) \<and> 4 + n \<le> m \<and> os = (rd16 p off, rdn p (off + 4) n) # os' \<and>
    d6_options (rdn p (off + 4 + n) (m - (4 + n))) = Some os')"
proof (cases "m < 4")
  case True
  then have "length (rdn p off m) < 4" by simp
  then have "rdn p off m = [] \<and> os = []" using assms by (cases "rdn p off m" rule: d6_options.cases) auto
  then show ?thesis by (metis length_0_conv length_rdn)
next
  case False
  then have "rdn p off m = [rd8 p off, rd8 p (off + 1), rd8 p (off + 2), rd8 p (off + 3)] @ rdn p (off + 4) (m - 4)"
    using rdn_append [of p off 4 "m - 4"] by (simp add: rdn_4)
  then have u: "rdn p off m = rd8 p off # rd8 p (off + 1) # rd8 p (off + 2) # rd8 p (off + 3) # rdn p (off + 4) (m - 4)" by simp
  define n where "n = unat (rd16 p (off + 2))"
  then have n: "unat (be16 (rd8 p (off + 2)) (rd8 p (off + 3))) = n" by (simp add: rd16_def numeral_3_eq_3)
  have o: "n \<le> m - 4" "os = (rd16 p off, take n (rdn p (off + 4) (m - 4))) # the (d6_options (drop n (rdn p (off + 4) (m - 4))))"
    "d6_options (drop n (rdn p (off + 4) (m - 4))) \<noteq> None"
    using assms unfolding u d6_options.simps Let_def n by (auto simp: rd16_def split: if_splits)
  have e: "rdn p (off + 4) (m - 4) = rdn p (off + 4) n @ rdn p (off + 4 + n) (m - (4 + n))"
  proof -
    have "m - 4 = n + (m - (4 + n))" using o(1) False by linarith
    then show ?thesis using rdn_append [of p "off + 4" n "m - (4 + n)"] by (simp only:)
  qed
  have "take n (rdn p (off + 4) (m - 4)) = rdn p (off + 4) n" "drop n (rdn p (off + 4) (m - 4)) = rdn p (off + 4 + n) (m - (4 + n))"
    unfolding e by simp_all
  then show ?thesis using o False n_def by auto
qed

lemma read_options:
  assumes "d6_options (rdn p (F6_OPTS + i) m) = Some os" "list_all long_enough os" "length os + g \<le> 12" "i + m \<le> D6_SCAN"
    "F6_OPTS + D6_SCAN + D6_MAX_DUID \<le> length p"
  shows "ask_of (d6_parse p r (i + m) i g) = foldl ask_option (ask_of r) os"
  using assms(1-4)
proof (induction os arbitrary: i m g r)
  case Nil
  then have "m = 0" using options_step [OF Nil.prems(1)] by auto
  then show ?case by (simp add: d6_parse.simps)
next
  case (Cons cv os)
  define n where "n = unat (rd16 p (F6_OPTS + i + 2))"
  have "4 + n \<le> m \<and> cv = (rd16 p (F6_OPTS + i), rdn p (F6_OPTS + i + 4) n) \<and>
      d6_options (rdn p (F6_OPTS + i + 4 + n) (m - (4 + n))) = Some os"
    using options_step [OF Cons.prems(1)] unfolding n_def [symmetric] by auto
  moreover have "F6_OPTS + i + 4 + n = F6_OPTS + (i + 4 + n)" by simp
  ultimately have n: "4 + n \<le> m" "cv = (rd16 p (F6_OPTS + i), rdn p (F6_OPTS + i + 4) n)"
    "d6_options (rdn p (F6_OPTS + (i + 4 + n)) (m - (4 + n))) = Some os" by metis+
  have "load_bytes p (F6_OPTS + i) 4 = Some [rd8 p (F6_OPTS + i), rd8 p (F6_OPTS + i + 1), rd8 p (F6_OPTS + i + 2), rd8 p (F6_OPTS + i + 3)]"
    using assms(5) Cons.prems(4) n(1) by (simp add: load_bytes_def rdn_4)
  moreover have "i + 4 \<le> i + m" "i + 4 \<le> D6_SCAN" "g < 12" "min n D6_SCAN = n"
    using Cons.prems(3,4) n(1) by auto
  ultimately have step: "d6_parse p r (i + m) i g = d6_parse p (d6_option p (fst cv) n (i + 4) r) (i + m) (i + 4 + n) (g + 1)"
    by (subst d6_parse.simps) (simp only: if_True option.case Let_def nth_Cons_0 nth_Cons_Suc simp_thms n(2) fst_conv, simp add: n_def rd16_def)
  have "ask_of (d6_option p (fst cv) n (i + 4) r) = ask_option (ask_of r) cv"
    using read_option [of "i + 4" p "snd cv" "fst cv" r] assms(5) Cons.prems(2,4) n by (simp add: ac_simps)
  moreover have "i + 4 + n + (m - (4 + n)) = i + m" using n(1) by simp
  ultimately show ?case
    unfolding step using Cons.IH [OF n(3), of "g + 1"] Cons.prems(2-4) n(1) by simp
qed

lemma parse_keeps:
  "length (d6_duid r) = D6_MAX_DUID \<and> length (d6_iaid r) = 4 \<Longrightarrow>
   length (d6_duid (d6_parse p r n i g)) = D6_MAX_DUID \<and> length (d6_iaid (d6_parse p r n i g)) = 4 \<and> d6_tid (d6_parse p r n i g) = d6_tid r \<and>
   d6_req_src6 (d6_parse p r n i g) = d6_req_src6 r \<and> d6_req_eth_src (d6_parse p r n i g) = d6_req_eth_src r"
proof (induction p r n i g rule: d6_parse.induct)
  case (1 p r n i g)
  have opt: "length (d6_duid (d6_option p c k v r)) = D6_MAX_DUID \<and> length (d6_iaid (d6_option p c k v r)) = 4 \<and> d6_tid (d6_option p c k v r) = d6_tid r \<and>
    d6_req_src6 (d6_option p c k v r) = d6_req_src6 r \<and> d6_req_eth_src (d6_option p c k v r) = d6_req_eth_src r" for c k v
    using 1(2) by (auto simp: d6_option_def Let_def load_bytes_def split: option.splits if_splits)
  show ?case
    by (subst (1 2 3 4 5) d6_parse.simps) (use 1 opt in \<open>auto simp: Let_def split: option.splits\<close>)
qed

section \<open>Sizing\<close>

definition d6_offer :: "PortMeta \<Rightarrow> d6_ask \<Rightarrow> DhcpConfig \<Rightarrow> DhcpMeta option \<Rightarrow> (u16 \<times> bytes) list" where
  "d6_offer meta a cfg dm =
     [(D6_OPT_SERVERID, [0, 3, 0xab, 0xcd] @ pm_guest_mac meta)] @
     (case ask_client a of Some d \<Rightarrow> given (d \<noteq> []) [(D6_OPT_CLIENTID, d)] | None \<Rightarrow> []) @
     (case ask_iaid a of
        Some i \<Rightarrow> [(D6_OPT_IA_NA, i @ replicate 8 255 @ o6 5 (pm_guest_ipv6 meta @ replicate 8 255 @ o6 13 [0, 0]))]
      | None \<Rightarrow> []) @
     given (ask_rapid a) [(D6_OPT_RAPID_COMMIT, [])] @
     (let dns = concat (take (unat (dc_dns6_len cfg)) (dc_dns6 cfg)) in given (dns \<noteq> []) [(D6_OPT_DNS, dns)]) @
     (case dm of
        Some m \<Rightarrow> given (ask_boot a \<noteq> PXE_NONE \<and> 0 < unat (dm_pxe_host_len m) \<and> unat (dm_pxe_host_len m) \<le> 46)
                    [(D6_OPT_BOOT_FILE, boot_url (ask_boot a) m)]
      | None \<Rightarrow> [])"

definition d6_tables_wf :: "maps \<Rightarrow> bool" where
  "d6_tables_wf s =
     ((\<exists>cfg. DHCP_CONFIG s = [cfg] \<and> length (dc_dns6 cfg) = DHCP_MAX_DNS \<and> list_all (\<lambda>a. length a = 16) (dc_dns6 cfg)) \<and>
      (\<forall>ix m. hget (DHCP_META s) ix = Some m \<longrightarrow> boot_wf m))"

lemma boot_url_size: "boot_wf m \<Longrightarrow> length (boot_url mode m) < 65536 \<and> boot_url mode m \<noteq> []"
  by (auto simp: boot_url_def boot_wf_def TFTP_SCHEME_def HTTP_SCHEME_def TFTP_PATH_def ascii_def min_def)

lemma fill_offer:
  fixes r :: D6Reply and t :: u8 and ix :: u32
  assumes tab: "DHCP_CONFIG s = [cfg]" "d6_tables_wf s"
  defines "r' \<equiv> d6_fill r t ix s"
  shows "d6_sized r' cfg (hget (DHCP_META s) ix)" "d6_reply_options meta r' cfg (hget (DHCP_META s) ix) = d6_offer meta (ask_of r) cfg (hget (DHCP_META s) ix)"
proof -
  have cfg: "length (dc_dns6 cfg) = DHCP_MAX_DNS" "list_all (\<lambda>a. length a = 16) (dc_dns6 cfg)" using tab by (auto simp: d6_tables_wf_def)
  have keep: "d6_got_iana r' = d6_got_iana r" "d6_iaid r' = d6_iaid r" "d6_rapid_commit r' = d6_rapid_commit r" "d6_pxe_mode r' = d6_pxe_mode r"
    "d6_got_clientid r' = d6_got_clientid r" "client_id r' = client_id r" "d6_url_len r' =
      (if d6_pxe_mode r \<noteq> PXE_NONE then case hget (DHCP_META s) ix of Some dm \<Rightarrow> of_nat (min (d6_url_len_of (d6_pxe_mode r) dm) D6_MAX_URL) | None \<Rightarrow> 0 else 0)"
    by (auto simp: r'_def d6_fill_def Let_def client_id_def split: option.splits)
  have cnt: "unat (d6_dns6_count r') = min (unat (dc_dns6_len cfg)) DHCP_MAX_DNS"
    by (simp add: r'_def d6_fill_def Let_def tab aget_def unat_of_nat min_def)
  have url: "d6_url_len r' = (if d6_pxe_mode r \<noteq> PXE_NONE \<and> 0 < unat (dm_pxe_host_len m) \<and> unat (dm_pxe_host_len m) \<le> 46
      then of_nat (length (boot_url (d6_pxe_mode r) m)) else 0)" "boot_wf m" "(of_nat (length (boot_url (d6_pxe_mode r) m)) :: u16) \<noteq> 0"
    if m: "hget (DHCP_META s) ix = Some m" for m
  proof -
    show wf: "boot_wf m" using tab m by (auto simp: d6_tables_wf_def)
    show "(of_nat (length (boot_url (d6_pxe_mode r) m)) :: u16) \<noteq> 0"
      using boot_url_size [OF wf, of "d6_pxe_mode r"] by (simp add: word_unat_eq_iff unat_of_nat)
    show "d6_url_len r' = (if d6_pxe_mode r \<noteq> PXE_NONE \<and> 0 < unat (dm_pxe_host_len m) \<and> unat (dm_pxe_host_len m) \<le> 46
        then of_nat (length (boot_url (d6_pxe_mode r) m)) else 0)"
      using boot_url_length [OF wf, of "d6_pxe_mode r"] by (auto simp: keep m d6_url_len_of_def Let_def min_def)
  qed
  show "d6_sized r' cfg (hget (DHCP_META s) ix)"
    using url cfg by (cases "hget (DHCP_META s) ix") (auto simp: d6_sized_def cnt keep)
  have "d6_dns r' cfg = concat (take (unat (dc_dns6_len cfg)) (dc_dns6 cfg))" using cfg by (simp add: d6_dns_def cnt min_def)
  moreover have "d6_url r' (hget (DHCP_META s) ix) = (case hget (DHCP_META s) ix of
      Some m \<Rightarrow> given (d6_pxe_mode r \<noteq> PXE_NONE \<and> 0 < unat (dm_pxe_host_len m) \<and> unat (dm_pxe_host_len m) \<le> 46) (boot_url (d6_pxe_mode r) m) | None \<Rightarrow> [])"
    using url by (simp add: d6_url_def given_def keep(4) split: option.splits)
  ultimately show "d6_reply_options meta r' cfg (hget (DHCP_META s) ix) = d6_offer meta (ask_of r) cfg (hget (DHCP_META s) ix)"
    using url(2) boot_url_size
    by (cases "hget (DHCP_META s) ix")
       (auto simp: d6_reply_options_def d6_later_def d6_offer_def ask_of_def keep server_id_def address_id_def given_def Let_def)
qed

lemma reply_size:
  assumes wf: "d6_wf meta r" and sz: "d6_sized r c dm"
  shows "length (encode6 (d6_reply_options meta r c dm)) = d6_opts_len r (unat (d6_dns6_count r)) (unat (d6_url_len r))"
    "length (encode6 (d6_reply_options meta r c dm)) \<le> D6_MAX_OPTS"
proof -
  have l: "length (server_id meta) = 10" "length (client_id r) = min (unat (d6_duid_len r)) D6_MAX_DUID" "length (address_id meta r) = 46"
    using wf by (simp_all add: server_id_def client_id_def address_id_def d6_wf_def)
  have ne: "client_id r \<noteq> [] \<longleftrightarrow> 0 < min (unat (d6_duid_len r)) D6_MAX_DUID" using l(2) by (metis length_greater_0_conv)
  have dns: "length (d6_dns r c) = unat (d6_dns6_count r) * 16" "unat (d6_dns6_count r) \<le> 8" "d6_dns r c \<noteq> [] \<longleftrightarrow> 0 < unat (d6_dns6_count r)"
    using dns_length [OF sz] sz by (simp, simp add: d6_sized_def, metis length_greater_0_conv nat_0_less_mult_iff zero_less_numeral)
  have url: "length (d6_url r dm) = unat (d6_url_len r)" "unat (d6_url_len r) \<le> 120" "d6_url r dm \<noteq> [] \<longleftrightarrow> 0 < unat (d6_url_len r)"
  proof -
    have u: "length (d6_url r dm) \<le> 120" "of_nat (length (d6_url r dm)) = d6_url_len r" using url_length [OF sz] by simp_all
    then show *: "length (d6_url r dm) = unat (d6_url_len r)" unfolding u(2) [symmetric] by (simp add: unat_of_nat)
    then show "unat (d6_url_len r) \<le> 120" "d6_url r dm \<noteq> [] \<longleftrightarrow> 0 < unat (d6_url_len r)" using u(1) by (simp, metis length_greater_0_conv)
  qed
  have "length (encode6 (d6_reply_options meta r c dm)) =
      14 + (if d6_got_clientid r \<and> 0 < min (unat (d6_duid_len r)) D6_MAX_DUID then 4 + min (unat (d6_duid_len r)) D6_MAX_DUID else 0) +
      (if d6_got_iana r then 50 else 0) + (if d6_rapid_commit r then 4 else 0) +
      (if unat (d6_dns6_count r) > 0 then 4 + unat (d6_dns6_count r) * 16 else 0) + (if unat (d6_url_len r) > 0 then 4 + unat (d6_url_len r) else 0)"
    (is "_ = ?n")
    unfolding d6_reply_options_def d6_later_def given_def ne dns(3) url(3) by (simp add: l dns(1) url(1))
  moreover have "?n \<le> D6_MAX_OPTS" using dns(2) url(2) by auto
  ultimately show "length (encode6 (d6_reply_options meta r c dm)) = d6_opts_len r (unat (d6_dns6_count r)) (unat (d6_url_len r))"
    "length (encode6 (d6_reply_options meta r c dm)) \<le> D6_MAX_OPTS"
    unfolding d6_opts_len_def Let_def by (simp_all only: min_absorb1)
qed

section \<open>Checksum\<close>

lemma unat_foldl_upto:
  fixes f :: "nat \<Rightarrow> u16" and s0 :: u32
  shows "unat s0 + N * 65535 < 2 ^ 32 \<Longrightarrow>
    unat (foldl (\<lambda>s i. if 2 * i < n then s + ucast (f i) else s) s0 [0..<N]) = unat s0 + (\<Sum>i < min N ((n + 1) div 2). unat (f i))"
proof (induction N)
  case (Suc N)
  let ?s = "foldl (\<lambda>s i. if 2 * i < n then s + ucast (f i) else s) s0 [0..<N]"
  have s: "unat ?s = unat s0 + (\<Sum>i < min N ((n + 1) div 2). unat (f i))" using Suc by simp
  have "(\<Sum>i < min N ((n + 1) div 2). unat (f i)) \<le> (\<Sum>i < min N ((n + 1) div 2). 65535)" by (rule sum_mono) simp
  also have "\<dots> \<le> N * 65535" by simp
  finally have "unat ?s + 65535 < 2 ^ 32" using s Suc.prems by simp
  then have "unat ?s + unat (f N) < 2 ^ 32" using unat_le16 [of "f N"] by linarith
  then have a: "unat (?s + ucast (f N)) = unat ?s + unat (f N)" using unat_le16 [of "f N"] by (subst unat_add_small) simp_all
  show ?case
  proof (cases "2 * N < n")
    case True
    then have "min N ((n + 1) div 2) = N" "min (Suc N) ((n + 1) div 2) = Suc N" by simp_all
    then show ?thesis using True s a by simp
  next
    case False
    then have "min (Suc N) ((n + 1) div 2) = min N ((n + 1) div 2)" by simp
    then show ?thesis using False s by simp
  qed
qed simp

lemma wsum_le: "wsum p off n \<le> 65535 * n"
proof -
  have "wsum p off n \<le> (\<Sum>k < n. 65535)" unfolding wsum_def by (rule sum_mono) simp
  then show ?thesis by simp
qed

lemma checksum_valid:
  assumes len: "D6_MAX_TOTAL \<le> length p" and k: "8 \<le> k" "k \<le> 350" and z: "rd16 p 60 = 0"
  obtains w where "d6_checksum p (of_nat k) = wr16 p 60 w" "csum_ok (wsum (wr16 p 60 w) 22 16 + k + 17 + wsum (wr16 p 60 w) 54 ((k + 1) div 2))"
proof -
  define a where "a = foldl (\<lambda>cs k. cs + ucast (rd16 p (ETH_LEN + 8 + k)) + ucast (rd16 p (ETH_LEN + 24 + k))) (0 :: u32) [0, 2, 4, 6, 8, 10, 12, 14]"
  define b where "b = a + ucast (of_nat k :: u16) + ucast IPPROTO_UDP"
  define c where "c = foldl (\<lambda>cs i. if 2 * i < k then cs + ucast (rd16 p (ETH_LEN + 40 + 2 * i)) else cs) b [0..<175]"
  let ?w = "NOT (fold2 c)"
  have uk: "unat (of_nat k :: u16) = k" using k by (simp add: unat_of_nat)
  have "nd_pseudo_sum p 14 = a + 90" by (simp add: nd_pseudo_sum_def Let_def a_def)
  then have "unat (a + 90) = wsum p 22 16 + 90" using unat_nd_pseudo_sum [of p 14] by simp
  moreover have "unat ((a + 90) - 90) = unat (a + 90) - 90" using calculation by (subst unat_sub) (simp_all add: word_le_nat_alt)
  ultimately have a: "unat a = wsum p 22 16" by simp
  have b: "unat b = wsum p 22 16 + k + 17"
    using wsum_le [of p 22 16] k a uk by (simp add: b_def unat_add_small)
  have "unat c = unat b + (\<Sum>i < min 175 ((k + 1) div 2). unat (rd16 p (ETH_LEN + 40 + 2 * i)))"
    unfolding c_def by (rule unat_foldl_upto) (use b wsum_le [of p 22 16] k in simp)
  moreover have "min 175 ((k + 1) div 2) = (k + 1) div 2" using k by simp
  ultimately have c: "unat c = wsum p 22 16 + k + 17 + wsum p 54 ((k + 1) div 2)" using b by (simp add: wsum_def)
  have "min (unat (of_nat k :: u16)) 350 = k" using k uk by simp
  then have q: "d6_checksum p (of_nat k) = wr16 p 60 ?w"
    using len unfolding d6_checksum_def Let_def a_def [symmetric] b_def [symmetric] by (simp add: c_def)
  have "wsum (wr16 p 60 ?w) 54 ((k + 1) div 2) = wsum p 54 ((k + 1) div 2) + unat ?w"
    using wsum_wr16_in [of 3 "(k + 1) div 2" 54 p ?w] len k z by simp
  moreover have "wsum (wr16 p 60 ?w) 22 16 = wsum p 22 16" by (simp add: wsum_wr16_out)
  moreover have "csum_ok (unat c + unat ?w)" using csum16_valid [of c "[]"] by (simp add: csum16_def)
  ultimately have "csum_ok (wsum (wr16 p 60 ?w) 22 16 + k + 17 + wsum (wr16 p 60 ?w) 54 ((k + 1) div 2))"
    using c by (simp add: add.assoc)
  then show thesis using that q by blast
qed

section \<open>The responder\<close>

lemma length_headers6 [simp]: "length (d6_write_headers p meta r) = length p"
  by (simp add: d6_write_headers_def Let_def)

lemma headers6:
  assumes "d6_wf meta r" "D6_MAX_TOTAL \<le> length p"
  defines "q \<equiv> d6_write_headers p meta r"
  shows "rdn q 0 6 = d6_req_eth_src r" "rdn q 6 6 = GW_MAC" "rd16 q 12 = ETH_P_IPV6" "rd16 q 18 = d6_real_reply_len r - 54" "rd8 q 20 = IPPROTO_UDP"
    "rdn q 22 16 = pm_gateway_ipv6 meta" "rdn q 38 16 = d6_req_src6 r" "rd16 q 54 = 547" "rd16 q 56 = 546" "rd16 q 58 = d6_real_reply_len r - 54"
    "rd16 q 60 = 0" "rd8 q 62 = d6_reply_type r" "rdn q 63 3 = d6_tid r"
proof -
  have l: "length (d6_req_eth_src r) = 6" "length (pm_gateway_ipv6 meta) = 16" "length (d6_req_src6 r) = 16" "length (d6_tid r) = 3" "length GW_MAC = 6"
    using assms(1) by (simp_all add: d6_wf_def GW_MAC_def)
  show "rdn q 0 6 = d6_req_eth_src r" "rdn q 6 6 = GW_MAC" "rd16 q 12 = ETH_P_IPV6" "rd16 q 18 = d6_real_reply_len r - 54" "rd8 q 20 = IPPROTO_UDP"
    "rdn q 22 16 = pm_gateway_ipv6 meta" "rdn q 38 16 = d6_req_src6 r" "rd16 q 54 = 547" "rd16 q 56 = 546" "rd16 q 58 = d6_real_reply_len r - 54"
    "rd16 q 60 = 0" "rd8 q 62 = d6_reply_type r"
    unfolding q_def d6_write_headers_def Let_def using assms(2) l by (simp_all add: pkt)
  have "rdn q 63 3 = [rd8 q 63, rd8 q 64, rd8 q 65]" by (simp add: rdn_def upt_rec numeral_eq_Suc)
  also have "\<dots> = [d6_tid r ! 0, d6_tid r ! 1, d6_tid r ! 2]"
    unfolding q_def d6_write_headers_def Let_def using assms(2) l by (simp add: pkt)
  also have "\<dots> = d6_tid r" using l(4) by (auto simp: numeral_eq_Suc length_Suc_conv)
  finally show "rdn q 63 3 = d6_tid r" .
qed

lemma emit_all:
  assumes wf: "d6_wf meta r" and sz: "d6_sized r c (hget (DHCP_META s) ix)" and cfg: "DHCP_CONFIG s = [c]" and len: "D6_MAX_TOTAL \<le> length p"
  shows "d6_emit p ix meta r s =
    store (wrn (d6_write_headers p meta r) F6_OPTS (encode6 (d6_reply_options meta r c (hget (DHCP_META s) ix)))) (unat (d6_real_reply_len r)) [0]"
proof -
  let ?ids = "o6 D6_OPT_SERVERID (server_id meta) @ given (d6_got_clientid r \<and> client_id r \<noteq> []) (o6 D6_OPT_CLIENTID (client_id r))"
  have "length ?ids \<le> 28" using wf by (auto simp: given_def server_id_def client_id_def d6_wf_def)
  then show ?thesis
    using emit_opts [OF wf sz, of "d6_write_headers p meta r" ?ids] emit_ids [OF wf, of "d6_write_headers p meta r"] len cfg
    by (simp add: d6_emit_def Let_def aget_def d6_reply_options_def given_def)
qed

lemma opts_len_update [simp]:
  "d6_opts_len (r\<lparr>d6_reply_type := a\<rparr>) = d6_opts_len r" "d6_opts_len (r\<lparr>d6_dns6_count := b\<rparr>) = d6_opts_len r"
  "d6_opts_len (r\<lparr>d6_url_len := c\<rparr>) = d6_opts_len r" "d6_opts_len (r\<lparr>d6_real_reply_len := d\<rparr>) = d6_opts_len r"
  by (auto simp: fun_eq_iff d6_opts_len_def)

lemma fill_fields:
  fixes r :: D6Reply and t :: u8 and ix :: u32 and s :: maps
  defines "r' \<equiv> d6_fill r t ix s"
  shows "d6_real_reply_len r' = of_nat (F6_OPTS + d6_opts_len r' (unat (d6_dns6_count r')) (unat (d6_url_len r')))"
    "d6_reply_type r' = (if t = D6_SOLICIT \<and> \<not> d6_rapid_commit r then D6_ADVERTISE else D6_REPLY)"
    "d6_tid r' = d6_tid r" "d6_req_src6 r' = d6_req_src6 r" "d6_req_eth_src r' = d6_req_eth_src r" "d6_wf meta r' = d6_wf meta r"
proof -
  define N where "N = (case aget (DHCP_CONFIG s) 0 of Some cfg \<Rightarrow> min (unat (dc_dns6_len cfg)) DHCP_MAX_DNS | None \<Rightarrow> 0)"
  define U where "U = (if d6_pxe_mode r \<noteq> PXE_NONE
     then (case hget (DHCP_META s) ix of Some dm \<Rightarrow> min (d6_url_len_of (d6_pxe_mode r) dm) D6_MAX_URL | None \<Rightarrow> 0) else 0)"
  have "N \<le> 8" "U \<le> 120" by (simp_all add: N_def U_def split: option.splits)
  then have small: "unat (of_nat N :: u16) = N" "unat (of_nat U :: u16) = U" by (simp_all add: unat_of_nat)
  have r': "r' = r\<lparr>d6_reply_type := (if t = D6_SOLICIT \<and> \<not> d6_rapid_commit r then D6_ADVERTISE else D6_REPLY), d6_dns6_count := of_nat N,
      d6_url_len := of_nat U, d6_real_reply_len := of_nat (F6_OPTS + d6_opts_len r N U)\<rparr>"
    unfolding r'_def d6_fill_def Let_def N_def U_def by (simp cong: option.case_cong)
  show "d6_real_reply_len r' = of_nat (F6_OPTS + d6_opts_len r' (unat (d6_dns6_count r')) (unat (d6_url_len r')))"
    unfolding r' by (simp add: small)
  show "d6_reply_type r' = (if t = D6_SOLICIT \<and> \<not> d6_rapid_commit r then D6_ADVERTISE else D6_REPLY)"
    "d6_tid r' = d6_tid r" "d6_req_src6 r' = d6_req_src6 r" "d6_req_eth_src r' = d6_req_eth_src r" "d6_wf meta r' = d6_wf meta r"
    unfolding r' by (simp_all add: d6_wf_def)
qed

text \<open>The message a sized reply carries.\<close>

lemma reply6_fields:
  assumes wf: "d6_wf meta r" and sz: "d6_sized r c (hget (DHCP_META s) ix)" and cfg: "DHCP_CONFIG s = [c]" and len: "length p = D6_MAX_TOTAL"
    and real: "d6_real_reply_len r = of_nat (F6_OPTS + d6_opts_len r (unat (d6_dns6_count r)) (unat (d6_url_len r)))"
  defines "opts \<equiv> d6_reply_options meta r c (hget (DHCP_META s) ix)"
  defines "k \<equiv> 12 + length (encode6 opts)"
  defines "q \<equiv> d6_checksum (d6_emit p ix meta r s) (of_nat (unat (d6_real_reply_len r) - ETH_LEN - 40))"
  shows "length q = D6_MAX_TOTAL \<and> rdn q 0 6 = d6_req_eth_src r \<and> rdn q 6 6 = GW_MAC \<and> rd16 q 12 = ETH_P_IPV6 \<and> rd16 q 18 = of_nat k \<and>
    rd8 q 20 = IPPROTO_UDP \<and> rdn q 22 16 = pm_gateway_ipv6 meta \<and> rdn q 38 16 = d6_req_src6 r \<and> rd16 q 54 = 547 \<and> rd16 q 56 = 546 \<and>
    rd16 q 58 = of_nat k \<and> k \<le> 350 \<and> rd8 q 62 = d6_reply_type r \<and> rdn q 63 3 = d6_tid r \<and>
    csum_ok (wsum q 22 16 + k + 17 + wsum q 54 ((k + 1) div 2)) \<and> (odd k \<longrightarrow> rd8 q (54 + k) = 0)"
    "d6_options (rdn q F6_OPTS (length (encode6 opts))) = Some opts"
proof -
  let ?h = "d6_write_headers p meta r" and ?n = "length (encode6 opts)"
  let ?e = "store (wrn ?h F6_OPTS (encode6 opts)) (F6_OPTS + ?n) [0]"
  have n: "?n \<le> D6_MAX_OPTS" and "d6_real_reply_len r = of_nat (F6_OPTS + ?n)"
    using reply_size [OF wf sz] real by (simp_all add: opts_def)
  moreover have "unat (of_nat (F6_OPTS + ?n) :: u16) = F6_OPTS + ?n" unfolding unat_of_nat using n by simp
  ultimately have real: "unat (d6_real_reply_len r) = F6_OPTS + ?n" "d6_real_reply_len r - 54 = of_nat k" by (simp_all add: k_def)
  define e where "e = ?e"
  have e: "d6_emit p ix meta r s = e" using emit_all [OF wf sz cfg] len by (simp add: opts_def real e_def)
  have le: "length e = D6_MAX_TOTAL" using len by (simp add: e_def store_def)
  have low: "i + 2 \<le> F6_OPTS \<Longrightarrow> rd16 e i = rd16 ?h i" "j + m \<le> F6_OPTS \<Longrightarrow> rdn e j m = rdn ?h j m" "l < F6_OPTS \<Longrightarrow> rd8 e l = rd8 ?h l"
    for i j m l unfolding e_def by (simp_all add: store_def pkt del: wrn.simps)
  have h: "D6_MAX_TOTAL \<le> length p" using len by simp
  note h = headers6 [OF wf h]
  have k: "8 \<le> k" "k \<le> 350" using n by (simp_all add: k_def)
  obtain w where w: "d6_checksum e (of_nat k) = wr16 e 60 w" "csum_ok (wsum (wr16 e 60 w) 22 16 + k + 17 + wsum (wr16 e 60 w) 54 ((k + 1) div 2))"
    using checksum_valid [OF _ k, of e] le low(1) [of 60] h(11) by auto
  have q: "q = wr16 e 60 w" unfolding q_def e real w(1) [symmetric] by (simp add: k_def)
  have "odd k \<Longrightarrow> rd8 q (54 + k) = 0"
  proof -
    assume "odd k"
    then have "k \<noteq> 350" by auto
    then show ?thesis using k len unfolding q e_def by (simp add: store_def k_def pkt)
  qed
  moreover have "length q = D6_MAX_TOTAL" unfolding q using le by simp
  ultimately show "length q = D6_MAX_TOTAL \<and> rdn q 0 6 = d6_req_eth_src r \<and> rdn q 6 6 = GW_MAC \<and> rd16 q 12 = ETH_P_IPV6 \<and> rd16 q 18 = of_nat k \<and>
    rd8 q 20 = IPPROTO_UDP \<and> rdn q 22 16 = pm_gateway_ipv6 meta \<and> rdn q 38 16 = d6_req_src6 r \<and> rd16 q 54 = 547 \<and> rd16 q 56 = 546 \<and>
    rd16 q 58 = of_nat k \<and> k \<le> 350 \<and> rd8 q 62 = d6_reply_type r \<and> rdn q 63 3 = d6_tid r \<and>
    csum_ok (wsum q 22 16 + k + 17 + wsum q 54 ((k + 1) div 2)) \<and> (odd k \<longrightarrow> rd8 q (54 + k) = 0)"
    using w(2) k(2) h le real(2) low unfolding q by (simp add: pkt)
  have small: "list_all (\<lambda>(c, v). length v < 65536) opts" using encode6_bound [of _ _ opts] n by (fastforce simp: list_all_iff)
  have "rdn q F6_OPTS ?n = encode6 opts" unfolding q e_def using len n by (auto simp: store_def pkt simp del: wrn.simps)
  then show "d6_options (rdn q F6_OPTS (length (encode6 opts))) = Some opts" using decode_encode6 [OF small] by simp
qed

definition no_ask :: d6_ask where
  "no_ask = \<lparr>ask_client = None, ask_iaid = None, ask_rapid = False, ask_boot = PXE_NONE\<rparr>"

text \<open>C13: the DHCPv6 responder answers a client correctly. A SOLICIT, REQUEST or CONFIRM with well-formed
  options (at most twelve, in the first 128 bytes) is answered whenever the frame can be resized:
  an ADVERTISE, or a REPLY when rapid commit or a request asks for it, goes to the client with its
  transaction id, consistent lengths and a valid UDP checksum, and its options are exactly the server's
  and the client's identifier, the guest's address in the client's identity association, the rapid
  commit, the configured name servers and the boot URL of the class the client named.\<close>

theorem dhcpv6_answer:
  assumes p: "looks_like_dhcpv6 (pkt ctx)" "rd8 (pkt ctx) F6_DHCP = D6_SOLICIT \<or> rd8 (pkt ctx) F6_DHCP = D6_REQUEST \<or> rd8 (pkt ctx) F6_DHCP = D6_CONFIRM"
      "d6_options (drop F6_OPTS (pkt ctx)) = Some os" "list_all long_enough os" "length os \<le> 12" "length (pkt ctx) \<le> F6_OPTS + D6_SCAN"
    and room: "D6_MAX_TOTAL \<le> length (pkt ctx @ tailroom ctx)"
    and len: "length (pm_guest_mac meta) = 6" "length (pm_guest_ipv6 meta) = 16" "length (pm_gateway_ipv6 meta) = 16"
    and tab: "DHCP_CONFIG s = [cfg]" "d6_tables_wf s"
  defines "a \<equiv> foldl ask_option no_ask os"
  defines "opts \<equiv> d6_offer meta a cfg (hget (DHCP_META s) (ingress_ifindex ctx))"
  defines "k \<equiv> 12 + length (encode6 opts)"
  shows "\<exists>ctx'. try_dhcpv6_reply ctx meta s = (Some (XDP_REDIRECT (ingress_ifindex ctx)), ctx') \<and>
    (let q = pkt ctx' in
      (length q = D6_MAX_TOTAL \<and> rdn q 0 6 = rdn (pkt ctx) 6 6 \<and> rdn q 6 6 = GW_MAC \<and> rd16 q 12 = ETH_P_IPV6 \<and> rd16 q 18 = of_nat k \<and>
       rd8 q 20 = IPPROTO_UDP \<and> rdn q 22 16 = pm_gateway_ipv6 meta \<and> rdn q 38 16 = rdn (pkt ctx) 22 16 \<and> rd16 q 54 = 547 \<and> rd16 q 56 = 546 \<and>
       rd16 q 58 = of_nat k \<and> k \<le> 350 \<and>
       rd8 q 62 = (if rd8 (pkt ctx) F6_DHCP = D6_SOLICIT \<and> \<not> ask_rapid a then D6_ADVERTISE else D6_REPLY) \<and>
       rdn q 63 3 = [rd8 (pkt ctx) 63, rd8 (pkt ctx) 64, rd8 (pkt ctx) 65] \<and>
       csum_ok (wsum q 22 16 + k + 17 + wsum q 54 ((k + 1) div 2)) \<and> (odd k \<longrightarrow> rd8 q (54 + k) = 0)) \<and>
      d6_options (rdn q F6_OPTS (length (encode6 opts))) = Some opts)"
proof -
  let ?p = "pkt ctx" and ?ix = "ingress_ifindex ctx"
  have lp: "F6_OPTS \<le> length ?p" using p(1) by (simp add: looks_like_dhcpv6_def)
  obtain r0 where r0: "d6_request ?p = Some r0" "ask_of r0 = no_ask" "d6_tid r0 = [rd8 ?p 63, rd8 ?p 64, rd8 ?p 65]"
    "d6_req_src6 r0 = rdn ?p 22 16" "d6_req_eth_src r0 = rdn ?p 6 6" "length (d6_duid r0) = D6_MAX_DUID \<and> length (d6_iaid r0) = 4"
    using p(1,2) by (auto simp: d6_request_def looks_like_dhcpv6_def ask_of_def no_ask_def Let_def)
  obtain c where c: "adjust_tail_to ctx D6_MAX_TOTAL = Some c" "length (pkt c) = D6_MAX_TOTAL" "ingress_ifindex c = ?ix"
    using tail_room [OF _ room] by auto
  define m where "m = length ?p - F6_OPTS"
  have m: "min (length ?p - F6_OPTS) D6_SCAN = 0 + m" "m \<le> D6_SCAN" "F6_OPTS + m = length ?p" using p(6) lp by (auto simp: m_def)
  have "rdn (pkt c) F6_OPTS m = drop F6_OPTS ?p"
    using tail_keeps [OF c(1), of F6_OPTS m] m(2,3) by (simp add: rdn_eq_take_drop m_def)
  then have ask: "ask_of (d6_parse (pkt c) r0 (0 + m) 0 0) = a"
    unfolding a_def r0(2) [symmetric] by (intro read_options) (use p(3-5) m c(2) in simp_all)
  define r1 where "r1 = d6_parse (pkt c) r0 (0 + m) 0 0"
  define r where "r = d6_fill r1 (rd8 ?p F6_DHCP) ?ix s"
  note keeps = parse_keeps [OF r0(6), of "pkt c" "0 + m" 0 0, folded r1_def]
  have wf: "d6_wf meta r" unfolding r_def fill_fields(6) using keeps r0 len by (simp add: d6_wf_def)
  have opts: "d6_sized r cfg (hget (DHCP_META s) ?ix)" "d6_reply_options meta r cfg (hget (DHCP_META s) ?ix) = opts"
    unfolding r_def opts_def ask [symmetric] r1_def [symmetric] by (rule fill_offer [OF tab])+
  have sel: "d6_tid r = [rd8 ?p 63, rd8 ?p 64, rd8 ?p 65]" "d6_req_src6 r = rdn ?p 22 16" "d6_req_eth_src r = rdn ?p 6 6"
    "d6_reply_type r = (if rd8 ?p F6_DHCP = D6_SOLICIT \<and> \<not> ask_rapid a then D6_ADVERTISE else D6_REPLY)"
    unfolding r_def fill_fields ask [symmetric] r1_def [symmetric] using keeps r0 by (simp_all add: ask_of_def)
  let ?q = "d6_checksum (d6_emit (pkt c) ?ix meta r s) (of_nat (unat (d6_real_reply_len r) - ETH_LEN - 40))"
  have "try_dhcpv6_reply ctx meta s = (Some (XDP_REDIRECT ?ix), c\<lparr>pkt := ?q\<rparr>)"
    by (simp only: try_dhcpv6_reply_def r0(1) Let_def option.case c(1,3) m(1) r1_def [symmetric] r_def [symmetric] reflect_def)
  moreover note reply6_fields [OF wf opts(1) tab(1) c(2), folded r_def, unfolded opts(2) sel, folded k_def]
  ultimately show ?thesis
    using fill_fields(1) [of r1 "rd8 ?p F6_DHCP" ?ix s, folded r_def] by (intro exI [of _ "c\<lparr>pkt := ?q\<rparr>"]) (simp add: Let_def)
qed

text \<open>A SOLICIT with a client identifier and an identity association.\<close>

definition sample_solicit :: bytes where
  "sample_solicit = [51, 51, 0, 1, 0, 2, 82, 84, 0, 0, 0, 2, 0x86, 0xdd] @ [0x60, 0, 0, 0, 0, 42, 17, 1] @ replicate 16 9 @ replicate 16 8 @
     [2, 34, 2, 35, 0, 42, 0, 0] @ [1, 7, 7, 7] @ [0, 1, 0, 10, 0, 3, 0, 1, 82, 84, 0, 0, 0, 2] @ [0, 3, 0, 12, 0, 0, 0, 5, 0, 0, 0, 0, 0, 0, 0, 0]"

definition sample_solicit_ctx :: xdp_ctx where
  "sample_solicit_ctx = \<lparr>headroom = [], pkt = sample_solicit, tailroom = replicate 400 0, ingress_ifindex = 7\<rparr>"

definition sample_offer6 :: "(u16 \<times> bytes) list" where
  "sample_offer6 = [(D6_OPT_SERVERID, [0, 3, 0xab, 0xcd, 82, 84, 0, 0, 0, 2]), (D6_OPT_CLIENTID, [0, 3, 0, 1, 82, 84, 0, 0, 0, 2]),
     (D6_OPT_IA_NA, [0, 0, 0, 5] @ replicate 8 255 @ o6 5 (replicate 16 0 @ replicate 8 255 @ o6 13 [0, 0]))]"

theorem dhcpv6_answer_witness:
  "\<exists>ctx'. try_dhcpv6_reply sample_solicit_ctx sample_dhcp_port fresh_maps = (Some (XDP_REDIRECT 7), ctx') \<and>
     rd8 (pkt ctx') 62 = D6_ADVERTISE \<and> rdn (pkt ctx') 63 3 = [7, 7, 7] \<and>
     d6_options (rdn (pkt ctx') F6_OPTS (length (encode6 sample_offer6))) = Some sample_offer6"
proof -
  let ?c = sample_solicit_ctx
  have l: "length sample_solicit = 96" by (simp add: sample_solicit_def)
  have p: "looks_like_dhcpv6 (pkt ?c)" "rd8 (pkt ?c) F6_DHCP = D6_SOLICIT \<or> rd8 (pkt ?c) F6_DHCP = D6_REQUEST \<or> rd8 (pkt ?c) F6_DHCP = D6_CONFIRM"
    "length (pkt ?c) \<le> F6_OPTS + D6_SCAN" "D6_MAX_TOTAL \<le> length (pkt ?c @ tailroom ?c)"
    using l by (simp_all add: sample_solicit_ctx_def sample_solicit_def looks_like_dhcpv6_def rd16_def rd8_def nth_append be16_def)
  have o: "d6_options (drop F6_OPTS (pkt ?c)) = Some [(1, [0, 3, 0, 1, 82, 84, 0, 0, 0, 2]), (3, [0, 0, 0, 5, 0, 0, 0, 0, 0, 0, 0, 0])]"
    by (simp add: sample_solicit_ctx_def sample_solicit_def Let_def) (simp add: be16_def)
  have a: "foldl ask_option no_ask [(1, [0, 3, 0, 1, 82, 84, 0, 0, 0, 2]), (3, [0, 0, 0, 5, 0, 0, 0, 0, 0, 0, 0, 0])] =
      \<lparr>ask_client = Some [0, 3, 0, 1, 82, 84, 0, 0, 0, 2], ask_iaid = Some [0, 0, 0, 5], ask_rapid = False, ask_boot = PXE_NONE\<rparr>"
    by (simp add: ask_option_def no_ask_def)
  have t: "DHCP_CONFIG fresh_maps = [zero_dhcp_config]" "d6_tables_wf fresh_maps" "hget (DHCP_META fresh_maps) i = None" for i
    by (simp_all add: d6_tables_wf_def fresh_maps_def zero_dhcp_config_def hnew_def hget_def list_all_iff)
  have m: "length (pm_guest_mac sample_dhcp_port) = 6" "length (pm_guest_ipv6 sample_dhcp_port) = 16" "length (pm_gateway_ipv6 sample_dhcp_port) = 16"
    by (simp_all add: sample_dhcp_port_def)
  have "d6_offer sample_dhcp_port \<lparr>ask_client = Some [0, 3, 0, 1, 82, 84, 0, 0, 0, 2], ask_iaid = Some [0, 0, 0, 5], ask_rapid = False, ask_boot = PXE_NONE\<rparr>
      zero_dhcp_config None = sample_offer6"
    by (simp add: d6_offer_def sample_offer6_def given_def sample_dhcp_port_def zero_dhcp_config_def)
  moreover have "ingress_ifindex ?c = 7" "rd8 (pkt ?c) 62 = 1" "rd8 (pkt ?c) 63 = 7" "rd8 (pkt ?c) 64 = 7" "rd8 (pkt ?c) 65 = 7"
    using l by (simp_all add: sample_solicit_ctx_def sample_solicit_def rd8_def nth_append)
  ultimately show ?thesis
    using dhcpv6_answer [OF p(1,2) o _ _ p(3,4) m t(1,2)] unfolding a t(3) by (auto simp: long_enough_def Let_def)
qed

end
