(* ===== verification/Vip.thy ===== *)
theory Vip
  imports Conntrack_Props
begin

text \<open>
  Virtual IPs, \<^verbatim>\<open>xdp-dp-ebpf/src/vip.rs\<close>: the source of an egress packet, or the destination
  of an ingress (or local egress) packet, is replaced by the address that \<^verbatim>\<open>VIPS\<close> holds for it,
  with the IPv4 and the TCP/UDP checksums updated incrementally.
\<close>

section \<open>Definitions\<close>

definition rewrite_raw :: "maps \<Rightarrow> bytes \<Rightarrow> nat \<Rightarrow> u32 \<Rightarrow> bool \<Rightarrow> bytes" where
  "rewrite_raw s p ip_off vni is_src =
     (if ip_off + 20 > length p then p
      else
        let addr_off = ip_off + (if is_src then 12 else 16);
            old = rdn p addr_off 4
        in case hget (VIPS s) \<lparr>vk_vni = vni, vk_ipv4 = old\<rparr> of
             None \<Rightarrow> p
           | Some new \<Rightarrow>
               let ihl = ihl_bytes p ip_off;
                   proto = rd8 p (ip_off + 9);
                   p = wrn p addr_off new;
                   p = wr16 p (ip_off + 10) (csum_replace4 (rd16 p (ip_off + 10)) old new);
                   l4 = ip_off + ihl
               in if proto = IPPROTO_TCP \<and> l4 + 18 \<le> length p
                  then wr16 p (l4 + 16) (csum_replace4 (rd16 p (l4 + 16)) old new)
                  else if proto = IPPROTO_UDP \<and> l4 + 8 \<le> length p
                  then if rd16 p (l4 + 6) \<noteq> 0
                       then wr16 p (l4 + 6) (csum_replace4 (rd16 p (l4 + 6)) old new) else p
                  else p)"

definition snat_egress :: "maps \<Rightarrow> bytes \<Rightarrow> nat \<Rightarrow> u32 \<Rightarrow> bytes" where
  "snat_egress s p ip_off vni = rewrite_raw s p ip_off vni True"

definition dnat_egress :: "maps \<Rightarrow> bytes \<Rightarrow> nat \<Rightarrow> u32 \<Rightarrow> bytes" where
  "dnat_egress s p ip_off vni = rewrite_raw s p ip_off vni False"

definition dnat_ingress :: "maps \<Rightarrow> bytes \<Rightarrow> nat \<Rightarrow> u32 \<Rightarrow> bytes" where
  "dnat_ingress s p ip_off vni = rewrite_raw s p ip_off vni False"

section \<open>Facts\<close>

lemma length_rewrite_raw [simp, pkt_len]: "length (rewrite_raw s p off vni b) = length p"
  by (simp add: rewrite_raw_def Let_def split: option.splits)

lemma length_vip [simp, pkt_len]:
  "length (snat_egress s p off vni) = length p" "length (dnat_egress s p off vni) = length p"
  "length (dnat_ingress s p off vni) = length p"
  by (simp_all add: snat_egress_def dnat_egress_def dnat_ingress_def)

lemma rewrite_raw_miss:
  "hget (VIPS s) \<lparr>vk_vni = vni, vk_ipv4 = rdn p (off + (if b then 12 else 16)) 4\<rparr> = None \<Longrightarrow>
     rewrite_raw s p off vni b = p"
  by (simp add: rewrite_raw_def Let_def)

text \<open>The rewrite of a header of at least five words, as an address change followed by the
  update of one transport checksum.\<close>

lemma rewrite_raw_hit:
  assumes hit: "hget (VIPS s) \<lparr>vk_vni = vni, vk_ipv4 = rdn p (off + a) 4\<rparr> = Some new"
    and a: "a = (if b then 12 else 16)" and len: "off + 20 \<le> length p" "length new = 4"
    and ihl: "20 \<le> ihl_bytes p off"
  defines "l4 \<equiv> off + ihl_bytes p off" and "q \<equiv> ip_rewrite p off a new"
  shows "rewrite_raw s p off vni b =
    (if rd8 p (off + 9) = 6 \<and> l4 + 18 \<le> length p
     then wr16 q (l4 + 2 * 8) (csum_replace4 (rd16 p (l4 + 2 * 8)) (rdn p (off + a) 4) new)
     else if rd8 p (off + 9) = 17 \<and> l4 + 8 \<le> length p \<and> rd16 p (l4 + 2 * 3) \<noteq> 0
     then wr16 q (l4 + 2 * 3) (csum_replace4 (rd16 p (l4 + 2 * 3)) (rdn p (off + a) 4) new)
     else q)"
proof -
  have a': "a = 12 \<or> a = 16" using a by simp
  have c: "rd16 (wrn p (off + a) new) (off + 10) = rd16 p (off + 10)"
    using a' len by (intro rd16_wrn_other) auto
  have r: "rd16 q (l4 + k) = rd16 p (l4 + k)" for k
    unfolding q_def l4_def using ihl len a' by (intro rd16_ip_rewrite) auto
  have q: "q = wr16 (wrn p (off + a) new) (off + 10)
      (csum_replace4 (rd16 (wrn p (off + a) new) (off + 10)) (rdn p (off + a) 4) new)"
    unfolding q_def ip_rewrite_def c ..
  have lq: "length q = length p" by (simp add: q_def)
  show ?thesis
    unfolding rewrite_raw_def Let_def a [symmetric] hit option.case l4_def [symmetric]
      q [symmetric] lq r
    using len by simp
qed

text \<open>A VIP rewrite keeps the IPv4 header checksum valid, and a valid TCP checksum, or a
  UDP checksum that is present and valid, stays valid (\<open>k\<close> is the pseudo header's protocol and
  length, \<open>n\<close> the number of words of the segment).\<close>

theorem vip_keeps_checksums:
  assumes vips: "\<And>key v. hget (VIPS s) key = Some v \<Longrightarrow> length v = 4"
    and ihl: "rd8 p off AND 0x0f = 5" and ip: "csum_ok (wsum p off 10)"
    and l4: "rd8 p (off + 9) = 6 \<and> off + 38 \<le> length p \<and> 9 \<le> n \<or>
      rd8 p (off + 9) = 17 \<and> off + 28 \<le> length p \<and> 4 \<le> n \<and> rd16 p (off + 26) \<noteq> 0"
    and k: "0 < k" "csum_ok (k + l4_sum p off (off + 20) n)"
  shows "csum_ok (wsum (rewrite_raw s p off vni b) off 10) \<and>
    csum_ok (k + l4_sum (rewrite_raw s p off vni b) off (off + 20) n)"
proof -
  let ?a = "if b then 12 else 16 :: nat"
  show ?thesis
  proof (cases "hget (VIPS s) \<lparr>vk_vni = vni, vk_ipv4 = rdn p (off + ?a) 4\<rparr>")
    case None
    then show ?thesis using ip k by (simp only: rewrite_raw_miss)
  next
    case (Some new)
    let ?q = "rewrite_raw s p off vni b"
    have new: "length new = 4" using Some by (rule vips)
    have a: "?a = 12 \<or> ?a = 16" by simp
    have len: "off + 20 \<le> length p" using l4 by linarith
    have i: "ihl_bytes p off = 20" using ihl by (rule ihl_bytes_5)
    note hit = rewrite_raw_hit [OF Some refl len new, unfolded i]
    have "wsum ?q off 10 = wsum (ip_rewrite p off ?a new) off 10"
      by (simp add: hit wsum_wr16_out)
    then have ipm: "wsum ?q off 10 mod 65535 = wsum p off 10 mod 65535"
      using ip_rewrite_sum [OF new len a, of 10] by simp
    have "rd8 ?q off = rd8 p off"
      using new len by (auto simp: hit rd8_wr16_other intro!: rd8_ip_rewrite split: if_splits)
    moreover have "rd8 p off \<noteq> 0" using ihl by auto
    ultimately have "wsum ?q off 10 \<noteq> 0" by (intro wsum_pos) simp_all
    then have "csum_ok (wsum ?q off 10)" using csum_ok_cong [OF ipm [symmetric]] ip by blast
    moreover have "l4_sum ?q off (off + 20) n mod 65535 = l4_sum p off (off + 20) n mod 65535"
      using l4
    proof (elim disjE conjE)
      assume "rd8 p (off + 9) = 6" "off + 38 \<le> length p" "9 \<le> n"
      then show ?thesis
        using l4_sum_addr [OF new, of off "off + 20" 8 p ?a n] by (simp add: hit)
    next
      assume "rd8 p (off + 9) = 17" "off + 28 \<le> length p" "4 \<le> n" "rd16 p (off + 26) \<noteq> 0"
      moreover have "off + 20 + 2 * 3 = off + 26" by simp
      ultimately show ?thesis
        using l4_sum_addr [OF new, of off "off + 20" 3 p ?a n] by (simp add: hit add.commute [of off 26])
    qed
    ultimately show ?thesis using csum_ok_shift [OF sym k] by blast
  qed
qed

text \<open>A sample VIP: guest 10.0.0.1 of VNI 100 and its address 203.0.113.7, in both directions,
  as the control plane installs it.\<close>

definition sample_vips :: maps where
  "sample_vips = fresh_maps\<lparr>VIPS := \<lparr>max_entries = 1024, entries =
     [(\<lparr>vk_vni = 100, vk_ipv4 = [10, 0, 0, 1]\<rparr>, [203, 0, 113, 7]),
      (\<lparr>vk_vni = 100, vk_ipv4 = [203, 0, 113, 7]\<rparr>, [10, 0, 0, 1])]\<rparr>\<rparr>"

lemma sample_vips_get:
  "hget (VIPS sample_vips) k =
     (if k = \<lparr>vk_vni = 100, vk_ipv4 = [10, 0, 0, 1]\<rparr> then Some [203, 0, 113, 7]
      else if k = \<lparr>vk_vni = 100, vk_ipv4 = [203, 0, 113, 7]\<rparr> then Some [10, 0, 0, 1] else None)"
  by (simp add: sample_vips_def hget_def)

theorem vip_keeps_checksums_witness:
  "csum_ok (wsum (rewrite_raw sample_vips sample_syn 14 100 True) 14 10) \<and>
   csum_ok (26 + l4_sum (rewrite_raw sample_vips sample_syn 14 100 True) 14 (14 + 20) 10)"
proof (rule vip_keeps_checksums)
  fix key v assume "hget (VIPS sample_vips) key = Some v"
  then show "length v = 4" by (auto simp: sample_vips_get split: if_splits)
qed (simp_all add: sample_syn_def packet_eval)

section \<open>Both directions\<close>

lemma rewrite_raw_addr:
  assumes hit: "hget (VIPS s) \<lparr>vk_vni = vni, vk_ipv4 = rdn p (off + a) 4\<rparr> = Some new"
    and a: "a = (if b then 12 else 16)" and len: "off + 20 \<le> length p" "length new = 4"
    and ihl: "20 \<le> ihl_bytes p off"
  shows "rdn (rewrite_raw s p off vni b) (off + a) 4 = new"
proof -
  have "a \<le> 16" "a = 12 \<or> a = 16" using a by auto
  then show ?thesis
    using rdn_ip_rewrite [OF len(2,1), of a] ihl
    by (simp add: rewrite_raw_hit [OF hit a len ihl] rdn_wr16_other)
qed

lemma rewrite_raw_csums:
  assumes hit: "hget (VIPS s) \<lparr>vk_vni = vni, vk_ipv4 = rdn p (off + a) 4\<rparr> = Some new"
    and a: "a = (if b then 12 else 16)" and len: "off + 38 \<le> length p" "length new = 4"
    and ihl: "ihl_bytes p off = 20" and tcp: "rd8 p (off + 9) = 6"
  shows "rd16 (rewrite_raw s p off vni b) (off + 10) =
           csum_replace4 (rd16 p (off + 10)) (rdn p (off + a) 4) new"
    and "rd16 (rewrite_raw s p off vni b) (off + 36) =
           csum_replace4 (rd16 p (off + 36)) (rdn p (off + a) 4) new"
    and "rewrite_raw s p off vni b = wr16 (ip_rewrite p off a new) (off + 36)
           (csum_replace4 (rd16 p (off + 36)) (rdn p (off + a) 4) new)"
proof -
  have e: "off + 20 + 2 * 8 = off + 36" by simp
  show r: "rewrite_raw s p off vni b = wr16 (ip_rewrite p off a new) (off + 36)
           (csum_replace4 (rd16 p (off + 36)) (rdn p (off + a) 4) new)"
    using rewrite_raw_hit [OF hit a _ len(2)] len tcp ihl unfolding ihl e by simp
  show "rd16 (rewrite_raw s p off vni b) (off + 36) =
           csum_replace4 (rd16 p (off + 36)) (rdn p (off + a) 4) new"
    using len unfolding r by (intro rd16_wr16_same) simp
  show "rd16 (rewrite_raw s p off vni b) (off + 10) =
           csum_replace4 (rd16 p (off + 10)) (rdn p (off + a) 4) new"
    using len unfolding r ip_rewrite_def by (simp add: rd16_wr16_other rd16_wr16_same)
qed

lemma rewrite_raw_frame:
  assumes hit: "hget (VIPS s) \<lparr>vk_vni = vni, vk_ipv4 = rdn p (off + a) 4\<rparr> = Some new"
    and a: "a = (if b then 12 else 16)" and len: "off + 38 \<le> length p" "length new = 4"
    and ihl: "ihl_bytes p off = 20" and tcp: "rd8 p (off + 9) = 6"
    and i: "i \<notin> {off + a..<off + a + 4} \<union> {off + 10, off + 11, off + 36, off + 37}"
  shows "rd8 (rewrite_raw s p off vni b) i = rd8 p i"
  unfolding rewrite_raw_csums(3) [OF hit a len ihl tcp]
  using i len by (auto simp: rd8_wr16_other intro!: rd8_ip_rewrite)

text \<open>With a VIP installed in both directions, rewriting the same address of a TCP packet twice
  gives back the packet.\<close>

lemma rewrite_raw_twice:
  assumes tab: "hget (VIPS s) \<lparr>vk_vni = vni, vk_ipv4 = g\<rparr> = Some v"
      "hget (VIPS s) \<lparr>vk_vni = vni, vk_ipv4 = v\<rparr> = Some g" "length v = 4"
    and p: "rdn p (off + (if b then 12 else 16)) 4 = g" "off + 38 \<le> length p"
      "rd8 p off AND 0x0f = 5" "rd8 p (off + 9) = 6"
      "rd16 p (off + 10) \<noteq> 0xffff" "rd16 p (off + 36) \<noteq> 0xffff"
  shows "rdn (rewrite_raw s p off vni b) (off + (if b then 12 else 16)) 4 = v \<and>
    rewrite_raw s (rewrite_raw s p off vni b) off vni b = p"
proof
  define a where a: "a = (if b then 12 else 16 :: nat)"
  let ?q = "rewrite_raw s p off vni b"
  have a16: "a = 12 \<or> a = 16" by (simp add: a)
  have g: "length g = 4" using p(1) length_rdn by metis
  have hit: "hget (VIPS s) \<lparr>vk_vni = vni, vk_ipv4 = rdn p (off + a) 4\<rparr> = Some v"
    using tab(1) p(1) by (simp add: a)
  have ihl: "ihl_bytes p off = 20" using p(3) by (rule ihl_bytes_5)
  have q: "rdn ?q (off + a) 4 = v"
    using rewrite_raw_addr [OF hit a _ tab(3)] p(2) ihl by simp
  then show "rdn ?q (off + (if b then 12 else 16)) 4 = v" by (simp add: a)
  note fr = rewrite_raw_frame [OF hit a p(2) tab(3) ihl p(4)]
  have hdr: "rd8 ?q off = rd8 p off" "rd8 ?q (off + 9) = rd8 p (off + 9)"
    using a16 by (auto intro!: fr)
  have ihlq: "ihl_bytes ?q off = 20" using p(3) hdr(1) by (intro ihl_bytes_5) simp
  have hitq: "hget (VIPS s) \<lparr>vk_vni = vni, vk_ipv4 = rdn ?q (off + a) 4\<rparr> = Some g"
    using tab(2) q by simp
  have lenq: "off + 38 \<le> length ?q" and tcpq: "rd8 ?q (off + 9) = 6" using p(2,4) hdr by simp_all
  let ?r = "rewrite_raw s ?q off vni b"
  note cs = rewrite_raw_csums [OF hit a p(2) tab(3) ihl p(4)]
  note csq = rewrite_raw_csums [OF hitq a lenq g ihlq tcpq]
  have pg: "rdn p (off + a) 4 = g" using p(1) by (simp add: a)
  have c10: "rd16 ?r (off + 10) = rd16 p (off + 10)"
    unfolding csq(1) cs(1) q pg using p(5) by (rule csum4_round_trip)
  have c36: "rd16 ?r (off + 36) = rd16 p (off + 36)"
    unfolding csq(2) cs(2) q pg using p(6) by (rule csum4_round_trip)
  have ad: "rdn ?r (off + a) 4 = rdn p (off + a) 4"
    using rewrite_raw_addr [OF hitq a _ g] lenq ihlq pg by simp
  show "?r = p"
  proof (rule bytes_eqI)
    fix i
    consider (addr) "off + a \<le> i" "i < off + a + 4" | (ip) "i = off + 10 \<or> i = off + 10 + 1"
      | (seg) "i = off + 36 \<or> i = off + 36 + 1"
      | (rest) "i \<notin> {off + a..<off + a + 4} \<union> {off + 10, off + 11, off + 36, off + 37}"
      by (auto simp: ac_simps)
    then show "rd8 ?r i = rd8 p i"
    proof cases
      case addr
      then show ?thesis using rdn_eqD [OF ad, of "i - (off + a)"] by simp
    next
      case rest
      then show ?thesis using rewrite_raw_frame [OF hitq a lenq g ihlq tcpq] fr by simp
    qed (use rd16_eqD [OF c10] rd16_eqD [OF c36] in auto)
  qed simp
qed

lemma rewrite_raw_turn:
  assumes hit: "hget (VIPS s) \<lparr>vk_vni = vni, vk_ipv4 = rdn p (off + 12) 4\<rparr> = Some new" "length new = 4"
    and p: "off + 38 \<le> length p" "rd8 p off AND 0x0f = 5" "rd8 p (off + 9) = 6"
  shows "rewrite_raw s (turn p off) off vni False = turn (rewrite_raw s p off vni True) off"
proof -
  have len: "off + 24 \<le> length p" using p(1) by simp
  have t: "rd8 (turn p off) off AND 0x0f = 5" "rd8 (turn p off) (off + 9) = 6" "off + 38 \<le> length (turn p off)"
    using len p by (simp_all add: turn_reads)
  have hit': "hget (VIPS s) \<lparr>vk_vni = vni, vk_ipv4 = rdn (turn p off) (off + 16) 4\<rparr> = Some new"
    using hit(1) len by (simp add: turn_reads)
  show ?thesis
    using len hit(2)
    unfolding rewrite_raw_csums(3) [OF hit(1) if_P [OF TrueI, symmetric] p(1) hit(2) ihl_bytes_5 [OF p(2)] p(3)]
      rewrite_raw_csums(3) [OF hit' if_False [symmetric] t(3) hit(2) ihl_bytes_5 [OF t(1)] t(2)]
    by (simp add: turn_reads turn_writes turn_ip_rewrite)
qed

text \<open>C25: With a VIP installed in both directions, a TCP packet (no IP options) of the guest leaves
  with the VIP as its source, and when the peer echoes what it received (addresses and ports
  exchanged) the packet reaches the guest as the echo of what the guest sent, byte for byte,
  checksums included. Neither checksum field of the guest's packet is the non-canonical zero
  0xffff.\<close>

theorem vip_round_trip:
  assumes tab: "hget (VIPS s) \<lparr>vk_vni = vni, vk_ipv4 = g\<rparr> = Some v"
      "hget (VIPS s) \<lparr>vk_vni = vni, vk_ipv4 = v\<rparr> = Some g" "length v = 4"
    and p: "rdn p (off + 12) 4 = g" "off + 38 \<le> length p" "rd8 p off AND 0x0f = 5" "rd8 p (off + 9) = 6"
      "rd16 p (off + 10) \<noteq> 0xffff" "rd16 p (off + 36) \<noteq> 0xffff"
  shows "rdn (snat_egress s p off vni) (off + 12) 4 = v \<and>
    dnat_ingress s (turn (snat_egress s p off vni) off) off vni = turn p off"
proof -
  let ?q = "rewrite_raw s p off vni True"
  have p1: "rdn p (off + (if True then 12 else 16)) 4 = g" using p(1) by simp
  have q: "rdn ?q (off + 12) 4 = v" "rewrite_raw s ?q off vni True = p"
    using rewrite_raw_twice [OF tab p1 p(2-6)] by simp_all
  have g: "length g = 4" using p(1) length_rdn by metis
  have hit: "hget (VIPS s) \<lparr>vk_vni = vni, vk_ipv4 = rdn p (off + 12) 4\<rparr> = Some v" using tab(1) p(1) by simp
  note fr = rewrite_raw_frame [OF hit if_P [OF TrueI, symmetric] p(2) tab(3) ihl_bytes_5 [OF p(3)] p(4)]
  have "rd8 ?q off = rd8 p off" "rd8 ?q (off + 9) = rd8 p (off + 9)" by (auto intro!: fr)
  then have "rewrite_raw s (turn ?q off) off vni False = turn (rewrite_raw s ?q off vni True) off"
    using p tab(2) q(1) g by (intro rewrite_raw_turn) simp_all
  then show ?thesis using q by (simp add: snat_egress_def dnat_ingress_def)
qed

theorem vip_round_trip_witness:
  "rdn (snat_egress sample_vips sample_syn 14 100) (14 + 12) 4 = [203, 0, 113, 7] \<and>
   dnat_ingress sample_vips (turn (snat_egress sample_vips sample_syn 14 100) 14) 14 100 = turn sample_syn 14"
  by (rule vip_round_trip [where g = "[10, 0, 0, 1]"])
    (simp_all add: sample_vips_get sample_syn_def packet_eval)

end
