(* ===== verification/Meter.thy ===== *)
theory Meter
  imports Conntrack
begin

text \<open>
  Rate metering, \<^verbatim>\<open>xdp-dp-ebpf/src/meter.rs\<close>: a token bucket on 64-bit counters per interface,
  one for all traffic and one for external traffic. The clock is the argument \<open>now\<close>.
\<close>

section \<open>Definitions\<close>

definition take_tokens :: "u64 \<Rightarrow> u64 \<Rightarrow> u64 \<Rightarrow> u64 \<Rightarrow> u64 \<Rightarrow> u64 \<Rightarrow> bool \<times> u64" where
  "take_tokens bps burst tokens last_ns now len =
     (if bps = 0 then (True, tokens)
      else
        let elapsed = saturating_sub now last_ns;
            elapsed_capped = (if elapsed > 1000000000 then 1000000000 else elapsed);
            refill = elapsed_capped div 1000000000 * bps +
                     (elapsed_capped mod 1000000000) * bps div 1000000000;
            t = (if unat tokens + unat refill < 2 ^ 64 then tokens + refill else - 1);
            t = (if t > burst then burst else t)
        in if t \<ge> len then (True, t - len) else (False, t))"

definition meter_pass :: "u64 \<Rightarrow> u32 \<Rightarrow> u64 \<Rightarrow> bool \<Rightarrow> maps \<Rightarrow> bool \<times> maps" where
  "meter_pass now ifindex len is_external s =
     (case hget (METER s) ifindex of
        None \<Rightarrow> (True, s)
      | Some m \<Rightarrow>
          let (pass_t, tok_t) = take_tokens (ms_total_bps m) (ms_total_burst m) (ms_total_tokens m)
                (ms_total_last_ns m) now len;
              m = m\<lparr>ms_total_tokens := tok_t, ms_total_last_ns := now\<rparr>;
              (pass, m) =
                (if is_external
                 then let (pass_p, tok_p) = take_tokens (ms_public_bps m) (ms_public_burst m)
                            (ms_public_tokens m) (ms_public_last_ns m) now len;
                          m = m\<lparr>ms_public_tokens := tok_p, ms_public_last_ns := now\<rparr>
                      in (pass_t \<and> pass_p, m)
                 else (pass_t, m))
          in (pass, s\<lparr>METER := hput (METER s) ifindex m\<rparr>))"

section \<open>One bucket\<close>

text \<open>No configured rate overflows the 64-bit product as long as it is below
  \<open>2 ^ 64 div 999999999\<close>, about 18.4 gigabytes per second.\<close>

definition rate_ok :: "u64 \<Rightarrow> bool" where
  "rate_ok bps = (999999999 * unat bps < 2 ^ 64)"

definition capped :: "u64 \<Rightarrow> u64 \<Rightarrow> nat" where
  "capped now t0 = min (unat now - unat t0) 1000000000"

lemma unat_saturating_sub: "unat (saturating_sub a b) = unat a - unat b"
  by (auto simp: saturating_sub_def word_less_nat_alt unat_sub word_le_nat_alt)

lemma unat_mult_small: "unat (a :: 'a::len word) * unat b < 2 ^ LENGTH('a) \<Longrightarrow> unat (a * b) = unat a * unat b"
  by (simp add: unat_word_ariths)

lemma unat_div: "unat ((a :: 'a::len word) div b) = unat a div unat b"
  by (simp add: unat_div_distrib)

lemma unat_refill:
  fixes now t0 bps :: u64
  assumes "rate_ok bps"
  defines "e \<equiv> (if saturating_sub now t0 > 1000000000 then 1000000000 else saturating_sub now t0)"
  shows "unat (e div 1000000000 * bps + e mod 1000000000 * bps div 1000000000) =
    capped now t0 * unat bps div 1000000000"
proof -
  have e: "unat e = capped now t0"
    by (auto simp: e_def capped_def word_less_nat_alt unat_saturating_sub)
  then have le: "unat e \<le> 1000000000" by (simp add: capped_def)
  have b: "999999999 * unat bps < 18446744073709551616" using assms(1) by (simp add: rate_ok_def)
  show ?thesis
  proof (cases "unat e = 1000000000")
    case True
    then have "e = 1000000000" by (simp add: word_unat_eq_iff)
    then show ?thesis using e True by simp
  next
    case False
    with le have lt: "unat e < 1000000000" by simp
    then have e0: "e div 1000000000 = 0" and e1: "e mod 1000000000 = e"
      by (simp_all add: word_unat_eq_iff unat_div unat_mod)
    have "unat e * unat bps \<le> 999999999 * unat bps" using lt by (intro mult_right_mono) simp_all
    then have "unat (e * bps) = unat e * unat bps" using le_less_trans [OF _ b] by (intro unat_mult_small) simp
    then show ?thesis by (simp add: e0 e1 unat_div e)
  qed
qed

definition bucket :: "u64 \<Rightarrow> u64 \<Rightarrow> u64 \<Rightarrow> u64 \<Rightarrow> u64 \<Rightarrow> nat" where
  "bucket bps burst tokens t0 now =
     min (unat tokens + capped now t0 * unat bps div 1000000000) (unat burst)"

text \<open>The 64-bit code computes the ideal bucket of natural numbers.\<close>

lemma take_tokens_ideal:
  fixes now t0 burst tokens bps :: u64
  assumes "rate_ok bps" "bps \<noteq> 0"
  defines "t \<equiv> bucket bps burst tokens t0 now"
  shows "take_tokens bps burst tokens t0 now len = (unat len \<le> t, of_nat (if unat len \<le> t then t - unat len else t))"
proof -
  define e where "e = (if saturating_sub now t0 > 1000000000 then 1000000000 else saturating_sub now t0)"
  define refill where "refill = e div 1000000000 * bps + e mod 1000000000 * bps div 1000000000"
  define u0 where "u0 = (if unat tokens + unat refill < 2 ^ 64 then tokens + refill else - 1)"
  define t1 where "t1 = (if u0 > burst then burst else u0)"
  have r: "unat refill = capped now t0 * unat bps div 1000000000"
    unfolding refill_def e_def using assms(1) by (rule unat_refill)
  have "unat u0 = min (unat tokens + unat refill) (2 ^ 64 - 1)"
    unfolding u0_def by (auto simp: unat_add_small unsigned_minus_1_eq_mask mask_eq_exp_minus_1)
  moreover have "unat burst \<le> 2 ^ 64 - 1" using unat_lt64 [of burst] by (simp del: unat_lt64)
  ultimately have t1: "unat t1 = t"
    by (auto simp: t1_def t_def bucket_def r word_less_nat_alt)
  have "take_tokens bps burst tokens t0 now len = (if t1 \<ge> len then (True, t1 - len) else (False, t1))"
    using assms(2) by (simp add: take_tokens_def Let_def e_def refill_def u0_def t1_def)
  also have "\<dots> = (unat len \<le> t, of_nat (if unat len \<le> t then t - unat len else t))"
    using t1 by (auto simp: word_le_nat_alt word_unat_eq_iff unat_sub unat_of_nat)
  finally show ?thesis .
qed

section \<open>Sequences of frames\<close>

lemma bucket_bound:
  "1000000000 * bucket bps burst tokens t0 now \<le> 1000000000 * unat tokens + (unat now - unat t0) * unat bps"
proof -
  let ?r = "capped now t0 * unat bps div 1000000000"
  have "1000000000 * bucket bps burst tokens t0 now \<le> 1000000000 * unat tokens + 1000000000 * ?r"
    by (simp add: bucket_def min_def distrib_left)
  also have "1000000000 * ?r \<le> capped now t0 * unat bps" by simp
  also have "\<dots> \<le> (unat now - unat t0) * unat bps" by (rule mult_right_mono) (simp_all add: capped_def)
  finally show ?thesis by simp
qed

lemma bucket_le: "bucket bps burst tokens t0 now \<le> unat burst"
  by (simp add: bucket_def)

lemma hget_hput_present: "hget m k \<noteq> None \<Longrightarrow> hget (hput m k v) = (hget m)(k \<mapsto> v)"
  using ht.ins_upd [of m k v] by (auto simp: hget_hput)

lemma meter_pass_step:
  assumes m: "hget (METER s) i = Some m" and rate: "rate_ok (ms_total_bps m)" "ms_total_bps m \<noteq> 0"
    and run: "meter_pass now i len ext s = (ok, s')"
  defines "t \<equiv> bucket (ms_total_bps m) (ms_total_burst m) (ms_total_tokens m) (ms_total_last_ns m) now"
  obtains m' where "hget (METER s') i = Some m'" "ms_total_bps m' = ms_total_bps m"
    "ms_total_burst m' = ms_total_burst m" "ms_total_last_ns m' = now"
    "unat (ms_total_tokens m') + (if ok then unat len else 0) \<le> t"
proof -
  define tk where "tk = (if unat len \<le> t then t - unat len else t)"
  have take: "take_tokens (ms_total_bps m) (ms_total_burst m) (ms_total_tokens m) (ms_total_last_ns m) now len
      = (unat len \<le> t, of_nat tk)"
    unfolding t_def tk_def by (rule take_tokens_ideal [OF rate])
  have "t \<le> unat (ms_total_burst m)" by (simp add: t_def bucket_le)
  then have "t < 2 ^ 64" using unat_lt64 [of "ms_total_burst m"] by (simp del: unat_lt64)
  then have tk: "unat (of_nat tk :: u64) = tk" by (simp add: tk_def unat_of_nat)
  define m1 where "m1 = m\<lparr>ms_total_tokens := of_nat tk, ms_total_last_ns := now\<rparr>"
  define m2 where "m2 = (if ext then m1\<lparr>ms_public_tokens := snd (take_tokens (ms_public_bps m1)
      (ms_public_burst m1) (ms_public_tokens m1) (ms_public_last_ns m1) now len), ms_public_last_ns := now\<rparr> else m1)"
  have s': "s' = s\<lparr>METER := hput (METER s) i m2\<rparr>" and ok: "ok \<Longrightarrow> unat len \<le> t"
    using run by (cases ext; simp add: meter_pass_def m take Let_def case_prod_beta m1_def m2_def; blast)+
  have f: "ms_total_bps m2 = ms_total_bps m" "ms_total_burst m2 = ms_total_burst m"
      "ms_total_last_ns m2 = now" "ms_total_tokens m2 = of_nat tk"
    by (simp_all add: m2_def m1_def)
  have "unat (ms_total_tokens m2) + (if ok then unat len else 0) \<le> t"
    using ok unfolding f tk by (auto simp: tk_def)
  moreover have "hget (METER s') i = Some m2" using m by (simp add: s' hget_hput_present)
  ultimately show thesis using f by (intro that)
qed

fun meter_run :: "u32 \<Rightarrow> (u64 \<times> u64 \<times> bool) list \<Rightarrow> maps \<Rightarrow> nat \<times> maps" where
  "meter_run i [] s = (0, s)"
| "meter_run i ((now, len, ext) # fs) s =
     (let (ok, s) = meter_pass now i len ext s; (n, s) = meter_run i fs s
      in ((if ok then unat len else 0) + n, s))"

fun times_from :: "u64 \<Rightarrow> (u64 \<times> u64 \<times> bool) list \<Rightarrow> bool" where
  "times_from t [] = True"
| "times_from t ((now, len, ext) # fs) = (t \<le> now \<and> times_from now fs)"

fun end_time :: "u64 \<Rightarrow> (u64 \<times> u64 \<times> bool) list \<Rightarrow> u64" where
  "end_time t [] = t"
| "end_time t ((now, len, ext) # fs) = end_time now fs"

lemma times_from_le: "times_from t fs \<Longrightarrow> t \<le> end_time t fs"
  by (induction t fs rule: end_time.induct) (auto intro: order_trans)

lemma times_from_append:
  "times_from t (xs @ ys) \<longleftrightarrow> times_from t xs \<and> times_from (end_time t xs) ys"
  by (induction t xs rule: end_time.induct) auto

lemma meter_run_bound:
  assumes "hget (METER s) i = Some m" "rate_ok (ms_total_bps m)" "ms_total_bps m \<noteq> 0"
    and "times_from (ms_total_last_ns m) fs"
  shows "1000000000 * fst (meter_run i fs s) \<le> 1000000000 * unat (ms_total_tokens m) +
    (unat (end_time (ms_total_last_ns m) fs) - unat (ms_total_last_ns m)) * unat (ms_total_bps m)"
  using assms
proof (induction fs arbitrary: s m)
  case Nil
  then show ?case by simp
next
  case (Cons f fs)
  obtain now len ext where f: "f = (now, len, ext)" by (cases f)
  obtain ok s' where run: "meter_pass now i len ext s = (ok, s')" by force
  let ?T = "end_time now fs" and ?t0 = "ms_total_last_ns m" and ?b = "ms_total_bps m"
  obtain m' where m': "hget (METER s') i = Some m'" "ms_total_bps m' = ?b" "ms_total_last_ns m' = now"
      and tok: "unat (ms_total_tokens m') + (if ok then unat len else 0) \<le>
        bucket ?b (ms_total_burst m) (ms_total_tokens m) ?t0 now"
    using meter_pass_step [OF Cons.prems(1-3) run] by metis
  have times: "?t0 \<le> now" "times_from now fs" using Cons.prems(4) by (simp_all add: f)
  have "1000000000 * fst (meter_run i fs s') \<le> 1000000000 * unat (ms_total_tokens m') +
      (unat ?T - unat now) * unat ?b"
    using Cons.IH [OF m'(1)] Cons.prems(2,3) times m' by simp
  moreover have "1000000000 * (unat (ms_total_tokens m') + (if ok then unat len else 0)) \<le>
      1000000000 * unat (ms_total_tokens m) + (unat now - unat ?t0) * unat ?b"
    using mult_le_mono2 [OF tok, of 1000000000] bucket_bound order_trans by blast
  moreover have "(unat now - unat ?t0) * unat ?b + (unat ?T - unat now) * unat ?b = (unat ?T - unat ?t0) * unat ?b"
    using times(1) times_from_le [OF times(2)]
    by (simp add: word_le_nat_alt add_mult_distrib [symmetric])
  ultimately show ?case by (simp add: f run case_prod_beta)
qed

text \<open>What a bucket holds after a frame never exceeds its burst size.\<close>

lemma meter_run_state:
  assumes "hget (METER s) i = Some m" "rate_ok (ms_total_bps m)" "ms_total_bps m \<noteq> 0"
    and "fs \<noteq> [] \<or> ms_total_tokens m \<le> ms_total_burst m"
  obtains m' where "hget (METER (snd (meter_run i fs s))) i = Some m'" "ms_total_bps m' = ms_total_bps m"
    "ms_total_last_ns m' = end_time (ms_total_last_ns m) fs" "ms_total_tokens m' \<le> ms_total_burst m"
  using assms
proof (induction fs arbitrary: s m thesis)
  case Nil
  then show ?case by simp
next
  case (Cons f fs)
  obtain now len ext where f: "f = (now, len, ext)" by (cases f)
  obtain ok s' where run: "meter_pass now i len ext s = (ok, s')" by force
  obtain m1 where m1: "hget (METER s') i = Some m1" "ms_total_bps m1 = ms_total_bps m"
      "ms_total_burst m1 = ms_total_burst m" "ms_total_last_ns m1 = now"
      and tok: "unat (ms_total_tokens m1) + (if ok then unat len else 0) \<le>
        bucket (ms_total_bps m) (ms_total_burst m) (ms_total_tokens m) (ms_total_last_ns m) now"
    using meter_pass_step [OF Cons.prems(2-4) run] by metis
  have "ms_total_tokens m1 \<le> ms_total_burst m1"
    using tok bucket_le order_trans unfolding m1(3) word_le_nat_alt by (metis add_leD1)
  then obtain m2 where "hget (METER (snd (meter_run i fs s'))) i = Some m2" "ms_total_bps m2 = ms_total_bps m"
      "ms_total_last_ns m2 = end_time now fs" "ms_total_tokens m2 \<le> ms_total_burst m"
    using Cons.IH [OF _ m1(1)] Cons.prems(3,4) m1(2-4) by auto
  then show ?case by (intro Cons.prems(1)) (simp_all add: f run case_prod_beta)
qed

text \<open>C10: Rate limit. In any stretch \<open>ys\<close> of the frames an interface handles at non-decreasing
  times, the bytes that get through are bounded by the configured burst plus the configured rate
  times the duration of the stretch (times in nanoseconds, so both sides are scaled by a
  billion), whatever the frames \<open>xs\<close> before it and however long the interface was idle. The
  stretch follows a metered frame, or the bucket starts with at most its burst, as the control
  plane sets it; the rate is not zero (no limit) and small enough for the 64-bit product.\<close>

theorem meter_rate_bound:
  assumes m: "hget (METER s) i = Some m" and rate: "rate_ok (ms_total_bps m)" "ms_total_bps m \<noteq> 0"
    and start: "xs \<noteq> [] \<or> ms_total_tokens m \<le> ms_total_burst m"
    and times: "times_from (ms_total_last_ns m) (xs @ ys)"
  defines "t0 \<equiv> end_time (ms_total_last_ns m) xs"
  shows "1000000000 * fst (meter_run i ys (snd (meter_run i xs s))) \<le>
    1000000000 * unat (ms_total_burst m) + (unat (end_time t0 ys) - unat t0) * unat (ms_total_bps m)"
proof -
  let ?s = "snd (meter_run i xs s)"
  obtain m' where m': "hget (METER ?s) i = Some m'" "ms_total_bps m' = ms_total_bps m"
      "ms_total_last_ns m' = t0" "ms_total_tokens m' \<le> ms_total_burst m"
    using meter_run_state [OF m rate start] unfolding t0_def by metis
  have "times_from t0 ys" using times by (simp add: t0_def times_from_append)
  then have "1000000000 * fst (meter_run i ys ?s) \<le> 1000000000 * unat (ms_total_tokens m') +
      (unat (end_time t0 ys) - unat t0) * unat (ms_total_bps m)"
    using meter_run_bound [OF m'(1), of ys] rate by (simp add: m'(2,3))
  then show ?thesis using m'(4) by (simp add: word_le_nat_alt)
qed

definition sample_meter_state :: MeterState where
  "sample_meter_state =
     \<lparr>ms_total_bps = 1000, ms_total_burst = 1500, ms_total_tokens = 1500, ms_total_last_ns = 0,
      ms_public_bps = 0, ms_public_burst = 0, ms_public_tokens = 0, ms_public_last_ns = 0\<rparr>"

definition sample_meter :: maps where
  "sample_meter = fresh_maps\<lparr>METER := \<lparr>max_entries = 1024, entries = [(5, sample_meter_state)]\<rparr>\<rparr>"

lemma sample_meter_get: "hget (METER sample_meter) 5 = Some sample_meter_state"
  by (simp add: sample_meter_def hget_def)

theorem meter_rate_bound_witness:
  "1000000000 * fst (meter_run 5 [(8000000000, 1400, False), (9000000000, 900, True)]
       (snd (meter_run 5 [(1000, 1400, False)] sample_meter))) \<le>
     1000000000 * 1500 + (9000000000 - 1000) * 1000"
  using meter_rate_bound [OF sample_meter_get, of "[(1000, 1400, False)]"
      "[(8000000000, 1400, False), (9000000000, 900, True)]"]
  by (simp add: sample_meter_state_def rate_ok_def)

text \<open>A bucket that surely admits a frame: without a limit, or idle for a second with burst and
  rate per second both at least the length of the frame.\<close>

definition bucket_ready :: "u64 \<Rightarrow> u64 \<Rightarrow> u64 \<Rightarrow> u64 \<Rightarrow> u64 \<Rightarrow> bool" where
  "bucket_ready bps burst last_ns now len =
     (bps = 0 \<or> rate_ok bps \<and> unat last_ns + 1000000000 \<le> unat now \<and> len \<le> burst \<and> len \<le> bps)"

lemma take_tokens_ready:
  assumes "bucket_ready bps burst last_ns now len"
  shows "fst (take_tokens bps burst tokens last_ns now len)"
proof (cases "bps = 0")
  case False
  then have r: "rate_ok bps" "unat last_ns + 1000000000 \<le> unat now" "len \<le> burst" "len \<le> bps"
    using assms by (simp_all add: bucket_ready_def)
  have "capped now last_ns = 1000000000" using r(2) by (simp add: capped_def)
  then have "unat len \<le> bucket bps burst tokens last_ns now"
    using r(3,4) by (simp add: bucket_def word_le_nat_alt)
  then show ?thesis by (simp add: take_tokens_ideal [OF r(1) False])
qed (simp add: take_tokens_def)

text \<open>C30: No starvation. A frame passes the meter, whatever tokens are left, when the total
  bucket and, for external traffic, also the public bucket is ready for it: it has no limit, or
  it was idle for a second (the code caps the time it credits at one second), its burst and its
  rate per second are both at least the length of the frame, and the rate is small enough for
  the 64-bit product.\<close>

theorem meter_recovers:
  assumes m: "hget (METER s) i = Some m"
    and total: "bucket_ready (ms_total_bps m) (ms_total_burst m) (ms_total_last_ns m) now len"
    and public: "ext \<longrightarrow>
      bucket_ready (ms_public_bps m) (ms_public_burst m) (ms_public_last_ns m) now len"
  shows "fst (meter_pass now i len ext s)"
  using take_tokens_ready [OF total, of "ms_total_tokens m"]
    take_tokens_ready [of "ms_public_bps m" "ms_public_burst m" "ms_public_last_ns m" now len "ms_public_tokens m"]
    public
  by (cases ext) (simp_all add: meter_pass_def m Let_def case_prod_beta)

theorem meter_recovers_witness: "fst (meter_pass 1000000000 5 900 True sample_meter)"
  by (rule meter_recovers [OF sample_meter_get])
    (simp_all add: sample_meter_state_def rate_ok_def bucket_ready_def)

end
