(* ===== verification/Firewall.thy ===== *)
theory Firewall
  imports Parse
begin

text \<open>
  The stateless rule firewall: \<^verbatim>\<open>fw_rule_matches\<close> of \<^verbatim>\<open>xdp-dp-common/src/lib.rs\<close> and
  \<^verbatim>\<open>xdp-dp-ebpf/src/firewall.rs\<close>. The scan over the rule slots is shown equal to taking the
  first matching rule of the slots in order.
\<close>

section \<open>Definitions\<close>

definition fw_rule_matches :: "FwRule \<Rightarrow> PacketSelectors \<Rightarrow> bool" where
  "fw_rule_matches r s =
     (if fr_enabled r = 0 then False
      else if fr_proto r \<noteq> 0 \<and> fr_proto r \<noteq> ps_proto s then False
      else if list_ex (\<lambda>i. ps_src s ! i AND fr_src_mask r ! i \<noteq> fr_src_ip r ! i AND fr_src_mask r ! i \<or>
                           ps_dst s ! i AND fr_dst_mask r ! i \<noteq> fr_dst_ip r ! i AND fr_dst_mask r ! i) [0..<4]
      then False
      else if ps_proto s = 6 \<or> ps_proto s = 17
      then ps_sport s \<ge> fr_src_port_min r \<and> ps_sport s \<le> fr_src_port_max r \<and>
           ps_dport s \<ge> fr_dst_port_min r \<and> ps_dport s \<le> fr_dst_port_max r
      else if ps_proto s = 1
      then (fr_icmp_type r = 0xffff \<or> ps_icmp_type s = fr_icmp_type r) \<and>
           (fr_icmp_code r = 0xffff \<or> ps_icmp_code s = fr_icmp_code r)
      else True)"

definition fw_enforcing :: "maps \<Rightarrow> bool" where
  "fw_enforcing s = (case aget (FW_CONFIG s) 0 of Some v \<Rightarrow> v \<noteq> 0 | None \<Rightarrow> True)"

definition icmp_type_code :: "bytes \<Rightarrow> nat \<Rightarrow> u16 \<times> u16" where
  "icmp_type_code p ip_off =
     (if ip_off + 20 > length p then (0, 0)
      else if rd8 p ip_off AND 0x0f \<noteq> 5 \<or> rd8 p (ip_off + 9) \<noteq> 1 then (0, 0)
      else let l4 = ip_off + 20
           in if l4 + 2 > length p then (0, 0) else (ucast (rd8 p l4), ucast (rd8 p (l4 + 1))))"

function fw_scan :: "maps \<Rightarrow> u32 \<Rightarrow> u8 \<Rightarrow> PacketSelectors \<Rightarrow> u32 \<Rightarrow> u8" where
  "fw_scan s ifindex dir sel idx =
     (if idx < 16
      then case hget (FW_RULES s) \<lparr>fk_ifindex = ifindex, fk_idx = idx\<rparr> of
             Some r \<Rightarrow> if fr_direction r = dir \<and> fw_rule_matches r sel then fr_action r
                       else fw_scan s ifindex dir sel (idx + 1)
           | None \<Rightarrow> fw_scan s ifindex dir sel (idx + 1)
      else FW_ACTION_DROP)"
  by pat_completeness auto
termination
  by (relation "measure (\<lambda>(_, _, _, _, idx). 16 - unat idx)") (auto simp: unat_Suc_below word_less_nat_alt)

declare fw_scan.simps [simp del]

definition fw_selectors :: "bytes \<Rightarrow> nat \<Rightarrow> PacketSelectors" where
  "fw_selectors p ip_off =
     (let src = rdn p (ip_off + 12) 4; dst = rdn p (ip_off + 16) 4;
          (proto, sport, dport) =
            (case l4_ports p ip_off of Some v \<Rightarrow> v | None \<Rightarrow> (rd8 p (ip_off + 9), 0, 0));
          (itype, icode) = icmp_type_code p ip_off
      in \<lparr>ps_src = src, ps_dst = dst, ps_proto = proto, ps_sport = sport, ps_dport = dport,
          ps_icmp_type = itype, ps_icmp_code = icode\<rparr>)"

definition fw_eval_dir :: "maps \<Rightarrow> bytes \<Rightarrow> nat \<Rightarrow> u32 \<Rightarrow> u8 \<Rightarrow> u8" where
  "fw_eval_dir s p ip_off ifindex dir =
     (case hget (FW_META s) ifindex of
        None \<Rightarrow> FW_ACTION_ACCEPT
      | Some meta \<Rightarrow>
          let count = (if dir = FW_DIR_EGRESS then fm_egress_count meta else fm_ingress_count meta)
          in if count = 0 then FW_ACTION_ACCEPT
             else if ip_off + 20 > length p then FW_ACTION_ACCEPT
             else fw_scan s ifindex dir (fw_selectors p ip_off) 0)"

section \<open>First match\<close>

text \<open>The specification: the action of the first rule of a list that is of the direction and
  matches, and drop when there is none.\<close>

fun first_match :: "FwRule list \<Rightarrow> u8 \<Rightarrow> PacketSelectors \<Rightarrow> u8" where
  "first_match [] dir sel = FW_ACTION_DROP"
| "first_match (r # rs) dir sel =
     (if fr_direction r = dir \<and> fw_rule_matches r sel then fr_action r else first_match rs dir sel)"

text \<open>The rules in the slots of an interface, in slot order.\<close>

definition fw_slots :: "maps \<Rightarrow> u32 \<Rightarrow> nat \<Rightarrow> FwRule list" where
  "fw_slots s ifindex i =
     List.map_filter (\<lambda>j. hget (FW_RULES s) \<lparr>fk_ifindex = ifindex, fk_idx = of_nat j\<rparr>) [i..<16]"

lemma fw_scan_first_match: "fw_scan s ifindex dir sel idx = first_match (fw_slots s ifindex (unat idx)) dir sel"
proof (induction s ifindex dir sel idx rule: fw_scan.induct)
  case (1 s ifindex dir sel idx)
  show ?case
  proof (cases "idx < 16")
    case False
    then show ?thesis
      by (simp add: fw_scan.simps [of s ifindex dir sel idx] fw_slots_def word_less_nat_alt List.map_filter_simps)
  next
    case True
    then have u: "unat idx < 16" "unat (idx + 1) = Suc (unat idx)"
      by (simp_all add: word_less_nat_alt unat_Suc_below)
    have slots: "fw_slots s ifindex (unat idx) =
        (case hget (FW_RULES s) \<lparr>fk_ifindex = ifindex, fk_idx = idx\<rparr> of
           Some r \<Rightarrow> [r] | None \<Rightarrow> []) @ fw_slots s ifindex (unat (idx + 1))"
      using u unfolding fw_slots_def by (simp add: upt_rec [of "unat idx"] List.map_filter_simps split: option.splits)
    show ?thesis
      using True 1 unfolding slots
      by (simp add: fw_scan.simps [of s ifindex dir sel idx] split: option.splits)
  qed
qed

end
