(* ===== verification/Egress.thy ===== *)
theory Egress
  imports Vip Nat64 Meter Firewall Dhcp6
begin

text \<open>
  The guest side of the datapath: \<^verbatim>\<open>xdp-dp-ebpf/src/egress.rs\<close> and the egress half of
  \<^verbatim>\<open>v6.rs\<close>. \<open>forward_decision_v4\<close> runs conntrack, firewall, VIP, NAT, tracking, metering and
  routing on the packet and returns a verdict; \<open>try_guest_tx\<close> is the XDP program \<^verbatim>\<open>guest_tx\<close>.
  One reading of the clock, \<open>now\<close>, serves a whole packet.
\<close>

datatype EgressVerdict =
    Pass
  | Drop
  | Local u32 bytes
  | Encap EncapParams

section \<open>Definitions\<close>

text \<open>Conntrack and egress firewall; \<open>None\<close> is the firewall's drop.\<close>

definition egress_ct_fw :: "u64 \<Rightarrow> bytes \<Rightarrow> u32 \<Rightarrow> u32 \<Rightarrow> maps \<Rightarrow> (bytes \<times> maps) option" where
  "egress_ct_fw now p ifindex vni s =
     (case ct_key p ETH_LEN vni of
        None \<Rightarrow> Some (p, s)
      | Some key \<Rightarrow>
          (case CONNTRACK s key of
             Some e \<Rightarrow>
               let p = (if ce_flags e AND CT_REWRITE_SRC \<noteq> 0 then ct_apply p ETH_LEN e else p)
               in Some (p, ct_touch now p ETH_LEN key e s)
           | None \<Rightarrow>
               if fw_eval_dir s p ETH_LEN ifindex FW_DIR_EGRESS = FW_ACTION_DROP \<and> fw_enforcing s
               then None else Some (p, s)))"

text \<open>Every flow is tracked, under the key the packet has after NAT.\<close>

definition egress_track :: "u64 \<Rightarrow> bytes \<Rightarrow> u32 \<Rightarrow> maps \<Rightarrow> maps" where
  "egress_track now p vni s =
     (case ct_key p ETH_LEN vni of
        Some key \<Rightarrow> if CONNTRACK s key = None then ct_ensure_default now p ETH_LEN key s else s
      | None \<Rightarrow> s)"

text \<open>Where a routed packet goes: to a local tap, or encapsulated to the route's next hop.\<close>

definition deliver_or_encap :: "bytes \<Rightarrow> PortMeta \<Rightarrow> RouteValue \<Rightarrow> u8 \<Rightarrow> maps \<Rightarrow> EgressVerdict" where
  "deliver_or_encap p meta route inner_proto s =
     (let encap =
        (let inner_len = of_nat (length p - ETH_LEN)
         in case aget (LOCAL s) 0 of
              None \<Rightarrow> Pass
            | Some l \<Rightarrow>
                Encap \<lparr>ep_gateway_mac = lo_gateway_mac l, ep_uplink_mac = lo_uplink_mac l,
                       ep_uplink_ifindex = lo_uplink_ifindex l, ep_src_underlay = pm_underlay_ipv6 meta,
                       ep_nexthop_ipv6 = rv_nexthop_ipv6 route, ep_inner_len = inner_len,
                       ep_inner_proto = inner_proto\<rparr>)
      in case hget (UNDERLAY s) (rv_nexthop_ipv6 route) of
           Some u \<Rightarrow> if uv_tap_ifindex u \<noteq> 0 then Local (uv_tap_ifindex u) (uv_guest_mac u) else encap
         | None \<Rightarrow> encap)"

definition forward_decision_v4 :: "u64 \<Rightarrow> bytes \<Rightarrow> u32 \<Rightarrow> PortMeta \<Rightarrow> maps \<Rightarrow> EgressVerdict \<times> bytes \<times> maps" where
  "forward_decision_v4 now p ifindex meta s =
     (case egress_ct_fw now p ifindex (pm_vni meta) s of
        None \<Rightarrow> (Drop, p, s)
      | Some (p, s) \<Rightarrow>
          let p = snat_egress s p ETH_LEN (pm_vni meta);
              p = dnat_egress s p ETH_LEN (pm_vni meta);
              dst = rdn p (ETH_LEN + 16) 4
          in case route_lookup s (pm_vni meta) dst of
               None \<Rightarrow> (Pass, p, s)
             | Some route \<Rightarrow>
                 let is_ext = (rv_is_external route \<noteq> 0);
                     (natted, p, s) = nat_snat_egress now p ETH_LEN (pm_vni meta) is_ext s;
                     s = egress_track now p (pm_vni meta) s;
                     frame_len = of_nat (length p);
                     (pass, s) = meter_pass now ifindex frame_len is_ext s
                 in if \<not> pass then (Drop, p, s)
                    else (deliver_or_encap p meta route IPPROTO_IPIP s, p, s))"

definition forward_decision_v6 :: "bytes \<Rightarrow> PortMeta \<Rightarrow> maps \<Rightarrow> EgressVerdict" where
  "forward_decision_v6 p meta s =
     (let dst = rdn p (ETH_LEN + 24) 16
      in case route_lookup6 s (pm_vni meta) dst of
           None \<Rightarrow> Pass
         | Some route \<Rightarrow> deliver_or_encap p meta route IPPROTO_IPV6 s)"

text \<open>Executing a verdict; \<open>ethertype\<close> is rewritten on local IPv6 delivery only.\<close>

definition execute_verdict :: "xdp_ctx \<Rightarrow> EgressVerdict \<Rightarrow> u16 option \<Rightarrow> (unit + xdp_action) \<times> xdp_ctx" where
  "execute_verdict ctx v ethertype =
     (case v of
        Pass \<Rightarrow> (Inr XDP_PASS, ctx)
      | Drop \<Rightarrow> (Inr XDP_DROP, ctx)
      | Local tap guest_mac \<Rightarrow>
          if ETH_LEN > length (pkt ctx) then (Inr XDP_PASS, ctx)
          else
            let q = wrn (wrn (pkt ctx) 0 guest_mac) 6 GW_MAC;
                q = (case ethertype of Some t \<Rightarrow> wr16 q 12 t | None \<Rightarrow> q)
            in (Inr (XDP_REDIRECT tap), ctx\<lparr>pkt := q\<rparr>)
      | Encap e \<Rightarrow>
          (case adjust_head_grow ctx IPV6_LEN of
             None \<Rightarrow> (Inl (), ctx)
           | Some ctx \<Rightarrow>
               (case write_outer_v6 (pkt ctx) e of
                  Some p \<Rightarrow> (Inr (XDP_REDIRECT (ep_uplink_ifindex e)), ctx\<lparr>pkt := p\<rparr>)
                | None \<Rightarrow> (Inl (), ctx))))"

definition v6_guest_tx :: "u64 \<Rightarrow> xdp_ctx \<Rightarrow> PortMeta \<Rightarrow> maps \<Rightarrow> (unit + xdp_action) \<times> xdp_ctx \<times> maps" where
  "v6_guest_tx now ctx meta s =
     (case nat64_egress now ctx (pm_vni meta) (pm_guest_ipv4 meta) (pm_underlay_ipv6 meta) s of
        (Inl _, ctx, s) \<Rightarrow> (Inl (), ctx, s)
      | (Inr (Some act), ctx, s) \<Rightarrow> (Inr act, ctx, s)
      | (Inr None, ctx, s) \<Rightarrow>
          if ETH_LEN + IPV6_LEN > length (pkt ctx) then (Inr XDP_PASS, ctx, s)
          else
            let (res, ctx) = execute_verdict ctx (forward_decision_v6 (pkt ctx) meta s) (Some ETH_P_IPV6)
            in (res, ctx, s))"

definition is_dhcp_request :: "bytes \<Rightarrow> bool" where
  "is_dhcp_request p =
     (if ETH_LEN + 44 > length p then False
      else
        let ethertype = rd16 p 12
        in if ethertype = ETH_P_IP
           then if rd8 p (ETH_LEN + 9) \<noteq> IPPROTO_UDP then False
                else rd16 p (ETH_LEN + 22) = 67
           else if ethertype = ETH_P_IPV6
           then if rd8 p (ETH_LEN + 6) \<noteq> IPPROTO_UDP then False
                else rd16 p (ETH_LEN + 40 + 2) = 547
           else False)"

definition dhcp_handle :: "xdp_ctx \<Rightarrow> maps \<Rightarrow> xdp_action \<times> xdp_ctx \<times> maps" where
  "dhcp_handle ctx s =
     (case hget (PORT_META s) (ingress_ifindex ctx) of
        None \<Rightarrow> (XDP_PASS, ctx, s)
      | Some meta \<Rightarrow>
          (case try_dhcpv4_reply ctx meta s of
             (Some act, ctx, s) \<Rightarrow> (act, ctx, s)
           | (None, ctx, s) \<Rightarrow>
               (case try_dhcpv6_reply ctx meta s of
                  (Some act, ctx) \<Rightarrow> (act, ctx, s)
                | (None, ctx) \<Rightarrow> (XDP_PASS, ctx, s))))"

text \<open>\<open>tail_ok\<close> tells whether the tail call to \<^verbatim>\<open>guest_dhcp\<close> succeeds: it replaces the running
  program, and a miss (empty slot) falls through to pass.\<close>

definition try_guest_tx ::
  "u64 \<Rightarrow> bool \<Rightarrow> xdp_ctx \<Rightarrow> maps \<Rightarrow> (unit + xdp_action) \<times> xdp_ctx \<times> maps" where
  "try_guest_tx now tail_ok ctx s =
     (case hget (PORT_META s) (ingress_ifindex ctx) of
        None \<Rightarrow> (Inl (), ctx, s)
      | Some meta \<Rightarrow>
          (case try_arp_reply ctx meta of
             Some (act, ctx) \<Rightarrow> (Inr act, ctx, s)
           | None \<Rightarrow>
               (case try_nd_reply ctx meta of
                  Some (act, ctx) \<Rightarrow> (Inr act, ctx, s)
                | None \<Rightarrow>
                    if is_dhcp_request (pkt ctx)
                    then if tail_ok
                         then (let (act, ctx, s) = dhcp_handle ctx s in (Inr act, ctx, s))
                         else (Inr XDP_PASS, ctx, s)
                    else if 14 \<le> length (pkt ctx) \<and> rd16 (pkt ctx) 12 = ETH_P_IPV6
                    then v6_guest_tx now ctx meta s
                    else if ETH_LEN + 20 > length (pkt ctx) then (Inr XDP_PASS, ctx, s)
                    else if rd16 (pkt ctx) 12 \<noteq> ETH_P_IP then (Inr XDP_PASS, ctx, s)
                    else
                      let (v, p, s) = forward_decision_v4 now (pkt ctx) (ingress_ifindex ctx) meta s;
                          (res, ctx) = execute_verdict (ctx\<lparr>pkt := p\<rparr>) v None
                      in (res, ctx, s))))"

end
