(* ===== verification/Lb.thy ===== *)
theory Lb
  imports Parse Csum
begin

text \<open>
  Load balancing in the datapath, \<^verbatim>\<open>xdp-dp-ebpf/src/lb.rs\<close>: three selectors (a plain IPv4
  packet, an ICMP error about a flow of the service, an IPv6 packet) that look up a service in
  \<^verbatim>\<open>LB\<close>, hash the flow to a slot and read the backend from \<^verbatim>\<open>MAGLEV\<close>.
\<close>

section \<open>Definitions\<close>

definition maglev_select :: "maps \<Rightarrow> LbKey \<Rightarrow> u32 \<Rightarrow> bytes option" where
  "maglev_select s key h =
     (case hget (LB s) key of
        None \<Rightarrow> None
      | Some lb \<Rightarrow>
          if lv_size lb = 0 then None
          else hget (MAGLEV s) \<lparr>mk_table_id = lv_table_id lb, mk_slot = h mod lv_size lb\<rparr>)"

definition lb_select_forward :: "maps \<Rightarrow> bytes \<Rightarrow> nat \<Rightarrow> u32 \<Rightarrow> bytes option" where
  "lb_select_forward s p ip_off vni =
     (if ip_off + 20 > length p then None
      else
        let dst = rdn p (ip_off + 16) 4; src = rdn p (ip_off + 12) 4
        in case l4_ports p ip_off of
             None \<Rightarrow> None
           | Some (proto, sport, dport) \<Rightarrow>
               let lookup_port = (if proto = 1 then 0 else dport)
               in maglev_select s \<lparr>lk_vni = vni, lk_ipv4 = dst, lk_port = lookup_port, lk_proto = proto\<rparr>
                    (hash5 src dst sport dport proto))"

definition lb_select_forward_icmp_error :: "maps \<Rightarrow> bytes \<Rightarrow> nat \<Rightarrow> u32 \<Rightarrow> bytes option" where
  "lb_select_forward_icmp_error s p ip_off vni =
     (if ip_off + 20 > length p then None
      else if rd8 p ip_off AND 0x0f \<noteq> 5 then None
      else if rd8 p (ip_off + 9) \<noteq> IPPROTO_ICMP then None
      else
        let icmp_off = ip_off + 20
        in if icmp_off + 8 > length p then None
           else
             let icmp_type = rd8 p icmp_off
             in if icmp_type \<noteq> 3 \<and> icmp_type \<noteq> 11 \<and> icmp_type \<noteq> 12 then None
                else
                  let inner_ip_off = icmp_off + 8
                  in if inner_ip_off + 20 > length p then None
                     else if rd8 p inner_ip_off AND 0x0f \<noteq> 5 then None
                     else
                       let inner_proto = rd8 p (inner_ip_off + 9)
                       in if inner_proto \<noteq> IPPROTO_TCP \<and> inner_proto \<noteq> IPPROTO_UDP then None
                          else
                            let inner_src = rdn p (inner_ip_off + 12) 4;
                                inner_dst = rdn p (inner_ip_off + 16) 4;
                                inner_l4_off = inner_ip_off + 20
                            in if inner_l4_off + 4 > length p then None
                               else
                                 let inner_sport = rd16 p inner_l4_off;
                                     inner_dport = rd16 p (inner_l4_off + 2)
                                 in maglev_select s
                                      \<lparr>lk_vni = vni, lk_ipv4 = inner_src, lk_port = inner_sport,
                                       lk_proto = inner_proto\<rparr>
                                      (hash5 inner_dst inner_src inner_dport inner_sport inner_proto))"

definition lb_select_forward_v6 :: "maps \<Rightarrow> bytes \<Rightarrow> nat \<Rightarrow> u32 \<Rightarrow> bytes option" where
  "lb_select_forward_v6 s p ip_off vni =
     (if ip_off + 44 > length p then None
      else
        let inner_nexthdr = rd8 p (ip_off + 6)
        in if inner_nexthdr \<noteq> IPPROTO_TCP \<and> inner_nexthdr \<noteq> IPPROTO_UDP then None
           else
             let inner_dst6 = rdn p (ip_off + 24) 16;
                 inner_src6 = rdn p (ip_off + 8) 16;
                 dst4 = [inner_dst6 ! 12, inner_dst6 ! 13, inner_dst6 ! 14, inner_dst6 ! 15];
                 src4 = [inner_src6 ! 12, inner_src6 ! 13, inner_src6 ! 14, inner_src6 ! 15];
                 l4_off = ip_off + 40
             in if l4_off + 4 > length p then None
                else
                  let sport = rd16 p l4_off; dport = rd16 p (l4_off + 2)
                  in maglev_select s
                       \<lparr>lk_vni = vni, lk_ipv4 = dst4, lk_port = dport, lk_proto = inner_nexthdr\<rparr>
                       (hash5 src4 dst4 sport dport inner_nexthdr))"

section \<open>Consistency of the selectors\<close>

text \<open>The part of a packet that decides its backend: a TCP or UDP packet's addresses, ports and
  protocol.\<close>

definition flow_of :: "bytes \<Rightarrow> nat \<Rightarrow> (bytes \<times> bytes \<times> u8 \<times> u16 \<times> u16) option" where
  "flow_of p off =
     (case l4_ports p off of
        None \<Rightarrow> None
      | Some (proto, sport, dport) \<Rightarrow> Some (rdn p (off + 12) 4, rdn p (off + 16) 4, proto, sport, dport))"

lemma lb_select_forward_flow:
  "flow_of p off = Some (src, dst, proto, sport, dport) \<Longrightarrow>
     lb_select_forward s p off vni =
       maglev_select s \<lparr>lk_vni = vni, lk_ipv4 = dst, lk_port = (if proto = 1 then 0 else dport), lk_proto = proto\<rparr>
         (hash5 src dst sport dport proto)"
  by (auto simp: flow_of_def lb_select_forward_def dest: l4_ports_bound split: option.splits)

text \<open>An ICMP error whose quoted packet at \<open>off + 28\<close> is a packet of the service back to the
  client carries the flow of the client's packets with both ends exchanged.\<close>

text \<open>C28: Load balancer affinity of ICMP errors. If a packet of a client to a TCP or UDP service
  is balanced to some backend, an ICMP error (type 3, 11 or 12) that quotes the service's answer
  to this client is relayed to the same backend.\<close>

theorem lb_icmp_error_same_backend:
  assumes client: "flow_of p off = Some (src, dst, proto, sport, dport)" "proto = 6 \<or> proto = 17"
    and err: "rd8 e eoff AND 0x0f = 5" "rd8 e (eoff + 9) = 1" "rd8 e (eoff + 20) \<in> {3, 11, 12}"
    and quoted: "rd8 e (eoff + 28) AND 0x0f = 5" "flow_of e (eoff + 28) = Some (dst, src, proto, dport, sport)"
  shows "lb_select_forward_icmp_error s e eoff vni = lb_select_forward s p off vni"
proof -
  have ports: "l4_ports e (eoff + 28) = Some (proto, dport, sport)" and
    addr: "rdn e (eoff + 40) 4 = dst" "rdn e (eoff + 44) 4 = src"
    using quoted(2) by (auto simp: flow_of_def add.commute split: option.splits)
  have pr: "rd8 e (eoff + 37) = proto" using l4_ports_proto [OF ports] by (simp add: add.commute)
  have i: "ihl_bytes e (eoff + 28) = 20" using quoted(1) by (rule ihl_bytes_5)
  have len: "eoff + 52 \<le> length e" and pt: "rd16 e (eoff + 48) = dport" "rd16 e (eoff + 50) = sport"
    using ports client(2) unfolding l4_ports_def Let_def i
    by (auto simp: add.commute split: if_splits)
  have "lb_select_forward_icmp_error s e eoff vni =
      maglev_select s \<lparr>lk_vni = vni, lk_ipv4 = dst, lk_port = dport, lk_proto = proto\<rparr>
        (hash5 src dst sport dport proto)"
    using err quoted(1) len addr pr pt client(2)
    by (auto simp: lb_select_forward_icmp_error_def Let_def add.commute)
  also have "\<dots> = lb_select_forward s p off vni"
    using client by (auto simp: lb_select_forward_flow)
  finally show ?thesis .
qed

text \<open>An ICMP destination unreachable that quotes the answer to the sample SYN.\<close>

definition sample_icmp_error :: bytes where
  "sample_icmp_error =
     [0x45, 0, 0, 52, 0, 0, 0, 0, 64, 1, 0, 0, 192, 0, 2, 1, 10, 0, 0, 2] @ [3, 1, 0, 0, 0, 0, 0, 0] @
     [0x45, 0, 0, 40, 0, 0, 0, 0, 64, 6, 0, 0, 10, 0, 0, 2, 10, 0, 0, 1] @ [0, 80, 48, 57]"

theorem lb_icmp_error_same_backend_witness:
  "\<forall>s vni. lb_select_forward_icmp_error s sample_icmp_error 0 vni = lb_select_forward s sample_syn 14 vni"
  by (intro allI, rule lb_icmp_error_same_backend [where src = "[10, 0, 0, 1]" and dst = "[10, 0, 0, 2]" and
        proto = 6 and sport = 12345 and dport = 80])
    (simp_all add: flow_of_def l4_ports_def ihl_bytes_def sample_syn_def sample_icmp_error_def packet_eval)

end
