(* ===== verification/Ingress.thy ===== *)
theory Ingress
  imports Egress Lb
begin

text \<open>
  The uplink side of the datapath: \<^verbatim>\<open>xdp-dp-ebpf/src/ingress.rs\<close> and the ingress half of
  \<^verbatim>\<open>v6.rs\<close>, with the entry points of \<^verbatim>\<open>main.rs\<close>. \<open>try_uplink_rx\<close> resolves the interface from
  the outer destination, balances, reverses NAT, relays to NAT neighbours, answers pings,
  enforces the ingress firewall, tracks, and delivers the inner packet.
\<close>

abbreviation (input) ICMP_ECHO_REPLY :: u8 where "ICMP_ECHO_REPLY \<equiv> 0"

section \<open>Echo replies\<close>

text \<open>Both echo responders: the inner message is already rewritten in \<open>p\<close>; the outer addresses
  are exchanged and the frame leaves through the uplink. A missing \<^verbatim>\<open>LOCAL\<close> entry gives \<open>None\<close>
  with the frame left rewritten.\<close>

definition echo_send :: "xdp_ctx \<Rightarrow> bytes \<Rightarrow> bytes \<Rightarrow> bytes \<Rightarrow> maps \<Rightarrow> xdp_action option \<times> xdp_ctx" where
  "echo_send ctx p outer_src outer_dst s =
     (case aget (LOCAL s) 0 of
        None \<Rightarrow> (None, ctx\<lparr>pkt := p\<rparr>)
      | Some l \<Rightarrow>
          let p = wrn p 0 (lo_gateway_mac l);
              p = wrn p 6 (lo_uplink_mac l);
              p = wrn p (ETH_LEN + 8) outer_dst;
              p = wrn p (ETH_LEN + 24) outer_src
          in (Some (XDP_REDIRECT (lo_uplink_ifindex l)), ctx\<lparr>pkt := p\<rparr>))"

definition try_icmp_echo_reply ::
  "xdp_ctx \<Rightarrow> u32 \<Rightarrow> u32 \<Rightarrow> bytes \<Rightarrow> bytes \<Rightarrow> maps \<Rightarrow> xdp_action option \<times> xdp_ctx" where
  "try_icmp_echo_reply ctx vni tap_ifindex outer_src outer_dst s =
     (let p = pkt ctx; ip_off = ETH_LEN + IPV6_LEN
      in if ip_off + 28 > length p then (None, ctx)
         else if rd8 p ip_off AND 0x0f \<noteq> 5 then (None, ctx)
         else if rd8 p (ip_off + 9) \<noteq> IPPROTO_ICMP then (None, ctx)
         else
           let l4 = ip_off + 20
           in if rd8 p l4 \<noteq> ICMP_ECHO_REQUEST then (None, ctx)
              else
                let inner_dst = rdn p (ip_off + 16) 4
                in if tap_ifindex \<noteq> 0 \<and> hget (NAT_IPS s) \<lparr>vk_vni = vni, vk_ipv4 = inner_dst\<rparr> = None
                   then (None, ctx)
                   else
                     let old_cksum = rd16 p (l4 + 2);
                         sm = ucast (NOT old_cksum) + ucast (NOT (0x0800 :: u16)) + 0 :: u32;
                         new_cksum = NOT (fold2 sm);
                         p = wr8 p l4 ICMP_ECHO_REPLY;
                         p = wr16 p (l4 + 2) new_cksum;
                         inner_src = rdn p (ip_off + 12) 4;
                         p = wrn p (ip_off + 12) inner_dst;
                         p = wrn p (ip_off + 16) inner_src
                     in echo_send ctx p outer_src outer_dst s)"

definition try_icmpv6_echo_reply :: "xdp_ctx \<Rightarrow> bytes \<Rightarrow> bytes \<Rightarrow> maps \<Rightarrow> xdp_action option \<times> xdp_ctx" where
  "try_icmpv6_echo_reply ctx outer_src outer_dst s =
     (let p = pkt ctx; ip6 = ETH_LEN + IPV6_LEN; icmpv6_off = ip6 + IPV6_LEN
      in if icmpv6_off + 8 > length p then (None, ctx)
         else if rd8 p (ip6 + 6) \<noteq> IPPROTO_ICMPV6 then (None, ctx)
         else if rd8 p icmpv6_off \<noteq> ICMPV6_ECHO_REQUEST then (None, ctx)
         else
           let old_cksum = rd16 p (icmpv6_off + 2);
               sm = ucast (NOT old_cksum) + ucast (NOT (0x8000 :: u16)) + ucast (0x8100 :: u16) :: u32;
               new_cksum = NOT (fold2 sm);
               p = wr8 p icmpv6_off ICMPV6_ECHO_REPLY;
               p = wr16 p (icmpv6_off + 2) new_cksum;
               inner_src6 = rdn p (ip6 + 8) 16;
               inner_dst6 = rdn p (ip6 + 24) 16;
               p = wrn p (ip6 + 8) inner_dst6;
               p = wrn p (ip6 + 24) inner_src6
           in echo_send ctx p outer_src outer_dst s)"

section \<open>Delivery\<close>

text \<open>Strip the outer headers and write the inner Ethernet header for the guest.\<close>

definition decap :: "xdp_ctx \<Rightarrow> bytes \<Rightarrow> u16 \<Rightarrow> xdp_ctx option" where
  "decap ctx guest_mac ethertype =
     (case adjust_head_shrink ctx IPV6_LEN of
        None \<Rightarrow> None
      | Some ctx \<Rightarrow>
          if ETH_LEN > length (pkt ctx) then None
          else Some (ctx\<lparr>pkt := wr16 (wrn (wrn (pkt ctx) 0 guest_mac) 6 GW_MAC) 12 ethertype\<rparr>))"

definition v6_uplink_rx :: "xdp_ctx \<Rightarrow> maps \<Rightarrow> (unit + xdp_action) \<times> xdp_ctx" where
  "v6_uplink_rx ctx s =
     (let p = pkt ctx
      in if ETH_LEN + IPV6_LEN + 40 > length p then (Inr XDP_PASS, ctx)
         else
           let outer_dst = rdn p (ETH_LEN + 24) 16; outer_src = rdn p (ETH_LEN + 8) 16
           in case hget (UNDERLAY s) outer_dst of
                None \<Rightarrow> (Inr XDP_PASS, ctx)
              | Some u \<Rightarrow>
                  (case lb_select_forward_v6 s p (ETH_LEN + IPV6_LEN) (uv_vni u) of
                     Some bul \<Rightarrow>
                       (case hget (UNDERLAY s) bul of
                          Some bu \<Rightarrow>
                            (case decap ctx (uv_guest_mac bu) ETH_P_IPV6 of
                               None \<Rightarrow> (Inl (), ctx)
                             | Some ctx \<Rightarrow> (Inr (XDP_REDIRECT (uv_tap_ifindex bu)), ctx))
                        | None \<Rightarrow>
                            (case aget (LOCAL s) 0 of
                               None \<Rightarrow> (Inl (), ctx)
                             | Some l \<Rightarrow> (let (act, ctx) = reforward ctx l outer_dst bul in (Inr act, ctx))))
                   | None \<Rightarrow>
                       if uv_tap_ifindex u = 0
                       then (case try_icmpv6_echo_reply ctx outer_src outer_dst s of
                               (Some act, ctx) \<Rightarrow> (Inr act, ctx)
                             | (None, ctx) \<Rightarrow> (Inr XDP_DROP, ctx))
                       else (case decap ctx (uv_guest_mac u) ETH_P_IPV6 of
                               None \<Rightarrow> (Inl (), ctx)
                             | Some ctx \<Rightarrow> (Inr (XDP_REDIRECT (uv_tap_ifindex u)), ctx))))"

section \<open>The IPv4 pipeline\<close>

text \<open>Reverse NAT of a packet to a registered NAT address: the external peer is erased from the
  key, which is the return key the egress allocator stored. The result is the guest's address
  and port and the NAT64 flag of the entry that applied.\<close>

definition ingress_key :: "maps \<Rightarrow> u32 \<Rightarrow> CtKey \<Rightarrow> CtKey" where
  "ingress_key s vni key =
     (if hget (NAT_IPS s) \<lparr>vk_vni = vni, vk_ipv4 = ck_dst_ip key\<rparr> \<noteq> None
      then key\<lparr>ck_src_ip := [0, 0, 0, 0], ck_src_port := 0\<rparr> else key)"

definition ingress_nat ::
  "u64 \<Rightarrow> bytes \<Rightarrow> u32 \<Rightarrow> maps \<Rightarrow> (bytes \<times> u16 \<times> bool) option \<times> bytes \<times> maps" where
  "ingress_nat now p vni s =
     (let off = ETH_LEN + IPV6_LEN
      in case ct_key p off vni of
           None \<Rightarrow> (None, p, s)
         | Some key \<Rightarrow>
             let key = ingress_key s vni key
             in case CONNTRACK s key of
                  None \<Rightarrow> (None, p, s)
                | Some e \<Rightarrow>
                    if ce_flags e AND CT_REWRITE_DST \<noteq> 0
                    then let is_nat64 = (ce_flags e AND CT_F_NAT64 \<noteq> 0);
                             orig_sport = ce_xlate_port e;
                             p = ct_apply p off e;
                             s = ct_touch now p off key e s
                         in (Some (ce_xlate_ip e, orig_sport, is_nat64), p, s)
                    else (None, p, s))"

text \<open>Neighbour NAT: the underlay of the node that owns the inner destination, if any.\<close>

definition ingress_neighbor :: "bytes \<Rightarrow> u32 \<Rightarrow> maps \<Rightarrow> bytes option" where
  "ingress_neighbor p vni s =
     (let off = ETH_LEN + IPV6_LEN
      in if off + 20 \<le> length p
         then (case l4_ports p off of
                 Some (proto, sport, dport) \<Rightarrow> neighbor_nat_lookup s vni (rdn p (off + 16) 4) dport
               | None \<Rightarrow> None)
         else None)"

definition ingress_fw_drops :: "bytes \<Rightarrow> u32 \<Rightarrow> u32 \<Rightarrow> maps \<Rightarrow> bool" where
  "ingress_fw_drops p vni tap_ifindex s =
     (let off = ETH_LEN + IPV6_LEN
      in case ct_key p off vni of
           None \<Rightarrow> False
         | Some key \<Rightarrow>
             CONNTRACK s key = None \<and>
             fw_eval_dir s p off tap_ifindex FW_DIR_INGRESS = FW_ACTION_DROP \<and> fw_enforcing s)"

definition ingress_track :: "u64 \<Rightarrow> bytes \<Rightarrow> u32 \<Rightarrow> maps \<Rightarrow> maps" where
  "ingress_track now p vni s =
     (let off = ETH_LEN + IPV6_LEN
      in case ct_key p off vni of
           None \<Rightarrow> s
         | Some key \<Rightarrow>
             (case CONNTRACK s key of
                Some e \<Rightarrow> ct_touch now p off key e s
              | None \<Rightarrow> ct_ensure_default now p off key s))"

text \<open>The last part: firewall, tracking, decapsulation and VIP; \<open>plain\<close> holds for packets that
  were neither balanced nor translated.\<close>

definition ingress_deliver ::
  "u64 \<Rightarrow> xdp_ctx \<Rightarrow> u32 \<Rightarrow> UnderlayValue \<Rightarrow> bool \<Rightarrow> maps \<Rightarrow> (unit + xdp_action) \<times> xdp_ctx \<times> maps" where
  "ingress_deliver now ctx vni deliver_u plain s =
     (if ingress_fw_drops (pkt ctx) vni (uv_tap_ifindex deliver_u) s then (Inr XDP_DROP, ctx, s)
      else
        let s = (if plain then ingress_track now (pkt ctx) vni s else s)
        in case decap ctx (uv_guest_mac deliver_u) ETH_P_IP of
             None \<Rightarrow> (Inl (), ctx, s)
           | Some ctx \<Rightarrow>
               let p = (if plain then dnat_ingress s (pkt ctx) ETH_LEN vni else pkt ctx)
               in (Inr (XDP_REDIRECT (uv_tap_ifindex deliver_u)), ctx\<lparr>pkt := p\<rparr>, s))"

text \<open>Packets for which no balancer backend was selected: NAT64, neighbour NAT, echo replies,
  then delivery.\<close>

definition ingress_unbalanced ::
  "u64 \<Rightarrow> xdp_ctx \<Rightarrow> UnderlayValue \<Rightarrow> bytes \<Rightarrow> maps \<Rightarrow> (unit + xdp_action) \<times> xdp_ctx \<times> maps" where
  "ingress_unbalanced now ctx u outer_dst s =
     (let vni = uv_vni u; tap_ifindex = uv_tap_ifindex u;
          (nat_guest, p, s) = ingress_nat now (pkt ctx) vni s;
          ctx = ctx\<lparr>pkt := p\<rparr>
      in case nat_guest of
           Some (nat_ipv4, orig_sport, is_nat64) \<Rightarrow>
             if is_nat64
             then (case nat64_ingress ctx tap_ifindex (uv_guest_mac u) nat_ipv4 orig_sport s of
                     (Inl _, ctx) \<Rightarrow> (Inl (), ctx, s)
                   | (Inr None, ctx) \<Rightarrow> (Inr XDP_PASS, ctx, s)
                   | (Inr (Some act), ctx) \<Rightarrow> (Inr act, ctx, s))
             else ingress_deliver now ctx vni u False s
         | None \<Rightarrow>
             (case ingress_neighbor (pkt ctx) vni s of
                Some owner_ul \<Rightarrow>
                  (case aget (LOCAL s) 0 of
                     None \<Rightarrow> (Inl (), ctx, s)
                   | Some l \<Rightarrow> (let (act, ctx) = reforward ctx l outer_dst owner_ul in (Inr act, ctx, s)))
              | None \<Rightarrow>
                  let outer_src = rdn (pkt ctx) (ETH_LEN + 8) 16
                  in case try_icmp_echo_reply ctx vni tap_ifindex outer_src outer_dst s of
                       (Some act, ctx) \<Rightarrow> (Inr act, ctx, s)
                     | (None, ctx) \<Rightarrow> ingress_deliver now ctx vni u True s))"

definition try_uplink_rx :: "u64 \<Rightarrow> xdp_ctx \<Rightarrow> maps \<Rightarrow> (unit + xdp_action) \<times> xdp_ctx \<times> maps" where
  "try_uplink_rx now ctx s =
     (let p = pkt ctx; off = ETH_LEN + IPV6_LEN
      in if ETH_LEN + IPV6_LEN + 20 > length p then (Inr XDP_PASS, ctx, s)
         else if rd16 p 12 \<noteq> ETH_P_IPV6 then (Inr XDP_PASS, ctx, s)
         else
           let nexthdr = rd8 p (ETH_LEN + 6)
           in if nexthdr = IPPROTO_IPV6 then (let (res, ctx) = v6_uplink_rx ctx s in (res, ctx, s))
              else if nexthdr \<noteq> IPPROTO_IPIP then (Inr XDP_PASS, ctx, s)
              else
                let outer_dst = rdn p (ETH_LEN + 24) 16
                in case hget (UNDERLAY s) outer_dst of
                     None \<Rightarrow> (Inr XDP_PASS, ctx, s)
                   | Some u \<Rightarrow>
                       (case lb_select_forward s p off (uv_vni u) of
                          Some bul \<Rightarrow>
                            (case hget (UNDERLAY s) bul of
                               Some bu \<Rightarrow> ingress_deliver now ctx (uv_vni u) bu False s
                             | None \<Rightarrow>
                                 (case aget (LOCAL s) 0 of
                                    None \<Rightarrow> (Inl (), ctx, s)
                                  | Some l \<Rightarrow> (let (act, ctx) = reforward ctx l outer_dst bul in (Inr act, ctx, s))))
                        | None \<Rightarrow>
                            (case lb_select_forward_icmp_error s p off (uv_vni u) of
                               Some bul \<Rightarrow>
                                 (case aget (LOCAL s) 0 of
                                    None \<Rightarrow> (Inl (), ctx, s)
                                  | Some l \<Rightarrow> (let (act, ctx) = reforward ctx l outer_dst bul in (Inr act, ctx, s)))
                             | None \<Rightarrow> ingress_unbalanced now ctx u outer_dst s)))"

section \<open>Entry points\<close>

text \<open>The XDP programs: an \<^verbatim>\<open>Err(())\<close> of a handler passes the packet to the host stack.\<close>

definition guest_tx :: "u64 \<Rightarrow> bool \<Rightarrow> xdp_ctx \<Rightarrow> maps \<Rightarrow> xdp_action \<times> xdp_ctx \<times> maps" where
  "guest_tx now tail_ok ctx s =
     (case try_guest_tx now tail_ok ctx s of
        (Inr act, ctx, s) \<Rightarrow> (act, ctx, s)
      | (Inl _, ctx, s) \<Rightarrow> (XDP_PASS, ctx, s))"

definition guest_dhcp :: "xdp_ctx \<Rightarrow> maps \<Rightarrow> xdp_action \<times> xdp_ctx \<times> maps" where
  "guest_dhcp ctx s = dhcp_handle ctx s"

definition uplink_rx :: "u64 \<Rightarrow> xdp_ctx \<Rightarrow> maps \<Rightarrow> xdp_action \<times> xdp_ctx \<times> maps" where
  "uplink_rx now ctx s =
     (case try_uplink_rx now ctx s of
        (Inr act, ctx, s) \<Rightarrow> (act, ctx, s)
      | (Inl _, ctx, s) \<Rightarrow> (XDP_PASS, ctx, s))"

end
