(* ===== verification/Nat_Flows.thy ===== *)
theory Nat_Flows
  imports Ingress
begin

text \<open>
  A NAT flow through both pipelines: what egress NAT sends is what ingress NAT takes back.
\<close>

section \<open>Translation of flow keys\<close>

text \<open>On a TCP or UDP packet that is long enough, a conntrack translation changes the flow key in
  exactly the translated address and port.\<close>

definition xlate_key :: "CtEntry \<Rightarrow> CtKey \<Rightarrow> CtKey" where
  "xlate_key e k =
     (if xlate_src e then k\<lparr>ck_src_ip := ce_xlate_ip e, ck_src_port := ce_xlate_port e\<rparr>
      else k\<lparr>ck_dst_ip := ce_xlate_ip e, ck_dst_port := ce_xlate_port e\<rparr>)"

definition tcp_udp_packet :: "bytes \<Rightarrow> nat \<Rightarrow> bool" where
  "tcp_udp_packet p off \<longleftrightarrow> rd8 p off AND 0x0f = 5 \<and>
     (rd8 p (off + 9) = 6 \<and> off + 38 \<le> length p \<or> rd8 p (off + 9) = 17 \<and> off + 28 \<le> length p)"

lemma tcp_udp_packet_len: "tcp_udp_packet p off \<Longrightarrow> off + 28 \<le> length p"
  by (auto simp: tcp_udp_packet_def)

lemma ct_key_tcp_udp:
  assumes "tcp_udp_packet p off"
  shows "ct_key p off vni = Some \<lparr>ck_vni = vni, ck_src_ip = rdn p (off + 12) 4, ck_dst_ip = rdn p (off + 16) 4,
    ck_src_port = rd16 p (off + 20), ck_dst_port = rd16 p (off + 22), ck_proto = rd8 p (off + 9)\<rparr>"
  using assms by (auto simp: tcp_udp_packet_def ct_key_def l4_ports_def ihl_bytes_def add.commute [of off 22])

lemma rdn_frame: "(\<And>i. i < n \<Longrightarrow> rd8 q (a + i) = rd8 p (a + i)) \<Longrightarrow> rdn q a n = rdn p a n"
  by (rule nth_equalityI) (simp_all add: rdn_nth)

lemma ct_apply_key:
  assumes t: "tcp_udp_packet p off" and k: "ct_key p off vni = Some k"
    and e: "xlates e" "length (ce_xlate_ip e) = 4" "ce_xlate_port e \<noteq> 0"
  shows "tcp_udp_packet (ct_apply p off e) off" "ct_key (ct_apply p off e) off vni = Some (xlate_key e k)"
proof -
  let ?q = "ct_apply p off e"
  have len: "off + 28 \<le> length p" using t by (rule tcp_udp_packet_len)
  have ap: "ct_applies p off e" using t e len by (simp add: ct_applies_def tcp_udp_packet_def)
  note fr = ct_applies_frame [OF ap e(2)]
  show q: "tcp_udp_packet ?q off" using t fr by (simp add: tcp_udp_packet_def)
  have proto: "rd8 p (off + 9) = 6 \<and> off + 38 \<le> length p \<or> rd8 p (off + 9) = 17 \<and> off + 28 \<le> length p"
    using t by (simp add: tcp_udp_packet_def)
  note addr = ct_apply_addr [OF ap e(2)] and port = ct_apply_port [OF ap e(3) proto]
  have other: "rd8 ?q i = rd8 p i" if "i \<notin> xlate_fields p off e" for i using e(2) that by (rule ct_apply_frame)
  show "ct_key ?q off vni = Some (xlate_key e k)"
  proof (cases "xlate_src e")
    case True
    then have "rdn ?q (off + 16) 4 = rdn p (off + 16) 4" "rd16 ?q (off + 22) = rd16 p (off + 22)"
      using proto by (auto intro!: rdn_frame other simp: rd16_def xlate_fields_def xlate_addr_def xlate_word_def)
    then show ?thesis using True addr port k fr(2)
      by (auto simp: ct_key_tcp_udp [OF t] ct_key_tcp_udp [OF q] xlate_key_def xlate_addr_def xlate_word_def)
  next
    case False
    then have "rdn ?q (off + 12) 4 = rdn p (off + 12) 4" "rd16 ?q (off + 20) = rd16 p (off + 20)"
      using proto by (auto intro!: rdn_frame other simp: rd16_def xlate_fields_def xlate_addr_def xlate_word_def)
    moreover have "rd16 ?q (off + 22) = ce_xlate_port e" using port False by (simp add: xlate_word_def add.commute [of off 22])
    ultimately show ?thesis using False addr k fr(2)
      by (auto simp: ct_key_tcp_udp [OF t] ct_key_tcp_udp [OF q] xlate_key_def xlate_addr_def xlate_word_def)
  qed
qed

lemma xlate_key_nat [simp]:
  "xlate_key (nat_fwd_entry now a port) k = k\<lparr>ck_src_ip := a, ck_src_port := port\<rparr>"
  "xlate_key (nat_rev_entry now a port) k = k\<lparr>ck_dst_ip := a, ck_dst_port := port\<rparr>"
  by (simp_all add: xlate_key_def nat_fwd_entry_def nat_rev_entry_def xlate_src_def)

section \<open>There and back\<close>


lemma nat_snat_egress_new:
  assumes t: "tcp_udp_packet p off" and k: "ct_key p off vni = Some k"
    and nv: "hget (NAT s) \<lparr>nk_vni = vni, nk_ipv4 = ck_src_ip k\<rparr> = Some nv" "0 < nv_port_min nv"
      "nv_port_min nv < nv_port_max nv" "length (nv_nat_ipv4 nv) = 4"
    and new: "\<not> has_snat s k" and src: "ck_src_ip k \<noteq> [0, 0, 0, 0]"
    and free: "\<exists>j < 64. CONNTRACK s (nat_rev_key vni (nv_nat_ipv4 nv)
         (nat_cand nv (nat_start k (nv_port_max nv - nv_port_min nv)) (nv_port_max nv - nv_port_min nv) j)
         (ck_proto k)) = None"
  shows "\<exists>port q s'. nat_snat_egress now p off vni True s = (True, q, s') \<and>
    ct_key q off vni = Some (k\<lparr>ck_src_ip := nv_nat_ipv4 nv, ck_src_port := port\<rparr>) \<and>
    NAT_IPS s' = NAT_IPS s \<and> port \<noteq> 0 \<and> q = ct_apply p off (nat_fwd_entry now (nv_nat_ipv4 nv) port) \<and>
    CONNTRACK s' (nat_rev_key vni (nv_nat_ipv4 nv) port (ck_proto k)) = Some (nat_rev_entry now (ck_src_ip k) (ck_src_port k))"
proof -
  from nat_alloc_cases [OF k nv(1,3) new, of now] free obtain port where
    port: "nv_port_min nv \<le> port" and run: "nat_snat_egress now p off vni True s =
      (True, nat_rewrite p off (ck_proto k) (ck_src_ip k) (ck_src_port k) (nv_nat_ipv4 nv) port,
       s\<lparr>CONNTRACK := (CONNTRACK s)(nat_rev_key vni (nv_nat_ipv4 nv) port (ck_proto k) \<mapsto> nat_rev_entry now (ck_src_ip k) (ck_src_port k),
                              k \<mapsto> nat_fwd_entry now (nv_nat_ipv4 nv) port)\<rparr>)" by auto
  have p0: "port \<noteq> 0" using port nv(2) by (metis leD)
  have ihl: "rd8 p off AND 0x0f = 5" using t by (simp add: tcp_udp_packet_def)
  have key: "ct_key (ct_apply p off (nat_fwd_entry now (nv_nat_ipv4 nv) port)) off vni =
      Some (k\<lparr>ck_src_ip := nv_nat_ipv4 nv, ck_src_port := port\<rparr>)"
    using ct_apply_key(2) [OF t k, of "nat_fwd_entry now (nv_nat_ipv4 nv) port"] nv(4) p0 by simp
  have "nat_rev_key vni (nv_nat_ipv4 nv) port (ck_proto k) \<noteq> k" using src by (cases k) (auto simp: nat_rev_key_def)
  then show ?thesis
    using key p0 by (intro exI [of _ port]) (simp add: run nat_rewrite_ct_apply [OF k ihl nv(4) p0, of now])
qed



section \<open>The peer's echo\<close>

text \<open>The inner packet is found 54 bytes into a received frame and 14 bytes into a sent one; the
  translation does not depend on what is in front of it.\<close>

lemma shift_bytes:
  "rd8 (a @ p) (length a + i) = rd8 p i" "rd16 (a @ p) (length a + i) = rd16 p i"
  "rdn (a @ p) (length a + i) n = rdn p i n"
  by (simp_all add: rd8_def rd16_def rdn_def nth_append add.assoc)

lemma shift_wr8: "wr8 (a @ p) (length a + i) b = a @ wr8 p i b"
  by (simp add: wr8_def list_update_append)

lemma shift_wrn: "wrn (a @ p) (length a + i) bs = a @ wrn p i bs"
  by (induction p i bs rule: wrn.induct) (simp_all add: shift_wr8 add.assoc)

lemma shift_wr16: "wr16 (a @ p) (length a + i) w = a @ wr16 p i w"
  by (simp add: wr16_def shift_wrn del: wrn.simps)

lemma shift_ct_apply: "ct_apply (a @ p) (length a + off) e = a @ ct_apply p off e"
  unfolding ct_apply_def Let_def add.assoc shift_bytes shift_wrn shift_wr16 length_append add_le_cancel_left
    nat_add_left_cancel_less by (simp add: shift_wrn shift_wr16 shift_bytes del: wrn.simps)

lemma shift_ct_key: "ct_key (a @ p) (length a + off) vni = ct_key p off vni"
proof -
  have "rd16 (a @ p) (Suc (Suc (length a + i))) = rd16 p (Suc (Suc i))" for i
    using shift_bytes(2) [of a p "Suc (Suc i)"] by simp
  then show ?thesis by (simp add: ct_key_def l4_ports_def ihl_bytes_def Let_def add.assoc shift_bytes)
qed

lemma ct_key_turn:
  assumes "tcp_udp_packet p off" "ct_key p off vni = Some k"
  shows "tcp_udp_packet (turn p off) off" "ct_key (turn p off) off vni = Some (invert_key k)"
proof -
  have len: "off + 24 \<le> length p" using tcp_udp_packet_len [OF assms(1)] by simp
  show t: "tcp_udp_packet (turn p off) off" using assms(1) len by (simp add: tcp_udp_packet_def turn_reads)
  show "ct_key (turn p off) off vni = Some (invert_key k)"
    using assms(2) len by (auto simp: ct_key_tcp_udp [OF assms(1)] ct_key_tcp_udp [OF t] turn_reads invert_key_def)
qed

text \<open>The translation of the inner packet of an encapsulated frame, from that of a plain frame.\<close>

lemma ct_apply_inner:
  assumes "length hdr = 54" "14 \<le> length p"
  shows "ct_apply (hdr @ drop 14 p) 54 e = hdr @ drop 14 (ct_apply p 14 e)"
    "ct_key (hdr @ drop 14 p) 54 vni = ct_key p 14 vni"
proof -
  have p: "p = take 14 p @ drop 14 p" "length (take 14 p) = 14" using assms(2) by simp_all
  have "ct_apply p 14 e = take 14 p @ ct_apply (drop 14 p) 0 e"
    using shift_ct_apply [of "take 14 p" "drop 14 p" 0 e] p by simp
  then show "ct_apply (hdr @ drop 14 p) 54 e = hdr @ drop 14 (ct_apply p 14 e)"
    using shift_ct_apply [of hdr "drop 14 p" 0 e] assms(1) p(2) by simp
  show "ct_key (hdr @ drop 14 p) 54 vni = ct_key p 14 vni"
    using shift_ct_key [of "take 14 p" "drop 14 p" 0 vni] shift_ct_key [of hdr "drop 14 p" 0 vni] assms(1) p by simp
qed

text \<open>C18: A new TCP flow of a guest leaves through egress NAT with a port that was free. When the
  peer echoes the packet it received (addresses and ports exchanged) and it arrives encapsulated,
  ingress NAT turns it into the echo of the packet the guest sent, byte for byte, checksums
  included: the return entry that the allocator installs undoes the rewrite of the packet. The
  packet has no IP options, a source port, and no checksum field with the non-canonical zero
  0xffff.\<close>

theorem nat_echo_restored:
  assumes t: "rd8 p 14 AND 0x0f = 5" "rd8 p 23 = 6" "52 \<le> length p"
    and c: "rd16 p 24 \<noteq> 0xffff" "rd16 p 50 \<noteq> 0xffff"
    and k: "ct_key p 14 vni = Some k" "ck_src_ip k \<noteq> [0, 0, 0, 0]" "ck_src_port k \<noteq> 0"
    and nv: "hget (NAT s) \<lparr>nk_vni = vni, nk_ipv4 = ck_src_ip k\<rparr> = Some nv" "0 < nv_port_min nv"
      "nv_port_min nv < nv_port_max nv" "length (nv_nat_ipv4 nv) = 4"
    and ip: "hget (NAT_IPS s) \<lparr>vk_vni = vni, vk_ipv4 = nv_nat_ipv4 nv\<rparr> \<noteq> None"
    and new: "\<not> has_snat s k"
    and free: "\<exists>j < 64. CONNTRACK s (nat_rev_key vni (nv_nat_ipv4 nv)
         (nat_cand nv (nat_start k (nv_port_max nv - nv_port_min nv)) (nv_port_max nv - nv_port_min nv) j)
         (ck_proto k)) = None"
    and run: "nat_snat_egress now p 14 vni True s = (natted, q, s')" and hdr: "length hdr = 54"
  shows "\<exists>s2. ingress_nat later (hdr @ drop 14 (turn q 14)) vni s' =
    (Some (ck_src_ip k, ck_src_port k, False), hdr @ drop 14 (turn p 14), s2)"
proof -
  have tp: "tcp_udp_packet p 14" using t by (simp add: tcp_udp_packet_def)
  from nat_snat_egress_new [OF tp k(1) nv new k(2) free, of now] run obtain port where
    q: "ct_key q 14 vni = Some (k\<lparr>ck_src_ip := nv_nat_ipv4 nv, ck_src_port := port\<rparr>)" "port \<noteq> 0"
      "q = ct_apply p 14 (nat_fwd_entry now (nv_nat_ipv4 nv) port)" and ips: "NAT_IPS s' = NAT_IPS s" and
    e: "CONNTRACK s' (nat_rev_key vni (nv_nat_ipv4 nv) port (ck_proto k)) = Some (nat_rev_entry now (ck_src_ip k) (ck_src_port k))"
    by auto
  let ?e = "nat_rev_entry now (ck_src_ip k) (ck_src_port k)" and ?r = "hdr @ drop 14 (turn q 14)"
  have src: "ck_src_ip k = rdn p 26 4" "ck_src_port k = rd16 p 34" "ck_vni k = vni"
    using k(1) by (auto simp: ct_key_tcp_udp [OF tp])
  have tq: "tcp_udp_packet q 14" using ct_apply_key(1) [OF tp k(1), of "nat_fwd_entry now (nv_nat_ipv4 nv) port"] q nv(4) by simp
  have "ct_apply (turn q 14) 14 ?e = turn p 14"
    unfolding q(3) using t c q(2) nv(4) k(3) src
    by (intro ct_apply_echo) (simp_all add: nat_fwd_entry_def nat_rev_entry_def xlate_src_def xlates_def)
  moreover have "14 \<le> length (turn q 14)" using t(3) by (simp add: q(3))
  ultimately have r: "ct_apply ?r 54 ?e = hdr @ drop 14 (turn p 14)"
      "ct_key ?r 54 vni = Some (invert_key (k\<lparr>ck_src_ip := nv_nat_ipv4 nv, ck_src_port := port\<rparr>))"
    using ct_apply_inner [OF hdr] ct_key_turn(2) [OF tq q(1)] by simp_all
  have key: "ingress_key s' vni (invert_key (k\<lparr>ck_src_ip := nv_nat_ipv4 nv, ck_src_port := port\<rparr>)) =
      nat_rev_key vni (nv_nat_ipv4 nv) port (ck_proto k)"
    using ip ips src(3) by (simp add: ingress_key_def nat_rev_key_def invert_key_def)
  show ?thesis
    using r e by (simp add: ingress_nat_def Let_def key nat_rev_entry_def)
qed

section \<open>Instances\<close>

definition sample_nat_node :: maps where
  "sample_nat_node = sample_nat\<lparr>NAT_IPS := \<lparr>max_entries = 1024, entries =
     [(\<lparr>vk_vni = 100, vk_ipv4 = [203, 0, 113, 5]\<rparr>, 1)]\<rparr>\<rparr>"



lemma sample_syn_tcp: "tcp_udp_packet sample_syn 14"
  by (simp add: tcp_udp_packet_def sample_syn_def rd8_def)

lemma sample_nat_node_free:
  "\<exists>j < 64 :: nat. CONNTRACK sample_nat_node (nat_rev_key 100 (nv_nat_ipv4 sample_nat_value) (f j) (ck_proto sample_key)) = None"
  by (intro exI [of _ 0]) (simp add: sample_nat_node_def sample_nat_ct)

lemma sample_nat_node_alloc:
  "hget (NAT sample_nat_node) \<lparr>nk_vni = 100, nk_ipv4 = ck_src_ip sample_key\<rparr> = Some sample_nat_value"
  "0 < nv_port_min sample_nat_value" "nv_port_min sample_nat_value < nv_port_max sample_nat_value"
  "length (nv_nat_ipv4 sample_nat_value) = 4"
  "hget (NAT_IPS sample_nat_node) \<lparr>vk_vni = 100, vk_ipv4 = nv_nat_ipv4 sample_nat_value\<rparr> \<noteq> None"
  "\<not> has_snat sample_nat_node sample_key" "ck_src_ip sample_key \<noteq> [0, 0, 0, 0]" "ck_src_port sample_key \<noteq> 0"
  using sample_nat_get
  by (simp_all add: sample_nat_node_def has_snat_def sample_nat_ct sample_nat_value_def sample_key_def hget_def)


theorem nat_echo_restored_witness:
  "\<exists>q s' s2. nat_snat_egress 7 sample_syn 14 100 True sample_nat_node = (True, q, s') \<and>
     ingress_nat 9 (replicate 54 0 @ drop 14 (turn q 14)) 100 s' =
       (Some ([10, 0, 0, 1], 12345, False), replicate 54 0 @ drop 14 (turn sample_syn 14), s2)"
proof -
  note samples = sample_nat_node_alloc
  from nat_snat_egress_new [OF sample_syn_tcp ct_key_sample samples(1-4,6,7) sample_nat_node_free, of 7] obtain q s' where
    run: "nat_snat_egress 7 sample_syn 14 100 True sample_nat_node = (True, q, s')" by blast
  have "\<exists>s2. ingress_nat 9 (replicate 54 0 @ drop 14 (turn q 14)) 100 s' =
      (Some (ck_src_ip sample_key, ck_src_port sample_key, False), replicate 54 0 @ drop 14 (turn sample_syn 14), s2)"
    by (rule nat_echo_restored [OF _ _ _ _ _ ct_key_sample samples(7,8,1-4,5,6) sample_nat_node_free run])
      (simp_all add: sample_syn_def packet_eval)
  with run show ?thesis by (auto simp: sample_key_def)
qed

section \<open>A port taken over\<close>

text \<open>Packets of the guest refresh the forward entry of a NAT flow but not its return entry. A flow
  that only sends for 30 seconds loses the return entry to the aging task while its forward entry
  lives on, and the allocator hands the port out again: here the guest has a single port, both
  flows leave with it, and replies to the first flow reach the second.\<close>

definition single_port_nat :: maps where
  "single_port_nat = fresh_maps\<lparr>NAT := \<lparr>max_entries = 1024, entries =
     [(\<lparr>nk_vni = 100, nk_ipv4 = [10, 0, 0, 1]\<rparr>, \<lparr>nv_nat_ipv4 = [203, 0, 113, 5], nv_port_min = 1024, nv_port_max = 1025\<rparr>)]\<rparr>\<rparr>"

definition other_syn :: bytes where
  "other_syn = sample_syn[35 := 58]"

lemma single_port_alloc:
  assumes k: "ct_key p off 100 = Some k" "ck_src_ip k = [10, 0, 0, 1]" and nat: "NAT s = NAT single_port_nat"
    and free: "CONNTRACK s (nat_rev_key 100 [203, 0, 113, 5] 1024 (ck_proto k)) = None" "CONNTRACK s k = None"
  shows "CONNTRACK (snd (snd (nat_snat_egress now p off 100 True s))) =
    (CONNTRACK s)(nat_rev_key 100 [203, 0, 113, 5] 1024 (ck_proto k) \<mapsto> nat_rev_entry now (ck_src_ip k) (ck_src_port k),
                  k \<mapsto> nat_fwd_entry now [203, 0, 113, 5] 1024)"
    "NAT (snd (snd (nat_snat_egress now p off 100 True s))) = NAT s"
proof -
  let ?nv = "\<lparr>nv_nat_ipv4 = [203, 0, 113, 5], nv_port_min = 1024, nv_port_max = 1025\<rparr>"
  have nv: "hget (NAT s) \<lparr>nk_vni = 100, nk_ipv4 = ck_src_ip k\<rparr> = Some ?nv"
    using nat k by (simp add: single_port_nat_def hget_def)
  have one: "c = 1024" if "1024 \<le> c" "c < 1025" for c :: u16
    using that by (simp add: word_le_nat_alt word_less_nat_alt word_unat_eq_iff)
  have lt: "nv_port_min ?nv < nv_port_max ?nv" by simp
  define rng where "rng = nv_port_max ?nv - nv_port_min ?nv"
  have cand: "nat_cand ?nv (nat_start k rng) rng 0 = 1024"
    using nat_cand_in_range [OF lt rng_def, of "nat_start k rng" 0] one by simp
  have ex: "\<exists>j < 64. CONNTRACK s (nat_rev_key 100 (nv_nat_ipv4 ?nv) (nat_cand ?nv (nat_start k rng) rng j) (ck_proto k)) = None"
    using cand free(1) by (intro exI [of _ 0]) simp
  have "\<not> has_snat s k" by (simp add: has_snat_def free)
  from nat_alloc_cases [OF k(1) nv lt this, of now, folded rng_def, unfolded if_P [OF ex]] obtain port ct' where
    port: "1024 \<le> port" "port < 1025" and run: "snd (snd (nat_snat_egress now p off 100 True s)) = s\<lparr>CONNTRACK := ct'\<rparr>" and
    ct: "ct' = (CONNTRACK s)(nat_rev_key 100 (nv_nat_ipv4 ?nv) port (ck_proto k) \<mapsto> nat_rev_entry now (ck_src_ip k) (ck_src_port k),
                              k \<mapsto> nat_fwd_entry now (nv_nat_ipv4 ?nv) port)" by auto
  from port have "port = 1024" by (rule one)
  with run ct show
    "CONNTRACK (snd (snd (nat_snat_egress now p off 100 True s))) =
    (CONNTRACK s)(nat_rev_key 100 [203, 0, 113, 5] 1024 (ck_proto k) \<mapsto> nat_rev_entry now (ck_src_ip k) (ck_src_port k),
                  k \<mapsto> nat_fwd_entry now [203, 0, 113, 5] 1024)"
    "NAT (snd (snd (nat_snat_egress now p off 100 True s))) = NAT s" by simp_all
qed

lemma ct_key_other: "ct_key other_syn 14 100 = Some (sample_key\<lparr>ck_src_port := 12346\<rparr>)"
  by (simp add: ct_key_def l4_ports_def ihl_bytes_def other_syn_def sample_syn_def sample_key_def packet_eval)

theorem nat_port_taken_over:
  "\<exists>s1 p2 s2 s3 s4. s1 = snd (snd (nat_snat_egress 0 sample_syn 14 100 True single_port_nat)) \<and>
     egress_ct_fw 20000000000 sample_syn 7 100 s1 = Some (p2, s2) \<and>
     s3 = s2\<lparr>CONNTRACK := gc_sweep 31000000000 (CONNTRACK s2)\<rparr> \<and>
     s4 = snd (snd (nat_snat_egress 31000000000 other_syn 14 100 True s3)) \<and>
     map_option (\<lambda>e. (ce_xlate_ip e, ce_xlate_port e)) (CONNTRACK s4 sample_key) = Some ([203, 0, 113, 5], 1024) \<and>
     map_option (\<lambda>e. (ce_xlate_ip e, ce_xlate_port e)) (CONNTRACK s4 (sample_key\<lparr>ck_src_port := 12346\<rparr>)) =
       Some ([203, 0, 113, 5], 1024) \<and>
     map_option ce_xlate_port (CONNTRACK s4 (nat_rev_key 100 [203, 0, 113, 5] 1024 6)) = Some 12346"
proof -
  define s1 where "s1 = snd (snd (nat_snat_egress 0 sample_syn 14 100 True single_port_nat))"
  have ne: "sample_key \<noteq> nat_rev_key 100 [203, 0, 113, 5] 1024 6" "sample_key \<noteq> sample_key\<lparr>ck_src_port := 12346\<rparr>"
    "sample_key\<lparr>ck_src_port := 12346\<rparr> \<noteq> nat_rev_key 100 [203, 0, 113, 5] 1024 6"
    by (simp_all add: sample_key_def nat_rev_key_def)
  have proto: "ck_proto sample_key = 6" "ck_src_ip sample_key = [10, 0, 0, 1]" by (simp_all add: sample_key_def)
  have c0: "CONNTRACK single_port_nat = Map.empty" by (simp add: single_port_nat_def fresh_maps_def)
  have a1: "CONNTRACK s1 = [nat_rev_key 100 [203, 0, 113, 5] 1024 6 \<mapsto> nat_rev_entry 0 [10, 0, 0, 1] 12345,
      sample_key \<mapsto> nat_fwd_entry 0 [203, 0, 113, 5] 1024]" "NAT s1 = NAT single_port_nat"
    using single_port_alloc [OF ct_key_sample proto(2) refl, of 0] c0 by (simp_all add: s1_def proto) (simp add: sample_key_def)
  obtain e where e: "egress_ct_fw 20000000000 sample_syn 7 100 s1 =
      Some (ct_apply sample_syn 14 (nat_fwd_entry 0 [203, 0, 113, 5] 1024), s1\<lparr>CONNTRACK := (CONNTRACK s1)(sample_key \<mapsto> e)\<rparr>)"
    "ce_last_seen e = 20000000000" "ce_xlate_ip e = [203, 0, 113, 5]" "ce_xlate_port e = 1024"
  proof
    show "egress_ct_fw 20000000000 sample_syn 7 100 s1 = Some (ct_apply sample_syn 14 (nat_fwd_entry 0 [203, 0, 113, 5] 1024),
      s1\<lparr>CONNTRACK := (CONNTRACK s1)(sample_key \<mapsto> the (CONNTRACK (ct_touch 20000000000
        (ct_apply sample_syn 14 (nat_fwd_entry 0 [203, 0, 113, 5] 1024)) 14 sample_key (nat_fwd_entry 0 [203, 0, 113, 5] 1024) s1) sample_key))\<rparr>)"
      by (simp add: egress_ct_fw_def ct_key_sample a1 ct_touch_def Let_def nat_fwd_entry_def)
  qed (simp_all add: ct_touch_def Let_def nat_fwd_entry_def split: option.splits)
  define s2 where "s2 = s1\<lparr>CONNTRACK := (CONNTRACK s1)(sample_key \<mapsto> e)\<rparr>"
  define s3 where "s3 = s2\<lparr>CONNTRACK := gc_sweep 31000000000 (CONNTRACK s2)\<rparr>"
  have kept: "\<not> stale 31000000000 e" using e(2) by (simp add: stale_def timeout_ns_def saturating_sub_def TCP_ESTABLISHED_TIMEOUT_NS_def DEFAULT_TIMEOUT_NS_def)
  have gone: "stale 31000000000 (nat_rev_entry 0 [10, 0, 0, 1] 12345)"
    by (simp add: stale_def timeout_ns_def saturating_sub_def nat_rev_entry_def DEFAULT_TIMEOUT_NS_def)
  have c3: "CONNTRACK s3 = [sample_key \<mapsto> e]" "NAT s3 = NAT single_port_nat"
    using kept gone ne by (auto simp: s3_def s2_def gc_sweep_def a1 fun_eq_iff)
  define s4 where "s4 = snd (snd (nat_snat_egress 31000000000 other_syn 14 100 True s3))"
  have "CONNTRACK s4 =
    [sample_key \<mapsto> e, nat_rev_key 100 [203, 0, 113, 5] 1024 6 \<mapsto> nat_rev_entry 31000000000 [10, 0, 0, 1] 12346,
     sample_key\<lparr>ck_src_port := 12346\<rparr> \<mapsto> nat_fwd_entry 31000000000 [203, 0, 113, 5] 1024]"
    using single_port_alloc [OF ct_key_other _ c3(2), of 31000000000] c3(1) ne proto by (simp add: s4_def)
  then show ?thesis using e ne
    by (intro exI [of _ s1] exI [of _ "ct_apply sample_syn 14 (nat_fwd_entry 0 [203, 0, 113, 5] 1024)"] exI [of _ s2]
        exI [of _ s3] exI [of _ s4] conjI) (rule s1_def s3_def s4_def | simp add: s2_def)+
qed

end
