(* ===== verification/Overlay.thy ===== *)
theory Overlay
  imports Ingress
begin

text \<open>
  The overlay between two nodes: a packet encapsulated by the egress pipeline of one node and
  carried by the underlay network is unwrapped by \<^verbatim>\<open>uplink_rx\<close> of the other and delivered
  unchanged.
\<close>

section \<open>The underlay network\<close>

text \<open>What routers may do to the frame on the way: new Ethernet addresses and a lower hop limit;
  the rest arrives as sent.\<close>

definition underlay_hop :: "bytes \<Rightarrow> bytes \<Rightarrow> bool" where
  "underlay_hop p f \<longleftrightarrow> length f = length p \<and> rd16 f 12 = rd16 p 12 \<and>
     (\<forall>i < length p. 14 \<le> i \<and> i \<noteq> 21 \<longrightarrow> rd8 f i = rd8 p i)"

lemma underlay_hop_drop: "underlay_hop p f \<Longrightarrow> 22 \<le> n \<Longrightarrow> drop n f = drop n p"
  by (rule nth_equalityI) (auto simp: underlay_hop_def rd8_def dest: spec [of _ "n + _"])

lemma underlay_hop_rdn:
  "underlay_hop p f \<Longrightarrow> 22 \<le> a \<Longrightarrow> a + n \<le> length p \<Longrightarrow> rdn f a n = rdn p a n"
  by (rule nth_equalityI) (auto simp: underlay_hop_def rdn_nth)

lemma length_wrap:
  assumes "execute_verdict ctx (Encap e) et = (Inr act, ctx1)" "encap_wf e"
  shows "length (pkt ctx1) = length (pkt ctx) + 40" "drop 54 (pkt ctx1) = drop 14 (pkt ctx)"
    "\<exists>p. write_outer_v6 p e = Some (pkt ctx1)"
proof -
  from assms(1) obtain c where c: "adjust_head_grow ctx 40 = Some c" "write_outer_v6 (pkt c) e = Some (pkt ctx1)"
    by (auto simp: execute_verdict_def split: option.splits)
  note g = adjust_head_grow_pkt [OF c(1)] and w = write_outer_v6_frame [OF c(2) assms(2)]
  show "length (pkt ctx1) = length (pkt ctx) + 40" using g w by simp
  have "drop 14 (drop 40 (pkt c)) = drop 14 (pkt ctx)" using g by simp
  then show "drop 54 (pkt ctx1) = drop 14 (pkt ctx)" using w by simp
  show "\<exists>p. write_outer_v6 p e = Some (pkt ctx1)" using c(2) by blast
qed

text \<open>The encapsulated frame as the receiving node reads it.\<close>

lemma arrives:
  assumes sent: "execute_verdict ctx (Encap e) et = (Inr act, ctx1)" "encap_wf e"
    and hop: "underlay_hop (pkt ctx1) f"
  shows "length f = length (pkt ctx) + 40" "drop 54 f = drop 14 (pkt ctx)" "14 \<le> length (pkt ctx)"
    "rd16 f 12 = ETH_P_IPV6" "rd8 f 20 = ep_inner_proto e" "rdn f 38 16 = ep_nexthop_ipv6 e" "rdn f 22 16 = ep_src_underlay e"
proof -
  note w = length_wrap [OF sent]
  then obtain p where p: "write_outer_v6 p e = Some (pkt ctx1)" by blast
  note o = write_outer_v6_fields [OF p sent(2)]
  have len: "54 \<le> length (pkt ctx1)"
    using p write_outer_v6_frame [OF p sent(2)] by (auto simp: write_outer_v6_def split: if_splits)
  then show "14 \<le> length (pkt ctx)" using w by simp
  show "length f = length (pkt ctx) + 40" using hop w by (simp add: underlay_hop_def)
  show "drop 54 f = drop 14 (pkt ctx)" using underlay_hop_drop [OF hop, of 54] w by simp
  show "rd16 f 12 = ETH_P_IPV6" "rd8 f 20 = ep_inner_proto e" using hop o len by (simp_all add: underlay_hop_def)
  show "rdn f 38 16 = ep_nexthop_ipv6 e" "rdn f 22 16 = ep_src_underlay e"
    using underlay_hop_rdn [OF hop, of 38 16] underlay_hop_rdn [OF hop, of 22 16] o len by simp_all
qed

lemma decap_frame:
  assumes "54 \<le> length (pkt rx)" "length mac = 6"
  shows "\<exists>out. decap rx mac t = Some out \<and> drop 14 (pkt out) = drop 54 (pkt rx) \<and>
    rdn (pkt out) 0 6 = mac \<and> rdn (pkt out) 6 6 = GW_MAC \<and> rd16 (pkt out) 12 = t"
proof -
  have g: "length GW_MAC = 6" by (simp add: GW_MAC_def)
  let ?q = "wr16 (wrn (wrn (drop 40 (pkt rx)) 0 mac) 6 GW_MAC) 12 t"
  have "drop 14 ?q = drop 14 (drop 40 (pkt rx))"
  proof (rule nth_equalityI)
    fix i assume i: "i < length (drop 14 ?q)"
    have "rd8 ?q (14 + i) = rd8 (drop 40 (pkt rx)) (14 + i)" using assms g by (simp add: pkt)
    then show "drop 14 ?q ! i = drop 14 (drop 40 (pkt rx)) ! i" using i by (simp add: rd8_def less_diff_conv split: if_splits)
  qed simp
  moreover have "rdn ?q 0 6 = mac" "rdn ?q 6 6 = GW_MAC" "rd16 ?q 12 = t"
    using assms g by (simp_all add: rdn_wr16_other rdn_wrn_other rdn_wrn_same rd16_wr16_same)
  ultimately show ?thesis using assms
    by (simp add: decap_def adjust_head_shrink_def)
qed

section \<open>IPv6 guests\<close>

text \<open>C36: the overlay carries IPv6 packets unchanged. What a node sends when the egress decision
  is to encapsulate an IPv6 packet of a guest, the node that owns the next hop address delivers to
  the tap bound to that address: the IPv6 packet is the one the guest sent, byte for byte, behind
  a fresh Ethernet header for the receiving guest. The packet must not match a balancer of the
  receiving node.\<close>

theorem overlay_v6_delivery:
  assumes "execute_verdict ctx (Encap e) et = (Inr act, ctx1)" "encap_wf e" "ep_inner_proto e = IPPROTO_IPV6"
    and "underlay_hop (pkt ctx1) (pkt rx)" "54 \<le> length (pkt ctx)"
    and "hget (UNDERLAY s) (ep_nexthop_ipv6 e) = Some u" "uv_tap_ifindex u \<noteq> 0" "length (uv_guest_mac u) = 6"
    and "lb_select_forward_v6 s (pkt rx) 54 (uv_vni u) = None"
  shows "\<exists>out. uplink_rx now rx s = (XDP_REDIRECT (uv_tap_ifindex u), out, s) \<and>
    drop 14 (pkt out) = drop 14 (pkt ctx) \<and> rdn (pkt out) 0 6 = uv_guest_mac u \<and>
    rdn (pkt out) 6 6 = GW_MAC \<and> rd16 (pkt out) 12 = ETH_P_IPV6"
proof -
  note a = arrives [OF assms(1,2,4)]
  have "54 \<le> length (pkt rx)" using a(1) assms(5) by simp
  from decap_frame [OF this assms(8), of ETH_P_IPV6] obtain out where
    out: "decap rx (uv_guest_mac u) ETH_P_IPV6 = Some out" "drop 14 (pkt out) = drop 54 (pkt rx)"
      "rdn (pkt out) 0 6 = uv_guest_mac u" "rdn (pkt out) 6 6 = GW_MAC" "rd16 (pkt out) 12 = ETH_P_IPV6" by blast
  have "v6_uplink_rx rx s = (Inr (XDP_REDIRECT (uv_tap_ifindex u)), out)"
    using a assms(5-9) out(1) by (simp add: v6_uplink_rx_def Let_def)
  then have "uplink_rx now rx s = (XDP_REDIRECT (uv_tap_ifindex u), out, s)"
    using a assms(3,5) by (simp add: uplink_rx_def try_uplink_rx_def Let_def)
  then show ?thesis using out a(2) by simp
qed

section \<open>IPv4 guests\<close>

text \<open>A packet no service of the receiving node is configured for: no balancer, NAT flow, neighbour
  NAT or VIP matches and the firewall admits it.\<close>

definition plain_v4 :: "maps \<Rightarrow> bytes \<Rightarrow> UnderlayValue \<Rightarrow> bool" where
  "plain_v4 s f u \<longleftrightarrow>
     lb_select_forward s f 54 (uv_vni u) = None \<and> lb_select_forward_icmp_error s f 54 (uv_vni u) = None \<and>
     (case ct_key f 54 (uv_vni u) of
        None \<Rightarrow> True
      | Some k \<Rightarrow>
          (case CONNTRACK s (ingress_key s (uv_vni u) k) of None \<Rightarrow> True | Some c \<Rightarrow> ce_flags c AND CT_REWRITE_DST = 0)) \<and>
     ingress_neighbor f (uv_vni u) s = None \<and>
     hget (NAT_IPS s) \<lparr>vk_vni = uv_vni u, vk_ipv4 = rdn f 70 4\<rparr> = None \<and>
     hget (VIPS s) \<lparr>vk_vni = uv_vni u, vk_ipv4 = rdn f 70 4\<rparr> = None \<and>
     \<not> ingress_fw_drops f (uv_vni u) (uv_tap_ifindex u) s"

lemma VIPS_ingress_track [simp]: "VIPS (ingress_track now p vni s) = VIPS s"
  by (simp add: ingress_track_def ct_touch_def ct_ensure_default_def Let_def split: option.splits)

lemma plain_v4_unbalanced:
  assumes "plain_v4 s (pkt rx) u" "uv_tap_ifindex u \<noteq> 0" "74 \<le> length (pkt rx)"
  shows "ingress_unbalanced now rx u od s = ingress_deliver now rx (uv_vni u) u True s"
proof -
  have n: "ingress_nat now (pkt rx) (uv_vni u) s = (None, pkt rx, s)"
    using assms(1) by (auto simp: plain_v4_def ingress_nat_def Let_def split: option.splits)
  have "try_icmp_echo_reply rx (uv_vni u) (uv_tap_ifindex u) os od s = (None, rx)" for os
    using assms by (simp add: try_icmp_echo_reply_def Let_def plain_v4_def)
  then show ?thesis using assms(1) by (simp add: ingress_unbalanced_def n Let_def plain_v4_def)
qed

lemma deliver_plain:
  assumes "plain_v4 s (pkt rx) u" "74 \<le> length (pkt rx)" "length (uv_guest_mac u) = 6"
  shows "\<exists>out s'. ingress_deliver now rx (uv_vni u) u True s = (Inr (XDP_REDIRECT (uv_tap_ifindex u)), out, s') \<and>
    drop 14 (pkt out) = drop 54 (pkt rx) \<and> rdn (pkt out) 0 6 = uv_guest_mac u \<and>
    rdn (pkt out) 6 6 = GW_MAC \<and> rd16 (pkt out) 12 = ETH_P_IP"
proof -
  have "54 \<le> length (pkt rx)" using assms(2) by simp
  from decap_frame [OF this assms(3), of ETH_P_IP] obtain out where
    out: "decap rx (uv_guest_mac u) ETH_P_IP = Some out" "drop 14 (pkt out) = drop 54 (pkt rx)"
      "rdn (pkt out) 0 6 = uv_guest_mac u" "rdn (pkt out) 6 6 = GW_MAC" "rd16 (pkt out) 12 = ETH_P_IP" by blast
  have "drop 16 (drop 14 (pkt out)) = drop 16 (drop 54 (pkt rx))" by (simp only: out(2))
  then have d: "drop 30 (pkt out) = drop 70 (pkt rx)" by simp
  have "length (pkt out) - 14 = length (pkt rx) - 54" using arg_cong [OF out(2), of length] by simp
  then have len: "length (pkt out) + 40 = length (pkt rx)" using assms(2) by linarith
  have "rd8 (pkt out) (30 + i) = rd8 (pkt rx) (70 + i)" if "i < 4" for i
    using arg_cong [OF d, of "\<lambda>l. l ! i"] len assms(2) that by (simp add: rd8_def)
  then have "rdn (pkt out) 30 4 = rdn (pkt rx) 70 4" by (intro nth_equalityI) (simp_all add: rdn_nth)
  then have "hget (VIPS s) \<lparr>vk_vni = uv_vni u, vk_ipv4 = rdn (pkt out) 30 4\<rparr> = None"
    using assms(1) by (simp add: plain_v4_def)
  then have "dnat_ingress (ingress_track now (pkt rx) (uv_vni u) s) (pkt out) 14 (uv_vni u) = pkt out"
    by (simp add: dnat_ingress_def rewrite_raw_def Let_def)
  then show ?thesis using out assms(1) by (simp add: ingress_deliver_def plain_v4_def)
qed

text \<open>C11: the overlay carries IPv4 packets unchanged, likewise, when no service of the receiving
  node (balancer, NAT, neighbour NAT, VIP) is configured for the packet and its firewall admits
  it: the guest's IPv4 packet arrives byte for byte at the tap bound to the next hop address.\<close>

theorem overlay_v4_delivery:
  assumes "execute_verdict ctx (Encap e) et = (Inr act, ctx1)" "encap_wf e" "ep_inner_proto e = IPPROTO_IPIP"
    and "underlay_hop (pkt ctx1) (pkt rx)" "34 \<le> length (pkt ctx)"
    and "hget (UNDERLAY s) (ep_nexthop_ipv6 e) = Some u" "uv_tap_ifindex u \<noteq> 0" "length (uv_guest_mac u) = 6"
    and "plain_v4 s (pkt rx) u"
  shows "\<exists>out s'. uplink_rx now rx s = (XDP_REDIRECT (uv_tap_ifindex u), out, s') \<and>
    drop 14 (pkt out) = drop 14 (pkt ctx) \<and> rdn (pkt out) 0 6 = uv_guest_mac u \<and>
    rdn (pkt out) 6 6 = GW_MAC \<and> rd16 (pkt out) 12 = ETH_P_IP"
proof -
  note a = arrives [OF assms(1,2,4)]
  have len: "74 \<le> length (pkt rx)" using a(1) assms(5) by simp
  have "try_uplink_rx now rx s = ingress_unbalanced now rx u (rdn (pkt rx) 38 16) s"
    using a len assms(3,6,9) by (simp add: try_uplink_rx_def Let_def plain_v4_def)
  then show ?thesis
    using plain_v4_unbalanced [OF assms(9,7) len] deliver_plain [OF assms(9) len assms(8), of now] a(2)
    by (auto simp: uplink_rx_def)
qed

section \<open>Instances\<close>

definition sample_encap :: "u8 \<Rightarrow> EncapParams" where
  "sample_encap proto = \<lparr>ep_gateway_mac = replicate 6 1, ep_uplink_mac = replicate 6 2, ep_uplink_ifindex = 2,
     ep_src_underlay = replicate 16 3, ep_nexthop_ipv6 = replicate 16 4, ep_inner_len = 40, ep_inner_proto = proto\<rparr>"

definition sample_tx :: "bytes \<Rightarrow> xdp_ctx" where
  "sample_tx p = \<lparr>headroom = replicate 40 0, pkt = p, tailroom = [], ingress_ifindex = 7\<rparr>"

text \<open>The receiving node: one interface, no services.\<close>

definition sample_peer :: maps where
  "sample_peer = fresh_maps\<lparr>UNDERLAY := \<lparr>max_entries = 4096, entries =
     [(replicate 16 4, \<lparr>uv_vni = 100, uv_tap_ifindex = 9, uv_guest_mac = replicate 6 5\<rparr>)]\<rparr>\<rparr>"

lemma sample_peer_lookups:
  "hget (UNDERLAY sample_peer) (replicate 16 4) = Some \<lparr>uv_vni = 100, uv_tap_ifindex = 9, uv_guest_mac = replicate 6 5\<rparr>"
  "hget (LB sample_peer) lk = None" "CONNTRACK sample_peer k = None" "hget (NAT_IPS sample_peer) vk = None"
  "hget (VIPS sample_peer) vk = None" "NEIGHBOR_NAT_COUNT sample_peer = [0]" "FW_CONFIG sample_peer = [0]"
  by (simp_all add: sample_peer_def fresh_maps_def hnew_def hget_def)

lemma sample_wrap:
  "54 \<le> length p + 40 \<Longrightarrow>
     \<exists>ctx1. execute_verdict (sample_tx p) (Encap (sample_encap proto)) et = (Inr (XDP_REDIRECT 2), ctx1)"
  by (auto simp: execute_verdict_def sample_tx_def adjust_head_grow_def write_outer_v6_def Let_def sample_encap_def)

lemma underlay_hop_refl: "underlay_hop p p"
  by (simp add: underlay_hop_def)

lemma sample_encap_ok: "encap_wf (sample_encap proto)" "ep_inner_proto (sample_encap proto) = proto"
  "hget (UNDERLAY sample_peer) (ep_nexthop_ipv6 (sample_encap proto)) =
     Some \<lparr>uv_vni = 100, uv_tap_ifindex = 9, uv_guest_mac = replicate 6 5\<rparr>"
  using sample_peer_lookups(1) by (simp_all add: encap_wf_def sample_encap_def)

lemma sample_peer_lb: "lb_select_forward_v6 sample_peer f off vni = None" "lb_select_forward sample_peer f off vni = None"
  "lb_select_forward_icmp_error sample_peer f off vni = None"
  by (simp_all add: lb_select_forward_v6_def lb_select_forward_def lb_select_forward_icmp_error_def maglev_select_def
        sample_peer_lookups Let_def split: option.splits)

lemma sample_peer_plain: "plain_v4 sample_peer f u"
  by (simp add: plain_v4_def sample_peer_lb sample_peer_lookups ingress_neighbor_def ingress_fw_drops_def
        neighbor_nat_lookup_def neighbor_nat_scan.simps aget_def fw_enforcing_def Let_def split: option.splits)

theorem overlay_v6_delivery_witness:
  "\<exists>ctx1 out. execute_verdict (sample_tx (replicate 54 7)) (Encap (sample_encap IPPROTO_IPV6)) None = (Inr (XDP_REDIRECT 2), ctx1) \<and>
     uplink_rx 0 ctx1 sample_peer = (XDP_REDIRECT 9, out, sample_peer) \<and> drop 14 (pkt out) = replicate 40 7"
proof -
  have "54 \<le> length (replicate 54 (7 :: u8)) + 40" by simp
  from sample_wrap [OF this, of IPPROTO_IPV6 None] obtain ctx1 where
    c: "execute_verdict (sample_tx (replicate 54 7)) (Encap (sample_encap IPPROTO_IPV6)) None = (Inr (XDP_REDIRECT 2), ctx1)"
    by blast
  from overlay_v6_delivery [OF c sample_encap_ok(1,2) underlay_hop_refl _ sample_encap_ok(3), of 0]
  show ?thesis using c by (auto simp: sample_peer_lb sample_tx_def)
qed

theorem overlay_v4_delivery_witness:
  "\<exists>ctx1 out s'. execute_verdict (sample_tx sample_syn) (Encap (sample_encap IPPROTO_IPIP)) None = (Inr (XDP_REDIRECT 2), ctx1) \<and>
     uplink_rx 0 ctx1 sample_peer = (XDP_REDIRECT 9, out, s') \<and> drop 14 (pkt out) = drop 14 sample_syn"
proof -
  have "54 \<le> length sample_syn + 40" by (simp add: sample_syn_def)
  from sample_wrap [OF this, of IPPROTO_IPIP None] obtain ctx1 where
    c: "execute_verdict (sample_tx sample_syn) (Encap (sample_encap IPPROTO_IPIP)) None = (Inr (XDP_REDIRECT 2), ctx1)"
    by blast
  have len: "34 \<le> length (pkt (sample_tx sample_syn))" by (simp add: sample_tx_def sample_syn_def)
  from overlay_v4_delivery [OF c sample_encap_ok(1,2) underlay_hop_refl len sample_encap_ok(3)
      _ _ sample_peer_plain, of 0]
  show ?thesis using c by (auto simp: sample_tx_def)
qed

end
