(* ===== verification/Control.thy ===== *)
theory Control
  imports Types
begin

text \<open>
  The control plane of \<^verbatim>\<open>xdp-dp/src/control.rs\<close>: its state and the operations on interfaces,
  routes and DHCP data. \<open>tabs\<close> are the kernel tables of the loaded object (the typed handles of
  \<^verbatim>\<open>xdp-dp/src/maps.rs\<close>); the rest is the in-memory shadow state, each \<^verbatim>\<open>HashMap\<close> an
  association list (its iteration order is not specified, and nothing here depends on it). One
  mutex serialises the operations, so each is a function from state to result and state. What
  \<^verbatim>\<open>/sys/class/net\<close> and the attach calls of the kernel answer is the parameter \<open>env\<close>
  (an error there is a text). Each constructor of \<open>ctl_error\<close> stands for one error message.
\<close>

section \<open>State\<close>

datatype ctl_error =
    DeviceError string | AttachError string | InterfaceExists | IpInUse | Ip6InUse | UnknownInterface | NoUnderlay
  | RouteExists | PrefixExists | Prefix6Exists | PrefixInUse | LbExists | UnknownLb | LbTargetExists
  | NoVm | VipExists | NatExists | NatRangeOverlap | VnfInsert | TooManyRules | FwRuleExists
  | LbPrefixExists | LbPrefix6Exists | NeighborNatExists | NeighborNatFull
  | MaglevError | MapError map_error

record netdev_env =
  dev_exists :: "string \<Rightarrow> bool"
  dev_ifindex :: "string \<Rightarrow> string + u32"
  dev_mac :: "string \<Rightarrow> string + bytes"
  dev_attach :: "string \<Rightarrow> bool"

datatype GuestLink = XdpLink string | TcLink string

record IfaceParams =
  ip_vni :: u32
  ip_ipv4 :: bytes
  ip_ipv6 :: bytes
  ip_gateway_ipv4 :: bytes
  ip_gateway_ipv6 :: bytes
  ip_underlay_ipv6 :: bytes
  ip_total_mbps :: u64
  ip_public_mbps :: u64

record IfaceRecord =
  ir_vni :: u32
  ir_ipv4 :: bytes
  ir_ipv6 :: bytes
  ir_device :: string
  ir_underlay :: bytes

datatype LbIp = Ipv4 bytes | Ipv6 bytes

record LbEntry =
  le_vni :: u32
  le_ip :: LbIp
  le_lb_underlay :: bytes
  le_ports :: "(u16 \<times> u8) list"
  le_table_id :: u32
  le_backends :: "bytes list"

record PrefixRecord =
  pr_ip :: bytes
  pr_len :: u32
  pr_underlay :: bytes
  pr_is_ipv6 :: bool

type_synonym route_shadow = "u32 \<times> bytes \<times> u32 \<times> u32 \<times> bytes"

record ctl =
  tabs :: maps
  neigh_nats :: "NeighborNatEntry list"
  lbs :: "(bytes \<times> LbEntry) list"
  next_table_id :: u32
  by_id :: "(bytes \<times> IfaceRecord) list"
  by_ifindex :: "(bytes \<times> u32) list"
  iface_underlay :: "(bytes \<times> bytes) list"
  prefixes :: "(bytes \<times> PrefixRecord list) list"
  fw :: "(u32 \<times> (bytes \<times> FwRule) list) list"
  lb_prefixes :: "(bytes \<times> PrefixRecord list) list"
  links :: "(bytes \<times> GuestLink) list"
  guest_tc :: bool
  routes_shadow :: "route_shadow list"
  routes6_shadow :: "route_shadow list"
  learned_macs :: "(bytes \<times> bytes) list"

text \<open>\<^verbatim>\<open>bring_up\<close> after the programs are loaded and attached: \<open>LOCAL\<close> is set, everything else empty.\<close>

definition bring_up :: "bool \<Rightarrow> u32 \<Rightarrow> bytes \<Rightarrow> bytes \<Rightarrow> bytes \<Rightarrow> ctl_error + ctl" where
  "bring_up tc uplink_ifindex uplink_mac gateway_mac underlay_ipv6 =
     (case aset (LOCAL fresh_maps) 0
             \<lparr>lo_uplink_ifindex = uplink_ifindex, lo_uplink_mac = uplink_mac,
              lo_gateway_mac = gateway_mac, lo_underlay_ipv6 = underlay_ipv6\<rparr> of
        Inl e \<Rightarrow> Inl (MapError e)
      | Inr l \<Rightarrow>
          Inr \<lparr>tabs = fresh_maps\<lparr>LOCAL := l\<rparr>, neigh_nats = [], lbs = [], next_table_id = 1,
               by_id = [], by_ifindex = [], iface_underlay = [], prefixes = [], fw = [],
               lb_prefixes = [], links = [], guest_tc = tc, routes_shadow = [], routes6_shadow = [],
               learned_macs = []\<rparr>)"

text \<open>\<^verbatim>\<open>map.insert(..)?; rest\<close>: an error of the table ends the operation where it stands.\<close>

definition upd :: "map_error + 'm \<Rightarrow> ('m \<Rightarrow> ctl \<Rightarrow> ctl) \<Rightarrow> (ctl \<Rightarrow> (ctl_error + 'a) \<times> ctl) \<Rightarrow> ctl \<Rightarrow> (ctl_error + 'a) \<times> ctl" where
  "upd r f k g = (case r of Inl e \<Rightarrow> (Inl (MapError e), g) | Inr m \<Rightarrow> k (f m g))"

section \<open>Routes in the tries\<close>

definition route_key :: "u32 \<Rightarrow> bytes \<Rightarrow> u32 \<Rightarrow> lpm_key" where
  "route_key vni ipv4 prefix_len = (32 + min (unat prefix_len) 32, u32_be vni @ ipv4)"

definition route_key6 :: "u32 \<Rightarrow> bytes \<Rightarrow> u32 \<Rightarrow> lpm_key" where
  "route_key6 vni ipv6 prefix_len = (32 + min (unat prefix_len) 128, u32_be vni @ ipv6)"

definition set_routes :: "RouteValue lpm \<Rightarrow> ctl \<Rightarrow> ctl" where
  "set_routes t g = g\<lparr>tabs := (tabs g)\<lparr>ROUTES := t\<rparr>\<rparr>"

definition set_routes6 :: "RouteValue lpm \<Rightarrow> ctl \<Rightarrow> ctl" where
  "set_routes6 t g = g\<lparr>tabs := (tabs g)\<lparr>ROUTES6 := t\<rparr>\<rparr>"

definition routes_remove :: "u32 \<Rightarrow> bytes \<Rightarrow> u32 \<Rightarrow> ctl \<Rightarrow> ctl" where
  "routes_remove vni ipv4 prefix_len g =
     set_routes (lpm_del (ROUTES (tabs g)) (route_key vni ipv4 prefix_len)) g"

definition routes6_remove :: "u32 \<Rightarrow> bytes \<Rightarrow> u32 \<Rightarrow> ctl \<Rightarrow> ctl" where
  "routes6_remove vni ipv6 prefix_len g =
     set_routes6 (lpm_del (ROUTES6 (tabs g)) (route_key6 vni ipv6 prefix_len)) g"

section \<open>Device names\<close>

text \<open>\<^verbatim>\<open>str::parse::<u32>\<close>: an optional plus sign, then decimal digits below \<open>2 ^ 32\<close>; and the
  decimal \<^verbatim>\<open>Display\<close> of an integer.\<close>

definition digit_of :: "char \<Rightarrow> nat option" where
  "digit_of c = (let n = of_char c :: nat in if 48 \<le> n \<and> n \<le> 57 then Some (n - 48) else None)"

fun read_digits :: "nat \<Rightarrow> string \<Rightarrow> nat option" where
  "read_digits acc [] = Some acc"
| "read_digits acc (c # cs) =
     (case digit_of c of None \<Rightarrow> None | Some d \<Rightarrow> read_digits (acc * 10 + d) cs)"

definition parse_u32 :: "string \<Rightarrow> nat option" where
  "parse_u32 s =
     (let ds = (case s of c # cs \<Rightarrow> if c = CHR ''+'' then cs else s | [] \<Rightarrow> s)
      in if ds = [] then None
         else case read_digits 0 ds of
                Some n \<Rightarrow> if n < 2 ^ 32 then Some n else None
              | None \<Rightarrow> None)"

fun show_nat :: "nat \<Rightarrow> string" where
  "show_nat n = (if n < 10 then [char_of (48 + n)] else show_nat (n div 10) @ [char_of (48 + n mod 10)])"

declare show_nat.simps [simp del]

definition strip_prefix :: "string \<Rightarrow> string \<Rightarrow> string option" where
  "strip_prefix pre s = (if take (length pre) s = pre then Some (drop (length pre) s) else None)"

definition resolve_iface :: "netdev_env \<Rightarrow> string \<Rightarrow> string" where
  "resolve_iface env device =
     (if dev_exists env device then device
      else case Option.bind (strip_prefix ''net_tap'' device) parse_u32 of
             Some n \<Rightarrow> if n \<ge> 2 then ''dtapvf_'' @ show_nat (n - 2) else device
           | None \<Rightarrow> device)"

section \<open>DHCP data and metering\<close>

definition set_dhcp_config :: "u16 \<Rightarrow> bytes list \<Rightarrow> bytes list \<Rightarrow> ctl \<Rightarrow> (ctl_error + unit) \<times> ctl" where
  "set_dhcp_config mtu dns4 dns6 g =
     (let fill = (\<lambda>xs z. take DHCP_MAX_DNS xs @ replicate (DHCP_MAX_DNS - length xs) z);
          cfg = \<lparr>dc_mtu = mtu, dc_dns4_len = of_nat (min (length dns4) DHCP_MAX_DNS),
                 dc_dns6_len = of_nat (min (length dns6) DHCP_MAX_DNS),
                 dc_dns4 = fill dns4 (replicate 4 0), dc_dns6 = fill dns6 (replicate 16 0)\<rparr>
      in upd (aset (DHCP_CONFIG (tabs g)) 0 cfg) (\<lambda>m g. g\<lparr>tabs := (tabs g)\<lparr>DHCP_CONFIG := m\<rparr>\<rparr>)
           (\<lambda>g. (Inr (), g)) g)"

definition set_dhcp_meta :: "bytes \<Rightarrow> bytes \<Rightarrow> bytes \<Rightarrow> bytes \<Rightarrow> ctl \<Rightarrow> (ctl_error + unit) \<times> ctl" where
  "set_dhcp_meta interface_id hostname pxe_host boot_filename g =
     (case map_of (by_ifindex g) interface_id of
        None \<Rightarrow> (Inl UnknownInterface, g)
      | Some ifindex \<Rightarrow>
          let fill = (\<lambda>n xs. take n xs @ replicate (n - length xs) 0);
              m = \<lparr>dm_hostname = fill 64 hostname, dm_hostname_len = of_nat (min (length hostname) 64),
                   dm_boot_filename = fill 64 boot_filename,
                   dm_boot_filename_len = of_nat (min (length boot_filename) 64),
                   dm_pxe_host = fill 46 pxe_host, dm_pxe_host_len = of_nat (min (length pxe_host) 46)\<rparr>
          in upd (hinsert (DHCP_META (tabs g)) ifindex m) (\<lambda>m g. g\<lparr>tabs := (tabs g)\<lparr>DHCP_META := m\<rparr>\<rparr>)
               (\<lambda>g. (Inr (), g)) g)"

definition saturating_mul :: "u64 \<Rightarrow> u64 \<Rightarrow> u64" where
  "saturating_mul a b = (if unat a * unat b < 2 ^ 64 then a * b else - 1)"

definition meter_state :: "u64 \<Rightarrow> u64 \<Rightarrow> MeterState" where
  "meter_state total_mbps public_mbps =
     (let tb = saturating_mul total_mbps 1000000 div 8;
          pb = saturating_mul public_mbps 1000000 div 8
      in \<lparr>ms_total_bps = tb, ms_total_burst = max (tb div 8) 2000, ms_total_tokens = tb div 8,
          ms_total_last_ns = 0, ms_public_bps = pb, ms_public_burst = max (pb div 8) 2000,
          ms_public_tokens = pb div 8, ms_public_last_ns = 0\<rparr>)"

section \<open>Interfaces\<close>

definition program_iface_maps :: "u32 \<Rightarrow> bytes \<Rightarrow> IfaceParams \<Rightarrow> ctl \<Rightarrow> (ctl_error + unit) \<times> ctl" where
  "program_iface_maps tap mac ps g =
     (let vni = ip_vni ps; ipv4 = ip_ipv4 ps; ipv6 = ip_ipv6 ps; ul = ip_underlay_ipv6 ps;
          effective_mac = (case map_of (learned_macs g) ul of Some m \<Rightarrow> m | None \<Rightarrow> mac);
          self_route = \<lparr>rv_nexthop_vni = vni, rv_nexthop_ipv6 = ul, rv_is_external = 0\<rparr>
      in upd (hinsert (PORT_META (tabs g)) tap
                \<lparr>pm_vni = vni, pm_guest_ipv4 = ipv4, pm_gateway_ipv4 = ip_gateway_ipv4 ps,
                 pm_guest_mac = effective_mac, pm_underlay_ipv6 = ul,
                 pm_gateway_ipv6 = ip_gateway_ipv6 ps, pm_guest_ipv6 = ipv6\<rparr>)
           (\<lambda>m g. g\<lparr>tabs := (tabs g)\<lparr>PORT_META := m\<rparr>\<rparr>) (\<lambda>g.
         upd (hinsert (INTERFACES (tabs g)) \<lparr>ik_vni = vni, ik_ipv4 = ipv4\<rparr>
                \<lparr>iv_tap_ifindex = tap, iv_is_local = 1, iv_underlay_ipv6 = ul, iv_guest_mac = effective_mac\<rparr>)
           (\<lambda>m g. g\<lparr>tabs := (tabs g)\<lparr>INTERFACES := m\<rparr>\<rparr>) (\<lambda>g.
         upd (hinsert (UNDERLAY (tabs g)) ul
                \<lparr>uv_vni = vni, uv_tap_ifindex = tap, uv_guest_mac = effective_mac\<rparr>)
           (\<lambda>m g. g\<lparr>tabs := (tabs g)\<lparr>UNDERLAY := m\<rparr>\<rparr>) (\<lambda>g.
         upd (lpm_insert (ROUTES (tabs g)) (route_key vni ipv4 32) self_route) set_routes (\<lambda>g.
         let meter = (\<lambda>g. if ip_total_mbps ps \<noteq> 0 \<or> ip_public_mbps ps \<noteq> 0
                          then upd (hinsert (METER (tabs g)) tap (meter_state (ip_total_mbps ps) (ip_public_mbps ps)))
                                 (\<lambda>m g. g\<lparr>tabs := (tabs g)\<lparr>METER := m\<rparr>\<rparr>) (\<lambda>g. (Inr (), g)) g
                          else (Inr (), g))
         in if ipv6 \<noteq> replicate 16 0
            then upd (lpm_insert (ROUTES6 (tabs g)) (route_key6 vni ipv6 128) self_route) set_routes6 meter g
            else meter g) g) g) g) g)"

definition create_interface :: "netdev_env \<Rightarrow> bytes \<Rightarrow> string \<Rightarrow> IfaceParams \<Rightarrow> ctl \<Rightarrow> (ctl_error + unit) \<times> ctl" where
  "create_interface env interface_id device ps g =
     (let device = resolve_iface env device
      in case dev_ifindex env device of
           Inl err \<Rightarrow> (Inl (DeviceError (''read ifindex for '' @ device @ '': '' @ err)), g)
         | Inr tap \<Rightarrow>
             (case dev_mac env device of
                Inl err \<Rightarrow> (Inl (DeviceError err), g)
              | Inr mac \<Rightarrow>
                  if map_of (by_id g) interface_id \<noteq> None then (Inl InterfaceExists, g)
                  else if list_ex (\<lambda>(_, r). ir_vni r = ip_vni ps \<and> ir_ipv4 r = ip_ipv4 ps) (by_id g)
                  then (Inl IpInUse, g)
                  else if ip_ipv6 ps \<noteq> replicate 16 0 \<and>
                          list_ex (\<lambda>(_, r). ir_vni r = ip_vni ps \<and> ir_ipv6 r = ip_ipv6 ps) (by_id g)
                  then (Inl Ip6InUse, g)
                  else if \<not> dev_attach env device
                  then (Inl (AttachError ((if guest_tc g then ''attach tc_guest_tx to '' else ''load+attach guest_tx to '') @ device)), g)
                  else
                    let link = (if guest_tc g then TcLink device else XdpLink device);
                        g = g\<lparr>links := AList.update interface_id link (links g)\<rparr>;
                        g = g\<lparr>by_id := AList.update interface_id
                                \<lparr>ir_vni = ip_vni ps, ir_ipv4 = ip_ipv4 ps, ir_ipv6 = ip_ipv6 ps,
                                 ir_device = device, ir_underlay = ip_underlay_ipv6 ps\<rparr> (by_id g)\<rparr>;
                        g = g\<lparr>by_ifindex := AList.update interface_id tap (by_ifindex g)\<rparr>;
                        g = g\<lparr>iface_underlay := AList.update interface_id (ip_underlay_ipv6 ps) (iface_underlay g)\<rparr>
                    in program_iface_maps tap mac ps g))"

text \<open>The purge of a VNI without interfaces and balancers: neighbour NATs, the VIP pair and NAT
  of the removed guest, and every route of the shadow lists.\<close>

definition reprogram_ignore :: "NeighborNatEntry list \<Rightarrow> ctl \<Rightarrow> ctl" where
  "reprogram_ignore es g =
     (let nb = foldl (\<lambda>m (i, e). hput m (of_nat i) e) (NEIGHBOR_NAT (tabs g)) (enumerate 0 es);
          c = (case aset (NEIGHBOR_NAT_COUNT (tabs g)) 0 (of_nat (length es)) of
                 Inl _ \<Rightarrow> NEIGHBOR_NAT_COUNT (tabs g) | Inr c \<Rightarrow> c)
      in g\<lparr>tabs := (tabs g)\<lparr>NEIGHBOR_NAT := nb, NEIGHBOR_NAT_COUNT := c\<rparr>\<rparr>)"

definition purge_neighbors :: "u32 \<Rightarrow> ctl \<Rightarrow> ctl" where
  "purge_neighbors vni g =
     (let rest = filter (\<lambda>e. nn_vni e \<noteq> vni) (neigh_nats g);
          changed = (length rest \<noteq> length (neigh_nats g))
      in if changed then reprogram_ignore rest (g\<lparr>neigh_nats := rest\<rparr>) else g\<lparr>neigh_nats := rest\<rparr>)"

definition purge_nat :: "u32 \<Rightarrow> bytes \<Rightarrow> ctl \<Rightarrow> ctl" where
  "purge_nat vni ipv4 g =
     (let vips = VIPS (tabs g);
          vips = (case hget vips \<lparr>vk_vni = vni, vk_ipv4 = ipv4\<rparr> of
                    Some vip \<Rightarrow> hdel vips \<lparr>vk_vni = vni, vk_ipv4 = vip\<rparr> | None \<Rightarrow> vips);
          vips = hdel vips \<lparr>vk_vni = vni, vk_ipv4 = ipv4\<rparr>
      in g\<lparr>tabs := (tabs g)\<lparr>VIPS := vips, NAT := hdel (NAT (tabs g)) \<lparr>nk_vni = vni, nk_ipv4 = ipv4\<rparr>\<rparr>\<rparr>)"

definition purge_routes :: "u32 \<Rightarrow> ctl \<Rightarrow> ctl" where
  "purge_routes vni g =
     (let doomed = filter (\<lambda>(v, _). v = vni) (routes_shadow g);
          g = foldl (\<lambda>g (_, p, l, _). routes_remove vni p l g) g doomed
      in g\<lparr>routes_shadow := filter (\<lambda>(v, p, l, _). \<not> list_ex (\<lambda>(_, rp, rl, _). v = vni \<and> rp = p \<and> rl = l) doomed)
             (routes_shadow g)\<rparr>)"

definition purge_routes6 :: "u32 \<Rightarrow> ctl \<Rightarrow> ctl" where
  "purge_routes6 vni g =
     (let doomed = filter (\<lambda>(v, _). v = vni) (routes6_shadow g);
          g = foldl (\<lambda>g (_, p, l, _). routes6_remove vni p l g) g doomed
      in g\<lparr>routes6_shadow := filter (\<lambda>(v, p, l, _). \<not> list_ex (\<lambda>(_, rp, rl, _). v = vni \<and> rp = p \<and> rl = l) doomed)
             (routes6_shadow g)\<rparr>)"

definition purge_vni :: "u32 \<Rightarrow> bytes \<Rightarrow> ctl \<Rightarrow> ctl" where
  "purge_vni vni ipv4 g = purge_routes6 vni (purge_routes vni (purge_nat vni ipv4 (purge_neighbors vni g)))"

text \<open>Taking the interface itself out of the records and tables.\<close>

definition drop_iface :: "bytes \<Rightarrow> IfaceRecord \<Rightarrow> ctl \<Rightarrow> ctl" where
  "drop_iface interface_id rec g =
     (let vni = ir_vni rec;
          tap = (case map_of (by_ifindex g) interface_id of Some t \<Rightarrow> t | None \<Rightarrow> 0);
          g = g\<lparr>by_id := AList.delete interface_id (by_id g),
                by_ifindex := AList.delete interface_id (by_ifindex g),
                iface_underlay := AList.delete interface_id (iface_underlay g),
                prefixes := AList.delete interface_id (prefixes g),
                links := AList.delete interface_id (links g)\<rparr>;
          g = g\<lparr>tabs := (tabs g)\<lparr>PORT_META := hdel (PORT_META (tabs g)) tap,
                  INTERFACES := hdel (INTERFACES (tabs g)) \<lparr>ik_vni = vni, ik_ipv4 = ir_ipv4 rec\<rparr>\<rparr>\<rparr>;
          g = (case hget (UNDERLAY (tabs g)) (ir_underlay rec) of
                 Some u \<Rightarrow> g\<lparr>learned_macs := AList.update (ir_underlay rec) (uv_guest_mac u) (learned_macs g)\<rparr>
               | None \<Rightarrow> g);
          g = g\<lparr>tabs := (tabs g)\<lparr>UNDERLAY := hdel (UNDERLAY (tabs g)) (ir_underlay rec),
                  METER := hdel (METER (tabs g)) tap, DHCP_META := hdel (DHCP_META (tabs g)) tap\<rparr>\<rparr>;
          g = routes_remove vni (ir_ipv4 rec) 32 g;
          g = (if ir_ipv6 rec \<noteq> replicate 16 0 then routes6_remove vni (ir_ipv6 rec) 128 g else g)
      in g\<lparr>fw := AList.delete tap (fw g)\<rparr>)"

definition detach_interface :: "bytes \<Rightarrow> ctl \<Rightarrow> (ctl_error + bool) \<times> ctl" where
  "detach_interface interface_id g =
     (case map_of (by_id g) interface_id of
        None \<Rightarrow> (Inr False, g)
      | Some rec \<Rightarrow>
          let vni = ir_vni rec;
              g = drop_iface interface_id rec g;
              in_use = (list_ex (\<lambda>(_, r). ir_vni r = vni) (by_id g) \<or> list_ex (\<lambda>(_, lb). le_vni lb = vni) (lbs g))
          in (Inr True, if in_use then g else purge_vni vni (ir_ipv4 rec) g))"

definition get_interface :: "bytes \<Rightarrow> ctl \<Rightarrow> (u32 \<times> bytes \<times> bytes \<times> bytes \<times> string) option" where
  "get_interface interface_id g =
     map_option (\<lambda>r. (ir_vni r, ir_ipv4 r, ir_ipv6 r, ir_underlay r, ir_device r)) (map_of (by_id g) interface_id)"

definition list_interfaces :: "ctl \<Rightarrow> (bytes \<times> u32 \<times> bytes \<times> bytes \<times> bytes \<times> string) list" where
  "list_interfaces g =
     map (\<lambda>(i, r). (i, ir_vni r, ir_ipv4 r, ir_ipv6 r, ir_underlay r, ir_device r)) (by_id g)"

section \<open>Routes\<close>

definition same_route :: "u32 \<Rightarrow> bytes \<Rightarrow> u32 \<Rightarrow> route_shadow \<Rightarrow> bool" where
  "same_route vni ip prefix_len = (\<lambda>(v, p, l, _). v = vni \<and> p = ip \<and> l = prefix_len)"

definition create_route :: "u32 \<Rightarrow> bytes \<Rightarrow> u32 \<Rightarrow> bytes \<Rightarrow> u32 \<Rightarrow> bool \<Rightarrow> ctl \<Rightarrow> (ctl_error + unit) \<times> ctl" where
  "create_route vni ipv4 prefix_len nexthop_ipv6 nexthop_vni is_external g =
     (if list_ex (same_route vni ipv4 prefix_len) (routes_shadow g) then (Inl RouteExists, g)
      else upd (lpm_insert (ROUTES (tabs g)) (route_key vni ipv4 prefix_len)
                 \<lparr>rv_nexthop_vni = nexthop_vni, rv_nexthop_ipv6 = nexthop_ipv6,
                  rv_is_external = (if is_external then 1 else 0)\<rparr>) set_routes
             (\<lambda>g. (Inr (), g\<lparr>routes_shadow := routes_shadow g @ [(vni, ipv4, prefix_len, nexthop_vni, nexthop_ipv6)]\<rparr>)) g)"

definition delete_route :: "u32 \<Rightarrow> bytes \<Rightarrow> u32 \<Rightarrow> ctl \<Rightarrow> (ctl_error + bool) \<times> ctl" where
  "delete_route vni ipv4 prefix_len g =
     (let rest = filter (\<lambda>r. \<not> same_route vni ipv4 prefix_len r) (routes_shadow g)
      in if length rest = length (routes_shadow g) then (Inr False, g\<lparr>routes_shadow := rest\<rparr>)
         else (Inr True, routes_remove vni ipv4 prefix_len (g\<lparr>routes_shadow := rest\<rparr>)))"

definition create_route6 :: "u32 \<Rightarrow> bytes \<Rightarrow> u32 \<Rightarrow> bytes \<Rightarrow> u32 \<Rightarrow> bool \<Rightarrow> ctl \<Rightarrow> (ctl_error + unit) \<times> ctl" where
  "create_route6 vni ipv6 prefix_len nexthop_ipv6 nexthop_vni is_external g =
     (if list_ex (same_route vni ipv6 prefix_len) (routes6_shadow g) then (Inl RouteExists, g)
      else upd (lpm_insert (ROUTES6 (tabs g)) (route_key6 vni ipv6 prefix_len)
                 \<lparr>rv_nexthop_vni = nexthop_vni, rv_nexthop_ipv6 = nexthop_ipv6,
                  rv_is_external = (if is_external then 1 else 0)\<rparr>) set_routes6
             (\<lambda>g. (Inr (), g\<lparr>routes6_shadow := routes6_shadow g @ [(vni, ipv6, prefix_len, nexthop_vni, nexthop_ipv6)]\<rparr>)) g)"

definition delete_route6 :: "u32 \<Rightarrow> bytes \<Rightarrow> u32 \<Rightarrow> ctl \<Rightarrow> (ctl_error + bool) \<times> ctl" where
  "delete_route6 vni ipv6 prefix_len g =
     (let rest = filter (\<lambda>r. \<not> same_route vni ipv6 prefix_len r) (routes6_shadow g)
      in if length rest = length (routes6_shadow g) then (Inr False, g\<lparr>routes6_shadow := rest\<rparr>)
         else (Inr True, routes6_remove vni ipv6 prefix_len (g\<lparr>routes6_shadow := rest\<rparr>)))"

definition list_routes_all :: "u32 \<Rightarrow> ctl \<Rightarrow> (u32 \<times> bytes \<times> u32 \<times> u32 \<times> bytes \<times> bool) list" where
  "list_routes_all vni g =
     map (\<lambda>(rv, p, l, nhvni, n). (rv, p @ replicate 12 0, l, nhvni, n, False))
       (filter (\<lambda>(rv, _). vni = 0 \<or> rv = vni) (routes_shadow g)) @
     map (\<lambda>(rv, p, l, nhvni, n). (rv, p, l, nhvni, n, True))
       (filter (\<lambda>(rv, _). vni = 0 \<or> rv = vni) (routes6_shadow g))"

definition vni_in_use :: "u32 \<Rightarrow> ctl \<Rightarrow> bool" where
  "vni_in_use vni g =
     (list_ex (\<lambda>(_, r). ir_vni r = vni) (by_id g) \<or> list_ex (\<lambda>(v, _). v = vni) (routes_shadow g) \<or>
      list_ex (\<lambda>(v, _). v = vni) (routes6_shadow g) \<or> list_ex (\<lambda>(_, lb). le_vni lb = vni) (lbs g) \<or>
      list_ex (\<lambda>n. nn_vni n = vni) (neigh_nats g))"

definition reset_vni :: "u32 \<Rightarrow> ctl \<Rightarrow> (ctl_error + unit) \<times> ctl" where
  "reset_vni vni g =
     (let g = foldl (\<lambda>g (_, p, l, _). snd (delete_route vni p l g)) g
                (filter (\<lambda>(v, _). v = vni) (routes_shadow g));
          g = foldl (\<lambda>g (_, p, l, _). snd (delete_route6 vni p l g)) g
                (filter (\<lambda>(v, _). v = vni) (routes6_shadow g))
      in (Inr (), g))"

end
