(* ===== verification/Maglev.thy ===== *)
theory Maglev
  imports Prelude
begin

text \<open>
  The Maglev lookup table builder of \<^verbatim>\<open>xdp-dp/src/maglev.rs\<close>. The inner loop that walks a
  backend's permutation has no bound of its own in the code, so it is a partial function here,
  and so is the outer loop; they are shown to return for every list of backends. The reason is
  that the table size is prime: each permutation visits every slot, and a backend never passes a
  free slot without taking it.
\<close>

abbreviation (input) TABLE_SIZE :: nat where "TABLE_SIZE \<equiv> 1021"
abbreviation (input) FREE :: u32 where "FREE \<equiv> 0xffffffff"

section \<open>Definitions\<close>

definition fnv1a :: "bytes \<Rightarrow> u64 \<Rightarrow> u64" where
  "fnv1a bs seed = foldl (\<lambda>h b. (h XOR ucast b) * 0x100000001b3) (0xcbf29ce484222325 XOR seed) bs"

definition mg_offset :: "bytes \<Rightarrow> nat" where
  "mg_offset b = unat (fnv1a b 1 mod 1021)"

definition mg_skip :: "bytes \<Rightarrow> nat" where
  "mg_skip b = unat (fnv1a b 2 mod 1020 + 1)"

definition mg_slot :: "bytes \<Rightarrow> nat \<Rightarrow> nat" where
  "mg_slot b j = (mg_offset b + j * mg_skip b) mod TABLE_SIZE"

text \<open>The loop variables \<^verbatim>\<open>next\<close>, \<^verbatim>\<open>table\<close> and \<^verbatim>\<open>filled\<close>.\<close>

record maglev_state =
  mg_next :: "nat list"
  mg_table :: "u32 list"
  mg_filled :: nat

partial_function (option) mg_probe :: "u32 list \<Rightarrow> bytes \<Rightarrow> nat \<Rightarrow> nat option" where
  "mg_probe table b j = (if table ! mg_slot b j \<noteq> FREE then mg_probe table b (j + 1) else Some j)"

text \<open>The body of the \<^verbatim>\<open>for\<close> loop for backend \<open>i\<close>.\<close>

definition mg_turn :: "bytes list \<Rightarrow> nat \<Rightarrow> maglev_state \<Rightarrow> maglev_state option" where
  "mg_turn backends i st =
     (case mg_probe (mg_table st) (backends ! i) (mg_next st ! i) of
        None \<Rightarrow> None
      | Some j \<Rightarrow>
          Some \<lparr>mg_next = (mg_next st)[i := j + 1],
                mg_table = (mg_table st)[mg_slot (backends ! i) j := of_nat i],
                mg_filled = mg_filled st + 1\<rparr>)"

text \<open>One pass \<^verbatim>\<open>for i in 0..n\<close>, with the \<^verbatim>\<open>break\<close> on a full table.\<close>

fun mg_round :: "bytes list \<Rightarrow> nat list \<Rightarrow> maglev_state \<Rightarrow> maglev_state option" where
  "mg_round backends [] st = Some st"
| "mg_round backends (i # is) st =
     (case mg_turn backends i st of
        None \<Rightarrow> None
      | Some st' \<Rightarrow> if mg_filled st' = TABLE_SIZE then Some st' else mg_round backends is st')"

partial_function (option) mg_fill :: "bytes list \<Rightarrow> maglev_state \<Rightarrow> maglev_state option" where
  "mg_fill backends st =
     (if mg_filled st < TABLE_SIZE
      then (case mg_round backends [0..<length backends] st of
              None \<Rightarrow> None
            | Some st' \<Rightarrow> mg_fill backends st')
      else Some st)"

definition maglev_init :: "bytes list \<Rightarrow> maglev_state" where
  "maglev_init backends =
     \<lparr>mg_next = replicate (length backends) 0, mg_table = replicate TABLE_SIZE FREE, mg_filled = 0\<rparr>"

definition maglev_build :: "bytes list \<Rightarrow> u32 list option" where
  "maglev_build backends =
     (if backends = [] then Some [] else map_option mg_table (mg_fill backends (maglev_init backends)))"

section \<open>The permutations\<close>

lemma dvd_1021: "d dvd (1021 :: nat) \<Longrightarrow> d = 1 \<or> d = 1021"
proof -
  assume "d dvd 1021"
  then obtain e where e: "1021 = d * e" by (rule dvdE)
  have none: "list_all (\<lambda>k. \<not> k dvd (1021 :: nat)) [2..<32]" by (simp add: upt_rec)
  have small: "k < 32 \<Longrightarrow> 1021 = k * l \<Longrightarrow> k = 1" for k l :: nat
  proof (rule ccontr)
    assume k: "k < 32" "1021 = k * l" "k \<noteq> 1"
    then have "k dvd 1021" "k \<noteq> 0" by (metis dvd_triv_left, metis mult_0 zero_neq_numeral)
    then have "2 \<le> k \<and> k < 32" using k by linarith
    then have "k \<in> set [2..<32]" unfolding set_upt atLeastLessThan_iff .
    then have "\<not> k dvd 1021" using none unfolding list_all_iff by (rule bspec [rotated])
    with \<open>k dvd 1021\<close> show False by contradiction
  qed
  show ?thesis
  proof (cases "d < 32")
    case True
    then show ?thesis using small e by blast
  next
    case False
    then have "e < 32" using e mult_le_mono [of 32 d 32 e] by (cases "e < 32") auto
    then have "e = 1" using small [of e d] e by (simp add: mult.commute)
    then show ?thesis using e by simp
  qed
qed

lemma mg_skip_bounds: "0 < mg_skip b" "mg_skip b < 1021"
proof -
  define r where "r = fnv1a b 2 mod 1020"
  have "unat r = unat (fnv1a b 2) mod 1020" by (simp add: r_def unat_mod)
  then have "unat r < 1020" by simp
  then have "unat (r + 1) = unat r + 1" by (subst unat_add_lem [THEN iffD1]) simp_all
  with \<open>unat r < 1020\<close> show "0 < mg_skip b" "mg_skip b < 1021"
    by (simp_all add: mg_skip_def flip: r_def)
qed

lemma coprime_mg_skip: "coprime (mg_skip b) 1021"
proof (rule coprimeI)
  fix d assume d: "d dvd mg_skip b" "d dvd 1021"
  then have "d \<le> mg_skip b" using mg_skip_bounds by (simp add: dvd_imp_le)
  with dvd_1021 [OF d(2)] mg_skip_bounds [of b] show "is_unit d" by auto
qed

lemma mg_slot_less [simp]: "mg_slot b j < 1021"
  by (simp add: mg_slot_def)

lemma mg_slot_inj: "inj_on (mg_slot b) {..<1021}"
proof (rule linorder_inj_onI)
  fix i j :: nat assume ij: "i < j" "i \<in> {..<1021}" "j \<in> {..<1021}"
  show "mg_slot b i \<noteq> mg_slot b j"
  proof
    assume "mg_slot b i = mg_slot b j"
    then have "1021 dvd (mg_offset b + j * mg_skip b) - (mg_offset b + i * mg_skip b)"
      by (intro mod_eq_dvd_iff_nat [THEN iffD1]) (use ij in \<open>auto simp: mg_slot_def\<close>)
    then have "1021 dvd (j - i) * mg_skip b" by (simp add: diff_mult_distrib)
    then have "1021 dvd j - i" using coprime_mg_skip [of b]
      by (simp add: coprime_commute coprime_dvd_mult_left_iff)
    with ij show False by (auto dest: dvd_imp_le)
  qed
qed auto

lemma mg_slot_surj: "c < 1021 \<Longrightarrow> \<exists>j < 1021. mg_slot b j = c"
proof -
  assume "c < 1021"
  have "mg_slot b ` {..<1021} = {..<1021}"
    by (rule card_subset_eq) (auto simp: card_image mg_slot_inj)
  with \<open>c < 1021\<close> have "c \<in> mg_slot b ` {..<1021}" by simp
  then show ?thesis by auto
qed

section \<open>Every turn takes a free slot\<close>

lemma mg_probe_finds:
  "j \<le> k \<Longrightarrow> table ! mg_slot b k = FREE \<Longrightarrow>
     \<exists>l. mg_probe table b j = Some l \<and> j \<le> l \<and> l \<le> k \<and> table ! mg_slot b l = FREE \<and>
         (\<forall>i. j \<le> i \<and> i < l \<longrightarrow> table ! mg_slot b i \<noteq> FREE)"
proof (induction "k - j" arbitrary: j)
  case 0
  then show ?case by (auto simp: mg_probe.simps [of table b j])
next
  case (Suc d)
  show ?case
  proof (cases "table ! mg_slot b j = FREE")
    case True
    then show ?thesis using Suc.prems by (auto simp: mg_probe.simps [of table b j])
  next
    case False
    have "d = k - (j + 1)" "j + 1 \<le> k" using Suc.hyps(2) by auto
    from Suc.hyps(1) [OF this Suc.prems(2)] obtain l where
      l: "mg_probe table b (j + 1) = Some l" "j + 1 \<le> l" "l \<le> k" "table ! mg_slot b l = FREE"
         "\<forall>i. j + 1 \<le> i \<and> i < l \<longrightarrow> table ! mg_slot b i \<noteq> FREE"
      by blast
    have "\<forall>i. j \<le> i \<and> i < l \<longrightarrow> table ! mg_slot b i \<noteq> FREE"
      using False l(5) by (metis Suc_eq_plus1 Suc_leI le_neq_implies_less)
    then show ?thesis using l False by (auto simp: mg_probe.simps [of table b j])
  qed
qed

text \<open>The loop invariant after \<open>k\<close> slots were filled. The slots were filled in turn, so backend
  \<open>i\<close> holds as many as there are \<open>t < k\<close> with \<open>t mod n = i\<close>.\<close>

definition turns :: "nat \<Rightarrow> nat \<Rightarrow> nat \<Rightarrow> nat" where
  "turns n k i = length (filter (\<lambda>t. t mod n = i) [0..<k])"

definition slots_of :: "u32 list \<Rightarrow> nat \<Rightarrow> nat" where
  "slots_of table i = length (filter (\<lambda>v. v = of_nat i) table)"

definition maglev_inv :: "bytes list \<Rightarrow> nat \<Rightarrow> maglev_state \<Rightarrow> bool" where
  "maglev_inv backends k st \<longleftrightarrow>
     length (mg_next st) = length backends \<and> length (mg_table st) = 1021 \<and> mg_filled st = k \<and>
     length (filter (\<lambda>v. v = FREE) (mg_table st)) = 1021 - k \<and> k \<le> 1021 \<and>
     (\<forall>v \<in> set (mg_table st). v = FREE \<or> unat v < length backends) \<and>
     (\<forall>i < length backends. i < 1021 \<longrightarrow> slots_of (mg_table st) i = turns (length backends) k i) \<and>
     (\<forall>i < length backends. \<forall>j < mg_next st ! i. mg_table st ! mg_slot (backends ! i) j \<noteq> FREE)"

lemma length_filter_update:
  "c < length xs \<Longrightarrow>
     length (filter P (xs[c := v])) + (if P (xs ! c) then 1 else 0) =
     length (filter P xs) + (if P v then 1 else 0)"
proof (induction xs arbitrary: c)
  case (Cons x xs)
  then show ?case by (cases c) force+
qed simp

lemma of_nat_small: "i < 1021 \<Longrightarrow> unat (of_nat i :: u32) = i \<and> (of_nat i :: u32) \<noteq> FREE"
proof -
  assume "i < 1021"
  then have u: "unat (of_nat i :: u32) = i" by (simp add: unat_of_nat)
  then have "(of_nat i :: u32) \<noteq> FREE" using \<open>i < 1021\<close> by (auto dest: arg_cong [where f = unat])
  with u show ?thesis by simp
qed

lemma mg_turn_inv:
  assumes inv: "maglev_inv backends k st" and k: "k < 1021" and i: "i = k mod length backends" "backends \<noteq> []"
  shows "\<exists>st'. mg_turn backends i st = Some st' \<and> maglev_inv backends (k + 1) st'"
proof -
  let ?n = "length backends" and ?b = "backends ! i" and ?T = "mg_table st"
  have n: "i < ?n" "i < 1021" using i le_less_trans [OF mod_less_eq_dividend k, of ?n] by auto
  have len: "length ?T = 1021" "length (mg_next st) = ?n"
    and cnt: "length (filter (\<lambda>v. v = FREE) ?T) = 1021 - k" "mg_filled st = k"
    and val: "\<forall>v \<in> set ?T. v = FREE \<or> unat v < ?n"
    and sl: "\<forall>i < ?n. i < 1021 \<longrightarrow> slots_of ?T i = turns ?n k i"
    and past: "\<forall>i < ?n. \<forall>j < mg_next st ! i. ?T ! mg_slot (backends ! i) j \<noteq> FREE"
    using inv by (auto simp: maglev_inv_def)
  have "filter (\<lambda>v. v = FREE) ?T \<noteq> []" using cnt k by (auto simp del: filter_False)
  then obtain c where c: "c < 1021" "?T ! c = FREE"
    using len by (auto simp: filter_empty_conv in_set_conv_nth)
  obtain j0 where j0: "mg_slot ?b j0 = c" using mg_slot_surj [OF c(1)] by blast
  have "mg_next st ! i \<le> j0" using past n c j0 by (meson not_le_imp_less)
  from mg_probe_finds [OF this, of ?T ?b] c j0 obtain l where
    l: "mg_probe ?T ?b (mg_next st ! i) = Some l" "mg_next st ! i \<le> l" "?T ! mg_slot ?b l = FREE"
       "\<forall>j. mg_next st ! i \<le> j \<and> j < l \<longrightarrow> ?T ! mg_slot ?b j \<noteq> FREE"
    by auto
  define st' where "st' = \<lparr>mg_next = (mg_next st)[i := l + 1], mg_table = ?T[mg_slot ?b l := of_nat i],
                           mg_filled = mg_filled st + 1\<rparr>"
  have turn: "mg_turn backends i st = Some st'" by (simp add: mg_turn_def l(1) st'_def)
  note upd = length_filter_update [of "mg_slot ?b l" ?T _ "of_nat i"]
  have free: "length (filter (\<lambda>v. v = FREE) (mg_table st')) = 1021 - (k + 1)"
    using upd [of "\<lambda>v. v = FREE"] l(3) cnt of_nat_small [OF n(2)] k by (simp add: st'_def len)
  have slots: "slots_of (mg_table st') i' = turns ?n (k + 1) i'" if "i' < ?n" "i' < 1021" for i'
  proof -
    have eq: "(of_nat i = (of_nat i' :: u32)) = (i = i')"
      using of_nat_small [OF n(2)] of_nat_small [OF that(2)] by metis
    have "FREE \<noteq> (of_nat i' :: u32)" using of_nat_small [OF that(2)] by metis
    then show ?thesis
      using upd [of "\<lambda>v. v = of_nat i'"] l(3) sl that i(1) eq
      by (auto simp: st'_def len slots_of_def turns_def split: if_splits)
  qed
  have vals: "\<forall>v \<in> set (mg_table st'). v = FREE \<or> unat v < ?n"
    using val of_nat_small [OF n(2)] n by (auto simp: st'_def dest!: set_update_subset_insert [THEN subsetD])
  have grow: "?T ! s \<noteq> FREE \<Longrightarrow> mg_table st' ! s \<noteq> FREE" for s
    using of_nat_small [OF n(2)] by (cases "s = mg_slot ?b l") (simp_all add: st'_def len)
  have past': "mg_table st' ! mg_slot (backends ! i') j \<noteq> FREE" if "i' < ?n" "j < mg_next st' ! i'" for i' j
  proof (cases "i' = i \<and> j \<ge> mg_next st ! i")
    case True
    then have "j \<le> l" using that n len by (simp add: st'_def)
    then show ?thesis using True l(4) grow of_nat_small [OF n(2)]
      by (cases "j = l") (auto simp: st'_def len)
  next
    case False
    then have "j < mg_next st ! i'" using that n len by (auto simp: st'_def nth_list_update split: if_splits)
    then show ?thesis using past that(1) grow by blast
  qed
  have "maglev_inv backends (k + 1) st'"
    using free slots vals past' k cnt(2) len by (simp add: maglev_inv_def st'_def)
  then show ?thesis using turn by blast
qed

lemma mg_round_inv:
  assumes "maglev_inv backends k st" "k < 1021" "k mod length backends = a" "a < length backends"
  shows "\<exists>k' st'. mg_round backends [a..<length backends] st = Some st' \<and> maglev_inv backends k' st' \<and>
           k < k' \<and> (k' = 1021 \<or> k' mod length backends = 0)"
  using assms
proof (induction "length backends - a" arbitrary: a k st)
  case 0
  then show ?case by simp
next
  case (Suc d)
  let ?n = "length backends"
  have ne: "backends \<noteq> []" using Suc.prems(4) by auto
  obtain st1 where st1: "mg_turn backends a st = Some st1" "maglev_inv backends (k + 1) st1"
    using mg_turn_inv [OF Suc.prems(1,2)] Suc.prems(3) ne by blast
  have filled: "mg_filled st1 = k + 1" using st1(2) by (simp add: maglev_inv_def)
  have upt: "[a..<?n] = a # [Suc a..<?n]" using Suc.prems(4) by (simp add: upt_conv_Cons)
  show ?case
  proof (cases "k + 1 = 1021 \<or> Suc a = ?n")
    case True
    then have "mg_round backends [a..<?n] st = Some st1" using st1(1) filled by (auto simp: upt)
    moreover have "k + 1 = 1021 \<or> (k + 1) mod ?n = 0"
      using True Suc.prems(3) by (auto simp: mod_Suc)
    ultimately show ?thesis using st1(2) by (metis less_add_one)
  next
    case False
    have a': "(k + 1) mod ?n = Suc a" "Suc a < ?n" "k + 1 < 1021"
      using False Suc.prems by (auto simp: mod_Suc)
    have d: "d = ?n - Suc a" using Suc.hyps(2) by simp
    obtain k' st' where "mg_round backends [Suc a..<?n] st1 = Some st'" "maglev_inv backends k' st'"
      "k + 1 < k'" "k' = 1021 \<or> k' mod ?n = 0"
      using Suc.hyps(1) [OF d st1(2) a'(3,1,2)] by auto
    then show ?thesis using st1(1) filled False by (auto simp: upt intro!: exI [of _ k'])
  qed
qed

lemma mg_fill_inv:
  assumes "maglev_inv backends k st" "backends \<noteq> []" "k = 1021 \<or> k mod length backends = 0"
  shows "\<exists>st'. mg_fill backends st = Some st' \<and> maglev_inv backends 1021 st'"
  using assms
proof (induction "1021 - k" arbitrary: k st rule: less_induct)
  case less
  have fk: "mg_filled st = k" "k \<le> 1021" using less.prems(1) by (auto simp: maglev_inv_def)
  show ?case
  proof (cases "k = 1021")
    case True
    then show ?thesis using less.prems(1) fk by (auto simp: mg_fill.simps [of backends st])
  next
    case False
    then have k: "k < 1021" "k mod length backends = 0" using fk less.prems(3) by auto
    from mg_round_inv [OF less.prems(1) k(1) k(2)] less.prems(2) obtain k' st' where
      r: "mg_round backends [0..<length backends] st = Some st'" "maglev_inv backends k' st'" "k < k'"
         "k' = 1021 \<or> k' mod length backends = 0"
      by auto
    have "k' \<le> 1021" using r(2) by (simp add: maglev_inv_def)
    then have "1021 - k' < 1021 - k" using r(3) by simp
    from less.hyps [OF this r(2) less.prems(2) r(4)] show ?thesis
      using r(1) k(1) fk by (auto simp: mg_fill.simps [of backends st])
  qed
qed

lemma maglev_init_inv: "maglev_inv backends 0 (maglev_init backends)"
  by (auto simp: maglev_inv_def maglev_init_def turns_def slots_of_def filter_replicate
        dest!: of_nat_small)

section \<open>The built table\<close>

lemma turns_share: "i < n \<Longrightarrow> turns n k i = k div n + (if i < k mod n then 1 else 0)"
proof (induction k)
  case (Suc k)
  have step: "turns n (Suc k) i = turns n k i + (if k mod n = i then 1 else 0)"
    by (simp add: turns_def)
  show ?case
    using Suc by (auto simp: step mod_Suc div_Suc)
qed (simp add: turns_def)

lemma maglev_build_inv:
  assumes "backends \<noteq> []"
  shows "\<exists>st. maglev_build backends = Some (mg_table st) \<and> maglev_inv backends 1021 st"
  using mg_fill_inv [OF maglev_init_inv assms] assms by (auto simp: maglev_build_def)

lemma maglev_build_entries:
  assumes "backends \<noteq> []"
  shows "\<exists>table. maglev_build backends = Some table \<and> length table = 1021 \<and>
           (\<forall>v \<in> set table. unat v < length backends)"
proof -
  obtain st where st: "maglev_build backends = Some (mg_table st)" "maglev_inv backends 1021 st"
    using maglev_build_inv [OF assms] by blast
  have "FREE \<notin> set (mg_table st)" using st(2) by (auto simp: maglev_inv_def filter_empty_conv)
  then have "\<forall>v \<in> set (mg_table st). unat v < length backends"
    using st(2) by (auto simp: maglev_inv_def)
  then show ?thesis using st by (auto simp: maglev_inv_def)
qed

text \<open>C9: building a Maglev table always terminates. For a non-empty list of backends the table
  has all of its 1021 slots assigned, each to an index of the list, and backend \<open>i\<close> of \<open>n\<close> owns
  \<open>1021 div n\<close> slots, plus one if \<open>i < 1021 mod n\<close>: the load differs by at most one slot between
  any two backends. (Only the first 1021 backends can own a slot.)\<close>

theorem maglev_total_balanced:
  "\<exists>table. maglev_build backends = Some table \<and>
     length table = (if backends = [] then 0 else 1021) \<and>
     list_all (\<lambda>v. unat v < length backends) table \<and>
     list_all (\<lambda>i. slots_of table i =
                1021 div length backends + (if i < 1021 mod length backends then 1 else 0))
       [0..<min (length backends) 1021]"
proof (cases "backends = []")
  case True
  then show ?thesis by (simp add: maglev_build_def)
next
  case False
  obtain st where st: "maglev_build backends = Some (mg_table st)" "maglev_inv backends 1021 st"
    using maglev_build_inv [OF False] by blast
  have "\<forall>v \<in> set (mg_table st). unat v < length backends" "length (mg_table st) = 1021"
    using maglev_build_entries [OF False] st(1) by auto
  moreover have "slots_of (mg_table st) i =
      1021 div length backends + (if i < 1021 mod length backends then 1 else 0)"
    if "i < length backends" "i < 1021" for i
    using st(2) that turns_share [OF that(1), of 1021] by (simp add: maglev_inv_def)
  ultimately show ?thesis using st(1) False by (simp add: list_all_iff)
qed

end
