(* ===== verification/Control_Services.thy ===== *)
theory Control_Services
  imports Control Maglev "HOL-Library.List_Lexorder"
begin

text \<open>
  The service operations of \<^verbatim>\<open>xdp-dp/src/control.rs\<close>: load balancers, VIPs, NAT, firewall rules,
  alias and balancer prefixes, and neighbour NAT; and the service identity of \<^verbatim>\<open>state.rs\<close>.
\<close>

section \<open>Load balancers\<close>

definition last4 :: "LbIp \<Rightarrow> bytes" where
  "last4 ip = (case ip of Ipv4 a \<Rightarrow> a | Ipv6 a \<Rightarrow> take 4 (drop 12 a))"

definition lb_services :: "u32 \<Rightarrow> bytes \<Rightarrow> (u16 \<times> u8) list \<Rightarrow> LbKey list" where
  "lb_services vni ip4 ports = map (\<lambda>(port, proto). \<lparr>lk_vni = vni, lk_ipv4 = ip4, lk_port = port, lk_proto = proto\<rparr>) ports"

definition create_lb :: "bytes \<Rightarrow> u32 \<Rightarrow> LbIp \<Rightarrow> bytes \<Rightarrow> (u16 \<times> u8) list \<Rightarrow> ctl \<Rightarrow> (ctl_error + unit) \<times> ctl" where
  "create_lb lid vni ip lb_underlay ports g =
     (if map_of (lbs g) lid \<noteq> None then (Inl LbExists, g)
      else
        let table_id = next_table_id g;
            g = g\<lparr>next_table_id := table_id + 1\<rparr>;
            (err, m) = hputs (LB (tabs g))
              (map (\<lambda>k. (k, \<lparr>lv_table_id = table_id, lv_size = 1021\<rparr>)) (lb_services vni (last4 ip) ports));
            g = g\<lparr>tabs := (tabs g)\<lparr>LB := m\<rparr>\<rparr>
        in case err of
             Some e \<Rightarrow> (Inl (MapError e), g)
           | None \<Rightarrow>
               upd (hinsert (UNDERLAY (tabs g)) lb_underlay
                      \<lparr>uv_vni = vni, uv_tap_ifindex = 0, uv_guest_mac = replicate 6 0\<rparr>)
                 (\<lambda>m g. g\<lparr>tabs := (tabs g)\<lparr>UNDERLAY := m\<rparr>\<rparr>)
                 (\<lambda>g. (Inr (), g\<lparr>lbs := AList.update lid
                         \<lparr>le_vni = vni, le_ip = ip, le_lb_underlay = lb_underlay, le_ports = ports,
                          le_table_id = table_id, le_backends = []\<rparr> (lbs g)\<rparr>)) g)"

text \<open>The rows written for a Maglev table: slot \<open>i\<close> gets the backend the table names.\<close>

definition maglev_rows :: "u32 \<Rightarrow> u32 list \<Rightarrow> bytes list \<Rightarrow> (MaglevKey \<times> bytes) list" where
  "maglev_rows table_id table backends =
     map (\<lambda>(slot, bi). (\<lparr>mk_table_id = table_id, mk_slot = of_nat slot\<rparr>, backends ! unat bi)) (enumerate 0 table)"

definition maglev_slots :: "u32 \<Rightarrow> MaglevKey list" where
  "maglev_slots table_id = map (\<lambda>slot. \<lparr>mk_table_id = table_id, mk_slot = of_nat slot\<rparr>) [0..<1021]"

text \<open>Build and write. \<open>MaglevError\<close> stands for a build that does not return, which
  \<open>maglev_build_entries\<close> excludes.\<close>

definition write_maglev :: "u32 \<Rightarrow> bytes list \<Rightarrow> ctl \<Rightarrow> (ctl_error + unit) \<times> ctl" where
  "write_maglev table_id backends g =
     (case maglev_build backends of
        None \<Rightarrow> (Inl MaglevError, g)
      | Some table \<Rightarrow>
          let (err, m) = hputs (MAGLEV (tabs g)) (maglev_rows table_id table backends);
              g = g\<lparr>tabs := (tabs g)\<lparr>MAGLEV := m\<rparr>\<rparr>
          in case err of Some e \<Rightarrow> (Inl (MapError e), g) | None \<Rightarrow> (Inr (), g))"

definition add_lb_target :: "bytes \<Rightarrow> bytes \<Rightarrow> ctl \<Rightarrow> (ctl_error + unit) \<times> ctl" where
  "add_lb_target lid backend g =
     (case map_of (lbs g) lid of
        None \<Rightarrow> (Inl UnknownLb, g)
      | Some entry \<Rightarrow>
          if backend \<in> set (le_backends entry) then (Inl LbTargetExists, g)
          else
            let backends = le_backends entry @ [backend];
                g = g\<lparr>lbs := AList.update lid (entry\<lparr>le_backends := backends\<rparr>) (lbs g)\<rparr>
            in write_maglev (le_table_id entry) backends g)"

definition del_lb_target :: "bytes \<Rightarrow> bytes \<Rightarrow> ctl \<Rightarrow> (ctl_error + bool) \<times> ctl" where
  "del_lb_target lid backend g =
     (case map_of (lbs g) lid of
        None \<Rightarrow> (Inl UnknownLb, g)
      | Some entry \<Rightarrow>
          let backends = filter (\<lambda>b. b \<noteq> backend) (le_backends entry);
              g' = g\<lparr>lbs := AList.update lid (entry\<lparr>le_backends := backends\<rparr>) (lbs g)\<rparr>
          in if length backends = length (le_backends entry) then (Inr False, g')
             else if backends = []
             then (Inr True, g'\<lparr>tabs := (tabs g')\<lparr>MAGLEV := hdels (MAGLEV (tabs g')) (maglev_slots (le_table_id entry))\<rparr>\<rparr>)
             else (case write_maglev (le_table_id entry) backends g' of
                     (Inl e, g) \<Rightarrow> (Inl e, g)
                   | (Inr _, g) \<Rightarrow> (Inr True, g)))"

definition get_lb :: "bytes \<Rightarrow> ctl \<Rightarrow> (u32 \<times> LbIp \<times> bytes \<times> (u16 \<times> u8) list) option" where
  "get_lb lid g = map_option (\<lambda>e. (le_vni e, le_ip e, le_lb_underlay e, le_ports e)) (map_of (lbs g) lid)"

definition list_lbs :: "ctl \<Rightarrow> (bytes \<times> u32 \<times> LbIp \<times> bytes \<times> (u16 \<times> u8) list) list" where
  "list_lbs g = map (\<lambda>(i, e). (i, le_vni e, le_ip e, le_lb_underlay e, le_ports e)) (lbs g)"

definition list_lb_targets :: "bytes \<Rightarrow> ctl \<Rightarrow> bytes list" where
  "list_lb_targets lid g = (case map_of (lbs g) lid of Some e \<Rightarrow> le_backends e | None \<Rightarrow> [])"

definition list_lb_targets_all :: "ctl \<Rightarrow> bytes list" where
  "list_lb_targets_all g = concat (map (\<lambda>(_, e). le_backends e) (lbs g))"

definition delete_lb :: "bytes \<Rightarrow> ctl \<Rightarrow> (ctl_error + bool) \<times> ctl" where
  "delete_lb lid g =
     (case map_of (lbs g) lid of
        None \<Rightarrow> (Inr False, g)
      | Some entry \<Rightarrow>
          let g = g\<lparr>lbs := AList.delete lid (lbs g)\<rparr>;
              lb = hdels (LB (tabs g)) (lb_services (le_vni entry) (last4 (le_ip entry)) (le_ports entry));
              mg = hdels (MAGLEV (tabs g)) (maglev_slots (le_table_id entry))
          in (Inr True, g\<lparr>tabs := (tabs g)\<lparr>LB := lb, MAGLEV := mg\<rparr>\<rparr>))"

section \<open>VIPs\<close>

definition ul_taken :: "bytes \<Rightarrow> ctl \<Rightarrow> bool" where
  "ul_taken pul g =
     (list_ex (\<lambda>(_, r). ir_underlay r = pul) (by_id g) \<or> list_ex (\<lambda>(_, lb). le_lb_underlay lb = pul) (lbs g))"

definition set_vips :: "(VipKey, bytes) hmap \<Rightarrow> ctl \<Rightarrow> ctl" where
  "set_vips m g = g\<lparr>tabs := (tabs g)\<lparr>VIPS := m\<rparr>\<rparr>"

definition create_vip :: "bytes \<Rightarrow> bytes \<Rightarrow> bytes option \<Rightarrow> ctl \<Rightarrow> (ctl_error + bytes) \<times> ctl" where
  "create_vip interface_id vip preferred_ul g =
     (case map_of (by_id g) interface_id of
        None \<Rightarrow> (Inl NoVm, g)
      | Some rec \<Rightarrow>
          let vni = ir_vni rec; gip = ir_ipv4 rec
          in if hget (VIPS (tabs g)) \<lparr>vk_vni = vni, vk_ipv4 = gip\<rparr> \<noteq> None then (Inl VipExists, g)
             else if (case preferred_ul of Some pul \<Rightarrow> ul_taken pul g | None \<Rightarrow> False) then (Inl VnfInsert, g)
             else
               let effective = (case preferred_ul of Some pul \<Rightarrow> pul | None \<Rightarrow> ir_underlay rec)
               in upd (hinsert (VIPS (tabs g)) \<lparr>vk_vni = vni, vk_ipv4 = gip\<rparr> vip) set_vips (\<lambda>g.
                  upd (hinsert (VIPS (tabs g)) \<lparr>vk_vni = vni, vk_ipv4 = vip\<rparr> gip) set_vips (\<lambda>g.
                  (Inr effective, g)) g) g)"

definition delete_vip :: "bytes \<Rightarrow> ctl \<Rightarrow> (ctl_error + bool) \<times> ctl" where
  "delete_vip interface_id g =
     (case map_of (by_id g) interface_id of
        None \<Rightarrow> (Inl NoVm, g)
      | Some rec \<Rightarrow>
          let vni = ir_vni rec; gip = ir_ipv4 rec
          in case hget (VIPS (tabs g)) \<lparr>vk_vni = vni, vk_ipv4 = gip\<rparr> of
               None \<Rightarrow> (Inr False, g)
             | Some vip \<Rightarrow>
                 (Inr True, set_vips (hdel (hdel (VIPS (tabs g)) \<lparr>vk_vni = vni, vk_ipv4 = vip\<rparr>)
                                        \<lparr>vk_vni = vni, vk_ipv4 = gip\<rparr>) g))"

definition get_vip :: "bytes \<Rightarrow> ctl \<Rightarrow> (bytes \<times> bytes) option" where
  "get_vip interface_id g =
     (case map_of (by_id g) interface_id of
        None \<Rightarrow> None
      | Some rec \<Rightarrow>
          map_option (\<lambda>vip. (vip, ir_underlay rec))
            (hget (VIPS (tabs g)) \<lparr>vk_vni = ir_vni rec, vk_ipv4 = ir_ipv4 rec\<rparr>))"

section \<open>NAT\<close>

definition nat_of :: "ctl \<Rightarrow> IfaceRecord \<Rightarrow> NatValue option" where
  "nat_of g r = hget (NAT (tabs g)) \<lparr>nk_vni = ir_vni r, nk_ipv4 = ir_ipv4 r\<rparr>"

text \<open>The overlap test against the interfaces of the VNI that use the same NAT address.\<close>

definition nat_overlaps :: "u32 \<Rightarrow> bytes \<Rightarrow> u16 \<Rightarrow> u16 \<Rightarrow> ctl \<Rightarrow> bool" where
  "nat_overlaps vni nat_ip port_min port_max g =
     list_ex (\<lambda>(_, r). ir_vni r = vni \<and>
        (case nat_of g r of
           Some v \<Rightarrow> nv_nat_ipv4 v = nat_ip \<and> port_min < nv_port_max v \<and> port_max > nv_port_min v
         | None \<Rightarrow> False)) (by_id g)"

definition create_nat :: "bytes \<Rightarrow> bytes \<Rightarrow> u16 \<Rightarrow> u16 \<Rightarrow> bytes option \<Rightarrow> ctl \<Rightarrow> (ctl_error + bytes) \<times> ctl" where
  "create_nat interface_id nat_ip port_min port_max preferred_ul g =
     (case map_of (by_id g) interface_id of
        None \<Rightarrow> (Inl NoVm, g)
      | Some rec \<Rightarrow>
          let vni = ir_vni rec
          in if nat_of g rec \<noteq> None then (Inl NatExists, g)
             else if nat_overlaps vni nat_ip port_min port_max g then (Inl NatRangeOverlap, g)
             else if (case preferred_ul of Some pul \<Rightarrow> ul_taken pul g | None \<Rightarrow> False) then (Inl VnfInsert, g)
             else upd (hinsert (NAT (tabs g)) \<lparr>nk_vni = vni, nk_ipv4 = ir_ipv4 rec\<rparr>
                         \<lparr>nv_nat_ipv4 = nat_ip, nv_port_min = port_min, nv_port_max = port_max\<rparr>)
                    (\<lambda>m g. g\<lparr>tabs := (tabs g)\<lparr>NAT := m, NAT_IPS := hput (NAT_IPS (tabs g)) \<lparr>vk_vni = vni, vk_ipv4 = nat_ip\<rparr> 1\<rparr>\<rparr>)
                    (\<lambda>g. (Inr (case preferred_ul of Some pul \<Rightarrow> pul | None \<Rightarrow> ir_underlay rec), g)) g)"

definition get_nat :: "bytes \<Rightarrow> ctl \<Rightarrow> (bytes \<times> u16 \<times> u16 \<times> bytes \<times> u32) option" where
  "get_nat interface_id g =
     (case map_of (by_id g) interface_id of
        None \<Rightarrow> None
      | Some rec \<Rightarrow>
          map_option (\<lambda>v. (nv_nat_ipv4 v, nv_port_min v, nv_port_max v, ir_underlay rec, ir_vni rec)) (nat_of g rec))"

text \<open>Rows of all NATs, by guest address in descending order (a stable sort).\<close>

definition list_local_nats :: "ctl \<Rightarrow> (bytes \<times> bytes \<times> bytes \<times> u16 \<times> u16 \<times> u32 \<times> bytes) list" where
  "list_local_nats g =
     rev (sort_key (\<lambda>(_, guest_ip, _). map unat guest_ip)
       (rev (List.map_filter (\<lambda>(i, rec). map_option (\<lambda>v. (i, ir_ipv4 rec, nv_nat_ipv4 v, nv_port_min v, nv_port_max v,
                ir_vni rec, ir_underlay rec)) (nat_of g rec)) (by_id g))))"

definition ct_flush_for_guest :: "u32 \<Rightarrow> bytes \<Rightarrow> bytes \<Rightarrow> u16 \<Rightarrow> u16 \<Rightarrow> (CtKey \<rightharpoonup> CtEntry) \<Rightarrow> (CtKey \<rightharpoonup> CtEntry)" where
  "ct_flush_for_guest vni gip nat_ip port_min port_max ct =
     (\<lambda>k. case ct k of
            None \<Rightarrow> None
          | Some e \<Rightarrow>
              let is_fwd = (ck_src_ip k = gip \<and> (ce_flags e AND CT_REWRITE_SRC \<noteq> 0 \<or> ce_flags e AND CT_F_SRC_NAT \<noteq> 0));
                  is_rev = (ck_dst_ip k = nat_ip \<and> ck_dst_port k \<ge> port_min \<and> ck_dst_port k < port_max \<and>
                            ce_flags e AND CT_REWRITE_DST \<noteq> 0)
              in if ck_vni k = vni \<and> (is_fwd \<or> is_rev) then None else Some e)"

definition delete_nat :: "bytes \<Rightarrow> ctl \<Rightarrow> (ctl_error + bool) \<times> ctl" where
  "delete_nat interface_id g =
     (case map_of (by_id g) interface_id of
        None \<Rightarrow> (Inl NoVm, g)
      | Some rec \<Rightarrow>
          let vni = ir_vni rec; gip = ir_ipv4 rec
          in case nat_of g rec of
               None \<Rightarrow> (Inr False, g)
             | Some v \<Rightarrow>
                 let g = g\<lparr>tabs := (tabs g)\<lparr>NAT := hdel (NAT (tabs g)) \<lparr>nk_vni = vni, nk_ipv4 = gip\<rparr>\<rparr>\<rparr>;
                     still_used = list_ex (\<lambda>(other, r). other \<noteq> interface_id \<and> ir_vni r = vni \<and>
                        (case nat_of g r of Some w \<Rightarrow> nv_nat_ipv4 w = nv_nat_ipv4 v | None \<Rightarrow> False)) (by_id g);
                     g = (if still_used then g
                          else g\<lparr>tabs := (tabs g)\<lparr>NAT_IPS := hdel (NAT_IPS (tabs g)) \<lparr>vk_vni = vni, vk_ipv4 = nv_nat_ipv4 v\<rparr>\<rparr>\<rparr>)
                 in (Inr True, g\<lparr>tabs := (tabs g)\<lparr>CONNTRACK :=
                       ct_flush_for_guest vni gip (nv_nat_ipv4 v) (nv_port_min v) (nv_port_max v) (CONNTRACK (tabs g))\<rparr>\<rparr>))"

section \<open>Firewall rules\<close>

definition fw_keys :: "u32 \<Rightarrow> FwRuleKey list" where
  "fw_keys ifindex = map (\<lambda>i. \<lparr>fk_ifindex = ifindex, fk_idx = of_nat i\<rparr>) [0..<16]"

definition fw_rows :: "u32 \<Rightarrow> (bytes \<times> FwRule) list \<Rightarrow> (FwRuleKey \<times> FwRule) list" where
  "fw_rows ifindex rules =
     map (\<lambda>(i, _, r). (\<lparr>fk_ifindex = ifindex, fk_idx = of_nat i\<rparr>, r)) (enumerate 0 rules)"

definition fw_counts :: "(bytes \<times> FwRule) list \<Rightarrow> FwMeta" where
  "fw_counts rules =
     \<lparr>fm_ingress_count = of_nat (length (filter (\<lambda>(_, r). fr_direction r \<noteq> FW_DIR_EGRESS) rules)),
      fm_egress_count = of_nat (length (filter (\<lambda>(_, r). fr_direction r = FW_DIR_EGRESS) rules))\<rparr>"

definition fw_reprogram :: "u32 \<Rightarrow> ctl \<Rightarrow> (ctl_error + unit) \<times> ctl" where
  "fw_reprogram ifindex g =
     (let rules = (case map_of (fw g) ifindex of Some rs \<Rightarrow> rs | None \<Rightarrow> []);
          cleared = hdels (FW_RULES (tabs g)) (fw_keys ifindex);
          (err, m) = hputs cleared (fw_rows ifindex rules);
          g = g\<lparr>tabs := (tabs g)\<lparr>FW_RULES := m\<rparr>\<rparr>
      in case err of
           Some e \<Rightarrow> (Inl (MapError e), g)
         | None \<Rightarrow>
             upd (hinsert (FW_META (tabs g)) ifindex (fw_counts rules))
               (\<lambda>m g. g\<lparr>tabs := (tabs g)\<lparr>FW_META := m\<rparr>\<rparr>) (\<lambda>g. (Inr (), g)) g)"

definition add_fw_rule :: "bytes \<Rightarrow> bytes \<Rightarrow> FwRule \<Rightarrow> ctl \<Rightarrow> (ctl_error + unit) \<times> ctl" where
  "add_fw_rule interface_id rule_id rule g =
     (case map_of (by_ifindex g) interface_id of
        None \<Rightarrow> (Inl NoVm, g)
      | Some ifindex \<Rightarrow>
          let entry = (case map_of (fw g) ifindex of Some rs \<Rightarrow> rs | None \<Rightarrow> []);
              g = g\<lparr>fw := AList.update ifindex entry (fw g)\<rparr>
          in if length entry \<ge> FW_MAX_RULES then (Inl TooManyRules, g)
             else if list_ex (\<lambda>(i, _). i = rule_id) entry then (Inl FwRuleExists, g)
             else fw_reprogram ifindex (g\<lparr>fw := AList.update ifindex (entry @ [(rule_id, rule)]) (fw g)\<rparr>))"

definition del_fw_rule :: "bytes \<Rightarrow> bytes \<Rightarrow> ctl \<Rightarrow> (ctl_error + bool) \<times> ctl" where
  "del_fw_rule interface_id rule_id g =
     (case map_of (by_ifindex g) interface_id of
        None \<Rightarrow> (Inl NoVm, g)
      | Some ifindex \<Rightarrow>
          let entry = (case map_of (fw g) ifindex of Some rs \<Rightarrow> rs | None \<Rightarrow> []);
              rest = filter (\<lambda>(i, _). i \<noteq> rule_id) entry;
              g = g\<lparr>fw := AList.update ifindex rest (fw g)\<rparr>
          in if length rest = length entry then (Inr False, g)
             else (case fw_reprogram ifindex g of
                     (Inl e, g) \<Rightarrow> (Inl e, g)
                   | (Inr _, g) \<Rightarrow> (Inr True, g)))"

definition get_fw_rule :: "bytes \<Rightarrow> bytes \<Rightarrow> ctl \<Rightarrow> FwRule option" where
  "get_fw_rule interface_id rule_id g =
     (case map_of (by_ifindex g) interface_id of
        None \<Rightarrow> None
      | Some ifindex \<Rightarrow>
          (case map_of (fw g) ifindex of
             None \<Rightarrow> None
           | Some rules \<Rightarrow> map_option snd (List.find (\<lambda>(i, _). i = rule_id) rules)))"

definition list_fw_rules :: "bytes \<Rightarrow> ctl \<Rightarrow> (bytes \<times> FwRule) list" where
  "list_fw_rules interface_id g =
     (case map_of (by_ifindex g) interface_id of
        Some ifindex \<Rightarrow> (case map_of (fw g) ifindex of Some rs \<Rightarrow> rs | None \<Rightarrow> [])
      | None \<Rightarrow> [])"

section \<open>Alias prefixes\<close>

definition is_prefix4 :: "bytes \<Rightarrow> u32 \<Rightarrow> PrefixRecord \<Rightarrow> bool" where
  "is_prefix4 prefix prefix_len pr = (\<not> pr_is_ipv6 pr \<and> take 4 (pr_ip pr) = prefix \<and> pr_len pr = prefix_len)"

definition is_prefix6 :: "bytes \<Rightarrow> u32 \<Rightarrow> PrefixRecord \<Rightarrow> bool" where
  "is_prefix6 prefix prefix_len pr = (pr_is_ipv6 pr \<and> pr_ip pr = prefix \<and> pr_len pr = prefix_len)"

definition prefixes_of :: "(bytes \<times> PrefixRecord list) list \<Rightarrow> bytes \<Rightarrow> PrefixRecord list" where
  "prefixes_of m interface_id = (case map_of m interface_id of Some v \<Rightarrow> v | None \<Rightarrow> [])"

definition add_prefix :: "bytes \<Rightarrow> bytes \<Rightarrow> u32 \<Rightarrow> bytes option \<Rightarrow> ctl \<Rightarrow> (ctl_error + bytes) \<times> ctl" where
  "add_prefix interface_id prefix prefix_len preferred_ul g =
     (case map_of (by_id g) interface_id of
        None \<Rightarrow> (Inl NoVm, g)
      | Some rec \<Rightarrow>
          (case map_of (iface_underlay g) interface_id of
             None \<Rightarrow> (Inl NoUnderlay, g)
           | Some underlay \<Rightarrow>
               let vni = ir_vni rec;
                   effective_ul = (case preferred_ul of Some u \<Rightarrow> u | None \<Rightarrow> underlay)
               in if list_ex (is_prefix4 prefix prefix_len) (prefixes_of (prefixes g) interface_id)
                  then (Inl PrefixExists, g)
                  else if list_ex (\<lambda>(oid, pv). oid \<noteq> interface_id \<and>
                            (case map_of (by_id g) oid of
                               Some orec \<Rightarrow> ir_vni orec = vni \<and> list_ex (is_prefix4 prefix prefix_len) pv
                             | None \<Rightarrow> False)) (prefixes g)
                  then (Inl PrefixInUse, g)
                  else upd (lpm_insert (ROUTES (tabs g)) (route_key vni prefix prefix_len)
                              \<lparr>rv_nexthop_vni = vni, rv_nexthop_ipv6 = effective_ul, rv_is_external = 0\<rparr>) set_routes
                         (\<lambda>g. (Inr effective_ul, g\<lparr>prefixes := AList.update interface_id
                                 (prefixes_of (prefixes g) interface_id @
                                  [\<lparr>pr_ip = prefix @ replicate 12 0, pr_len = prefix_len, pr_underlay = effective_ul,
                                    pr_is_ipv6 = False\<rparr>]) (prefixes g)\<rparr>)) g))"

definition add_prefix6 :: "bytes \<Rightarrow> bytes \<Rightarrow> u32 \<Rightarrow> bytes option \<Rightarrow> ctl \<Rightarrow> (ctl_error + bytes) \<times> ctl" where
  "add_prefix6 interface_id prefix prefix_len preferred_ul g =
     (case map_of (by_id g) interface_id of
        None \<Rightarrow> (Inl NoVm, g)
      | Some rec \<Rightarrow>
          (case map_of (iface_underlay g) interface_id of
             None \<Rightarrow> (Inl NoUnderlay, g)
           | Some underlay \<Rightarrow>
               let vni = ir_vni rec;
                   effective_ul = (case preferred_ul of Some u \<Rightarrow> u | None \<Rightarrow> underlay)
               in if list_ex (is_prefix6 prefix prefix_len) (prefixes_of (prefixes g) interface_id)
                  then (Inl Prefix6Exists, g)
                  else upd (lpm_insert (ROUTES6 (tabs g)) (route_key6 vni prefix prefix_len)
                              \<lparr>rv_nexthop_vni = vni, rv_nexthop_ipv6 = effective_ul, rv_is_external = 0\<rparr>) set_routes6
                         (\<lambda>g. (Inr effective_ul, g\<lparr>prefixes := AList.update interface_id
                                 (prefixes_of (prefixes g) interface_id @
                                  [\<lparr>pr_ip = prefix, pr_len = prefix_len, pr_underlay = effective_ul,
                                    pr_is_ipv6 = True\<rparr>]) (prefixes g)\<rparr>)) g))"

text \<open>\<^verbatim>\<open>retain\<close> on an entry that may be missing, and whether it removed anything.\<close>

definition retain_prefixes :: "(PrefixRecord \<Rightarrow> bool) \<Rightarrow> bytes \<Rightarrow> (bytes \<times> PrefixRecord list) list \<Rightarrow> bool \<times> (bytes \<times> PrefixRecord list) list" where
  "retain_prefixes doomed interface_id m =
     (case map_of m interface_id of
        None \<Rightarrow> (False, m)
      | Some v \<Rightarrow>
          let v' = filter (\<lambda>pr. \<not> doomed pr) v
          in (length v' < length v, AList.update interface_id v' m))"

definition del_prefix :: "bytes \<Rightarrow> bytes \<Rightarrow> u32 \<Rightarrow> ctl \<Rightarrow> (ctl_error + bool) \<times> ctl" where
  "del_prefix interface_id prefix prefix_len g =
     (case map_of (by_id g) interface_id of
        None \<Rightarrow> (Inl NoVm, g)
      | Some rec \<Rightarrow>
          let (found, ps) = retain_prefixes (is_prefix4 prefix prefix_len) interface_id (prefixes g);
              g = g\<lparr>prefixes := ps\<rparr>
          in if found then (Inr True, routes_remove (ir_vni rec) prefix prefix_len g) else (Inr False, g))"

definition del_prefix6 :: "bytes \<Rightarrow> bytes \<Rightarrow> u32 \<Rightarrow> ctl \<Rightarrow> (ctl_error + bool) \<times> ctl" where
  "del_prefix6 interface_id prefix prefix_len g =
     (case map_of (by_id g) interface_id of
        None \<Rightarrow> (Inl NoVm, g)
      | Some rec \<Rightarrow>
          let (found, ps) = retain_prefixes (is_prefix6 prefix prefix_len) interface_id (prefixes g);
              g = g\<lparr>prefixes := ps\<rparr>
          in if found then (Inr True, routes6_remove (ir_vni rec) prefix prefix_len g) else (Inr False, g))"

definition prefix_row :: "PrefixRecord \<Rightarrow> bytes \<times> u32 \<times> bytes \<times> bool" where
  "prefix_row pr = (pr_ip pr, pr_len pr, pr_underlay pr, pr_is_ipv6 pr)"

definition list_prefixes_with_underlay :: "bytes \<Rightarrow> ctl \<Rightarrow> (bytes \<times> u32 \<times> bytes \<times> bool) list" where
  "list_prefixes_with_underlay interface_id g = map prefix_row (prefixes_of (prefixes g) interface_id)"

definition list_prefixes_all :: "ctl \<Rightarrow> (bytes \<times> u32 \<times> bytes \<times> bool) list" where
  "list_prefixes_all g = concat (map (\<lambda>(_, v). map prefix_row v) (prefixes g))"

section \<open>Load balancer prefixes\<close>

definition add_lb_prefix_rec :: "(PrefixRecord \<Rightarrow> bool) \<Rightarrow> bytes \<Rightarrow> bool \<Rightarrow> bytes \<Rightarrow> u32 \<Rightarrow> bytes option \<Rightarrow> ctl \<Rightarrow> (ctl_error + bytes) \<times> ctl" where
  "add_lb_prefix_rec dup interface_id v6 ip16 prefix_len preferred_ul g =
     (case map_of (by_id g) interface_id of
        None \<Rightarrow> (Inl NoVm, g)
      | Some rec \<Rightarrow>
          let effective_ul = (case preferred_ul of Some u \<Rightarrow> u | None \<Rightarrow> ir_underlay rec)
          in if list_ex dup (prefixes_of (lb_prefixes g) interface_id) then (Inl (if v6 then LbPrefix6Exists else LbPrefixExists), g)
             else (Inr effective_ul, g\<lparr>lb_prefixes := AList.update interface_id
                     (prefixes_of (lb_prefixes g) interface_id @
                      [\<lparr>pr_ip = ip16, pr_len = prefix_len, pr_underlay = effective_ul, pr_is_ipv6 = v6\<rparr>]) (lb_prefixes g)\<rparr>))"

definition add_lb_prefix :: "bytes \<Rightarrow> bytes \<Rightarrow> u32 \<Rightarrow> bytes option \<Rightarrow> ctl \<Rightarrow> (ctl_error + bytes) \<times> ctl" where
  "add_lb_prefix interface_id prefix prefix_len preferred_ul g =
     add_lb_prefix_rec (is_prefix4 prefix prefix_len) interface_id False (prefix @ replicate 12 0) prefix_len preferred_ul g"

definition add_lb_prefix6 :: "bytes \<Rightarrow> bytes \<Rightarrow> u32 \<Rightarrow> bytes option \<Rightarrow> ctl \<Rightarrow> (ctl_error + bytes) \<times> ctl" where
  "add_lb_prefix6 interface_id prefix prefix_len preferred_ul g =
     add_lb_prefix_rec (is_prefix6 prefix prefix_len) interface_id True prefix prefix_len preferred_ul g"

definition del_lb_prefix :: "bytes \<Rightarrow> bytes \<Rightarrow> u32 \<Rightarrow> ctl \<Rightarrow> (ctl_error + bool) \<times> ctl" where
  "del_lb_prefix interface_id prefix prefix_len g =
     (if map_of (by_id g) interface_id = None then (Inl NoVm, g)
      else let (found, ps) = retain_prefixes (is_prefix4 prefix prefix_len) interface_id (lb_prefixes g)
           in (Inr found, g\<lparr>lb_prefixes := ps\<rparr>))"

definition del_lb_prefix6 :: "bytes \<Rightarrow> bytes \<Rightarrow> u32 \<Rightarrow> ctl \<Rightarrow> (ctl_error + bool) \<times> ctl" where
  "del_lb_prefix6 interface_id prefix prefix_len g =
     (if map_of (by_id g) interface_id = None then (Inl NoVm, g)
      else let (found, ps) = retain_prefixes (is_prefix6 prefix prefix_len) interface_id (lb_prefixes g)
           in (Inr found, g\<lparr>lb_prefixes := ps\<rparr>))"

definition list_lb_prefixes_with_underlay :: "bytes \<Rightarrow> ctl \<Rightarrow> (bytes \<times> u32 \<times> bytes \<times> bool) list" where
  "list_lb_prefixes_with_underlay interface_id g = map prefix_row (prefixes_of (lb_prefixes g) interface_id)"

definition list_lb_prefixes_all :: "ctl \<Rightarrow> (bytes \<times> u32 \<times> bytes \<times> bool) list" where
  "list_lb_prefixes_all g = concat (map (\<lambda>(_, v). map prefix_row v) (lb_prefixes g))"

section \<open>Neighbour NAT\<close>

definition nb_rows :: "NeighborNatEntry list \<Rightarrow> (u32 \<times> NeighborNatEntry) list" where
  "nb_rows es = map (\<lambda>(i, e). (of_nat i, e)) (enumerate 0 es)"

definition neigh_nat_reprogram :: "ctl \<Rightarrow> (ctl_error + unit) \<times> ctl" where
  "neigh_nat_reprogram g =
     (let n = of_nat (length (neigh_nats g));
          (err, m) = hputs (NEIGHBOR_NAT (tabs g)) (nb_rows (neigh_nats g));
          g = g\<lparr>tabs := (tabs g)\<lparr>NEIGHBOR_NAT := m\<rparr>\<rparr>
      in case err of
           Some e \<Rightarrow> (Inl (MapError e), g)
         | None \<Rightarrow>
             upd (aset (NEIGHBOR_NAT_COUNT (tabs g)) 0 n)
               (\<lambda>m g. g\<lparr>tabs := (tabs g)\<lparr>NEIGHBOR_NAT_COUNT := m\<rparr>\<rparr>) (\<lambda>g. (Inr (), g)) g)"

definition nb_clash :: "u32 \<Rightarrow> bytes \<Rightarrow> u16 \<Rightarrow> u16 \<Rightarrow> NeighborNatEntry \<Rightarrow> bool" where
  "nb_clash vni nat_ip port_min port_max e =
     (nn_nat_ip e = nat_ip \<and>
      (nn_vni e = vni \<and> nn_port_min e = port_min \<and> nn_port_max e = port_max \<or>
       nn_port_min e < port_max \<and> nn_port_max e > port_min))"

definition add_neighbor_nat :: "u32 \<Rightarrow> bytes \<Rightarrow> u16 \<Rightarrow> u16 \<Rightarrow> bytes \<Rightarrow> ctl \<Rightarrow> (ctl_error + unit) \<times> ctl" where
  "add_neighbor_nat vni nat_ip port_min port_max underlay g =
     (if length (neigh_nats g) \<ge> NB_MAX_ENTRIES then (Inl NeighborNatFull, g)
      else if list_ex (nb_clash vni nat_ip port_min port_max) (neigh_nats g) then (Inl NeighborNatExists, g)
      else neigh_nat_reprogram (g\<lparr>neigh_nats := neigh_nats g @
             [\<lparr>nn_underlay = underlay, nn_nat_ip = nat_ip, nn_vni = vni, nn_port_min = port_min,
               nn_port_max = port_max, nn_enabled = 1\<rparr>]\<rparr>))"

definition del_neighbor_nat :: "u32 \<Rightarrow> bytes \<Rightarrow> u16 \<Rightarrow> u16 \<Rightarrow> ctl \<Rightarrow> (ctl_error + bool) \<times> ctl" where
  "del_neighbor_nat vni nat_ip port_min port_max g =
     (let rest = filter (\<lambda>e. \<not> (nn_vni e = vni \<and> nn_nat_ip e = nat_ip \<and>
                               nn_port_min e = port_min \<and> nn_port_max e = port_max)) (neigh_nats g);
          g' = g\<lparr>neigh_nats := rest\<rparr>
      in if length rest = length (neigh_nats g) then (Inr False, g')
         else (case neigh_nat_reprogram g' of
                 (Inl e, g) \<Rightarrow> (Inl e, g)
               | (Inr _, g) \<Rightarrow> (Inr True, g)))"

definition list_neighbor_nats :: "ctl \<Rightarrow> NeighborNatEntry list" where
  "list_neighbor_nats g = neigh_nats g"

section \<open>Service identity\<close>

text \<open>\<^verbatim>\<open>state.rs\<close>: \<open>fresh\<close> is the version 4 UUID the generator would return now.\<close>

definition initialize :: "string \<Rightarrow> string option \<Rightarrow> string \<times> string option" where
  "initialize fresh uuid = (case uuid of Some u \<Rightarrow> (u, uuid) | None \<Rightarrow> (fresh, Some fresh))"

definition check_initialized :: "string option \<Rightarrow> string option" where
  "check_initialized uuid = uuid"

end
