(* ===== verification/Slots.thy ===== *)
theory Slots
  imports Control_Services
begin

text \<open>
  Tables the control plane keeps as numbered slots of a list: firewall rules per interface,
  neighbour NAT entries and Maglev tables are all written by the same loop over \<^verbatim>\<open>enumerate()\<close>.
  The locale \<open>slot_table\<close> states what makes this correct, that the slot keys are distinct, and
  proves once what the datapath then finds in the table.
\<close>

locale slot_table =
  fixes key :: "nat \<Rightarrow> 'k" and bound :: nat
  assumes key_inj: "i < bound \<Longrightarrow> j < bound \<Longrightarrow> key i = key j \<Longrightarrow> i = j"
begin

definition rows :: "('x \<Rightarrow> 'v) \<Rightarrow> 'x list \<Rightarrow> ('k \<times> 'v) list" where
  "rows f xs = map (\<lambda>(i, x). (key i, f x)) (enumerate 0 xs)"

lemma fst_rows: "map fst (rows f xs) = map key [0..<length xs]"
  by (rule nth_equalityI) (auto simp: rows_def nth_enumerate_eq)

lemma distinct_rows: "length xs \<le> bound \<Longrightarrow> distinct (map fst (rows f xs))"
  by (auto simp: fst_rows distinct_map inj_on_def intro: key_inj)

lemma row_mem: "i < length xs \<Longrightarrow> (key i, f (xs ! i)) \<in> set (rows f xs)"
  by (auto simp: rows_def in_set_enumerate_eq intro!: image_eqI [of _ _ "(i, xs ! i)"])

lemma written:
  assumes put: "hputs m (rows f xs) = (None, m')" and len: "length xs \<le> bound" and i: "i < length xs"
  shows "hget m' (key i) = Some (f (xs ! i))"
proof -
  have "map_of (rev (rows f xs)) (key i) = Some (f (xs ! i))"
    using row_mem [OF i, of f] distinct_rows [OF len, of f]
    by (intro map_of_is_SomeI) (simp_all add: rev_map [symmetric])
  then show ?thesis by (simp add: ht.get_puts [OF put] map_add_Some_iff)
qed

lemma unwritten:
  assumes put: "hputs m (rows f xs) = (e, m')" and k: "k \<notin> key ` {..<length xs}"
  shows "hget m' k = hget m k"
proof -
  have "fst ` set (rows f xs) = key ` {..<length xs}"
    by (metis fst_rows lessThan_atLeast0 list.set_map set_upt)
  then show ?thesis using ht.get_puts_other [OF put] k by simp
qed

end

interpretation fws: slot_table "\<lambda>i. \<lparr>fk_ifindex = ix, fk_idx = of_nat i\<rparr>" 16 for ix :: u32
  by unfold_locales (auto dest!: arg_cong [where f = unat] simp: unat_of_nat)

interpretation nbs: slot_table "of_nat :: nat \<Rightarrow> u32" 64
  by unfold_locales (auto dest!: arg_cong [where f = unat] simp: unat_of_nat)

interpretation mgs: slot_table "\<lambda>i. \<lparr>mk_table_id = t, mk_slot = of_nat i\<rparr>" 1021 for t :: u32
  by unfold_locales (auto dest!: arg_cong [where f = unat] simp: unat_of_nat)

lemma fw_rows_slots: "fw_rows ix rules = fws.rows ix snd rules"
  by (simp add: fw_rows_def fws.rows_def case_prod_beta)

lemma nb_rows_slots: "nb_rows es = nbs.rows (\<lambda>e. e) es"
  by (simp add: nb_rows_def nbs.rows_def)

lemma maglev_rows_slots: "maglev_rows t table backends = mgs.rows t (\<lambda>bi. backends ! unat bi) table"
  by (simp add: maglev_rows_def mgs.rows_def)

section \<open>A concrete state\<close>

text \<open>Two interfaces of VNI 100, used by the examples.\<close>

definition sample_iface :: "u8 \<Rightarrow> IfaceRecord" where
  "sample_iface n = \<lparr>ir_vni = 100, ir_ipv4 = [10, 0, 0, n], ir_ipv6 = replicate 16 0, ir_device = ''dtapvf_0'',
     ir_underlay = replicate 15 0 @ [n]\<rparr>"

definition sample_ctl :: ctl where
  "sample_ctl = \<lparr>tabs = fresh_maps, neigh_nats = [], lbs = [], next_table_id = 1,
     by_id = [([1], sample_iface 1), ([2], sample_iface 2)], by_ifindex = [([1], 7), ([2], 8)],
     iface_underlay = [([1], replicate 15 0 @ [1]), ([2], replicate 15 0 @ [2])], prefixes = [], fw = [],
     lb_prefixes = [], links = [], guest_tc = True, routes_shadow = [], routes6_shadow = [],
     learned_macs = []\<rparr>"

lemmas table_eval = hputs.simps hinsert_def hremove_def hdel_def hput_def hget_def hnew_def aget_def aset_def
  upd_def fresh_maps_def sample_ctl_def sample_iface_def

lemma hdels_empty: "entries m = [] \<Longrightarrow> hdels m ks = m"
  by (induction ks) (auto simp: hdel_def hremove_def hget_def)

lemma hdels_single: "entries m = [(k, v)] \<Longrightarrow> k \<in> set ks \<Longrightarrow> hdels m ks = m\<lparr>entries := []\<rparr>"
proof (induction ks arbitrary: m)
  case (Cons j ks)
  then show ?case by (cases "j = k") (simp_all add: hdels_empty hdel_def hremove_def hget_def)
qed simp

end
