(* ===== verification/Routing.thy ===== *)
theory Routing
  imports Slots
begin

text \<open>
  Routes end to end: the operations of the control plane on the tries and the longest prefix match
  the datapath gets from \<open>route_lookup\<close>. Every key carries the 32 bits of the VNI in front of the
  address and every prefix covers them, so tenants cannot reach each other's routes.
\<close>

section \<open>Tries\<close>

lemma lpm_best_filter:
  "\<forall>e \<in> set es. lpm_matches q (fst e) \<longrightarrow> P e \<Longrightarrow> lpm_best (filter P es) q = lpm_best es q"
  by (induction es q rule: lpm_best.induct) simp_all

text \<open>A key that a prefix does not match is not affected by entering or removing it.\<close>

lemma lpm_best_remove: "\<not> lpm_matches q k \<Longrightarrow> lpm_best (lpm_remove_entries k es) q = lpm_best es q"
  unfolding lpm_remove_entries_def by (rule lpm_best_filter) (use lpm_matches_same_prefix in blast)

lemma lpm_get_insert_other: "lpm_insert t k v = Inr t' \<Longrightarrow> \<not> lpm_matches q k \<Longrightarrow> lpm_get t' q = lpm_get t q"
  by (auto simp: lpm_insert_def lpm_get_def lpm_best_remove split: if_splits)

lemma lpm_get_del_other: "\<not> lpm_matches q k \<Longrightarrow> lpm_get (lpm_del t k) q = lpm_get t q"
  by (simp add: lpm_del_def lpm_get_def lpm_best_remove)

lemma lpm_get_insert_longest:
  assumes i: "lpm_insert t k v = Inr t'" and m: "lpm_matches q k"
    and longest: "\<And>k' v'. lpm_mem t k' v' \<Longrightarrow> lpm_matches q k' \<Longrightarrow> fst k' \<le> fst k"
  shows "lpm_get t' q = Some v"
proof -
  obtain k' v' where g: "lpm_get t' q = Some v'" "lpm_mem t' k' v'" "lpm_matches q k'" "fst k \<le> fst k'"
    using lt.get_longest [OF lt.ins_has [OF i] m] by blast
  from lt.ins_only [OF i g(2)] show ?thesis
  proof
    assume "lpm_mem t k' v' \<and> \<not> same_prefix k k'"
    then have "fst k' = fst k" "\<not> same_prefix k k'" using longest [of k' v'] g by simp_all
    then show ?thesis using lpm_matches_unique [OF m g(3)] by simp
  qed (use g in simp)
qed

text \<open>Entries shorter than the best match do not matter.\<close>

lemma lpm_best_filter_shorter:
  "lpm_best es q = Some (kb, vb) \<Longrightarrow> \<forall>e \<in> set es. lpm_matches q (fst e) \<longrightarrow> fst kb \<le> fst (fst e) \<longrightarrow> P e \<Longrightarrow>
     lpm_best (filter P es) q = Some (kb, vb)"
proof (induction es q arbitrary: kb vb rule: lpm_best.induct)
  case (2 k v es q)
  show ?case
  proof (cases "lpm_matches q k \<and> kb = k \<and> vb = v \<and> P (k, v)")
    case True
    have "fst k' \<le> fst k" if "lpm_best (filter P es) q = Some (k', v')" for k' v'
      using lpm_best_Some [OF that] lpm_best_Some [OF 2(3)] True by auto
    then show ?thesis using True by (auto split: option.splits)
  next
    case False
    then have "lpm_best es q = Some (kb, vb)" "lpm_matches q k \<Longrightarrow> fst k < fst kb"
      using 2(3,4) by (auto split: if_splits option.splits)
    then show ?thesis using 2 by auto
  qed
qed simp

lemma lpm_get_insert_shorter:
  assumes i: "lpm_insert t k v = Inr t'" and m: "lpm_mem t k' v'" "lpm_matches q k'" "fst k < fst k'"
  shows "lpm_get t' q = lpm_get t q"
proof -
  obtain kb vb where b: "lpm_best (lpm_entries t) q = Some (kb, vb)" "fst k' \<le> fst kb"
    using m(1,2) lpm_best_None [of "lpm_entries t" q] lpm_best_Some [of "lpm_entries t" q]
    by (metis fst_conv lpm_mem_def not_None_eq surj_pair)
  have "lpm_best (lpm_remove_entries k (lpm_entries t)) q = Some (kb, vb)"
    unfolding lpm_remove_entries_def using b m(3)
    by (intro lpm_best_filter_shorter) (auto simp: same_prefix_def)
  then have "lpm_best ((k, v) # lpm_remove_entries k (lpm_entries t)) q = Some (kb, vb)"
    using b(2) m(3) by simp
  then show ?thesis using i b(1) by (auto simp: lpm_insert_def lpm_get_def split: if_splits)
qed

section \<open>Keys\<close>

lemma length_u32_be [simp]: "length (u32_be v) = 4"
  by (simp add: u32_be_def)

lemma byte_eq_bits: "(\<And>i. i < 8 \<Longrightarrow> bit a (7 - i) = bit b (7 - i)) \<Longrightarrow> a = b" for a b :: u8
proof (rule bit_word_eqI)
  fix n assume eq: "\<And>i. i < 8 \<Longrightarrow> bit a (7 - i) = bit b (7 - i)" and "n < LENGTH(8)"
  then show "bit a n = bit b n" using eq [of "7 - n"] by simp
qed

lemma u32_be_inject [simp]: "u32_be v = u32_be w \<longleftrightarrow> v = w"
proof
  assume "u32_be v = u32_be w"
  moreover have b: "n mod 256 = m mod 256" if "(of_nat n :: u8) = of_nat m" for n m
    using arg_cong [OF that, of unat] by (simp only: unat_of_nat) simp
  ultimately have eq: "unat v div 16777216 mod 256 = unat w div 16777216 mod 256" "unat v div 65536 mod 256 = unat w div 65536 mod 256"
    "unat v div 256 mod 256 = unat w div 256 mod 256" "unat v mod 256 = unat w mod 256"
    unfolding u32_be_def list.inject by (blast intro: b)+
  have split: "x = x div 16777216 mod 256 * 16777216 + x div 65536 mod 256 * 65536 + x div 256 mod 256 * 256 + x mod 256"
    if "x < 4294967296" for x :: nat
  proof -
    define a b c where "a = x div 256" and "b = a div 256" and "c = b div 256"
    have d: "x div 256 = a" "x div 65536 = b" "x div 16777216 = c" by (simp_all add: a_def b_def c_def div_mult2_eq [symmetric])
    have "c < 256" using that by (simp add: d(3) [symmetric] div_less_iff_less_mult)
    then have c: "c mod 256 = c" by simp
    have "x = a * 256 + x mod 256" "a = b * 256 + a mod 256" "b = c * 256 + b mod 256"
      by (simp_all only: a_def b_def c_def div_mult_mod_eq)
    then have "x = ((c * 256 + b mod 256) * 256 + a mod 256) * 256 + x mod 256" by metis
    then show ?thesis unfolding d c by simp
  qed
  show "v = w" using split [of "unat v"] split [of "unat w"] eq by (simp add: word_unat_eq_iff)
qed simp

lemma key_bit_vni: "i < 32 \<Longrightarrow> key_bit (u32_be vni @ ip) i = bit (u32_be vni ! (i div 8)) (7 - i mod 8)"
  by (simp add: key_bit_def rd8_def nth_append less_mult_imp_div_less)

lemma key_bit_addr: "key_bit (u32_be vni @ ip) (32 + i) = key_bit ip i"
proof -
  have "(32 + i) div 8 = 4 + i div 8" "(32 + i) mod 8 = i mod 8" by presburger+
  then show ?thesis by (simp only: key_bit_def rd8_def) (simp add: nth_append)
qed

lemma prefix_vni:
  assumes "prefix_eq n (u32_be v @ a) (u32_be w @ b)" "32 \<le> n"
  shows "v = w"
proof -
  have "u32_be v ! j = u32_be w ! j" if "j < 4" for j
  proof (rule byte_eq_bits)
    fix i :: nat assume "i < 8"
    then have b: "8 * j + i < 32" "(8 * j + i) div 8 = j" "(8 * j + i) mod 8 = i" using that by simp_all
    then have "key_bit (u32_be v @ a) (8 * j + i) = key_bit (u32_be w @ b) (8 * j + i)"
      using assms by (simp add: prefix_eq_iff)
    then show "bit (u32_be v ! j) (7 - i) = bit (u32_be w ! j) (7 - i)" using b by (simp add: key_bit_vni)
  qed
  then have "u32_be v = u32_be w" by (intro nth_equalityI) simp_all
  then show ?thesis by simp
qed

text \<open>The addresses a route covers.\<close>

definition covers :: "bytes \<Rightarrow> u32 \<Rightarrow> bytes \<Rightarrow> bool" where
  "covers ip len dst = prefix_eq (min (unat len) 32) ip dst"

lemma route_key_matches:
  "lpm_matches (64, u32_be w @ dst) (route_key vni ip len) \<longleftrightarrow> w = vni \<and> covers ip len dst"
proof
  assume m: "lpm_matches (64, u32_be w @ dst) (route_key vni ip len)"
  then have p: "prefix_eq (32 + min (unat len) 32) (u32_be vni @ ip) (u32_be w @ dst)"
    by (simp add: lpm_matches_def route_key_def)
  then have "prefix_eq (min (unat len) 32) ip dst"
    unfolding prefix_eq_iff by (metis add_less_cancel_left key_bit_addr)
  with prefix_vni [OF p] show "w = vni \<and> covers ip len dst" by (simp add: covers_def)
next
  assume "w = vni \<and> covers ip len dst"
  then have "key_bit (u32_be vni @ ip) i = key_bit (u32_be w @ dst) i" if "i < 32 + min (unat len) 32" for i
  proof (cases "i < 32")
    case True
    then show ?thesis using that \<open>w = vni \<and> _\<close> by (simp add: key_bit_vni)
  next
    case False
    then have "i - 32 < min (unat len) 32" using that by linarith
    then show ?thesis using False \<open>w = vni \<and> _\<close> key_bit_addr [of vni _ "i - 32"]
      by (simp add: covers_def prefix_eq_iff)
  qed
  then show "lpm_matches (64, u32_be w @ dst) (route_key vni ip len)"
    by (simp add: lpm_matches_def route_key_def prefix_eq_iff)
qed

section \<open>The operations\<close>

lemma delete_route_lookup:
  "\<not> (w = vni \<and> covers ip len dst) \<Longrightarrow>
     route_lookup (tabs (snd (delete_route vni ip len g))) w dst = route_lookup (tabs g) w dst"
  by (auto simp: delete_route_def Let_def routes_remove_def set_routes_def route_lookup_def lpm_get_del_other route_key_matches)

lemma create_route_ok:
  assumes "create_route vni ip len nh nhvni ext g = (Inr (), g')"
  shows "\<exists>t. lpm_insert (ROUTES (tabs g)) (route_key vni ip len)
      \<lparr>rv_nexthop_vni = nhvni, rv_nexthop_ipv6 = nh, rv_is_external = (if ext then 1 else 0)\<rparr> = Inr t \<and> ROUTES (tabs g') = t"
  using assms by (auto simp: create_route_def upd_def set_routes_def split: if_splits sum.splits)

lemma create_route_other:
  "\<not> (w = vni \<and> covers ip len dst) \<Longrightarrow>
     route_lookup (tabs (snd (create_route vni ip len nh nhvni ext g))) w dst = route_lookup (tabs g) w dst"
  by (auto simp: create_route_def upd_def set_routes_def route_lookup_def route_key_matches
        intro: lpm_get_insert_other split: sum.splits)

lemma foldl_lookup:
  "(\<And>g x. route_lookup (tabs (f g x)) w dst = route_lookup (tabs g) w dst) \<Longrightarrow>
     route_lookup (tabs (foldl f g xs)) w dst = route_lookup (tabs g) w dst"
  by (induction xs arbitrary: g) auto

lemma delete_route6_lookup: "route_lookup (tabs (snd (delete_route6 vni ip len g))) w dst = route_lookup (tabs g) w dst"
  by (simp add: delete_route6_def Let_def routes6_remove_def set_routes6_def route_lookup_def)

text \<open>C14: VNIs are isolated in the routing table. Creating or deleting a route of one VNI, or
  resetting it, never changes where the datapath sends a packet of another VNI, whatever prefix and
  prefix length are given (lengths above 32 included).\<close>

theorem route_vni_isolation:
  assumes "w \<noteq> vni"
  shows "route_lookup (tabs (snd (create_route vni ip len nh nhvni ext g))) w dst = route_lookup (tabs g) w dst \<and>
    route_lookup (tabs (snd (delete_route vni ip len g))) w dst = route_lookup (tabs g) w dst \<and>
    route_lookup (tabs (snd (reset_vni vni g))) w dst = route_lookup (tabs g) w dst"
proof -
  have "route_lookup (tabs (snd (reset_vni vni g))) w dst = route_lookup (tabs g) w dst"
    using assms by (simp add: reset_vni_def Let_def case_prod_beta foldl_lookup delete_route_lookup delete_route6_lookup)
  then show ?thesis using assms create_route_other delete_route_lookup by auto
qed

theorem route_vni_isolation_witness:
  "(101 :: u32) \<noteq> 100 \<and>
   route_lookup (tabs (snd (create_route 100 [10, 0, 0, 0] 8 (replicate 16 1) 100 False sample_ctl))) 101 [10, 0, 0, 1] =
     route_lookup (tabs sample_ctl) 101 [10, 0, 0, 1]"
  using route_vni_isolation [of 101 100 "[10, 0, 0, 0]" 8 "replicate 16 1" 100 False sample_ctl "[10, 0, 0, 1]"] by simp

text \<open>A route of \<open>vni\<close> in the table that is longer than \<open>len\<close> bits and covers the address.\<close>

definition longer_route :: "maps \<Rightarrow> u32 \<Rightarrow> u32 \<Rightarrow> bytes \<Rightarrow> bool" where
  "longer_route s vni len dst =
     list_ex (\<lambda>(k, v). lpm_matches (64, u32_be vni @ dst) k \<and> 32 + min (unat len) 32 < fst k) (lpm_entries (ROUTES s))"

text \<open>C35: what a created route means, for every packet. After a successful \<^verbatim>\<open>create_route\<close>, a
  packet of its VNI to an address the prefix covers is sent to the new next hop unless a longer
  prefix in the table matches the address; a packet to any other address, to an address with a
  longer prefix, or of another VNI is routed as before.\<close>

theorem create_route_effect:
  assumes "create_route vni ip len nh nhvni ext g = (Inr (), g')"
  shows "route_lookup (tabs g') w dst =
    (if w = vni \<and> covers ip len dst \<and> \<not> longer_route (tabs g) vni len dst
     then Some \<lparr>rv_nexthop_vni = nhvni, rv_nexthop_ipv6 = nh, rv_is_external = (if ext then 1 else 0)\<rparr>
     else route_lookup (tabs g) w dst)"
proof (cases "w = vni \<and> covers ip len dst")
  case True
  let ?v = "\<lparr>rv_nexthop_vni = nhvni, rv_nexthop_ipv6 = nh, rv_is_external = (if ext then 1 else 0)\<rparr>"
  let ?q = "(64, u32_be vni @ dst)"
  have k: "fst (route_key vni ip len) = 32 + min (unat len) 32" by (simp add: route_key_def)
  obtain t where t: "lpm_insert (ROUTES (tabs g)) (route_key vni ip len) ?v = Inr t" "ROUTES (tabs g') = t"
    using create_route_ok [OF assms] by blast
  have m: "lpm_matches ?q (route_key vni ip len)" using True by (simp add: route_key_matches)
  show ?thesis
  proof (cases "longer_route (tabs g) vni len dst")
    case True
    then obtain k' v' where "lpm_mem (ROUTES (tabs g)) k' v'" "lpm_matches ?q k'" "fst (route_key vni ip len) < fst k'"
      unfolding longer_route_def list_ex_iff lpm_mem_def k by auto
    from lpm_get_insert_shorter [OF t(1) this] show ?thesis
      using True t(2) \<open>w = vni \<and> _\<close> by (simp add: route_lookup_def)
  next
    case False
    have "lpm_get t ?q = Some ?v"
      using False by (intro lpm_get_insert_longest [OF t(1) m]) (auto simp: longer_route_def list_ex_iff lpm_mem_def k)
    then show ?thesis using False t(2) \<open>w = vni \<and> _\<close> by (simp add: route_lookup_def)
  qed
next
  case False
  then have "\<not> (w = vni \<and> covers ip len dst \<and> \<not> longer_route (tabs g) vni len dst)" by blast
  with False show ?thesis
    using create_route_other [of w vni ip len dst nh nhvni ext g] assms by (simp only: if_False snd_conv simp_thms)
qed

theorem create_route_effect_witness:
  "\<exists>g'. create_route 100 [10, 0, 0, 0] 8 (replicate 16 1) 100 False sample_ctl = (Inr (), g') \<and>
     route_lookup (tabs g') 100 [10, 9, 8, 7] =
       Some \<lparr>rv_nexthop_vni = 100, rv_nexthop_ipv6 = replicate 16 1, rv_is_external = 0\<rparr> \<and>
     route_lookup (tabs g') 100 [11, 9, 8, 7] = route_lookup (tabs sample_ctl) 100 [11, 9, 8, 7]"
proof -
  obtain g' where g': "create_route 100 [10, 0, 0, 0] 8 (replicate 16 1) 100 False sample_ctl = (Inr (), g')"
    by (simp add: create_route_def sample_ctl_def upd_def lpm_insert_def fresh_maps_def)
  have "covers [10, 0, 0, 0] 8 [10, 9, 8, 7]" "\<not> covers [10, 0, 0, 0] 8 [11, 9, 8, 7]"
    by (simp_all add: covers_def prefix_eq_def upt_rec key_bit_def rd8_def)
  moreover have "\<not> longer_route (tabs sample_ctl) 100 8 [10, 9, 8, 7]"
    by (simp add: longer_route_def sample_ctl_def fresh_maps_def)
  ultimately show ?thesis
    using g' create_route_effect [OF g', of 100 "[10, 9, 8, 7]"] create_route_effect [OF g', of 100 "[11, 9, 8, 7]"]
    by simp
qed

end
