(* ===== verification/Fw_Refinement.thy ===== *)
theory Fw_Refinement
  imports Slots Ingress
begin

text \<open>
  The firewall end to end: the rule list an operator edits through the control plane
  (\<^verbatim>\<open>add_fw_rule\<close>, \<^verbatim>\<open>del_fw_rule\<close>) is what the datapath (\<^verbatim>\<open>fw_eval_dir\<close>) enforces. The rules
  of one interface are first-match; an interface without rules of a direction accepts; rules of
  one interface never affect another.
\<close>

section \<open>Specification\<close>

text \<open>The verdict of a rule list. A packet too short for an IPv4 header is accepted, as the code
  does.\<close>

definition fw_verdict :: "FwRule list \<Rightarrow> u8 \<Rightarrow> bytes \<Rightarrow> nat \<Rightarrow> u8" where
  "fw_verdict rules dir p off =
     (if filter (\<lambda>r. (fr_direction r = FW_DIR_EGRESS) = (dir = FW_DIR_EGRESS)) rules = [] then FW_ACTION_ACCEPT
      else if off + 20 > length p then FW_ACTION_ACCEPT
      else first_match rules dir (fw_selectors p off))"

definition fw_rules_of :: "ctl \<Rightarrow> u32 \<Rightarrow> (bytes \<times> FwRule) list" where
  "fw_rules_of g ix = (case map_of (fw g) ix of Some rs \<Rightarrow> rs | None \<Rightarrow> [])"

text \<open>An interface is in sync when the datapath decides every packet as its rule list says.\<close>

definition fw_synced :: "ctl \<Rightarrow> u32 \<Rightarrow> bool" where
  "fw_synced g ix \<longleftrightarrow>
     length (fw_rules_of g ix) \<le> 16 \<and>
     (\<forall>dir p off. fw_eval_dir (tabs g) p off ix dir = fw_verdict (map snd (fw_rules_of g ix)) dir p off)"

section \<open>Reprogramming\<close>

lemma map_filter_prefix:
  assumes "length xs \<le> n" and "\<And>j. j < n \<Longrightarrow> f j = (if j < length xs then Some (xs ! j) else None)"
  shows "List.map_filter f [0..<n] = xs"
proof -
  have split: "[0..<n] = [0..<length xs] @ [length xs..<n]"
    using upt_add_eq_append [of 0 "length xs" "n - length xs"] assms(1) by simp
  have "List.map_filter f [0..<length xs] = map ((!) xs) [0..<length xs]"
    using assms by (simp add: List.map_filter_def)
  moreover have "List.map_filter f [length xs..<n] = []"
    using assms by (simp add: List.map_filter_def filter_empty_conv)
  ultimately show ?thesis by (simp add: split List.map_filter_def map_nth)
qed

lemma fw_keys_set: "\<lparr>fk_ifindex = ix', fk_idx = j\<rparr> \<in> set (fw_keys ix) \<longleftrightarrow> ix' = ix \<and> unat j < 16"
proof -
  have "unat j < 16 \<Longrightarrow> j \<in> of_nat ` {0..<16}" by (rule image_eqI [of _ _ "unat j"]) auto
  then show ?thesis by (auto simp: fw_keys_def unat_of_nat)
qed

lemma fw_reprogram_slots:
  assumes put: "hputs (hdels m0 (fw_keys ix)) (fw_rows ix rules) = (None, m)" and len: "length rules \<le> 16"
  shows "FW_RULES s = m \<Longrightarrow> fw_slots s ix 0 = map snd rules"
    and "ix' \<noteq> ix \<Longrightarrow> hget m \<lparr>fk_ifindex = ix', fk_idx = i\<rparr> = hget m0 \<lparr>fk_ifindex = ix', fk_idx = i\<rparr>"
proof -
  have other: "hget m k = hget (hdels m0 (fw_keys ix)) k"
    if "k \<notin> (\<lambda>i. \<lparr>fk_ifindex = ix, fk_idx = of_nat i\<rparr>) ` {..<length rules}" for k
    using fws.unwritten [OF put [unfolded fw_rows_slots]] that by simp
  have slot: "hget m \<lparr>fk_ifindex = ix, fk_idx = of_nat j\<rparr> =
      (if j < length (map snd rules) then Some (map snd rules ! j) else None)" if "j < 16" for j
  proof (cases "j < length rules")
    case True
    then show ?thesis using fws.written [OF put [unfolded fw_rows_slots] len] by simp
  next
    case False
    have "hget m \<lparr>fk_ifindex = ix, fk_idx = of_nat j\<rparr> = hget (hdels m0 (fw_keys ix)) \<lparr>fk_ifindex = ix, fk_idx = of_nat j\<rparr>"
      using False that len by (intro other) (auto dest!: arg_cong [where f = unat] simp: unat_of_nat)
    then show ?thesis using False that by (simp add: ht.get_dels fw_keys_set unat_of_nat)
  qed
  show "fw_slots s ix 0 = map snd rules" if "FW_RULES s = m"
    unfolding fw_slots_def by (rule map_filter_prefix) (use slot len that in auto)
  show "hget m \<lparr>fk_ifindex = ix', fk_idx = i\<rparr> = hget m0 \<lparr>fk_ifindex = ix', fk_idx = i\<rparr>" if "ix' \<noteq> ix"
    using that by (subst other) (auto simp: ht.get_dels fw_keys_set)
qed

lemma fw_counts_zero:
  "length rules \<le> 16 \<Longrightarrow>
     ((if dir = FW_DIR_EGRESS then fm_egress_count (fw_counts rules) else fm_ingress_count (fw_counts rules)) = 0) \<longleftrightarrow>
     filter (\<lambda>r. (fr_direction r = FW_DIR_EGRESS) = (dir = FW_DIR_EGRESS)) (map snd rules) = []"
proof -
  assume len: "length rules \<le> 16"
  have zero: "(of_nat (length (filter P rules)) = (0 :: u32)) = (filter P rules = [])" for P
  proof -
    have "length (filter P rules) \<le> 16" using length_filter_le [of P rules] len by (rule le_trans)
    then have "length (filter P rules) < 2 ^ 32" by simp
    then have u: "unat (of_nat (length (filter P rules)) :: u32) = length (filter P rules)"
      by (simp add: unat_of_nat)
    show ?thesis
    proof
      assume "of_nat (length (filter P rules)) = (0 :: u32)"
      then have "length (filter P rules) = 0" using u by (metis unat_0)
      then show "filter P rules = []" by (rule length_0_conv [THEN iffD1])
    qed simp
  qed
  show ?thesis
    by (auto simp: fw_counts_def zero filter_empty_conv)
qed

lemma fw_reprogram_synced:
  assumes ok: "fw_reprogram ix g = (Inr (), g')" and len: "length (fw_rules_of g ix) \<le> 16"
  shows "fw g' = fw g" "by_ifindex g' = by_ifindex g" "fw_synced g' ix"
    and "ix' \<noteq> ix \<Longrightarrow> fw_eval_dir (tabs g') p off ix' dir = fw_eval_dir (tabs g) p off ix' dir"
proof -
  let ?rules = "fw_rules_of g ix"
  obtain m mm where put: "hputs (hdels (FW_RULES (tabs g)) (fw_keys ix)) (fw_rows ix ?rules) = (None, m)"
    and meta: "hinsert (FW_META (tabs g)) ix (fw_counts ?rules) = Inr mm"
    and g': "g' = g\<lparr>tabs := (tabs g)\<lparr>FW_RULES := m, FW_META := mm\<rparr>\<rparr>"
    using ok by (auto simp: fw_reprogram_def fw_rules_of_def upd_def Let_def
        split: option.splits sum.splits prod.splits)
  show "fw g' = fw g" "by_ifindex g' = by_ifindex g" by (simp_all add: g')
  have rules: "fw_rules_of g' ix = ?rules" by (simp add: g' fw_rules_of_def)
  have "fw_eval_dir (tabs g') p off ix dir = fw_verdict (map snd ?rules) dir p off" for p off dir
    using fw_counts_zero [OF len, of dir] fw_reprogram_slots(1) [OF put len, of "tabs g'"]
    by (simp add: fw_eval_dir_def fw_verdict_def g' hget_hinsert [OF meta] fw_scan_first_match Let_def
        split: if_splits)
  then show "fw_synced g' ix" using len by (simp add: fw_synced_def rules)
  show "fw_eval_dir (tabs g') p off ix' dir = fw_eval_dir (tabs g) p off ix' dir" if ne: "ix' \<noteq> ix"
  proof -
    have "fw_slots (tabs g') ix' 0 = fw_slots (tabs g) ix' 0"
      by (simp add: fw_slots_def g' fw_reprogram_slots(2) [OF put len ne])
    then show ?thesis using ne
      by (simp add: fw_eval_dir_def g' hget_hinsert [OF meta] fw_scan_first_match Let_def split: option.splits)
  qed
qed

section \<open>The operations\<close>

lemma add_fw_rule_cases:
  assumes "add_fw_rule iid rid rule g = (Inr (), g')" "map_of (by_ifindex g) iid = Some ix"
  shows "\<exists>g1. fw_reprogram ix g1 = (Inr (), g') \<and> fw_rules_of g1 ix = fw_rules_of g ix @ [(rid, rule)] \<and>
           length (fw_rules_of g1 ix) \<le> 16 \<and> (\<forall>ix'. ix' \<noteq> ix \<longrightarrow> fw_rules_of g1 ix' = fw_rules_of g ix') \<and>
           tabs g1 = tabs g \<and> by_ifindex g1 = by_ifindex g"
  using assms
  by (intro exI [of _ "g\<lparr>fw := AList.update ix (fw_rules_of g ix @ [(rid, rule)]) (AList.update ix (fw_rules_of g ix) (fw g))\<rparr>"])
     (auto simp: add_fw_rule_def fw_rules_of_def Let_def update_conv' split: if_splits)

lemma del_fw_rule_cases:
  assumes "del_fw_rule iid rid g = (Inr True, g')" "map_of (by_ifindex g) iid = Some ix"
  shows "\<exists>g1. fw_reprogram ix g1 = (Inr (), g') \<and>
           fw_rules_of g1 ix = filter (\<lambda>(i, _). i \<noteq> rid) (fw_rules_of g ix) \<and>
           (\<forall>ix'. ix' \<noteq> ix \<longrightarrow> fw_rules_of g1 ix' = fw_rules_of g ix') \<and>
           tabs g1 = tabs g \<and> by_ifindex g1 = by_ifindex g"
  using assms
  by (intro exI [of _ "g\<lparr>fw := AList.update ix (filter (\<lambda>(i, _). i \<noteq> rid) (fw_rules_of g ix)) (fw g)\<rparr>"])
     (auto simp: del_fw_rule_def fw_rules_of_def Let_def update_conv' split: if_splits sum.splits prod.splits)

lemma fw_synced_other:
  "fw_eval_dir (tabs g') = fw_eval_dir (tabs g) \<Longrightarrow> fw g' = fw g \<Longrightarrow> fw_synced g' ix = fw_synced g ix"
  by (simp add: fw_synced_def fw_rules_of_def)

text \<open>C2: adding a firewall rule takes effect and only where it should. When \<^verbatim>\<open>add_fw_rule\<close>
  succeeds on an interface, the rule is appended to the list \<^verbatim>\<open>list_fw_rules\<close> reports, and from
  then on \<^verbatim>\<open>fw_eval_dir\<close> decides every packet of that interface, in both directions, by the
  first matching rule of exactly that list (accept when the direction has no rules); packets of
  every other interface are decided as before.\<close>

theorem fw_add_enforced:
  assumes ok: "add_fw_rule iid rid rule g = (Inr (), g')" and ix: "map_of (by_ifindex g) iid = Some ix"
  shows "list_fw_rules iid g' = list_fw_rules iid g @ [(rid, rule)] \<and>
     fw_eval_dir (tabs g') p off ix dir = fw_verdict (map snd (list_fw_rules iid g')) dir p off \<and>
     (ix' = ix \<or> fw_eval_dir (tabs g') p off ix' dir = fw_eval_dir (tabs g) p off ix' dir)"
proof -
  obtain g1 where g1: "fw_reprogram ix g1 = (Inr (), g')" "fw_rules_of g1 ix = fw_rules_of g ix @ [(rid, rule)]"
    "length (fw_rules_of g1 ix) \<le> 16" "tabs g1 = tabs g" "by_ifindex g1 = by_ifindex g"
    using add_fw_rule_cases [OF ok ix] by blast
  note r = fw_reprogram_synced [OF g1(1,3)]
  have l: "list_fw_rules iid g' = fw_rules_of g1 ix" "list_fw_rules iid g = fw_rules_of g ix"
    using ix r(1,2) g1(5) by (simp_all add: list_fw_rules_def fw_rules_of_def)
  have "fw_rules_of g' ix = fw_rules_of g1 ix" using r(1) by (simp add: fw_rules_of_def)
  then have "fw_eval_dir (tabs g') p off ix dir = fw_verdict (map snd (list_fw_rules iid g')) dir p off"
    using r(3) l(1) by (simp add: fw_synced_def)
  moreover have "ix' \<noteq> ix \<Longrightarrow> fw_eval_dir (tabs g') p off ix' dir = fw_eval_dir (tabs g) p off ix' dir"
    using r(4) g1(4) by simp
  ultimately show ?thesis using l g1(2) by auto
qed

text \<open>C26: removing a firewall rule keeps the datapath in step. On an interface whose rules are in
  sync, a successful \<^verbatim>\<open>del_fw_rule\<close> removes exactly the rules with that id, the datapath then
  enforces the remaining list, and other interfaces are not affected.\<close>

theorem fw_del_enforced:
  assumes ok: "del_fw_rule iid rid g = (Inr True, g')" and ix: "map_of (by_ifindex g) iid = Some ix"
    and sync: "fw_synced g ix"
  shows "list_fw_rules iid g' = filter (\<lambda>(i, _). i \<noteq> rid) (list_fw_rules iid g) \<and> fw_synced g' ix \<and>
     (ix' = ix \<or> fw_eval_dir (tabs g') p off ix' dir = fw_eval_dir (tabs g) p off ix' dir)"
proof -
  obtain g1 where g1: "fw_reprogram ix g1 = (Inr (), g')"
    "fw_rules_of g1 ix = filter (\<lambda>(i, _). i \<noteq> rid) (fw_rules_of g ix)" "tabs g1 = tabs g" "by_ifindex g1 = by_ifindex g"
    using del_fw_rule_cases [OF ok ix] by blast
  have "length (fw_rules_of g1 ix) \<le> 16"
    using sync le_trans [OF length_filter_le [of "\<lambda>(i, _). i \<noteq> rid" "fw_rules_of g ix"]]
    by (simp add: g1(2) fw_synced_def)
  note r = fw_reprogram_synced [OF g1(1) this]
  have "list_fw_rules iid g' = fw_rules_of g1 ix" "list_fw_rules iid g = fw_rules_of g ix"
    using ix r(1,2) g1(4) by (simp_all add: list_fw_rules_def fw_rules_of_def)
  then show ?thesis using r(3) r(4) [of ix'] g1(2,3) by auto
qed

section \<open>Examples\<close>

definition sample_rule :: FwRule where
  "sample_rule = \<lparr>fr_src_ip = [10, 0, 0, 0], fr_src_mask = [255, 0, 0, 0], fr_dst_ip = [0, 0, 0, 0],
     fr_dst_mask = [0, 0, 0, 0], fr_src_port_min = 0, fr_src_port_max = 65535, fr_dst_port_min = 80,
     fr_dst_port_max = 80, fr_icmp_type = 65535, fr_icmp_code = 65535, fr_proto = 6, fr_action = 1,
     fr_direction = 1, fr_enabled = 1\<rparr>"

definition sample_fw :: ctl where
  "sample_fw = sample_ctl\<lparr>fw := [(7, [([2], sample_rule)])],
     tabs := fresh_maps\<lparr>FW_RULES := \<lparr>max_entries = 16384, entries = [(\<lparr>fk_ifindex = 7, fk_idx = 0\<rparr>, sample_rule)]\<rparr>,
                         FW_META := \<lparr>max_entries = 1024, entries = [(7, \<lparr>fm_ingress_count = 0, fm_egress_count = 1\<rparr>)]\<rparr>\<rparr>\<rparr>"

lemma sample_add: "fst (add_fw_rule [1] [2] sample_rule sample_ctl) = Inr ()"
  by (simp add: add_fw_rule_def fw_reprogram_def hdels_empty fw_rows_def table_eval Let_def)

lemma sample_fw_programmed:
  "fw_reprogram 7 (sample_ctl\<lparr>fw := [(7, [([2], sample_rule)])]\<rparr>) = (Inr (), sample_fw)"
  by (simp add: fw_reprogram_def hdels_empty fw_rows_def fw_counts_def table_eval Let_def sample_fw_def sample_rule_def)

lemma sample_fw_synced: "fw_synced sample_fw 7"
  by (rule fw_reprogram_synced(3) [OF sample_fw_programmed]) (simp add: fw_rules_of_def)

lemma sample_fw_ifindex: "map_of (by_ifindex sample_fw) [1] = Some 7"
  by (simp add: sample_fw_def sample_ctl_def)

lemma sample_del: "fst (del_fw_rule [1] [2] sample_fw) = Inr True"
  by (simp add: del_fw_rule_def fw_reprogram_def hdels_single fw_keys_set fw_rows_def table_eval Let_def sample_fw_def)

theorem fw_add_enforced_witness:
  "\<exists>g'. add_fw_rule [1] [2] sample_rule sample_ctl = (Inr (), g') \<and>
     list_fw_rules [1] g' = list_fw_rules [1] sample_ctl @ [([2], sample_rule)] \<and>
     fw_eval_dir (tabs g') sample_syn 14 7 1 = fw_verdict (map snd (list_fw_rules [1] g')) 1 sample_syn 14 \<and>
     fw_eval_dir (tabs g') sample_syn 14 8 1 = fw_eval_dir (tabs sample_ctl) sample_syn 14 8 1"
proof -
  obtain g' where g': "add_fw_rule [1] [2] sample_rule sample_ctl = (Inr (), g')"
    using sample_add by (metis prod.collapse)
  have ix: "map_of (by_ifindex sample_ctl) [1] = Some 7" by (simp add: sample_ctl_def)
  show ?thesis using g' fw_add_enforced [OF g' ix, of sample_syn 14 1 8] by auto
qed

theorem fw_del_enforced_witness:
  "\<exists>g'. del_fw_rule [1] [2] sample_fw = (Inr True, g') \<and> list_fw_rules [1] g' = [] \<and> fw_synced g' 7 \<and>
     fw_eval_dir (tabs g') sample_syn 14 8 1 = fw_eval_dir (tabs sample_fw) sample_syn 14 8 1"
proof -
  obtain g' where g': "del_fw_rule [1] [2] sample_fw = (Inr True, g')"
    using sample_del by (metis prod.collapse)
  have "list_fw_rules [1] sample_fw = [([2], sample_rule)]"
    by (simp add: list_fw_rules_def sample_fw_def sample_ctl_def)
  then show ?thesis
    using g' fw_del_enforced [OF g' sample_fw_ifindex sample_fw_synced, of 8 sample_syn 14 1] by auto
qed

section \<open>Enforcement in the pipeline\<close>

lemma arp_nd_not_ip:
  assumes "rd16 (pkt ctx) 12 = ETH_P_IP"
  shows "try_arp_reply ctx meta = None" "try_nd_reply ctx meta = None"
  using assms by (auto simp: try_arp_reply_def try_nd_reply_def try_write_arp_reply_def try_write_nd_reply_def Let_def)

text \<open>A denied flow does not leave the guest: while enforcement is on, an IPv4 packet that belongs
  to no tracked flow and that the slots of its interface deny is dropped by \<^verbatim>\<open>guest_tx\<close>; no table
  changes, so nothing is tracked, translated or charged for it.\<close>

lemma guest_tx_fw_drop:
  assumes "hget (PORT_META s) (ingress_ifindex ctx) = Some meta"
    and "34 \<le> length (pkt ctx)" "rd16 (pkt ctx) 12 = ETH_P_IP" "\<not> is_dhcp_request (pkt ctx)"
    and "ct_key (pkt ctx) 14 (pm_vni meta) = Some key" "CONNTRACK s key = None"
    and "fw_enforcing s" "fw_eval_dir s (pkt ctx) 14 (ingress_ifindex ctx) FW_DIR_EGRESS = FW_ACTION_DROP"
  shows "guest_tx now tail_ok ctx s = (XDP_DROP, ctx, s)"
  using assms arp_nd_not_ip [OF assms(3)]
  by (simp add: guest_tx_def try_guest_tx_def forward_decision_v4_def egress_ct_fw_def execute_verdict_def)

lemma meter_pass_conntrack: "meter_pass now ix n ext s = (b, s') \<Longrightarrow> CONNTRACK s' = CONNTRACK s"
  by (auto simp: meter_pass_def Let_def split: option.splits if_splits prod.splits)

text \<open>C6: the firewall is stateful, for flows that are not translated. When a new flow of a guest
  leaves (delivered locally or encapsulated) and neither its source nor its destination has a VIP
  and its source has no NAT, then packets of the opposite direction pass the ingress firewall of any
  interface of the network, whatever its rules are. (For a translated flow only the translated key is
  entered, so its replies are matched against the ingress rules once they are translated back.)\<close>

theorem fw_reply_admitted:
  assumes fd: "forward_decision_v4 now p ifindex meta s = (v, p', s')" "v \<noteq> Pass" "v \<noteq> Drop"
    and key: "ct_key p 14 (pm_vni meta) = Some key" "CONNTRACK s key = None"
    and plain: "hget (VIPS s) \<lparr>vk_vni = pm_vni meta, vk_ipv4 = ck_src_ip key\<rparr> = None"
      "hget (VIPS s) \<lparr>vk_vni = pm_vni meta, vk_ipv4 = ck_dst_ip key\<rparr> = None"
      "hget (NAT s) \<lparr>nk_vni = pm_vni meta, nk_ipv4 = ck_src_ip key\<rparr> = None"
    and reply: "ct_key q 54 (pm_vni meta) = Some (invert_key key)"
  shows "\<not> ingress_fw_drops q (pm_vni meta) tap s'"
proof -
  let ?vni = "pm_vni meta"
  have vips: "snat_egress s p 14 ?vni = p" "dnat_egress s p 14 ?vni = p"
    using ct_key_fields [OF key(1)] plain(1,2)
    by (simp_all add: snat_egress_def dnat_egress_def rewrite_raw_miss)
  have nat: "nat_snat_egress now p 14 ?vni ext s = (False, p, s)" for ext
    using ct_key_fields [OF key(1)] plain(3) by (simp add: nat_snat_egress_def Let_def)
  obtain ext b where "meter_pass now ifindex (of_nat (length p)) ext (egress_track now p ?vni s) = (b, s')"
    using fd key by (auto simp: forward_decision_v4_def egress_ct_fw_def vips nat Let_def
        split: if_splits option.splits prod.splits)
  then have "CONNTRACK s' = CONNTRACK (egress_track now p ?vni s)" by (rule meter_pass_conntrack)
  then have "CONNTRACK s' (invert_key key) \<noteq> None"
    using key by (simp add: egress_track_def ct_ensure_default_def Let_def)
  then show ?thesis using reply by (simp add: ingress_fw_drops_def)
qed

definition sample_meta :: PortMeta where
  "sample_meta = \<lparr>pm_vni = 100, pm_guest_ipv4 = [10, 0, 0, 1], pm_gateway_ipv4 = [10, 0, 0, 254],
     pm_guest_mac = [2, 0, 0, 0, 0, 1], pm_underlay_ipv6 = replicate 15 0 @ [1],
     pm_gateway_ipv6 = replicate 16 0, pm_guest_ipv6 = replicate 16 0\<rparr>"

definition sample_routed :: maps where
  "sample_routed = fresh_maps\<lparr>ROUTES := \<lparr>lpm_max = 65536, lpm_entries =
     [((64, u32_be 100 @ [10, 0, 0, 2]), \<lparr>rv_nexthop_vni = 100, rv_nexthop_ipv6 = replicate 15 0 @ [9], rv_is_external = 0\<rparr>)]\<rparr>,
     PORT_META := hput (hnew 1024) 7 sample_meta\<rparr>"

text \<open>The encapsulated answer to \<open>sample_syn\<close>.\<close>

definition sample_reply :: bytes where
  "sample_reply = replicate 54 0 @ [69, 0, 0, 40, 0, 1, 0, 0, 64, 6, 102, 205, 10, 0, 0, 2, 10, 0, 0, 1,
     0, 80, 48, 57, 0, 0, 0, 1, 0, 0, 0, 0, 80, 18, 255, 255, 107, 86, 0, 0]"

lemma hget_hnew [simp]: "hget (hnew n) k = None"
  by (simp add: hget_def hnew_def)

lemma sample_routed_sel [simp]:
  "VIPS sample_routed = hnew 1024" "NAT sample_routed = hnew 1024" "UNDERLAY sample_routed = hnew 4096"
  "METER sample_routed = hnew 1024" "FW_META sample_routed = hnew 1024" "LOCAL sample_routed = [zero_local]"
  "CONNTRACK sample_routed = Map.empty"
  by (simp_all add: sample_routed_def fresh_maps_def)

lemma length_sample_syn: "length sample_syn = 54"
  by (simp add: sample_syn_def)

lemma sample_routed_forwards:
  "\<exists>e s'. forward_decision_v4 5 sample_syn 7 sample_meta sample_routed = (Encap e, sample_syn, s') \<and> ep_inner_len e = 40"
proof -
  have fields: "rdn sample_syn 26 4 = [10, 0, 0, 1]" "rdn sample_syn 30 4 = [10, 0, 0, 2]"
    by (simp_all add: sample_syn_def packet_eval)
  have miss: "snat_egress sample_routed sample_syn 14 100 = sample_syn" "dnat_egress sample_routed sample_syn 14 100 = sample_syn"
    by (simp_all add: snat_egress_def dnat_egress_def rewrite_raw_miss)
  have route: "route_lookup sample_routed 100 [10, 0, 0, 2] =
      Some \<lparr>rv_nexthop_vni = 100, rv_nexthop_ipv6 = replicate 15 0 @ [9], rv_is_external = 0\<rparr>"
    by (simp add: route_lookup_def lpm_get_def sample_routed_def lpm_matches_def)
  have fw: "egress_ct_fw 5 sample_syn 7 100 sample_routed = Some (sample_syn, sample_routed)"
    by (simp add: egress_ct_fw_def ct_key_sample fw_eval_dir_def)
  have track: "\<exists>ct. egress_track 5 sample_syn 100 sample_routed = sample_routed\<lparr>CONNTRACK := ct\<rparr>"
    by (auto simp: egress_track_def ct_key_sample ct_ensure_default_def Let_def)
  then obtain ct where ct: "egress_track 5 sample_syn 100 sample_routed = sample_routed\<lparr>CONNTRACK := ct\<rparr>" ..
  show ?thesis
    by (simp add: forward_decision_v4_def sample_meta_def fw miss fields route nat_snat_egress_def ct meter_pass_def
        deliver_or_encap_def aget_def length_sample_syn)
qed

theorem fw_reply_admitted_witness:
  "\<not> ingress_fw_drops sample_reply 100 8 (snd (snd (forward_decision_v4 5 sample_syn 7 sample_meta sample_routed)))"
proof -
  obtain e s' where fd: "forward_decision_v4 5 sample_syn 7 sample_meta sample_routed = (Encap e, sample_syn, s')"
    using sample_routed_forwards by blast
  have vni: "pm_vni sample_meta = 100" by (simp add: sample_meta_def)
  have reply: "ct_key sample_reply 54 (pm_vni sample_meta) = Some (invert_key sample_key)"
    by (simp add: ct_key_def l4_ports_def ihl_bytes_def sample_reply_def sample_key_def invert_key_def packet_eval
        sample_meta_def nth_append)
  have key: "ct_key sample_syn 14 (pm_vni sample_meta) = Some sample_key" by (simp add: vni ct_key_sample)
  show ?thesis
    using fw_reply_admitted [OF fd _ _ key _ _ _ _ reply, of 8] by (simp add: fd vni)
qed

end
