(* ===== verification/Lb_Refinement.thy ===== *)
theory Lb_Refinement
  imports Slots Lb
begin

text \<open>
  Load balancing end to end: what \<^verbatim>\<open>create_lb\<close>, \<^verbatim>\<open>add_lb_target\<close> and \<^verbatim>\<open>del_lb_target\<close> write is
  what the selectors of the datapath read. The state of one balancer is \<open>lb_serves\<close>: all its
  services are in \<^verbatim>\<open>LB\<close>, and every slot of its Maglev table names one of its targets (or the
  table is empty when there is none).
\<close>

section \<open>The contract\<close>

definition lb_slots_ok :: "(MaglevKey, bytes) hmap \<Rightarrow> u32 \<Rightarrow> bytes list \<Rightarrow> bool" where
  "lb_slots_ok m tid backends \<longleftrightarrow>
     (\<forall>slot < 1021. hget m \<lparr>mk_table_id = tid, mk_slot = slot\<rparr> \<in>
        (if backends = [] then {None} else Some ` set backends))"

definition lb_serves :: "ctl \<Rightarrow> bytes \<Rightarrow> LbEntry \<Rightarrow> bool" where
  "lb_serves g lid e \<longleftrightarrow>
     map_of (lbs g) lid = Some e \<and>
     (\<forall>k \<in> set (lb_services (le_vni e) (last4 (le_ip e)) (le_ports e)).
        hget (LB (tabs g)) k = Some \<lparr>lv_table_id = le_table_id e, lv_size = 1021\<rparr>) \<and>
     lb_slots_ok (MAGLEV (tabs g)) (le_table_id e) (le_backends e)"

lemma lb_serves_select:
  assumes "lb_serves g lid e" "(port, proto) \<in> set (le_ports e)"
  shows "maglev_select (tabs g) \<lparr>lk_vni = le_vni e, lk_ipv4 = last4 (le_ip e), lk_port = port, lk_proto = proto\<rparr> h
           \<in> (if le_backends e = [] then {None} else Some ` set (le_backends e))"
proof -
  have "\<lparr>lk_vni = le_vni e, lk_ipv4 = last4 (le_ip e), lk_port = port, lk_proto = proto\<rparr> \<in>
      set (lb_services (le_vni e) (last4 (le_ip e)) (le_ports e))"
    using assms(2) by (force simp: lb_services_def)
  moreover have "h mod 1021 < 1021" by (rule word_mod_less_divisor) simp
  ultimately show ?thesis using assms(1)
    unfolding lb_serves_def lb_slots_ok_def maglev_select_def by simp
qed

lemma lb_serves_forward:
  assumes "lb_serves g lid e" "flow_of p off = Some (src, last4 (le_ip e), proto, sport, dport)"
    "((if proto = 1 then 0 else dport), proto) \<in> set (le_ports e)"
  shows "lb_select_forward (tabs g) p off (le_vni e)
           \<in> (if le_backends e = [] then {None} else Some ` set (le_backends e))"
  unfolding lb_select_forward_flow [OF assms(2)] by (rule lb_serves_select [OF assms(1,3)])

section \<open>Writing a table\<close>

lemma write_maglev_ok:
  assumes w: "write_maglev tid backends g = (Inr (), g')" and ne: "backends \<noteq> []"
  shows "lb_slots_ok (MAGLEV (tabs g')) tid backends" "lbs g' = lbs g" "LB (tabs g') = LB (tabs g)"
    and "tid' \<noteq> tid \<Longrightarrow> lb_slots_ok (MAGLEV (tabs g')) tid' bs = lb_slots_ok (MAGLEV (tabs g)) tid' bs"
proof -
  obtain table where t: "maglev_build backends = Some table" "length table = 1021"
    "\<forall>v \<in> set table. unat v < length backends"
    using maglev_build_entries [OF ne] by blast
  obtain m where put: "hputs (MAGLEV (tabs g)) (maglev_rows tid table backends) = (None, m)"
    and g': "g' = g\<lparr>tabs := (tabs g)\<lparr>MAGLEV := m\<rparr>\<rparr>"
    using w t(1) by (auto simp: write_maglev_def Let_def split: option.splits prod.splits)
  show "lbs g' = lbs g" "LB (tabs g') = LB (tabs g)" by (simp_all add: g')
  have "hget m \<lparr>mk_table_id = tid, mk_slot = slot\<rparr> \<in> Some ` set backends" if "slot < 1021" for slot
  proof -
    have u: "unat slot < length table" using that t(2) by (simp add: word_less_nat_alt)
    have "hget m \<lparr>mk_table_id = tid, mk_slot = slot\<rparr> = Some (backends ! unat (table ! unat slot))"
      using mgs.written [OF put [unfolded maglev_rows_slots], of "unat slot"] u t(2) by simp
    moreover have "unat (table ! unat slot) < length backends" using t(3) u by simp
    ultimately show ?thesis by simp
  qed
  then show "lb_slots_ok (MAGLEV (tabs g')) tid backends" using ne by (simp add: lb_slots_ok_def g')
  have "hget m \<lparr>mk_table_id = tid', mk_slot = slot\<rparr> = hget (MAGLEV (tabs g)) \<lparr>mk_table_id = tid', mk_slot = slot\<rparr>"
    if "tid' \<noteq> tid" for slot
    using mgs.unwritten [OF put [unfolded maglev_rows_slots]] that by (auto simp: image_iff)
  then show "tid' \<noteq> tid \<Longrightarrow> lb_slots_ok (MAGLEV (tabs g')) tid' bs = lb_slots_ok (MAGLEV (tabs g)) tid' bs"
    by (simp add: lb_slots_ok_def g')
qed

lemma maglev_slots_set: "\<lparr>mk_table_id = t', mk_slot = j\<rparr> \<in> set (maglev_slots t) \<longleftrightarrow> t' = t \<and> unat j < 1021"
proof -
  have "unat j < 1021 \<Longrightarrow> j \<in> of_nat ` {0..<1021}" by (rule image_eqI [of _ _ "unat j"]) auto
  then show ?thesis by (auto simp: maglev_slots_def unat_of_nat)
qed

lemma clear_maglev_ok: "lb_slots_ok (hdels m (maglev_slots tid)) tid []"
  by (simp add: lb_slots_ok_def ht.get_dels maglev_slots_set word_less_nat_alt)

section \<open>The operations\<close>

lemma add_lb_target_serves:
  assumes ok: "add_lb_target lid b g = (Inr (), g')" and s: "lb_serves g lid e"
  shows "lb_serves g' lid (e\<lparr>le_backends := le_backends e @ [b]\<rparr>)" "b \<notin> set (le_backends e)"
proof -
  have e: "map_of (lbs g) lid = Some e" using s by (simp add: lb_serves_def)
  let ?g = "g\<lparr>lbs := AList.update lid (e\<lparr>le_backends := le_backends e @ [b]\<rparr>) (lbs g)\<rparr>"
  show "b \<notin> set (le_backends e)" using ok e by (auto simp: add_lb_target_def split: if_splits)
  have w: "write_maglev (le_table_id e) (le_backends e @ [b]) ?g = (Inr (), g')"
    using ok e by (auto simp: add_lb_target_def Let_def split: if_splits)
  show "lb_serves g' lid (e\<lparr>le_backends := le_backends e @ [b]\<rparr>)"
    using write_maglev_ok(1-3) [OF w] s by (simp add: lb_serves_def update_conv')
qed

lemma del_lb_target_serves:
  assumes ok: "del_lb_target lid b g = (Inr True, g')" and s: "lb_serves g lid e"
  shows "lb_serves g' lid (e\<lparr>le_backends := filter (\<lambda>x. x \<noteq> b) (le_backends e)\<rparr>)"
proof -
  have e: "map_of (lbs g) lid = Some e" using s by (simp add: lb_serves_def)
  define bs where "bs = filter (\<lambda>x. x \<noteq> b) (le_backends e)"
  let ?g = "g\<lparr>lbs := AList.update lid (e\<lparr>le_backends := bs\<rparr>) (lbs g)\<rparr>"
  show ?thesis unfolding bs_def [symmetric]
  proof (cases "bs = []")
    case True
    then have "g' = ?g\<lparr>tabs := (tabs g)\<lparr>MAGLEV := hdels (MAGLEV (tabs g)) (maglev_slots (le_table_id e))\<rparr>\<rparr>"
      using ok e by (auto simp: del_lb_target_def Let_def bs_def split: if_splits)
    then show "lb_serves g' lid (e\<lparr>le_backends := bs\<rparr>)"
      using s True clear_maglev_ok by (simp add: lb_serves_def update_conv')
  next
    case False
    then have w: "write_maglev (le_table_id e) bs ?g = (Inr (), g')"
      using ok e by (auto simp: del_lb_target_def Let_def bs_def split: if_splits sum.splits prod.splits)
    show "lb_serves g' lid (e\<lparr>le_backends := bs\<rparr>)"
      using write_maglev_ok(1-3) [OF w False] s by (simp add: lb_serves_def update_conv')
  qed
qed

lemma create_lb_serves:
  assumes ok: "create_lb lid vni ip ul ports g = (Inr (), g')"
    and fresh: "lb_slots_ok (MAGLEV (tabs g)) (next_table_id g) []"
  shows "lb_serves g' lid \<lparr>le_vni = vni, le_ip = ip, le_lb_underlay = ul, le_ports = ports,
           le_table_id = next_table_id g, le_backends = []\<rparr>"
proof -
  let ?ks = "lb_services vni (last4 ip) ports" and ?v = "\<lparr>lv_table_id = next_table_id g, lv_size = 1021\<rparr>"
  obtain m where put: "hputs (LB (tabs g)) (map (\<lambda>k. (k, ?v)) ?ks) = (None, m)"
    and g': "LB (tabs g') = m" "MAGLEV (tabs g') = MAGLEV (tabs g)"
      "lbs g' = AList.update lid \<lparr>le_vni = vni, le_ip = ip, le_lb_underlay = ul, le_ports = ports,
           le_table_id = next_table_id g, le_backends = []\<rparr> (lbs g)"
    using ok by (auto simp: create_lb_def Let_def upd_def split: if_splits option.splits sum.splits prod.splits)
  have "hget m k = Some ?v" if "k \<in> set ?ks" for k
  proof -
    have "map_of (rev (map (\<lambda>k. (k, ?v)) ?ks)) k = Some ?v"
      using that by (simp add: rev_map map_of_map_restrict)
    then show ?thesis by (simp add: ht.get_puts [OF put])
  qed
  then show ?thesis using g' fresh by (simp add: lb_serves_def update_conv')
qed

text \<open>C7: a new target takes part in the balancing at once, and nothing else does. When
  \<^verbatim>\<open>add_lb_target\<close> succeeds on a balancer whose tables are in sync, they stay in sync, the target
  is appended to the list \<^verbatim>\<open>list_lb_targets\<close> reports, and every IPv4 packet to one of the
  balancer's services is forwarded to one of the listed targets.\<close>

theorem lb_target_added:
  assumes ok: "add_lb_target lid b g = (Inr (), g')" and s: "lb_serves g lid e"
    and p: "flow_of p off = Some (src, last4 (le_ip e), proto, sport, dport)"
      "((if proto = 1 then 0 else dport), proto) \<in> set (le_ports e)"
  shows "list_lb_targets lid g' = list_lb_targets lid g @ [b] \<and>
     lb_serves g' lid (e\<lparr>le_backends := le_backends e @ [b]\<rparr>) \<and>
     lb_select_forward (tabs g') p off (le_vni e) \<in> Some ` set (list_lb_targets lid g')"
proof -
  note s' = add_lb_target_serves(1) [OF ok s]
  have l: "list_lb_targets lid g = le_backends e" "list_lb_targets lid g' = le_backends e @ [b]"
    using s s' by (simp_all add: list_lb_targets_def lb_serves_def)
  show ?thesis
    using lb_serves_forward [OF s', of p off src proto sport dport] p s' l by simp
qed

text \<open>C27: a removed target gets no more traffic. When \<^verbatim>\<open>del_lb_target\<close> removes a target from a
  balancer whose tables are in sync, they stay in sync, and every IPv4 packet to one of its
  services is forwarded to one of the remaining targets, or not balanced when none remains.\<close>

theorem lb_target_removed:
  assumes ok: "del_lb_target lid b g = (Inr True, g')" and s: "lb_serves g lid e"
    and p: "flow_of p off = Some (src, last4 (le_ip e), proto, sport, dport)"
      "((if proto = 1 then 0 else dport), proto) \<in> set (le_ports e)"
  shows "list_lb_targets lid g' = filter (\<lambda>x. x \<noteq> b) (list_lb_targets lid g) \<and>
     lb_serves g' lid (e\<lparr>le_backends := list_lb_targets lid g'\<rparr>) \<and>
     lb_select_forward (tabs g') p off (le_vni e) \<in>
       (if list_lb_targets lid g' = [] then {None} else Some ` set (list_lb_targets lid g'))"
proof -
  note s' = del_lb_target_serves [OF ok s]
  have l: "list_lb_targets lid g = le_backends e" "list_lb_targets lid g' = filter (\<lambda>x. x \<noteq> b) (le_backends e)"
    using s s' by (simp_all add: list_lb_targets_def lb_serves_def)
  show ?thesis
    using lb_serves_forward [OF s', of p off src proto sport dport] p s' unfolding l
    by (cases "filter (\<lambda>x. x \<noteq> b) (le_backends e) = []") simp_all
qed

section \<open>Examples\<close>

text \<open>A table with room for all rows takes them.\<close>

lemma hputs_room: "length (entries m) + length kvs \<le> max_entries m \<Longrightarrow> fst (hputs m kvs) = None"
proof (induction kvs arbitrary: m)
  case (Cons kv kvs)
  obtain k v where kv: "kv = (k, v)" by (cases kv)
  let ?m = "m\<lparr>entries := AList.update k v (entries m)\<rparr>"
  have "length (AList.update k v es) \<le> Suc (length es)" for es :: "('a \<times> 'b) list"
    by (induction es) auto
  then have "length (entries ?m) \<le> Suc (length (entries m))" by simp
  then have "length (entries ?m) + length kvs \<le> max_entries ?m" using Cons.prems by simp
  then have "fst (hputs ?m kvs) = None" by (rule Cons.IH)
  moreover have "hinsert m k v = Inr ?m" using Cons.prems by (simp add: hinsert_def)
  ultimately show ?case by (simp add: kv)
qed simp

lemma write_maglev_room:
  assumes "backends \<noteq> []" "length (entries (MAGLEV (tabs g))) + 1021 \<le> max_entries (MAGLEV (tabs g))"
  shows "\<exists>g'. write_maglev tid backends g = (Inr (), g')"
proof -
  obtain table where t: "maglev_build backends = Some table" "length table = 1021"
    using maglev_build_entries [OF assms(1)] by blast
  have "fst (hputs (MAGLEV (tabs g)) (maglev_rows tid table backends)) = None"
    using assms(2) t(2) by (intro hputs_room) (simp add: maglev_rows_def)
  then show ?thesis by (auto simp: write_maglev_def t(1) Let_def split: prod.splits)
qed

text \<open>A balancer for TCP port 80 of 10.0.0.2.\<close>

definition sample_lb_entry :: LbEntry where
  "sample_lb_entry = \<lparr>le_vni = 100, le_ip = Ipv4 [10, 0, 0, 2], le_lb_underlay = replicate 15 0 @ [5],
     le_ports = [(80, 6)], le_table_id = 1, le_backends = []\<rparr>"

definition sample_lb :: ctl where
  "sample_lb = sample_ctl\<lparr>lbs := [([9], sample_lb_entry)], tabs := fresh_maps\<lparr>LB := \<lparr>max_entries = 1024,
     entries = [(\<lparr>lk_vni = 100, lk_ipv4 = [10, 0, 0, 2], lk_port = 80, lk_proto = 6\<rparr>, \<lparr>lv_table_id = 1, lv_size = 1021\<rparr>)]\<rparr>\<rparr>\<rparr>"

lemma sample_lb_serves: "lb_serves sample_lb [9] sample_lb_entry"
  by (simp add: lb_serves_def sample_lb_def sample_lb_entry_def lb_services_def last4_def lb_slots_ok_def fresh_maps_def
      hnew_def hget_def)

lemma sample_lb_flow: "flow_of sample_syn 14 = Some ([10, 0, 0, 1], [10, 0, 0, 2], 6, 12345, 80)"
  by (simp add: flow_of_def l4_ports_def ihl_bytes_def sample_syn_def packet_eval)

lemma sample_lb_add: "\<exists>g'. add_lb_target [9] b sample_lb = (Inr (), g')"
proof -
  have e: "map_of (lbs sample_lb) [9] = Some sample_lb_entry" by (simp add: sample_lb_def)
  show ?thesis
    using write_maglev_room [of "[b]" _ 1] by (simp add: add_lb_target_def e Let_def sample_lb_entry_def)
      (simp add: sample_lb_def fresh_maps_def hnew_def)
qed

theorem lb_target_added_witness:
  "\<exists>g'. add_lb_target [9] [7] sample_lb = (Inr (), g') \<and> list_lb_targets [9] g' = [[7]] \<and>
     lb_select_forward (tabs g') sample_syn 14 100 = Some [7]"
proof -
  obtain g' where g': "add_lb_target [9] [7] sample_lb = (Inr (), g')" using sample_lb_add by blast
  have "list_lb_targets [9] sample_lb = []" by (simp add: list_lb_targets_def sample_lb_def sample_lb_entry_def)
  then show ?thesis
    using g' lb_target_added [OF g' sample_lb_serves, of sample_syn 14 "[10, 0, 0, 1]" 6 12345 80] sample_lb_flow
    by (auto simp: sample_lb_entry_def last4_def)
qed

theorem lb_target_removed_witness:
  "\<exists>g g'. del_lb_target [9] [7] g = (Inr True, g') \<and> list_lb_targets [9] g = [[7]] \<and>
     list_lb_targets [9] g' = [] \<and> lb_select_forward (tabs g') sample_syn 14 100 = None"
proof -
  obtain g where g: "add_lb_target [9] [7] sample_lb = (Inr (), g)" using sample_lb_add by blast
  note s = add_lb_target_serves(1) [OF g sample_lb_serves]
  then have e: "map_of (lbs g) [9] = Some (sample_lb_entry\<lparr>le_backends := [[7]]\<rparr>)"
    by (simp add: lb_serves_def sample_lb_entry_def)
  then obtain g' where g': "del_lb_target [9] [7] g = (Inr True, g')" by (simp add: del_lb_target_def Let_def)
  have "list_lb_targets [9] g = [[7]]" by (simp add: list_lb_targets_def e)
  moreover have "list_lb_targets [9] g' = [] \<and> lb_select_forward (tabs g') sample_syn 14 100 = None"
    using lb_target_removed [OF g' s, of sample_syn 14 "[10, 0, 0, 1]" 6 12345 80] sample_lb_flow calculation
    by (auto simp: sample_lb_entry_def last4_def split: if_splits)
  ultimately show ?thesis using g' by blast
qed

end
