(* ===== verification/Nb_Refinement.thy ===== *)
theory Nb_Refinement
  imports Slots Snat
begin

text \<open>
  Neighbour NAT end to end: the list of remote NAT owners kept by the control plane
  (\<^verbatim>\<open>add_neighbor_nat\<close>, \<^verbatim>\<open>del_neighbor_nat\<close>, the purge of \<^verbatim>\<open>detach_interface\<close>) is what
  \<^verbatim>\<open>neighbor_nat_lookup\<close> of the datapath searches.
\<close>

section \<open>The table\<close>

text \<open>\<^verbatim>\<open>NEIGHBOR_NAT\<close> has room for 64 entries and only ever holds keys below 64, so writing slots
  of the list never fails.\<close>

definition nb_table_ok :: "(u32, NeighborNatEntry) hmap \<Rightarrow> bool" where
  "nb_table_ok m \<longleftrightarrow> max_entries m = 64 \<and> distinct (map fst (entries m)) \<and> (\<forall>k \<in> fst ` set (entries m). unat k < 64)"

lemma nb_table_insert:
  assumes ok: "nb_table_ok m" and k: "unat k < 64"
  shows "\<exists>m'. hinsert m k v = Inr m' \<and> nb_table_ok m'"
proof -
  have room: "length (entries m) < 64" if "hget m k = None"
  proof -
    have "k \<notin> fst ` set (entries m)" using that by (simp add: hget_def map_of_eq_None_iff)
    then have "fst ` set (entries m) \<subset> {x. unat x < 64}" using ok k by (auto simp: nb_table_ok_def)
    moreover have "{x :: u32. unat x < 64} \<subseteq> of_nat ` {..<64}"
      by (auto intro!: image_eqI [of _ _ "unat _"])
    then have fin: "finite {x :: u32. unat x < 64}" "card {x :: u32. unat x < 64} \<le> 64"
      using surj_card_le [of "{..<64 :: nat}" "{x :: u32. unat x < 64}" of_nat] by (auto intro: finite_subset)
    ultimately have "card (fst ` set (entries m)) < 64"
      using psubset_card_mono [OF fin(1)] by (meson less_le_trans)
    moreover have "card (fst ` set (entries m)) = length (entries m)"
      using ok by (metis distinct_card length_map list.set_map nb_table_ok_def)
    ultimately show ?thesis by simp
  qed
  then have "hinsert m k v = Inr (m\<lparr>entries := AList.update k v (entries m)\<rparr>)"
    using ok by (auto simp: hinsert_def nb_table_ok_def)
  moreover have "nb_table_ok (m\<lparr>entries := AList.update k v (entries m)\<rparr>)"
    using ok k by (auto simp: nb_table_ok_def distinct_update dom_update)
  ultimately show ?thesis by blast
qed

lemma nb_table_puts:
  "nb_table_ok m \<Longrightarrow> \<forall>k \<in> fst ` set kvs. unat k < 64 \<Longrightarrow> \<exists>m'. hputs m kvs = (None, m') \<and> nb_table_ok m'"
proof (induction kvs arbitrary: m)
  case (Cons kv kvs)
  obtain k v where kv: "kv = (k, v)" by (cases kv)
  obtain m1 where "hinsert m k v = Inr m1" "nb_table_ok m1"
    using nb_table_insert [OF Cons.prems(1)] Cons.prems(2) kv by fastforce
  then show ?case using Cons.IH [of m1] Cons.prems(2) kv by simp
qed simp

lemma nb_rows_put:
  assumes "nb_table_ok m" "length es \<le> 64"
  shows "\<exists>m'. hputs m (nb_rows es) = (None, m') \<and> nb_table_ok m' \<and> (\<forall>i < length es. hget m' (of_nat i) = Some (es ! i))"
proof -
  have "\<forall>k \<in> fst ` set (nb_rows es). unat k < 64"
    using assms(2) by (auto simp: nb_rows_def in_set_enumerate_eq unat_of_nat)
  from nb_table_puts [OF assms(1) this] obtain m' where m': "hputs m (nb_rows es) = (None, m')" "nb_table_ok m'"
    by blast
  then show ?thesis using nbs.written [OF m'(1) [unfolded nb_rows_slots] assms(2)] by blast
qed

lemma foldl_hput_hputs: "fst (hputs m kvs) = None \<Longrightarrow> foldl (\<lambda>m (k, v). hput m k v) m kvs = snd (hputs m kvs)"
  by (induction kvs arbitrary: m) (auto simp: hput_def split: sum.splits)

section \<open>The contract\<close>

definition nb_synced :: "ctl \<Rightarrow> bool" where
  "nb_synced g \<longleftrightarrow>
     length (neigh_nats g) \<le> 64 \<and> nb_table_ok (NEIGHBOR_NAT (tabs g)) \<and>
     NEIGHBOR_NAT_COUNT (tabs g) = [of_nat (length (neigh_nats g))] \<and>
     (\<forall>i < length (neigh_nats g). hget (NEIGHBOR_NAT (tabs g)) (of_nat i) = Some (neigh_nats g ! i))"

lemma nb_scan_find:
  assumes "n \<le> 64" "length es = n" "\<forall>i < n. hget (NEIGHBOR_NAT s) (of_nat i) = Some (es ! i)" "unat idx \<le> n"
  shows "neighbor_nat_scan s (of_nat n) vni dst dport idx =
     map_option nn_underlay (List.find (nb_hit vni dst dport) (drop (unat idx) es))"
  using assms(4)
proof (induction "n - unat idx" arbitrary: idx)
  case 0
  have "unat (of_nat n :: u32) = n" using assms(1) by (simp add: unat_of_nat)
  then have "of_nat n \<le> idx" using 0 by (simp add: word_le_nat_alt)
  then have "neighbor_nat_scan s (of_nat n) vni dst dport idx = None"
    unfolding neighbor_nat_scan.simps [of s "of_nat n" vni dst dport idx] by simp
  then show ?case using 0 assms(2) by simp
next
  case (Suc d)
  have n: "unat (of_nat n :: u32) = n" using assms(1) by (simp add: unat_of_nat)
  have lt: "unat idx < n" using Suc.hyps(2) by simp
  then have idx: "idx < 64" "\<not> idx \<ge> of_nat n" using n assms(1) by (simp_all add: word_less_nat_alt word_le_nat_alt)
  have next': "unat (idx + 1) = Suc (unat idx)" using lt assms(1) unat_Suc_below [of idx 64] by simp
  have get: "hget (NEIGHBOR_NAT s) idx = Some (es ! unat idx)" using assms(3) [rule_format, OF lt] by simp
  have "d = n - unat (idx + 1)" "unat (idx + 1) \<le> n" using Suc.hyps(2) next' lt by simp_all
  note ih = Suc.hyps(1) [OF this]
  have "drop (unat idx) es = es ! unat idx # drop (unat (idx + 1)) es"
    using lt assms(2) next' by (simp add: Cons_nth_drop_Suc)
  then show ?case using idx get ih by (simp add: neighbor_nat_scan.simps [of s "of_nat n" vni dst dport idx])
qed

lemma nb_synced_lookup:
  "nb_synced g \<Longrightarrow> neighbor_nat_lookup (tabs g) vni dst dport =
     map_option nn_underlay (List.find (nb_hit vni dst dport) (neigh_nats g))"
  using nb_scan_find [of "length (neigh_nats g)" "neigh_nats g" "tabs g" 0]
  by (simp add: nb_synced_def neighbor_nat_lookup_def aget_def)

section \<open>The operations\<close>

lemma neigh_nat_reprogram_ok:
  assumes "nb_table_ok (NEIGHBOR_NAT (tabs g))" "length (neigh_nats g) \<le> 64" "length (NEIGHBOR_NAT_COUNT (tabs g)) = 1"
  shows "\<exists>g'. neigh_nat_reprogram g = (Inr (), g') \<and> nb_synced g' \<and> neigh_nats g' = neigh_nats g \<and>
           (\<exists>nb c. g' = g\<lparr>tabs := (tabs g)\<lparr>NEIGHBOR_NAT := nb, NEIGHBOR_NAT_COUNT := c\<rparr>\<rparr>)"
proof -
  obtain m where m: "hputs (NEIGHBOR_NAT (tabs g)) (nb_rows (neigh_nats g)) = (None, m)" "nb_table_ok m"
    "\<forall>i < length (neigh_nats g). hget m (of_nat i) = Some (neigh_nats g ! i)"
    using nb_rows_put [OF assms(1,2)] by blast
  obtain x where x: "NEIGHBOR_NAT_COUNT (tabs g) = [x]" using assms(3) by (auto simp: length_Suc_conv)
  then show ?thesis using m assms(2)
    by (auto simp: neigh_nat_reprogram_def Let_def aset_def upd_def nb_synced_def)
qed

text \<open>The reprogramming in \<^verbatim>\<open>detach_interface\<close>, which ignores errors, does the same.\<close>

lemma reprogram_ignore_eq:
  assumes "nb_table_ok (NEIGHBOR_NAT (tabs g))" "length (neigh_nats g) \<le> 64" "length (NEIGHBOR_NAT_COUNT (tabs g)) = 1"
  shows "neigh_nat_reprogram g = (Inr (), reprogram_ignore (neigh_nats g) g)"
proof -
  obtain m where m: "hputs (NEIGHBOR_NAT (tabs g)) (nb_rows (neigh_nats g)) = (None, m)"
    using nb_rows_put [OF assms(1,2)] by blast
  have "foldl (\<lambda>m (i, e). hput m (of_nat i) e) t (enumerate 0 es) = foldl (\<lambda>m (k, v). hput m k v) t (nb_rows es)" for t es
    by (simp add: nb_rows_def foldl_map case_prod_unfold)
  then have "foldl (\<lambda>m (i, e). hput m (of_nat i) e) (NEIGHBOR_NAT (tabs g)) (enumerate 0 (neigh_nats g)) = m"
    using foldl_hput_hputs [of "NEIGHBOR_NAT (tabs g)" "nb_rows (neigh_nats g)"] m by simp
  then show ?thesis using m assms(3)
    by (simp add: neigh_nat_reprogram_def reprogram_ignore_def Let_def aset_def upd_def)
qed

lemma nb_synced_change:
  assumes "nb_synced g" "length es \<le> 64"
  shows "\<exists>g'. neigh_nat_reprogram (g\<lparr>neigh_nats := es\<rparr>) = (Inr (), g') \<and> nb_synced g' \<and> neigh_nats g' = es"
  using neigh_nat_reprogram_ok [of "g\<lparr>neigh_nats := es\<rparr>"] assms by (auto simp: nb_synced_def)

lemma add_neighbor_nat_synced: "nb_synced g \<Longrightarrow> nb_synced (snd (add_neighbor_nat vni nip pmin pmax ul g))"
  using nb_synced_change [of g "neigh_nats g @ [\<lparr>nn_underlay = ul, nn_nat_ip = nip, nn_vni = vni, nn_port_min = pmin,
               nn_port_max = pmax, nn_enabled = 1\<rparr>]"]
  by (auto simp: add_neighbor_nat_def)

lemma del_neighbor_nat_synced: "nb_synced g \<Longrightarrow> nb_synced (snd (del_neighbor_nat vni nip pmin pmax g))"
proof -
  assume s: "nb_synced g"
  define rest where "rest = filter (\<lambda>e. \<not> (nn_vni e = vni \<and> nn_nat_ip e = nip \<and> nn_port_min e = pmin \<and> nn_port_max e = pmax)) (neigh_nats g)"
  have "length rest \<le> length (neigh_nats g)" by (simp add: rest_def)
  then have len: "length rest \<le> 64" using s by (simp add: nb_synced_def)
  have same: "rest = neigh_nats g" if "length rest = length (neigh_nats g)"
    using that unfolding rest_def filter_id_conv by (metis (mono_tags, lifting) length_filter_less nat_neq_iff)
  have del: "del_neighbor_nat vni nip pmin pmax g =
      (if length rest = length (neigh_nats g) then (Inr False, g\<lparr>neigh_nats := rest\<rparr>)
       else case neigh_nat_reprogram (g\<lparr>neigh_nats := rest\<rparr>) of (Inl e, g) \<Rightarrow> (Inl e, g) | (Inr _, g) \<Rightarrow> (Inr True, g))"
    by (simp only: del_neighbor_nat_def Let_def rest_def)
  obtain g' where g': "neigh_nat_reprogram (g\<lparr>neigh_nats := rest\<rparr>) = (Inr (), g')" "nb_synced g'"
    using nb_synced_change [OF s len] by blast
  show ?thesis using same s g'(2) by (cases "length rest = length (neigh_nats g)") (simp_all add: del g'(1))
qed

end
