(* ===== verification/Tc.thy ===== *)
theory Tc
  imports Egress
begin

text \<open>
  The tc guest edge, \<^verbatim>\<open>xdp-dp-ebpf/src/tc.rs\<close>, with the skb variants of \<^verbatim>\<open>nat64.rs\<close> and
  \<^verbatim>\<open>dhcp.rs\<close> it calls. A packet buffer has a linear part, which is all that
  \<^verbatim>\<open>data\<close>..\<^verbatim>\<open>data_end\<close> covers, and possibly more bytes behind it. Whether the kernel finds memory
  or accepts a resize is not decided by the program: \<open>sk_mem\<close>, \<open>sk_room\<close> and \<open>sk_tail\<close> answer for
  a request of the given length.
\<close>

section \<open>Packet buffers\<close>

record skb =
  sk_linear :: bytes
  sk_frags :: bytes
  sk_ifindex :: u32
  sk_mem :: "nat \<Rightarrow> bool"
  sk_room :: "nat \<Rightarrow> bool"
  sk_tail :: "nat \<Rightarrow> bool"

datatype tc_action = TC_ACT_OK | TC_ACT_SHOT | TC_REDIRECT u32

definition skb_bytes :: "skb \<Rightarrow> bytes" where
  "skb_bytes k = sk_linear k @ sk_frags k"

text \<open>Make at least the first \<open>n\<close> bytes linear.\<close>

definition linear_upto :: "nat \<Rightarrow> skb \<Rightarrow> skb" where
  "linear_upto n k =
     (if n \<le> length (sk_linear k) then k
      else k\<lparr>sk_linear := take n (skb_bytes k), sk_frags := drop n (skb_bytes k)\<rparr>)"

text \<open>\<^verbatim>\<open>bpf_skb_pull_data\<close>: fails past the end of the packet or without memory.\<close>

definition pull_data :: "skb \<Rightarrow> nat \<Rightarrow> skb option" where
  "pull_data k n = (if n \<le> length (skb_bytes k) \<and> sk_mem k n then Some (linear_upto n k) else None)"

definition pull_ignore :: "skb \<Rightarrow> nat \<Rightarrow> skb" where
  "pull_ignore k n = (case pull_data k n of Some k' \<Rightarrow> k' | None \<Rightarrow> k)"

text \<open>\<^verbatim>\<open>bpf_skb_adjust_room(skb, n, BPF_ADJ_ROOM_MAC, 0)\<close> inserts \<open>n\<close> zero bytes after the Ethernet
  header.\<close>

definition adjust_room :: "skb \<Rightarrow> nat \<Rightarrow> skb option" where
  "adjust_room k n =
     (if sk_room k n \<and> ETH_LEN \<le> length (sk_linear k)
      then Some (k\<lparr>sk_linear := take ETH_LEN (sk_linear k) @ replicate n 0 @ drop ETH_LEN (sk_linear k)\<rparr>) else None)"

text \<open>\<^verbatim>\<open>bpf_skb_change_tail\<close> makes the packet linear, then trims it or extends it with zeros.\<close>

definition change_tail :: "skb \<Rightarrow> nat \<Rightarrow> skb option" where
  "change_tail k n =
     (if sk_tail k n
      then Some (k\<lparr>sk_linear := take n (skb_bytes k) @ replicate (n - length (skb_bytes k)) 0, sk_frags := []\<rparr>) else None)"

section \<open>NAT64\<close>

definition tc_nat64_alloc_port :: "u64 \<Rightarrow> CtKey \<Rightarrow> NatValue \<Rightarrow> u16 \<Rightarrow> maps \<Rightarrow> u16 \<times> maps" where
  "tc_nat64_alloc_port now fwd_key nv rng s =
     (let vni = ck_vni fwd_key; guest = ck_src_ip fwd_key; dst = ck_dst_ip fwd_key;
          sport = ck_src_port fwd_key; dport = ck_dst_port fwd_key; proto = ck_proto fwd_key;
          start = ucast (hash5 guest dst sport dport proto mod ucast rng);
          (chosen, s) =
            (case nat_probe (CONNTRACK s) vni nv proto start rng 0 of
               Some cand \<Rightarrow>
                 (cand, s\<lparr>CONNTRACK := (CONNTRACK s)
                    (nat_rev_key vni (nv_nat_ipv4 nv) cand proto \<mapsto> nat64_rev_entry now guest sport)\<rparr>)
             | None \<Rightarrow> (nv_port_min nv + start, s))
      in (chosen, s\<lparr>CONNTRACK := (CONNTRACK s)(fwd_key \<mapsto> nat64_fwd_entry now (nv_nat_ipv4 nv) chosen)\<rparr>))"

text \<open>The outer Ethernet and IPv6 headers, written inline.\<close>

definition tc_nat64_outer :: "bytes \<Rightarrow> Local \<Rightarrow> bytes \<Rightarrow> bytes \<Rightarrow> u16 \<Rightarrow> bytes" where
  "tc_nat64_outer q loc underlay nexthop inner_len =
     (let q = wrn q 0 (lo_gateway_mac loc);
          q = wrn q 6 (lo_uplink_mac loc);
          q = wr16 q 12 ETH_P_IPV6;
          ip = ETH_LEN;
          q = wr8 q (ip + 0) 0x60;
          q = wr8 q (ip + 1) 0;
          q = wr8 q (ip + 2) 0;
          q = wr8 q (ip + 3) 0;
          q = wr16 q (ip + 4) inner_len;
          q = wr8 q (ip + 6) IPPROTO_IPIP;
          q = wr8 q (ip + 7) 64;
          q = wrn q (ip + 8) underlay;
          q = wrn q (ip + 24) nexthop
      in q)"

text \<open>Everything after the port is known: grow by 20 bytes, write the inner IPv4 header, translate
  the transport header where it is, then write the outer headers.\<close>

definition tc_nat64_emit ::
  "skb \<Rightarrow> u32 \<Rightarrow> bytes \<Rightarrow> NatValue \<Rightarrow> bytes \<Rightarrow> u8 \<Rightarrow> u16 \<Rightarrow> u16 \<Rightarrow> u16 \<Rightarrow> maps \<Rightarrow> (unit + tc_action option) \<times> skb" where
  "tc_nat64_emit k vni underlay nv ipv4_dst proto sport old_ck nat_port s =
     (let p = sk_linear k;
          ip6_src = rdn p (ETH_LEN + 8) 16;
          ip6_dst = rdn p (ETH_LEN + 24) 16;
          l4_len = rd16 p (ETH_LEN + 4);
          hop_limit = rd8 p (ETH_LEN + 7);
          l4_off = ETH_LEN + IPV6_LEN + 20
      in case adjust_room k 20 of
           None \<Rightarrow> (Inl (), k)
         | Some k \<Rightarrow>
             (case pull_data k (l4_off + 8) of
                None \<Rightarrow> (Inl (), k)
              | Some k \<Rightarrow>
                  let q = wrn (sk_linear k) (ETH_LEN + IPV6_LEN) (nat64_ip4hdr l4_len hop_limit proto (nv_nat_ipv4 nv) ipv4_dst)
                  in case nat64_l4_to_v4 q l4_off proto old_ck ip6_src ip6_dst (nv_nat_ipv4 nv) ipv4_dst l4_len sport nat_port of
                       Inl _ \<Rightarrow> (Inl (), k\<lparr>sk_linear := q\<rparr>)
                     | Inr None \<Rightarrow> (Inr None, k\<lparr>sk_linear := q\<rparr>)
                     | Inr (Some q) \<Rightarrow>
                         (case route_lookup s vni ipv4_dst of
                            None \<Rightarrow> (Inr None, k\<lparr>sk_linear := q\<rparr>)
                          | Some route \<Rightarrow>
                              (case aget (LOCAL s) 0 of
                                 None \<Rightarrow> (Inl (), k\<lparr>sk_linear := q\<rparr>)
                               | Some loc \<Rightarrow>
                                   (Inr (Some (TC_REDIRECT (lo_uplink_ifindex loc))),
                                    k\<lparr>sk_linear := tc_nat64_outer q loc underlay (rv_nexthop_ipv6 route) (20 + l4_len)\<rparr>)))))"

definition tc_nat64_egress ::
  "u64 \<Rightarrow> skb \<Rightarrow> u32 \<Rightarrow> bytes \<Rightarrow> bytes \<Rightarrow> maps \<Rightarrow> (unit + tc_action option) \<times> skb \<times> maps" where
  "tc_nat64_egress now k vni guest_ipv4 underlay s =
     (let k = pull_ignore k (ETH_LEN + IPV6_LEN + 8); p = sk_linear k
      in if ETH_LEN + IPV6_LEN + 8 > length p then (Inr None, k, s)
         else
           let ip6_dst = rdn p (ETH_LEN + 24) 16;
               ipv4_dst = [ip6_dst ! 12, ip6_dst ! 13, ip6_dst ! 14, ip6_dst ! 15]
           in if \<not> is_nat64_addr ip6_dst then (Inr None, k, s)
              else case hget (NAT s) \<lparr>nk_vni = vni, nk_ipv4 = guest_ipv4\<rparr> of
                     None \<Rightarrow> (Inr None, k, s)
                   | Some nv \<Rightarrow>
                       let rng = nv_port_max nv - nv_port_min nv;
                           nh = rd8 p (ETH_LEN + 6);
                           l4_len = rd16 p (ETH_LEN + 4)
                       in if rng = 0 then (Inr None, k, s)
                          else if ETH_LEN + IPV6_LEN + unat l4_len > length p then (Inr None, k, s)
                          else case nat64_l4 p nh of
                                 None \<Rightarrow> (Inr None, k, s)
                               | Some (proto, sport, dport, old_ck) \<Rightarrow>
                                   let fwd_key = \<lparr>ck_vni = vni, ck_src_ip = guest_ipv4, ck_dst_ip = ipv4_dst,
                                         ck_src_port = sport, ck_dst_port = dport, ck_proto = proto\<rparr>;
                                       (nat_port, s) =
                                         (case CONNTRACK s fwd_key of
                                            Some v \<Rightarrow>
                                              if ce_flags v AND CT_F_SRC_NAT \<noteq> 0 then (ce_xlate_port v, s)
                                              else tc_nat64_alloc_port now fwd_key nv rng s
                                          | None \<Rightarrow> tc_nat64_alloc_port now fwd_key nv rng s);
                                       (res, k) = tc_nat64_emit k vni underlay nv ipv4_dst proto sport old_ck nat_port s
                                   in (res, k, s))"

definition tc_guest_nat64 :: "u64 \<Rightarrow> skb \<Rightarrow> maps \<Rightarrow> tc_action \<times> skb \<times> maps" where
  "tc_guest_nat64 now k s =
     (case hget (PORT_META s) (sk_ifindex k) of
        None \<Rightarrow> (TC_ACT_OK, k, s)
      | Some m \<Rightarrow>
          (case tc_nat64_egress now k (pm_vni m) (pm_guest_ipv4 m) (pm_underlay_ipv6 m) s of
             (Inr (Some act), k, s) \<Rightarrow> (act, k, s)
           | (Inr None, k, s) \<Rightarrow> (TC_ACT_OK, k, s)
           | (Inl _, k, s) \<Rightarrow> (TC_ACT_SHOT, k, s)))"

section \<open>DHCP\<close>

text \<open>The option walk reads with \<^verbatim>\<open>bpf_skb_load_bytes\<close>, which sees the whole packet, and which
  clears its buffer when it fails.\<close>

definition tc_d6_option :: "bytes \<Rightarrow> u16 \<Rightarrow> nat \<Rightarrow> nat \<Rightarrow> D6Reply \<Rightarrow> D6Reply" where
  "tc_d6_option p code olen v r =
     (if code = D6_OPT_RAPID_COMMIT then r\<lparr>d6_rapid_commit := True\<rparr>
      else if code = D6_OPT_USER_CLASS
      then if d6_pxe_mode r = PXE_NONE then r\<lparr>d6_pxe_mode := PXE_HTTP\<rparr> else r
      else if code = D6_OPT_IA_NA
      then (case load_bytes p (F6_OPTS + v) 4 of
              Some vb \<Rightarrow> r\<lparr>d6_iaid := vb, d6_got_iana := True\<rparr>
            | None \<Rightarrow> r)
      else if code = D6_OPT_VENDOR_CLASS
      then (case load_bytes p (F6_OPTS + v) 4 of
              Some vb \<Rightarrow> if vb = [0, 0, 1, 87] \<and> d6_pxe_mode r = PXE_NONE then r\<lparr>d6_pxe_mode := PXE_TFTP\<rparr> else r
            | None \<Rightarrow> r)
      else if code = D6_OPT_CLIENTID
      then r\<lparr>d6_got_clientid := True, d6_duid_len := of_nat (min olen D6_MAX_DUID),
             d6_duid := (case load_bytes p (F6_OPTS + v) D6_MAX_DUID of
                           Some d \<Rightarrow> d
                         | None \<Rightarrow> replicate D6_MAX_DUID 0)\<rparr>
      else r)"

function tc_d6_walk :: "bytes \<Rightarrow> D6Reply \<Rightarrow> nat \<Rightarrow> nat \<Rightarrow> nat \<Rightarrow> D6Reply" where
  "tc_d6_walk p r n i guard =
     (if i + 4 \<le> n \<and> i + 4 \<le> D6_SCAN \<and> guard < 12
      then case load_bytes p (F6_OPTS + i) 4 of
             None \<Rightarrow> r
           | Some hb \<Rightarrow>
               let code = be16 (hb ! 0) (hb ! 1);
                   olen = min (unat (be16 (hb ! 2) (hb ! 3))) D6_SCAN;
                   v = i + 4
               in tc_d6_walk p (tc_d6_option p code olen v r) n (v + olen) (guard + 1)
      else r)"
  by pat_completeness auto
termination
  by (relation "measure (\<lambda>(_, _, _, _, guard). 12 - guard)") auto

declare tc_d6_walk.simps [simp del]

definition tc_d6_parse :: "skb \<Rightarrow> D6Reply \<Rightarrow> nat \<Rightarrow> D6Reply" where
  "tc_d6_parse k r n = tc_d6_walk (skb_bytes k) r n 0 0"

text \<open>Emission writes the fixed part directly and the rest with \<^verbatim>\<open>bpf_skb_store_bytes\<close>, which may
  reach one byte past the linear part and then makes it linear.\<close>

definition tc_d6_emit :: "skb \<Rightarrow> PortMeta \<Rightarrow> D6Reply \<Rightarrow> maps \<Rightarrow> skb" where
  "tc_d6_emit k meta r s =
     (if D6_MAX_TOTAL > length (sk_linear k) then k
      else
        let w = d6_write_headers (skb_bytes k) meta r;
            cfg = aget (DHCP_CONFIG s) 0;
            dm = hget (DHCP_META s) (sk_ifindex k);
            (w, off) = d6_emit_ids w meta r;
            w = d6_emit_opts w off meta r cfg dm;
            n = min (length w) (max (length (sk_linear k)) (unat (d6_real_reply_len r) + 1))
        in k\<lparr>sk_linear := take n w, sk_frags := drop n w\<rparr>)"

definition tc_dhcpv6_respond :: "skb \<Rightarrow> PortMeta \<Rightarrow> maps \<Rightarrow> bool \<times> skb" where
  "tc_dhcpv6_respond k meta s =
     (case pull_data k F6_OPTS of
        None \<Rightarrow> (False, k)
      | Some k \<Rightarrow>
          (case d6_request (sk_linear k) of
             None \<Rightarrow> (False, k)
           | Some r \<Rightarrow>
               let msg_type = rd8 (sk_linear k) F6_DHCP;
                   cur_len = length (sk_linear k);
                   n = min (length (skb_bytes k) - F6_OPTS) D6_SCAN;
                   r = tc_d6_parse k r n;
                   r = d6_fill r msg_type (sk_ifindex k) s
               in case (if cur_len \<noteq> D6_MAX_TOTAL then change_tail k D6_MAX_TOTAL else Some k) of
                    None \<Rightarrow> (False, k)
                  | Some k \<Rightarrow>
                      (case pull_data k D6_MAX_TOTAL of
                         None \<Rightarrow> (False, k)
                       | Some k \<Rightarrow>
                           let k = tc_d6_emit k meta r s;
                               udp_len = of_nat (unat (d6_real_reply_len r) - ETH_LEN - 40)
                           in (True, k\<lparr>sk_linear := d6_checksum (sk_linear k) udp_len\<rparr>))))"

definition tc_guest_dhcp :: "skb \<Rightarrow> maps \<Rightarrow> tc_action \<times> skb \<times> maps" where
  "tc_guest_dhcp k s =
     (case hget (PORT_META s) (sk_ifindex k) of
        None \<Rightarrow> (TC_ACT_OK, k, s)
      | Some meta \<Rightarrow>
          if looks_like_dhcpv6 (sk_linear k)
          then (let (done, k) = tc_dhcpv6_respond k meta s
                in (if done then TC_REDIRECT (sk_ifindex k) else TC_ACT_OK, k, s))
          else
            (case pull_data k F_OPTS of
               None \<Rightarrow> (TC_ACT_OK, k, s)
             | Some k \<Rightarrow>
                 (case parse_dhcpv4_request (sk_linear k) of
                    None \<Rightarrow> (TC_ACT_OK, k, s)
                  | Some req \<Rightarrow>
                      let s = learn_mac (sk_ifindex k) meta (dq_client_mac req) s;
                          r = gather_dhcpv4_reply req meta (sk_ifindex k) s
                      in case (if length (sk_linear k) \<noteq> REPLY_LEN then change_tail k REPLY_LEN else Some k) of
                           None \<Rightarrow> (TC_ACT_OK, k, s)
                         | Some k \<Rightarrow>
                             (case pull_data k REPLY_LEN of
                                None \<Rightarrow> (TC_ACT_OK, k, s)
                              | Some k \<Rightarrow>
                                  (case write_dhcpv4_reply (sk_linear k) r of
                                     None \<Rightarrow> (TC_ACT_SHOT, k, s)
                                   | Some p \<Rightarrow> (TC_REDIRECT (sk_ifindex k), k\<lparr>sk_linear := p\<rparr>, s))))))"

section \<open>The guest edge\<close>

definition tc_execute :: "skb \<Rightarrow> EgressVerdict \<Rightarrow> u16 option \<Rightarrow> tc_action \<times> skb" where
  "tc_execute k v ethertype =
     (case v of
        Pass \<Rightarrow> (TC_ACT_OK, k)
      | Drop \<Rightarrow> (TC_ACT_SHOT, k)
      | EgressVerdict.Local tap guest_mac \<Rightarrow>
          if ETH_LEN \<le> length (sk_linear k)
          then (let q = wrn (wrn (sk_linear k) 0 guest_mac) 6 GW_MAC;
                    q = (case ethertype of Some t \<Rightarrow> wr16 q 12 t | None \<Rightarrow> q)
                in (TC_REDIRECT tap, k\<lparr>sk_linear := q\<rparr>))
          else (TC_ACT_OK, k)
      | Encap e \<Rightarrow>
          (case adjust_room k IPV6_LEN of
             None \<Rightarrow> (TC_ACT_OK, k)
           | Some k \<Rightarrow>
               (case pull_data k (ETH_LEN + IPV6_LEN) of
                  None \<Rightarrow> (TC_ACT_OK, k)
                | Some k \<Rightarrow>
                    (case write_outer_v6 (sk_linear k) e of
                       Some p \<Rightarrow> (TC_REDIRECT (ep_uplink_ifindex e), k\<lparr>sk_linear := p\<rparr>)
                     | None \<Rightarrow> (TC_ACT_SHOT, k)))))"

text \<open>The branches of the program by ethertype. \<open>tails\<close> tells which of the tail-call slots for NAT64
  and DHCP hold a program; a tail call replaces the running one.\<close>

definition tc_arp :: "skb \<Rightarrow> PortMeta \<Rightarrow> tc_action \<times> skb" where
  "tc_arp k meta =
     (case pull_data k (ETH_LEN + ARP_LEN) of
        None \<Rightarrow> (TC_ACT_OK, k)
      | Some k \<Rightarrow>
          (case try_write_arp_reply (sk_linear k) (pm_gateway_ipv4 meta) (pm_guest_mac meta) of
             Some p \<Rightarrow> (TC_REDIRECT (sk_ifindex k), k\<lparr>sk_linear := p\<rparr>)
           | None \<Rightarrow> (TC_ACT_OK, k)))"

definition tc_nd :: "skb \<Rightarrow> PortMeta \<Rightarrow> bytes option \<times> skb" where
  "tc_nd k meta =
     (case pull_data k (ETH_LEN + IPV6_LEN + 32) of
        None \<Rightarrow> (None, k)
      | Some k \<Rightarrow> (try_write_nd_reply (sk_linear k) (pm_gateway_ipv6 meta) (pm_guest_mac meta), k))"

definition tc_ipv6 :: "u64 \<Rightarrow> bool \<times> bool \<Rightarrow> skb \<Rightarrow> PortMeta \<Rightarrow> maps \<Rightarrow> tc_action \<times> skb \<times> maps" where
  "tc_ipv6 now tails k meta s =
     (let pulled = (pull_data k (ETH_LEN + IPV6_LEN) \<noteq> None); k = pull_ignore k (ETH_LEN + IPV6_LEN)
      in if pulled \<and> ETH_LEN + IPV6_LEN \<le> length (sk_linear k) \<and> is_nat64_addr (rdn (sk_linear k) (ETH_LEN + 24) 16)
         then (if fst tails then tc_guest_nat64 now k s else (TC_ACT_OK, k, s))
         else
           (case tc_nd k meta of
              (Some p, k) \<Rightarrow> (TC_REDIRECT (sk_ifindex k), k\<lparr>sk_linear := p\<rparr>, s)
            | (None, k) \<Rightarrow>
                if looks_like_dhcpv6 (sk_linear k)
                then (if snd tails then tc_guest_dhcp k s else (TC_ACT_OK, k, s))
                else
                  let k = pull_ignore k (ETH_LEN + IPV6_LEN)
                  in if ETH_LEN + IPV6_LEN > length (sk_linear k) then (TC_ACT_OK, k, s)
                     else
                       let (act, k) = tc_execute k (forward_decision_v6 (sk_linear k) meta s) (Some ETH_P_IPV6)
                       in (act, k, s)))"

definition tc_ipv4 :: "u64 \<Rightarrow> skb \<Rightarrow> PortMeta \<Rightarrow> maps \<Rightarrow> tc_action \<times> skb \<times> maps" where
  "tc_ipv4 now k meta s =
     (let k = pull_ignore k (ETH_LEN + 40)
      in if ETH_LEN + 20 > length (sk_linear k) then (TC_ACT_OK, k, s)
         else
           let (v, p, s) = forward_decision_v4 now (sk_linear k) (sk_ifindex k) meta s;
               (act, k) = tc_execute (k\<lparr>sk_linear := p\<rparr>) v None
           in (act, k, s))"

definition tc_guest_tx :: "u64 \<Rightarrow> bool \<times> bool \<Rightarrow> skb \<Rightarrow> maps \<Rightarrow> tc_action \<times> skb \<times> maps" where
  "tc_guest_tx now tails k s =
     (case hget (PORT_META s) (sk_ifindex k) of
        None \<Rightarrow> (TC_ACT_OK, k, s)
      | Some meta \<Rightarrow>
          if 14 > length (sk_linear k) then (TC_ACT_OK, k, s)
          else
            let ethertype = rd16 (sk_linear k) 12
            in if ethertype = ETH_P_ARP then (let (act, k) = tc_arp k meta in (act, k, s))
               else if ethertype = ETH_P_IPV6 then tc_ipv6 now tails k meta s
               else if looks_like_dhcpv4 (sk_linear k)
               then (if snd tails then tc_guest_dhcp k s else (TC_ACT_OK, k, s))
               else if ethertype = ETH_P_IP then tc_ipv4 now k meta s
               else (TC_ACT_OK, k, s))"

end
