(* ===== verification/System.thy ===== *)
theory System
  imports Fw_Refinement Lb_Refinement Nb_Refinement Tc
begin

text \<open>
  The running system: control-plane operations, packets from guests and from the uplink, the
  aging task and the evictions of the LRU conntrack map, in any interleaving. First, what packet
  processing can change at all; then the step relation and its invariants.
\<close>

section \<open>What a packet can change\<close>

text \<open>Everything an operator configures. The flow table is left out; of a meter its tokens and the
  time of the last frame, and of a binding of a tap, an underlay address or an interface the
  learned guest MAC. Everything else is kept, table by table, and the bindings and meters entry by
  entry.\<close>

definition stable :: "maps \<Rightarrow> maps \<times> (bytes \<Rightarrow> UnderlayValue option) \<times> (u32 \<Rightarrow> PortMeta option) \<times>
    (IfaceKey \<Rightarrow> IfaceValue option) \<times> (u32 \<Rightarrow> MeterState option)" where
  "stable s =
     (s\<lparr>CONNTRACK := Map.empty, METER := hnew 0, PORT_META := hnew 0, UNDERLAY := hnew 0, INTERFACES := hnew 0\<rparr>,
      \<lambda>a. map_option (\<lambda>u. u\<lparr>uv_guest_mac := []\<rparr>) (hget (UNDERLAY s) a),
      \<lambda>i. map_option (\<lambda>m. m\<lparr>pm_guest_mac := []\<rparr>) (hget (PORT_META s) i),
      \<lambda>k. map_option (\<lambda>v. v\<lparr>iv_guest_mac := []\<rparr>) (hget (INTERFACES s) k),
      \<lambda>i. map_option (\<lambda>m. m\<lparr>ms_total_tokens := 0, ms_total_last_ns := 0, ms_public_tokens := 0, ms_public_last_ns := 0\<rparr>)
            (hget (METER s) i))"

lemma hput_present: "hget m k = Some w \<Longrightarrow> hget (hput m k v) = (hget m)(k \<mapsto> v)"
  by (simp add: hget_hput hinsert_def)

lemma stable_simps [simp]: "stable (s\<lparr>CONNTRACK := ct\<rparr>) = stable s"
  by (simp add: stable_def)

lemma stable_ct [simp]:
  "stable (ct_touch now p off k e s) = stable s" "stable (ct_ensure_default now p off k s) = stable s"
  "stable (egress_track now p vni s) = stable s" "stable (ingress_track now p vni s) = stable s"
  by (simp_all add: ct_touch_def ct_ensure_default_def egress_track_def ingress_track_def Let_def split: option.splits)

lemma stable_ports [simp]:
  "stable (snd (nat_port_for now nv k rng s)) = stable s" "stable (snd (nat64_port_for now nv k rng s)) = stable s"
  by (simp_all add: nat_port_for_def nat64_port_for_def Let_def split: option.splits)

lemma stable_nat [simp]: "stable (snd (snd (nat_snat_egress now p off vni ext s))) = stable s"
  by (simp add: nat_snat_egress_def Let_def case_prod_beta split: option.splits)

lemma stable_meter [simp]: "stable (snd (meter_pass now ix n ext s)) = stable s"
  by (auto simp: meter_pass_def Let_def case_prod_beta stable_def hput_present fun_eq_iff split: option.splits)

lemma stable_nat64 [simp]: "stable (snd (snd (nat64_egress now ctx vni gip ul s))) = stable s"
  by (auto simp: nat64_egress_def Let_def case_prod_beta split: option.splits sum.splits if_splits)

lemma stable_forward [simp]: "stable (snd (snd (forward_decision_v4 now p ix meta s))) = stable s"
proof -
  have "stable s1 = stable s" if "egress_ct_fw now p ix vni s = Some (p1, s1)" for p1 s1 vni
    using that by (auto simp: egress_ct_fw_def Let_def split: option.splits if_splits)
  then show ?thesis
    by (auto simp: forward_decision_v4_def Let_def case_prod_beta split: option.splits)
qed

lemma stable_learn_mac:
  assumes "hget (PORT_META s) ix = Some meta"
  shows "stable (learn_mac ix meta mac s) = stable s"
  using assms by (auto simp: learn_mac_def Let_def stable_def hput_present fun_eq_iff split: option.splits)

lemma stable_dhcp:
  "hget (PORT_META s) (ingress_ifindex ctx) = Some meta \<Longrightarrow> stable (snd (snd (try_dhcpv4_reply ctx meta s))) = stable s"
  by (auto simp: try_dhcpv4_reply_def Let_def stable_learn_mac split: option.splits)

lemma stable_dhcp_handle [simp]: "stable (snd (snd (dhcp_handle ctx s))) = stable s"
proof (cases "hget (PORT_META s) (ingress_ifindex ctx)")
  case (Some meta)
  obtain r ctx1 s1 where d: "try_dhcpv4_reply ctx meta s = (r, ctx1, s1)" by (metis prod_cases3)
  then have "stable s1 = stable s" using stable_dhcp [OF Some] by simp
  then show ?thesis by (auto simp: dhcp_handle_def Some d split: option.splits prod.splits)
qed (simp add: dhcp_handle_def)

lemma stable_v6_guest_tx [simp]: "stable (snd (snd (v6_guest_tx now ctx meta s))) = stable s"
proof -
  obtain r ctx1 s1 where n: "nat64_egress now ctx (pm_vni meta) (pm_guest_ipv4 meta) (pm_underlay_ipv6 meta) s = (r, ctx1, s1)"
    by (metis prod_cases3)
  then have "stable s1 = stable s" using stable_nat64 [of now ctx] by (metis snd_conv)
  then show ?thesis by (auto simp: v6_guest_tx_def n Let_def split: sum.splits option.splits prod.splits)
qed

lemma stable_guest_tx: "stable (snd (snd (guest_tx now tail_ok ctx s))) = stable s"
proof -
  obtain r ctx1 s1 where t: "try_guest_tx now tail_ok ctx s = (r, ctx1, s1)" by (metis prod_cases3)
  have "stable (snd (snd (try_guest_tx now tail_ok ctx s))) = stable s"
    by (auto simp: try_guest_tx_def Let_def case_prod_beta split: option.splits)
  then have "stable s1 = stable s" by (simp add: t)
  then show ?thesis by (auto simp: guest_tx_def t split: sum.splits)
qed

lemma stable_ingress_nat [simp]: "stable (snd (snd (ingress_nat now p vni s))) = stable s"
  by (auto simp: ingress_nat_def Let_def split: option.splits)

lemma stable_ingress_deliver [simp]: "stable (snd (snd (ingress_deliver now ctx vni u plain s))) = stable s"
  by (auto simp: ingress_deliver_def Let_def split: option.splits)

lemma stable_ingress_unbalanced [simp]: "stable (snd (snd (ingress_unbalanced now ctx u od s))) = stable s"
proof -
  obtain r p1 s1 where n: "ingress_nat now (pkt ctx) (uv_vni u) s = (r, p1, s1)" by (metis prod_cases3)
  then have s1: "stable s1 = stable s" using stable_ingress_nat by (metis snd_conv)
  have "stable (snd (snd (ingress_deliver now c v u b s1))) = stable s" for c v b by (simp add: s1)
  then show ?thesis
    by (auto simp: ingress_unbalanced_def n s1 Let_def case_prod_beta split: option.splits sum.splits prod.splits)
qed

lemma stable_uplink_rx: "stable (snd (snd (uplink_rx now ctx s))) = stable s"
proof -
  obtain r ctx1 s1 where t: "try_uplink_rx now ctx s = (r, ctx1, s1)" by (metis prod_cases3)
  have "stable (snd (snd (try_uplink_rx now ctx s))) = stable s"
    by (auto simp: try_uplink_rx_def Let_def case_prod_beta split: option.splits)
  then have "stable s1 = stable s" by (simp add: t)
  then show ?thesis by (auto simp: uplink_rx_def t split: sum.splits)
qed

lemma stable_tc_alloc [simp]: "stable (snd (tc_nat64_alloc_port now key nv rng s)) = stable s"
  by (simp add: tc_nat64_alloc_port_def Let_def case_prod_beta split: option.splits)

lemma stable_tc_nat64_egress [simp]: "stable (snd (snd (tc_nat64_egress now k vni gip ul s))) = stable s"
  by (auto simp: tc_nat64_egress_def Let_def case_prod_beta split: option.splits)

lemma stable_tc_nat64 [simp]: "stable (snd (snd (tc_guest_nat64 now k s))) = stable s"
proof (cases "hget (PORT_META s) (sk_ifindex k)")
  case (Some m)
  obtain r k1 s1 where e: "tc_nat64_egress now k (pm_vni m) (pm_guest_ipv4 m) (pm_underlay_ipv6 m) s = (r, k1, s1)" by (metis prod_cases3)
  then have "stable s1 = stable s" using stable_tc_nat64_egress by (metis snd_conv)
  then show ?thesis by (simp add: tc_guest_nat64_def Some e split: sum.splits option.splits)
qed (simp add: tc_guest_nat64_def)

lemma sk_ifindex_pull [simp]: "pull_data k n = Some k' \<Longrightarrow> sk_ifindex k' = sk_ifindex k" "sk_ifindex (pull_ignore k n) = sk_ifindex k"
  by (auto simp: pull_ignore_def pull_data_def linear_upto_def split: if_splits option.splits)

lemma stable_tc_dhcp [simp]: "stable (snd (snd (tc_guest_dhcp k s))) = stable s"
  by (auto simp: tc_guest_dhcp_def Let_def stable_learn_mac case_prod_beta split: option.splits)

lemma stable_tc_guest_tx: "stable (snd (snd (tc_guest_tx now tails k s))) = stable s"
proof -
  have "stable (snd (snd (tc_ipv6 now tails k meta s))) = stable s" for meta
    by (auto simp: tc_ipv6_def Let_def case_prod_beta split: option.splits prod.splits)
  moreover have "stable (snd (snd (tc_ipv4 now k meta s))) = stable s" for meta
    by (auto simp: tc_ipv4_def Let_def case_prod_beta)
  ultimately show ?thesis by (auto simp: tc_guest_tx_def Let_def case_prod_beta split: option.splits)
qed

text \<open>C19: packets cannot reconfigure the node. Whatever bytes a guest or the network sends,
  \<^verbatim>\<open>guest_tx\<close>, its tc counterpart \<^verbatim>\<open>tc_guest_tx\<close> and \<^verbatim>\<open>uplink_rx\<close> leave every configuration table
  as it is (routes, VIPs, NAT, load balancers, firewall rules, neighbour NAT, DHCP data), leave
  the VNI, tap, addresses and underlay bound to every tap, every underlay address and every
  interface, and leave the rates and bursts of every meter; only flow state, the tokens and times of
  the meters and the learned guest MAC addresses may change.\<close>

theorem datapath_keeps_config:
  "stable (snd (snd (guest_tx now tail_ok ctx s))) = stable s \<and> stable (snd (snd (tc_guest_tx now tails k s))) = stable s \<and>
   stable (snd (snd (uplink_rx now ctx s))) = stable s"
  by (simp add: stable_guest_tx stable_tc_guest_tx stable_uplink_rx)

section \<open>Steps\<close>

inductive sys_step :: "netdev_env \<Rightarrow> ctl \<Rightarrow> ctl \<Rightarrow> bool" for env where
  guest_packet: "sys_step env g (g\<lparr>tabs := snd (snd (guest_tx now tail_ok ctx (tabs g)))\<rparr>)"
| tc_guest_packet: "sys_step env g (g\<lparr>tabs := snd (snd (tc_guest_tx now tails k (tabs g)))\<rparr>)"
| uplink_packet: "sys_step env g (g\<lparr>tabs := snd (snd (uplink_rx now ctx (tabs g)))\<rparr>)"
| gc: "sys_step env g (g\<lparr>tabs := (tabs g)\<lparr>CONNTRACK := gc_sweep now (CONNTRACK (tabs g))\<rparr>\<rparr>)"
| evict: "sys_step env g (g\<lparr>tabs := (tabs g)\<lparr>CONNTRACK := (CONNTRACK (tabs g))(k := None)\<rparr>\<rparr>)"
| set_dhcp_config: "sys_step env g (snd (set_dhcp_config mtu dns4 dns6 g))"
| set_dhcp_meta: "sys_step env g (snd (set_dhcp_meta iid hn pxe boot g))"
| create_interface: "sys_step env g (snd (create_interface env iid dev ps g))"
| detach_interface: "sys_step env g (snd (detach_interface iid g))"
| create_route: "sys_step env g (snd (create_route vni ip len nh nhvni ext g))"
| delete_route: "sys_step env g (snd (delete_route vni ip len g))"
| create_route6: "sys_step env g (snd (create_route6 vni ip len nh nhvni ext g))"
| delete_route6: "sys_step env g (snd (delete_route6 vni ip len g))"
| reset_vni: "sys_step env g (snd (reset_vni vni g))"
| create_lb: "sys_step env g (snd (create_lb lid vni lbip ul ports g))"
| add_lb_target: "sys_step env g (snd (add_lb_target lid b g))"
| del_lb_target: "sys_step env g (snd (del_lb_target lid b g))"
| delete_lb: "sys_step env g (snd (delete_lb lid g))"
| create_vip: "sys_step env g (snd (create_vip iid vip pul g))"
| delete_vip: "sys_step env g (snd (delete_vip iid g))"
| create_nat: "sys_step env g (snd (create_nat iid nip pmin pmax pul g))"
| delete_nat: "sys_step env g (snd (delete_nat iid g))"
| add_fw_rule: "sys_step env g (snd (add_fw_rule iid rid rule g))"
| del_fw_rule: "sys_step env g (snd (del_fw_rule iid rid g))"
| add_prefix: "sys_step env g (snd (add_prefix iid pre len pul g))"
| add_prefix6: "sys_step env g (snd (add_prefix6 iid pre len pul g))"
| del_prefix: "sys_step env g (snd (del_prefix iid pre len g))"
| del_prefix6: "sys_step env g (snd (del_prefix6 iid pre len g))"
| add_lb_prefix: "sys_step env g (snd (add_lb_prefix iid pre len pul g))"
| add_lb_prefix6: "sys_step env g (snd (add_lb_prefix6 iid pre len pul g))"
| del_lb_prefix: "sys_step env g (snd (del_lb_prefix iid pre len g))"
| del_lb_prefix6: "sys_step env g (snd (del_lb_prefix6 iid pre len g))"
| add_neighbor_nat: "sys_step env g (snd (add_neighbor_nat vni nip pmin pmax ul g))"
| del_neighbor_nat: "sys_step env g (snd (del_neighbor_nat vni nip pmin pmax g))"

inductive reachable :: "netdev_env \<Rightarrow> ctl \<Rightarrow> bool" for env where
  init: "bring_up tc ix umac gmac ul = Inr g \<Longrightarrow> reachable env g"
| step: "reachable env g \<Longrightarrow> sys_step env g g' \<Longrightarrow> reachable env g'"

section \<open>Frames of the control operations\<close>

definition nb_view :: "ctl \<Rightarrow> NeighborNatEntry list \<times> (u32, NeighborNatEntry) hmap \<times> u32 list" where
  "nb_view g = (neigh_nats g, NEIGHBOR_NAT (tabs g), NEIGHBOR_NAT_COUNT (tabs g))"

lemma nb_synced_view: "nb_view g' = nb_view g \<Longrightarrow> nb_synced g' = nb_synced g"
  by (simp add: nb_view_def nb_synced_def)

lemma stable_fields:
  assumes eq: "stable s = stable t"
  shows "NEIGHBOR_NAT s = NEIGHBOR_NAT t" "NEIGHBOR_NAT_COUNT s = NEIGHBOR_NAT_COUNT t" "NAT s = NAT t" "FW_META s = FW_META t"
    "FW_RULES s = FW_RULES t" "FW_CONFIG s = FW_CONFIG t" "LOCAL s = LOCAL t"
proof -
  have "NEIGHBOR_NAT (fst (stable x)) = NEIGHBOR_NAT x" "NEIGHBOR_NAT_COUNT (fst (stable x)) = NEIGHBOR_NAT_COUNT x"
    "NAT (fst (stable x)) = NAT x" "FW_META (fst (stable x)) = FW_META x" "FW_RULES (fst (stable x)) = FW_RULES x"
    "FW_CONFIG (fst (stable x)) = FW_CONFIG x" "LOCAL (fst (stable x)) = LOCAL x" for x
    by (simp_all add: stable_def)
  then show "NEIGHBOR_NAT s = NEIGHBOR_NAT t" "NEIGHBOR_NAT_COUNT s = NEIGHBOR_NAT_COUNT t" "NAT s = NAT t" "FW_META s = FW_META t"
    "FW_RULES s = FW_RULES t" "FW_CONFIG s = FW_CONFIG t" "LOCAL s = LOCAL t"
    using eq by metis+
qed

lemma nb_view_stable: "stable s = stable (tabs g) \<Longrightarrow> nb_view (g\<lparr>tabs := s\<rparr>) = nb_view g"
  using stable_fields(1,2) [of s "tabs g"] by (simp add: nb_view_def)

lemma by_id_routes [simp]:
  "by_id (routes_remove vni p l g) = by_id g" "by_id (routes6_remove vni p l g) = by_id g"
  "nb_view (routes_remove vni p l g) = nb_view g" "nb_view (routes6_remove vni p l g) = nb_view g"
  by (simp_all add: routes_remove_def routes6_remove_def set_routes_def set_routes6_def nb_view_def)

lemma foldl_frame: "(\<And>g x. P (f g x) = P g) \<Longrightarrow> P (foldl f g xs) = P g"
  by (induction xs arbitrary: g) auto

lemma upd_frame: "(\<And>g. P (snd (k g)) = P g) \<Longrightarrow> (\<And>m g. P (f m g) = P g) \<Longrightarrow> P (snd (upd r f k g)) = P g"
  by (simp add: upd_def split: sum.splits)

lemmas frame_defs = set_dhcp_config_def set_dhcp_meta_def create_route_def delete_route_def create_route6_def
  delete_route6_def create_lb_def add_lb_target_def write_maglev_def del_lb_target_def delete_lb_def create_vip_def
  delete_vip_def create_nat_def delete_nat_def add_fw_rule_def del_fw_rule_def fw_reprogram_def add_prefix_def
  add_prefix6_def del_prefix_def del_prefix6_def add_lb_prefix_def add_lb_prefix6_def add_lb_prefix_rec_def
  del_lb_prefix_def del_lb_prefix6_def set_routes_def set_routes6_def set_vips_def routes_remove_def routes6_remove_def
  upd_def Let_def

lemma frames_dhcp [simp]:
  "nb_view (snd (set_dhcp_config mtu dns4 dns6 g)) = nb_view g" "by_id (snd (set_dhcp_config mtu dns4 dns6 g)) = by_id g"
  "nb_view (snd (set_dhcp_meta iid hn pxe boot g)) = nb_view g" "by_id (snd (set_dhcp_meta iid hn pxe boot g)) = by_id g"
  by (auto simp: frame_defs nb_view_def split: sum.splits option.splits)

lemma frames_route [simp]:
  "nb_view (snd (create_route vni ip len nh nhvni ext g)) = nb_view g" "by_id (snd (create_route vni ip len nh nhvni ext g)) = by_id g"
  "nb_view (snd (delete_route vni ip len g)) = nb_view g" "by_id (snd (delete_route vni ip len g)) = by_id g"
  "nb_view (snd (create_route6 vni ip len nh nhvni ext g)) = nb_view g" "by_id (snd (create_route6 vni ip len nh nhvni ext g)) = by_id g"
  "nb_view (snd (delete_route6 vni ip len g)) = nb_view g" "by_id (snd (delete_route6 vni ip len g)) = by_id g"
  by (auto simp: frame_defs nb_view_def split: sum.splits)

lemma frames_reset [simp]: "nb_view (snd (reset_vni vni g)) = nb_view g" "by_id (snd (reset_vni vni g)) = by_id g"
  by (simp_all add: reset_vni_def Let_def case_prod_beta foldl_frame [where P = nb_view] foldl_frame [where P = by_id])

lemma frames_lb [simp]:
  "nb_view (snd (create_lb lid vni lbip ul ports g)) = nb_view g" "by_id (snd (create_lb lid vni lbip ul ports g)) = by_id g"
  "nb_view (snd (add_lb_target lid b g)) = nb_view g" "by_id (snd (add_lb_target lid b g)) = by_id g"
  "nb_view (snd (del_lb_target lid b g)) = nb_view g" "by_id (snd (del_lb_target lid b g)) = by_id g"
  "nb_view (snd (delete_lb lid g)) = nb_view g" "by_id (snd (delete_lb lid g)) = by_id g"
  by (auto simp: frame_defs nb_view_def case_prod_beta split: sum.splits option.splits prod.splits)

lemma frames_nat [simp]:
  "nb_view (snd (create_vip iid vip pul g)) = nb_view g" "by_id (snd (create_vip iid vip pul g)) = by_id g"
  "nb_view (snd (delete_vip iid g)) = nb_view g" "by_id (snd (delete_vip iid g)) = by_id g"
  "nb_view (snd (create_nat iid nip pmin pmax pul g)) = nb_view g" "by_id (snd (create_nat iid nip pmin pmax pul g)) = by_id g"
  "nb_view (snd (delete_nat iid g)) = nb_view g" "by_id (snd (delete_nat iid g)) = by_id g"
  by (auto simp: frame_defs nb_view_def split: sum.splits option.splits)

lemma frames_fw [simp]:
  "nb_view (snd (add_fw_rule iid rid rule g)) = nb_view g" "by_id (snd (add_fw_rule iid rid rule g)) = by_id g"
  "nb_view (snd (del_fw_rule iid rid g)) = nb_view g" "by_id (snd (del_fw_rule iid rid g)) = by_id g"
  by (auto simp: frame_defs nb_view_def case_prod_beta split: sum.splits option.splits prod.splits)

lemma frames_prefix [simp]:
  "nb_view (snd (add_prefix iid pre len pul g)) = nb_view g" "by_id (snd (add_prefix iid pre len pul g)) = by_id g"
  "nb_view (snd (add_prefix6 iid pre len pul g)) = nb_view g" "by_id (snd (add_prefix6 iid pre len pul g)) = by_id g"
  "nb_view (snd (del_prefix iid pre len g)) = nb_view g" "by_id (snd (del_prefix iid pre len g)) = by_id g"
  "nb_view (snd (del_prefix6 iid pre len g)) = nb_view g" "by_id (snd (del_prefix6 iid pre len g)) = by_id g"
  by (auto simp: frame_defs nb_view_def case_prod_beta split: sum.splits option.splits prod.splits)

lemma frames_lb_prefix [simp]:
  "nb_view (snd (add_lb_prefix iid pre len pul g)) = nb_view g" "by_id (snd (add_lb_prefix iid pre len pul g)) = by_id g"
  "nb_view (snd (add_lb_prefix6 iid pre len pul g)) = nb_view g" "by_id (snd (add_lb_prefix6 iid pre len pul g)) = by_id g"
  "nb_view (snd (del_lb_prefix iid pre len g)) = nb_view g" "by_id (snd (del_lb_prefix iid pre len g)) = by_id g"
  "nb_view (snd (del_lb_prefix6 iid pre len g)) = nb_view g" "by_id (snd (del_lb_prefix6 iid pre len g)) = by_id g"
  by (auto simp: frame_defs nb_view_def case_prod_beta split: option.splits prod.splits)

section \<open>Interfaces\<close>

lemma nb_view_create_interface [simp]: "nb_view (snd (create_interface env iid dev ps g)) = nb_view g"
proof -
  have prog: "nb_view (snd (program_iface_maps tap mac ps g)) = nb_view g" for tap mac g
    by (auto simp: program_iface_maps_def nb_view_def Let_def set_routes_def set_routes6_def intro!: upd_frame)
  show ?thesis
    by (auto simp: create_interface_def Let_def prog split: sum.splits) (simp_all add: nb_view_def)
qed

lemma by_id_program [simp]: "by_id (snd (program_iface_maps tap mac ps g)) = by_id g"
  by (auto simp: program_iface_maps_def Let_def set_routes_def set_routes6_def intro!: upd_frame)

lemma by_id_create_interface:
  "by_id (snd (create_interface env iid dev ps g)) = by_id g \<or>
   (map_of (by_id g) iid = None \<and> \<not> list_ex (\<lambda>(_, r). ir_vni r = ip_vni ps \<and> ir_ipv4 r = ip_ipv4 ps) (by_id g) \<and>
    (\<exists>d. by_id (snd (create_interface env iid dev ps g)) = AList.update iid
       \<lparr>ir_vni = ip_vni ps, ir_ipv4 = ip_ipv4 ps, ir_ipv6 = ip_ipv6 ps, ir_device = d, ir_underlay = ip_underlay_ipv6 ps\<rparr> (by_id g)))"
  by (auto simp: create_interface_def Let_def split: sum.splits)

end
