(* ===== verification/System_Inv.thy ===== *)
theory System_Inv
  imports System
begin

text \<open>
  Invariants of every reachable state of the running system, whatever the interleaving of
  control operations, packets, aging and evictions: no two interfaces share an address of a VNI,
  the neighbour NAT table mirrors the control plane's list, and that list never assigns a port of
  a NAT address to two owners.
\<close>

section \<open>The invariants\<close>

definition ifaces_ok :: "(bytes \<times> IfaceRecord) list \<Rightarrow> bool" where
  "ifaces_ok xs \<longleftrightarrow> distinct (map fst xs) \<and> distinct (map (\<lambda>(_, r). (ir_vni r, ir_ipv4 r)) xs)"

definition nb_apart :: "NeighborNatEntry \<Rightarrow> NeighborNatEntry \<Rightarrow> bool" where
  "nb_apart a b \<longleftrightarrow>
     nn_nat_ip a = nn_nat_ip b \<longrightarrow> \<not> (nn_port_min a < nn_port_max b \<and> nn_port_max a > nn_port_min b)"

definition sys_inv :: "ctl \<Rightarrow> bool" where
  "sys_inv g \<longleftrightarrow> nb_synced g \<and> sorted_wrt nb_apart (neigh_nats g) \<and> ifaces_ok (by_id g)"

lemma sys_inv_view: "nb_view g' = nb_view g \<Longrightarrow> by_id g' = by_id g \<Longrightarrow> sys_inv g' = sys_inv g"
  using nb_synced_view [of g' g] by (simp add: sys_inv_def nb_view_def)

section \<open>Preservation\<close>

lemma alist_update_new: "map_of xs k = None \<Longrightarrow> AList.update k v xs = xs @ [(k, v)]"
  by (induction xs) (auto split: if_splits)

lemma ifaces_ok_new:
  assumes "ifaces_ok xs" "map_of xs i = None" "\<not> list_ex (\<lambda>(_, q). ir_vni q = ir_vni r \<and> ir_ipv4 q = ir_ipv4 r) xs"
  shows "ifaces_ok (AList.update i r xs)"
  using assms by (auto simp: ifaces_ok_def alist_update_new map_of_eq_None_iff list_ex_iff)

lemma ifaces_ok_delete: "ifaces_ok xs \<Longrightarrow> ifaces_ok (AList.delete i xs)"
  by (auto simp: ifaces_ok_def AList.delete_eq intro: distinct_map_filter)

lemma sys_inv_ifaces: "sys_inv g \<Longrightarrow> nb_view g' = nb_view g \<Longrightarrow> ifaces_ok (by_id g') \<Longrightarrow> sys_inv g'"
  using nb_synced_view [of g' g] by (simp add: sys_inv_def nb_view_def)

lemma create_interface_inv:
  assumes "sys_inv g"
  shows "sys_inv (snd (create_interface env iid dev ps g))"
proof (rule sys_inv_ifaces [OF assms nb_view_create_interface])
  have "ifaces_ok (by_id g)" using assms by (simp add: sys_inv_def)
  with by_id_create_interface [of env iid dev ps g] ifaces_ok_new [of "by_id g" iid]
  show "ifaces_ok (by_id (snd (create_interface env iid dev ps g)))" by force
qed

lemma add_neighbor_nat_inv: "sys_inv g \<Longrightarrow> sys_inv (snd (add_neighbor_nat vni nip pmin pmax ul g))"
proof -
  assume i: "sys_inv g"
  define e where "e = \<lparr>nn_underlay = ul, nn_nat_ip = nip, nn_vni = vni, nn_port_min = pmin, nn_port_max = pmax, nn_enabled = 1\<rparr>"
  define g1 where "g1 = g\<lparr>neigh_nats := neigh_nats g @ [e]\<rparr>"
  show ?thesis
  proof (cases "length (neigh_nats g) \<ge> 64 \<or> list_ex (nb_clash vni nip pmin pmax) (neigh_nats g)")
    case True
    then show ?thesis using i by (auto simp: add_neighbor_nat_def)
  next
    case False
    then have add: "add_neighbor_nat vni nip pmin pmax ul g = neigh_nat_reprogram g1"
      by (simp add: add_neighbor_nat_def g1_def e_def)
    have "nb_synced g" using i by (simp add: sys_inv_def)
    then obtain g' where g': "neigh_nat_reprogram g1 = (Inr (), g')" "nb_synced g'" "neigh_nats g' = neigh_nats g1"
      "by_id g' = by_id g"
      using neigh_nat_reprogram_ok [of g1] False by (auto simp: nb_synced_def g1_def)
    have "sorted_wrt nb_apart (neigh_nats g @ [e])"
      using False i by (auto simp: sys_inv_def sorted_wrt_append nb_apart_def nb_clash_def e_def list_ex_iff)
    then show ?thesis using i g' by (simp add: add sys_inv_def g1_def)
  qed
qed

lemma sys_inv_filter:
  assumes i: "sys_inv g" and g': "nb_synced g'" "neigh_nats g' = filter P (neigh_nats g)" "ifaces_ok (by_id g')"
  shows "sys_inv g'"
  using i g' by (simp add: sys_inv_def sorted_wrt_filter)

lemma del_neighbor_nat_inv: "sys_inv g \<Longrightarrow> sys_inv (snd (del_neighbor_nat vni nip pmin pmax g))"
proof (rule sys_inv_filter)
  assume i: "sys_inv g"
  let ?P = "\<lambda>e. \<not> (nn_vni e = vni \<and> nn_nat_ip e = nip \<and> nn_port_min e = pmin \<and> nn_port_max e = pmax)"
  have s: "nb_synced g" using i by (simp add: sys_inv_def)
  show "nb_synced (snd (del_neighbor_nat vni nip pmin pmax g))" using s by (rule del_neighbor_nat_synced)
  have r: "neigh_nats (snd (neigh_nat_reprogram h)) = neigh_nats h \<and> by_id (snd (neigh_nat_reprogram h)) = by_id h" for h
    by (auto simp: neigh_nat_reprogram_def Let_def upd_def split: prod.splits option.splits sum.splits)
  have "neigh_nats (snd (del_neighbor_nat vni nip pmin pmax g)) = filter ?P (neigh_nats g) \<and>
      by_id (snd (del_neighbor_nat vni nip pmin pmax g)) = by_id g"
    using r [of "g\<lparr>neigh_nats := filter ?P (neigh_nats g)\<rparr>"]
    by (auto simp: del_neighbor_nat_def Let_def split: prod.splits sum.splits)
  then show "neigh_nats (snd (del_neighbor_nat vni nip pmin pmax g)) = filter ?P (neigh_nats g)"
    "ifaces_ok (by_id (snd (del_neighbor_nat vni nip pmin pmax g)))"
    using i by (simp_all add: sys_inv_def)
qed

section \<open>Detaching an interface\<close>

lemma purge_frames [simp]:
  "nb_view (purge_nat vni ip g) = nb_view g" "by_id (purge_nat vni ip g) = by_id g"
  "nb_view (purge_routes vni g) = nb_view g" "by_id (purge_routes vni g) = by_id g"
  "nb_view (purge_routes6 vni g) = nb_view g" "by_id (purge_routes6 vni g) = by_id g"
proof -
  have upd: "nb_view (g\<lparr>routes_shadow := a\<rparr>) = nb_view g" "nb_view (g\<lparr>routes6_shadow := b\<rparr>) = nb_view g" for g a b
    by (simp_all add: nb_view_def)
  show "nb_view (purge_nat vni ip g) = nb_view g" "by_id (purge_nat vni ip g) = by_id g"
    by (simp_all add: purge_nat_def Let_def nb_view_def)
  show "nb_view (purge_routes vni g) = nb_view g" "by_id (purge_routes vni g) = by_id g"
    "nb_view (purge_routes6 vni g) = nb_view g" "by_id (purge_routes6 vni g) = by_id g"
    by (simp_all add: purge_routes_def purge_routes6_def Let_def upd case_prod_beta
          foldl_frame [where P = nb_view] foldl_frame [where P = by_id])
qed

lemma purge_neighbors_inv:
  assumes i: "sys_inv g"
  shows "sys_inv (purge_neighbors vni g)"
proof -
  let ?rest = "filter (\<lambda>e. nn_vni e \<noteq> vni) (neigh_nats g)"
  let ?g = "g\<lparr>neigh_nats := ?rest\<rparr>"
  have s: "nb_synced g" using i by (simp add: sys_inv_def)
  show ?thesis
  proof (cases "length ?rest = length (neigh_nats g)")
    case True
    then have "?rest = neigh_nats g"
      unfolding filter_id_conv by (metis (mono_tags, lifting) length_filter_less nat_neq_iff)
    then have "purge_neighbors vni g = g" unfolding purge_neighbors_def Let_def by simp
    then show ?thesis using i by simp
  next
    case False
    have "length ?rest \<le> 64"
      by (rule le_trans [OF length_filter_le]) (use s in \<open>simp add: nb_synced_def\<close>)
    then have pre: "nb_table_ok (NEIGHBOR_NAT (tabs ?g))" "length (neigh_nats ?g) \<le> 64"
      "length (NEIGHBOR_NAT_COUNT (tabs ?g)) = 1"
      using s by (simp_all add: nb_synced_def)
    obtain g' where g': "reprogram_ignore ?rest ?g = g'" "nb_synced g'" "neigh_nats g' = ?rest" "by_id g' = by_id g"
      using neigh_nat_reprogram_ok [OF pre] reprogram_ignore_eq [OF pre] by auto
    then have "purge_neighbors vni g = g'" using False unfolding purge_neighbors_def Let_def by simp
    then show ?thesis using g' i by (intro sys_inv_filter [OF i]) (simp_all add: sys_inv_def)
  qed
qed

lemma drop_iface_frame: "nb_view (drop_iface iid rec g) = nb_view g" "by_id (drop_iface iid rec g) = AList.delete iid (by_id g)"
proof -
  have "nb_view (g\<lparr>fw := a\<rparr>) = nb_view g" "nb_view (g\<lparr>learned_macs := b\<rparr>) = nb_view g" for g a b
    by (simp_all add: nb_view_def)
  then show "nb_view (drop_iface iid rec g) = nb_view g"
    by (simp add: drop_iface_def Let_def split: option.splits) (simp add: nb_view_def)
  show "by_id (drop_iface iid rec g) = AList.delete iid (by_id g)"
    by (simp add: drop_iface_def Let_def split: option.splits)
qed

lemma detach_interface_inv:
  assumes i: "sys_inv g"
  shows "sys_inv (snd (detach_interface iid g))"
proof (cases "map_of (by_id g) iid")
  case (Some rec)
  have d: "sys_inv (drop_iface iid rec g)"
    using i by (intro sys_inv_ifaces [OF i drop_iface_frame(1)]) (simp add: drop_iface_frame ifaces_ok_delete sys_inv_def)
  have "sys_inv (purge_vni v ip h)" if "sys_inv h" for v ip h
    using sys_inv_view [of "purge_vni v ip h" "purge_neighbors v h"] purge_neighbors_inv [OF that]
    by (simp add: purge_vni_def)
  then show ?thesis using d by (simp add: detach_interface_def Some Let_def)
qed (simp add: detach_interface_def i)

section \<open>Every reachable state\<close>

lemma sys_step_inv: "sys_step env g g' \<Longrightarrow> sys_inv g \<Longrightarrow> sys_inv g'"
proof (induction rule: sys_step.induct)
  case (guest_packet g now tail_ok ctx)
  then show ?case by (subst sys_inv_view [OF nb_view_stable [OF stable_guest_tx]]) simp_all
next
  case (tc_guest_packet g now tails k)
  then show ?case by (subst sys_inv_view [OF nb_view_stable [OF stable_tc_guest_tx]]) simp_all
next
  case (uplink_packet g now ctx)
  then show ?case by (subst sys_inv_view [OF nb_view_stable [OF stable_uplink_rx]]) simp_all
next
  case (gc g now)
  then show ?case by (subst sys_inv_view [OF nb_view_stable]) simp_all
next
  case (evict g k)
  then show ?case by (subst sys_inv_view [OF nb_view_stable]) simp_all
next
  case (create_interface g iid dev ps)
  then show ?case by (rule create_interface_inv)
next
  case (detach_interface g iid)
  then show ?case by (rule detach_interface_inv)
next
  case (add_neighbor_nat g vni nip pmin pmax ul)
  then show ?case by (rule add_neighbor_nat_inv)
next
  case (del_neighbor_nat g vni nip pmin pmax)
  then show ?case by (rule del_neighbor_nat_inv)
qed (subst sys_inv_view; simp)+

lemma bring_up_inv: "bring_up tc ix umac gmac ul = Inr g \<Longrightarrow> sys_inv g"
  by (auto simp: bring_up_def fresh_maps_def hnew_def sys_inv_def nb_synced_def nb_table_ok_def ifaces_ok_def
        split: sum.splits)

lemma reachable_inv: "reachable env g \<Longrightarrow> sys_inv g"
  by (induction rule: reachable.induct) (auto intro: bring_up_inv sys_step_inv)

lemma nb_find_unique:
  assumes "sorted_wrt nb_apart es" "e \<in> set es" "nb_hit vni dst dport e"
  shows "List.find (nb_hit vni dst dport) es = Some e"
  using assms
proof (induction es)
  case (Cons a es)
  have "a = e" if "nb_hit vni dst dport a"
    using that Cons.prems by (auto simp: nb_apart_def nb_hit_def dest: le_less_trans)
  then show ?case using Cons by auto
qed simp

lemma sys_inv_lookup:
  assumes "sys_inv g"
  shows "neighbor_nat_lookup (tabs g) vni dst dport = Some ul \<longleftrightarrow>
    (\<exists>e. e \<in> set (neigh_nats g) \<and> nb_hit vni dst dport e \<and> nn_underlay e = ul)"
proof -
  have i: "nb_synced g" "sorted_wrt nb_apart (neigh_nats g)" using assms by (simp_all add: sys_inv_def)
  have "neighbor_nat_lookup (tabs g) vni dst dport = map_option nn_underlay (List.find (nb_hit vni dst dport) (neigh_nats g))"
    using i(1) by (rule nb_synced_lookup)
  moreover have "List.find P xs = Some x \<Longrightarrow> x \<in> set xs \<and> P x" for P xs and x :: NeighborNatEntry
    by (auto simp: find_Some_iff)
  ultimately show ?thesis using nb_find_unique [OF i(2)] by auto
qed

lemma sys_inv_addresses:
  assumes "sys_inv g" "map_of (by_id g) i = Some r" "map_of (by_id g) j = Some q" "i \<noteq> j"
  shows "(ir_vni r, ir_ipv4 r) \<noteq> (ir_vni q, ir_ipv4 q)"
proof -
  have "inj_on (\<lambda>(_, r). (ir_vni r, ir_ipv4 r)) (set (by_id g))"
    using assms(1) by (simp add: sys_inv_def ifaces_ok_def distinct_map)
  from inj_onD [OF this, of "(i, r)" "(j, q)"] assms(2-4) show ?thesis by (auto dest: map_of_SomeD)
qed

section \<open>A running node\<close>

text \<open>A node just brought up, in an environment where every device exists.\<close>

definition sample_env :: netdev_env where
  "sample_env = \<lparr>dev_exists = (\<lambda>_. True), dev_ifindex = (\<lambda>_. Inr 7), dev_mac = (\<lambda>_. Inr [2, 0, 0, 0, 0, 1]),
     dev_attach = (\<lambda>_. True)\<rparr>"

definition sample_node :: ctl where
  "sample_node = \<lparr>tabs = fresh_maps\<lparr>LOCAL := [\<lparr>lo_uplink_ifindex = 2, lo_uplink_mac = [2, 0, 0, 0, 0, 2],
       lo_gateway_mac = [2, 0, 0, 0, 0, 3], lo_underlay_ipv6 = replicate 15 0 @ [9]\<rparr>]\<rparr>,
     neigh_nats = [], lbs = [], next_table_id = 1, by_id = [], by_ifindex = [],
     iface_underlay = [], prefixes = [], fw = [], lb_prefixes = [], links = [], guest_tc = True, routes_shadow = [],
     routes6_shadow = [], learned_macs = []\<rparr>"

definition sample_params :: "u8 \<Rightarrow> IfaceParams" where
  "sample_params n = \<lparr>ip_vni = 100, ip_ipv4 = [10, 0, 0, n], ip_ipv6 = replicate 16 0, ip_gateway_ipv4 = [10, 0, 0, 254],
     ip_gateway_ipv6 = replicate 15 0 @ [1], ip_underlay_ipv6 = replicate 15 0 @ [n],
     ip_total_mbps = 0, ip_public_mbps = 0\<rparr>"

lemma sample_node_reachable: "reachable sample_env sample_node"
  by (rule reachable.init [of True 2 "[2, 0, 0, 0, 0, 2]" "[2, 0, 0, 0, 0, 3]" "replicate 15 0 @ [9]"])
    (simp add: bring_up_def sample_node_def aset_def fresh_maps_def)

section \<open>Properties\<close>

text \<open>C20: in every reachable state the datapath's neighbour NAT lookup is exactly the control
  plane's list. A packet to port \<open>dport\<close> of a NAT address is sent to underlay \<open>ul\<close> if and only if
  the list has an entry of that VNI and address whose port range holds \<open>dport\<close> and whose owner is
  \<open>ul\<close>; in particular no two owners ever claim the same port, whatever operations, packets and
  evictions came before.\<close>

theorem neighbor_nat_exact:
  assumes "reachable env g"
  shows "neighbor_nat_lookup (tabs g) vni dst dport = Some ul \<longleftrightarrow>
    (\<exists>e. e \<in> set (neigh_nats g) \<and> nb_hit vni dst dport e \<and> nn_underlay e = ul)"
  by (rule sys_inv_lookup [OF reachable_inv [OF assms]])

theorem neighbor_nat_exact_witness:
  "reachable sample_env (snd (add_neighbor_nat 100 [198, 51, 100, 1] 1024 2048 (replicate 15 0 @ [5]) sample_node)) \<and>
   neighbor_nat_lookup (tabs (snd (add_neighbor_nat 100 [198, 51, 100, 1] 1024 2048 (replicate 15 0 @ [5]) sample_node)))
     100 [198, 51, 100, 1] 1500 = Some (replicate 15 0 @ [5])"
proof -
  let ?g = "snd (add_neighbor_nat 100 [198, 51, 100, 1] 1024 2048 (replicate 15 0 @ [5]) sample_node)"
  have r: "reachable sample_env ?g"
    by (rule reachable.step [OF sample_node_reachable]) (rule sys_step.add_neighbor_nat)
  have "neigh_nats ?g = [\<lparr>nn_underlay = replicate 15 0 @ [5], nn_nat_ip = [198, 51, 100, 1], nn_vni = 100,
     nn_port_min = 1024, nn_port_max = 2048, nn_enabled = 1\<rparr>]"
    by (simp add: add_neighbor_nat_def sample_node_def neigh_nat_reprogram_def nb_rows_def Let_def table_eval)
  then show ?thesis using r neighbor_nat_exact [OF r, of 100 "[198, 51, 100, 1]" 1500 "replicate 15 0 @ [5]"]
    by (simp add: nb_hit_def)
qed

text \<open>C21: in every reachable state an address of a VNI belongs to at most one interface: two
  recorded interfaces with the same VNI and IPv4 address are the same interface. This is what the
  duplicate checks of \<^verbatim>\<open>create_interface\<close> are for.\<close>

theorem interface_address_unique:
  assumes "reachable env g" "map_of (by_id g) i = Some r" "map_of (by_id g) j = Some q" "i \<noteq> j"
  shows "(ir_vni r, ir_ipv4 r) \<noteq> (ir_vni q, ir_ipv4 q)"
  by (rule sys_inv_addresses [OF reachable_inv [OF assms(1)] assms(2-4)])

theorem interface_address_unique_witness:
  "\<exists>g. reachable sample_env g \<and> map_of (by_id g) [1] = Some (sample_iface 1) \<and> map_of (by_id g) [2] = Some (sample_iface 2) \<and>
     (ir_vni (sample_iface 1), ir_ipv4 (sample_iface 1)) \<noteq> (ir_vni (sample_iface 2), ir_ipv4 (sample_iface 2))"
proof -
  define g1 where "g1 = snd (create_interface sample_env [1] ''dtapvf_0'' (sample_params 1) sample_node)"
  define g2 where "g2 = snd (create_interface sample_env [2] ''dtapvf_0'' (sample_params 2) g1)"
  have r1: "reachable sample_env g1" unfolding g1_def
    by (rule reachable.step [OF sample_node_reachable]) (rule sys_step.create_interface)
  have r2: "reachable sample_env g2" unfolding g2_def
    by (rule reachable.step [OF r1]) (rule sys_step.create_interface)
  note eval = create_interface_def sample_env_def resolve_iface_def sample_params_def Let_def
  have "by_id g1 = [([1], sample_iface 1)]"
    by (simp add: g1_def eval sample_node_def sample_iface_def)
  then have b: "by_id g2 = [([1], sample_iface 1), ([2], sample_iface 2)]"
    by (simp add: g2_def eval sample_iface_def)
  show ?thesis
    using r2 b interface_address_unique [OF r2, of "[1]" "sample_iface 1" "[2]" "sample_iface 2"] by (intro exI [of _ g2]) simp
qed

text \<open>C22: programming a neighbour NAT can only fail for the two reasons the operation checks. In
  every reachable state \<^verbatim>\<open>add_neighbor_nat\<close> refuses a 65th entry, refuses a range that repeats or
  overlaps one of the same NAT address, and otherwise succeeds: the table itself never rejects the
  entry, so list and table cannot drift apart.\<close>

theorem add_neighbor_nat_outcome:
  assumes "reachable env g"
  shows "fst (add_neighbor_nat vni nip pmin pmax ul g) =
    (if length (neigh_nats g) \<ge> 64 then Inl NeighborNatFull
     else if list_ex (nb_clash vni nip pmin pmax) (neigh_nats g) then Inl NeighborNatExists else Inr ())"
proof -
  have "nb_synced g" using reachable_inv [OF assms] by (simp add: sys_inv_def)
  then show ?thesis
    using nb_synced_change [of g "neigh_nats g @ [\<lparr>nn_underlay = ul, nn_nat_ip = nip, nn_vni = vni, nn_port_min = pmin,
               nn_port_max = pmax, nn_enabled = 1\<rparr>]"]
    by (auto simp: add_neighbor_nat_def)
qed

theorem add_neighbor_nat_outcome_witness:
  "reachable sample_env sample_node \<and>
   fst (add_neighbor_nat 100 [198, 51, 100, 1] 1024 2048 (replicate 15 0 @ [5]) sample_node) = Inr ()"
  using sample_node_reachable
    add_neighbor_nat_outcome [OF sample_node_reachable, of 100 "[198, 51, 100, 1]" 1024 2048 "replicate 15 0 @ [5]"]
  by (simp add: sample_node_def)

end
