(* ===== verification/Services.thy ===== *)
theory Services
  imports System_Inv Vip
begin

text \<open>
  NAT and VIP configuration end to end, and what a refused operation leaves behind.
\<close>

section \<open>Refused operations\<close>

text \<open>A refusal is an error the operation decides itself, not one a full table gives it.\<close>

definition refusal :: "ctl_error \<Rightarrow> bool" where
  "refusal e = (case e of MapError _ \<Rightarrow> False | MaglevError \<Rightarrow> False | _ \<Rightarrow> True)"

definition clean_refusal :: "maps \<Rightarrow> (ctl_error + 'a) \<times> ctl \<Rightarrow> bool" where
  "clean_refusal s r = (case fst r of Inl e \<Rightarrow> refusal e \<longrightarrow> tabs (snd r) = s | Inr _ \<Rightarrow> True)"

lemma clean_refusal_simps [simp]:
  "clean_refusal (tabs g) (Inl e, g)" "clean_refusal s (Inr x, g)" "clean_refusal s (Inl (MapError m), g)"
  "clean_refusal s (Inl MaglevError, g)"
  by (simp_all add: clean_refusal_def refusal_def)

lemma clean_refusal_upd: "(\<And>m. r = Inr m \<Longrightarrow> clean_refusal s (k (f m g))) \<Longrightarrow> clean_refusal s (upd r f k g)"
  by (simp add: upd_def split: sum.splits)

lemma clean_program: "clean_refusal s (program_iface_maps tap mac ps g)"
  by (simp add: program_iface_maps_def Let_def clean_refusal_upd)

lemma clean_reprogram: "clean_refusal s (neigh_nat_reprogram g)" "clean_refusal s (fw_reprogram ix g)" "clean_refusal s (write_maglev t bs g)"
  by (auto simp: neigh_nat_reprogram_def fw_reprogram_def write_maglev_def Let_def case_prod_beta
        intro!: clean_refusal_upd split: option.splits)

lemma clean_ops:
  "clean_refusal (tabs g) (create_interface env iid dev ps g)"
  "clean_refusal (tabs g) (create_route vni ip4 len nh nhvni ext g)" "clean_refusal (tabs g) (create_route6 vni ip6 len nh nhvni ext g)"
  "clean_refusal (tabs g) (create_lb lid vni lbip ul ports g)" "clean_refusal (tabs g) (add_lb_target lid b g)"
  "clean_refusal (tabs g) (create_vip iid vip pul g)" "clean_refusal (tabs g) (create_nat iid nip pmin pmax pul g)"
  "clean_refusal (tabs g) (add_fw_rule iid rid rule g)" "clean_refusal (tabs g) (add_prefix iid pre len pul g)"
  "clean_refusal (tabs g) (add_prefix6 iid pre6 len pul g)" "clean_refusal (tabs g) (add_lb_prefix iid pre len pul g)"
  "clean_refusal (tabs g) (add_lb_prefix6 iid pre6 len pul g)" "clean_refusal (tabs g) (add_neighbor_nat vni nip pmin pmax ul g)"
proof -
  show "clean_refusal (tabs g) (create_interface env iid dev ps g)"
    by (simp add: create_interface_def Let_def clean_program split: sum.splits)
  show "clean_refusal (tabs g) (create_route vni ip4 len nh nhvni ext g)" "clean_refusal (tabs g) (create_route6 vni ip6 len nh nhvni ext g)"
    by (simp_all add: create_route_def create_route6_def clean_refusal_upd)
  show "clean_refusal (tabs g) (create_lb lid vni lbip ul ports g)"
    by (simp add: create_lb_def Let_def case_prod_beta clean_refusal_upd split: option.splits)
  show "clean_refusal (tabs g) (add_lb_target lid b g)"
    by (simp add: add_lb_target_def Let_def clean_reprogram split: option.splits)
  show "clean_refusal (tabs g) (create_vip iid vip pul g)" "clean_refusal (tabs g) (create_nat iid nip pmin pmax pul g)"
    by (simp_all add: create_vip_def create_nat_def Let_def clean_refusal_upd split: option.splits)
  show "clean_refusal (tabs g) (add_fw_rule iid rid rule g)"
    by (auto simp: add_fw_rule_def Let_def clean_reprogram clean_refusal_def [of _ "(Inl _, _)"] split: option.splits)
  show "clean_refusal (tabs g) (add_prefix iid pre len pul g)" "clean_refusal (tabs g) (add_prefix6 iid pre6 len pul g)"
    by (simp_all add: add_prefix_def add_prefix6_def Let_def clean_refusal_upd split: option.splits)
  show "clean_refusal (tabs g) (add_lb_prefix iid pre len pul g)" "clean_refusal (tabs g) (add_lb_prefix6 iid pre6 len pul g)"
    by (simp_all add: add_lb_prefix_def add_lb_prefix6_def add_lb_prefix_rec_def Let_def split: option.splits)
  show "clean_refusal (tabs g) (add_neighbor_nat vni nip pmin pmax ul g)"
    by (simp add: add_neighbor_nat_def clean_reprogram)
qed

text \<open>The deletions: an unknown object leaves the tables alone, whether it is reported as
  \<^verbatim>\<open>Ok(false)\<close> or as an error.\<close>

definition clean_absent :: "maps \<Rightarrow> (ctl_error + bool) \<times> ctl \<Rightarrow> bool" where
  "clean_absent s r = (case fst r of Inl e \<Rightarrow> refusal e \<longrightarrow> tabs (snd r) = s | Inr found \<Rightarrow> found \<or> tabs (snd r) = s)"

lemma clean_absent_simps [simp]:
  "clean_absent (tabs g) (Inl e, g)" "clean_absent s (Inr True, g)" "clean_absent s (Inl (MapError m), g)"
  "clean_absent s (Inl MaglevError, g)" "tabs g = s \<Longrightarrow> clean_absent s (Inr b, g)"
  by (simp_all add: clean_absent_def refusal_def)

lemma clean_absent_case:
  "clean_refusal s r \<Longrightarrow> clean_absent s (case r of (Inl e, g) \<Rightarrow> (Inl e, g) | (Inr _, g) \<Rightarrow> (Inr True, g))"
  by (auto simp: clean_refusal_def clean_absent_def split: prod.splits sum.splits)

lemma clean_deletions:
  "clean_absent (tabs g) (detach_interface iid g)"
  "clean_absent (tabs g) (delete_route vni ip4 len g)" "clean_absent (tabs g) (delete_route6 vni ip6 len g)"
  "clean_absent (tabs g) (del_lb_target lid b g)" "clean_absent (tabs g) (delete_lb lid g)"
  "clean_absent (tabs g) (delete_vip iid g)" "clean_absent (tabs g) (delete_nat iid g)" "clean_absent (tabs g) (del_fw_rule iid rid g)"
  "clean_absent (tabs g) (del_prefix iid ip4 len g)" "clean_absent (tabs g) (del_prefix6 iid ip6 len g)"
  "clean_absent (tabs g) (del_lb_prefix iid ip4 len g)" "clean_absent (tabs g) (del_lb_prefix6 iid ip6 len g)"
  "clean_absent (tabs g) (del_neighbor_nat vni nip pmin pmax g)"
proof -
  show "clean_absent (tabs g) (detach_interface iid g)" "clean_absent (tabs g) (delete_lb lid g)" "clean_absent (tabs g) (delete_vip iid g)"
    "clean_absent (tabs g) (delete_nat iid g)"
    by (simp_all add: detach_interface_def delete_lb_def delete_vip_def delete_nat_def Let_def split: option.splits)
  show "clean_absent (tabs g) (delete_route vni ip4 len g)" "clean_absent (tabs g) (delete_route6 vni ip6 len g)"
    by (simp_all add: delete_route_def delete_route6_def Let_def)
  show "clean_absent (tabs g) (del_prefix iid ip4 len g)" "clean_absent (tabs g) (del_prefix6 iid ip6 len g)"
    "clean_absent (tabs g) (del_lb_prefix iid ip4 len g)" "clean_absent (tabs g) (del_lb_prefix6 iid ip6 len g)"
    by (simp_all add: del_prefix_def del_prefix6_def del_lb_prefix_def del_lb_prefix6_def Let_def case_prod_beta split: option.splits)
  show "clean_absent (tabs g) (del_fw_rule iid rid g)" "clean_absent (tabs g) (del_neighbor_nat vni nip pmin pmax g)"
    "clean_absent (tabs g) (del_lb_target lid b g)"
    by (simp_all add: del_fw_rule_def del_neighbor_nat_def del_lb_target_def Let_def clean_absent_case clean_reprogram split: option.splits)
qed

section \<open>NAT ranges\<close>

lemma create_nat_ok:
  assumes "create_nat iid nip pmin pmax pul g = (Inr ul, g')"
  shows "\<exists>rec m. map_of (by_id g) iid = Some rec \<and> nat_of g rec = None \<and> \<not> nat_overlaps (ir_vni rec) nip pmin pmax g \<and>
    hinsert (NAT (tabs g)) \<lparr>nk_vni = ir_vni rec, nk_ipv4 = ir_ipv4 rec\<rparr>
      \<lparr>nv_nat_ipv4 = nip, nv_port_min = pmin, nv_port_max = pmax\<rparr> = Inr m \<and> NAT (tabs g') = m \<and> by_id g' = by_id g"
  using assms by (auto simp: create_nat_def Let_def upd_def split: option.splits if_splits sum.splits)

text \<open>C33: NAT ports are exclusive. A successful \<^verbatim>\<open>create_nat\<close> enters exactly the given address and
  range for the interface's address and leaves every other entry of the NAT table as it was. When
  the range is well formed (\<open>port_min\<close> below \<open>port_max\<close>), no port the allocator can draw for this
  interface (any start and any probe, over the range of the entry) equals a port it can draw for
  another interface of the VNI that has a well-formed range of the same NAT address.\<close>

theorem create_nat_disjoint:
  assumes "create_nat iid nip pmin pmax pul g = (Inr ul, g')" "map_of (by_id g) iid = Some rec"
  defines "nv \<equiv> \<lparr>nv_nat_ipv4 = nip, nv_port_min = pmin, nv_port_max = pmax\<rparr>"
  shows "hget (NAT (tabs g')) = (hget (NAT (tabs g)))(\<lparr>nk_vni = ir_vni rec, nk_ipv4 = ir_ipv4 rec\<rparr> \<mapsto> nv) \<and>
    (\<forall>j r v. map_of (by_id g) j = Some r \<and> ir_vni r = ir_vni rec \<and> nat_of g r = Some v \<and> nv_nat_ipv4 v = nip \<and>
       pmin < pmax \<and> nv_port_min v < nv_port_max v \<longrightarrow>
       nat_cand nv start (pmax - pmin) n \<noteq> nat_cand v start' (nv_port_max v - nv_port_min v) n')"
proof -
  from create_nat_ok [OF assms(1)] assms(2) obtain m where
    o: "\<not> nat_overlaps (ir_vni rec) nip pmin pmax g" and
    m: "hinsert (NAT (tabs g)) \<lparr>nk_vni = ir_vni rec, nk_ipv4 = ir_ipv4 rec\<rparr> nv = Inr m" "NAT (tabs g') = m"
    by (auto simp: nv_def)
  have "nat_cand nv start (pmax - pmin) n \<noteq> nat_cand v start' (nv_port_max v - nv_port_min v) n'"
    if v: "map_of (by_id g) j = Some r" "ir_vni r = ir_vni rec" "nat_of g r = Some v" "nv_nat_ipv4 v = nip"
      and wf: "pmin < pmax" "nv_port_min v < nv_port_max v" for j r v
  proof -
    have "pmax \<le> nv_port_min v \<or> nv_port_max v \<le> pmin"
      using o v map_of_SomeD [OF v(1)] by (fastforce simp: nat_overlaps_def list_ex_iff not_less)
    moreover have "pmin \<le> nat_cand nv start (pmax - pmin) n \<and> nat_cand nv start (pmax - pmin) n < pmax"
      using nat_cand_in_range [of nv "pmax - pmin" start n] wf(1) by (simp add: nv_def)
    moreover note nat_cand_in_range [OF wf(2) refl, of start' n']
    ultimately show ?thesis by (metis leD le_less_trans less_le_trans)
  qed
  then show ?thesis using hget_hinsert [OF m(1)] m(2) by blast
qed

text \<open>Two interfaces of VNI 100; the second already has ports 2048 to 4095 of 203.0.113.5.\<close>

definition sample_nat_pair :: ctl where
  "sample_nat_pair = sample_ctl\<lparr>by_id := by_id sample_ctl @ [([9], (sample_iface 2)\<lparr>ir_ipv4 := [10, 0, 0, 2]\<rparr>)],
     tabs := fresh_maps\<lparr>NAT := \<lparr>max_entries = 1024, entries = [(\<lparr>nk_vni = 100, nk_ipv4 = [10, 0, 0, 2]\<rparr>,
       \<lparr>nv_nat_ipv4 = [203, 0, 113, 5], nv_port_min = 2048, nv_port_max = 4096\<rparr>)]\<rparr>\<rparr>\<rparr>"

theorem create_nat_disjoint_witness:
  "\<exists>g'. create_nat [1] [203, 0, 113, 5] 1024 2048 None sample_nat_pair = (Inr (replicate 15 0 @ [1]), g') \<and>
     hget (NAT (tabs g')) \<lparr>nk_vni = 100, nk_ipv4 = [10, 0, 0, 1]\<rparr> =
       Some \<lparr>nv_nat_ipv4 = [203, 0, 113, 5], nv_port_min = 1024, nv_port_max = 2048\<rparr> \<and>
     nat_cand \<lparr>nv_nat_ipv4 = [203, 0, 113, 5], nv_port_min = 1024, nv_port_max = 2048\<rparr> 5 (2048 - 1024) 3 \<noteq>
       nat_cand \<lparr>nv_nat_ipv4 = [203, 0, 113, 5], nv_port_min = 2048, nv_port_max = 4096\<rparr> 7 (4096 - 2048) 2"
proof -
  let ?r = "(sample_iface 2)\<lparr>ir_ipv4 := [10, 0, 0, 2]\<rparr>"
    and ?v = "\<lparr>nv_nat_ipv4 = [203, 0, 113, 5], nv_port_min = 2048, nv_port_max = 4096\<rparr>"
  have ids: "map_of (by_id sample_nat_pair) [1] = Some (sample_iface 1)" "map_of (by_id sample_nat_pair) [9] = Some ?r"
    by (simp_all add: sample_nat_pair_def sample_ctl_def)
  have v: "nat_of sample_nat_pair ?r = Some ?v" "ir_vni ?r = ir_vni (sample_iface 1)"
    by (simp_all add: nat_of_def sample_nat_pair_def hget_def sample_iface_def)
  obtain g' where g': "create_nat [1] [203, 0, 113, 5] 1024 2048 None sample_nat_pair = (Inr (replicate 15 0 @ [1]), g')"
    by (simp add: create_nat_def nat_of_def nat_overlaps_def Let_def sample_nat_pair_def table_eval)
  note d = create_nat_disjoint [OF g' ids(1), of 5 3 7 2]
  then have "nat_cand \<lparr>nv_nat_ipv4 = [203, 0, 113, 5], nv_port_min = 1024, nv_port_max = 2048\<rparr> 5 (2048 - 1024) 3 \<noteq>
       nat_cand ?v 7 (nv_port_max ?v - nv_port_min ?v) 2"
    by (elim conjE allE [of _ "[9]"] allE [of _ ?r] allE [of _ ?v]) (use ids(2) v in simp)
  then show ?thesis using g' d by (simp add: sample_iface_def)
qed

text \<open>Deleting a NAT removes all of it. After \<^verbatim>\<open>delete_nat\<close> the interface has no NAT entry, the
  conntrack table has no forward entry that still translates the guest's address and no return
  entry for a port of the range, and every entry of another VNI is as before.\<close>

theorem delete_nat_flushes:
  assumes "delete_nat iid g = (Inr True, g')" "map_of (by_id g) iid = Some rec" "nat_of g rec = Some v"
  shows "nat_of g' rec = None \<and>
    (\<forall>k e. CONNTRACK (tabs g') k = Some e \<longrightarrow> ck_vni k = ir_vni rec \<longrightarrow>
       \<not> (ck_src_ip k = ir_ipv4 rec \<and> ce_flags e AND CT_F_SRC_NAT \<noteq> 0) \<and>
       \<not> (ck_dst_ip k = nv_nat_ipv4 v \<and> nv_port_min v \<le> ck_dst_port k \<and> ck_dst_port k < nv_port_max v \<and>
          ce_flags e AND CT_REWRITE_DST \<noteq> 0)) \<and>
    (\<forall>k. ck_vni k \<noteq> ir_vni rec \<longrightarrow> CONNTRACK (tabs g') k = CONNTRACK (tabs g) k)"
proof -
  have nat: "nat_of g' rec = None" and ct: "CONNTRACK (tabs g') =
      ct_flush_for_guest (ir_vni rec) (ir_ipv4 rec) (nv_nat_ipv4 v) (nv_port_min v) (nv_port_max v) (CONNTRACK (tabs g))"
    using assms by (auto simp: delete_nat_def Let_def nat_of_def hget_hdel split: if_splits)
  show ?thesis using nat by (auto simp: ct ct_flush_for_guest_def Let_def split: option.splits if_splits)
qed

theorem delete_nat_flushes_witness:
  "\<exists>g g'. delete_nat [1] g = (Inr True, g') \<and> nat_of g (sample_iface 1) \<noteq> None \<and> nat_of g' (sample_iface 1) = None"
proof -
  let ?v = "\<lparr>nv_nat_ipv4 = [203, 0, 113, 5], nv_port_min = 1024, nv_port_max = 2048\<rparr>"
  define g where "g = sample_ctl\<lparr>tabs := fresh_maps\<lparr>NAT := \<lparr>max_entries = 1024, entries =
     [(\<lparr>nk_vni = 100, nk_ipv4 = [10, 0, 0, 1]\<rparr>, ?v)]\<rparr>\<rparr>\<rparr>"
  have r: "map_of (by_id g) [1] = Some (sample_iface 1)" by (simp add: g_def sample_ctl_def)
  have v: "nat_of g (sample_iface 1) = Some ?v" by (simp add: nat_of_def g_def hget_def sample_iface_def)
  obtain g' where g': "delete_nat [1] g = (Inr True, g')" using v r by (simp add: delete_nat_def Let_def)
  show ?thesis using g' v delete_nat_flushes [OF g' r v] by (intro exI [of _ g] exI [of _ g']) simp
qed

section \<open>VIPs\<close>

text \<open>C34: a VIP works in both directions as soon as it is created. After a successful
  \<^verbatim>\<open>create_vip\<close>, egress translates the guest's source address to the VIP and ingress translates a
  destination equal to the VIP back to the guest's address, for every IPv4 packet of the VNI.\<close>

theorem create_vip_translates:
  assumes "create_vip iid vip pul g = (Inr ul, g')" "map_of (by_id g) iid = Some rec" "vip \<noteq> ir_ipv4 rec"
    and "length vip = 4" "length (ir_ipv4 rec) = 4"
    and "off + 20 \<le> length p" "20 \<le> ihl_bytes p off" "rdn p (off + 12) 4 = ir_ipv4 rec"
    and "off2 + 20 \<le> length q" "20 \<le> ihl_bytes q off2" "rdn q (off2 + 16) 4 = vip"
  shows "rdn (snat_egress (tabs g') p off (ir_vni rec)) (off + 12) 4 = vip \<and>
    rdn (dnat_ingress (tabs g') q off2 (ir_vni rec)) (off2 + 16) 4 = ir_ipv4 rec"
proof -
  have "hget (VIPS (tabs g')) = (hget (VIPS (tabs g)))(\<lparr>vk_vni = ir_vni rec, vk_ipv4 = ir_ipv4 rec\<rparr> \<mapsto> vip,
      \<lparr>vk_vni = ir_vni rec, vk_ipv4 = vip\<rparr> \<mapsto> ir_ipv4 rec)"
    using assms(1,2) by (auto simp: create_vip_def Let_def upd_def set_vips_def hget_hinsert split: if_splits sum.splits option.splits)
  then have h: "hget (VIPS (tabs g')) \<lparr>vk_vni = ir_vni rec, vk_ipv4 = rdn p (off + 12) 4\<rparr> = Some vip"
    "hget (VIPS (tabs g')) \<lparr>vk_vni = ir_vni rec, vk_ipv4 = rdn q (off2 + 16) 4\<rparr> = Some (ir_ipv4 rec)"
    using assms(3,8,11) by simp_all
  show ?thesis
    using rewrite_raw_addr [OF h(1), of True] rewrite_raw_addr [OF h(2), of False] assms(4-7,9,10)
    by (simp add: snat_egress_def dnat_ingress_def)
qed

theorem create_vip_translates_witness:
  "\<exists>g'. create_vip [1] [203, 0, 113, 7] None sample_ctl = (Inr (replicate 15 0 @ [1]), g') \<and>
     rdn (snat_egress (tabs g') sample_syn 14 100) (14 + 12) 4 = [203, 0, 113, 7] \<and>
     rdn (dnat_ingress (tabs g') (wrn sample_syn 30 [203, 0, 113, 7]) 14 100) (14 + 16) 4 = [10, 0, 0, 1]"
proof -
  obtain g' where g': "create_vip [1] [203, 0, 113, 7] None sample_ctl = (Inr (replicate 15 0 @ [1]), g')"
    by (simp add: create_vip_def set_vips_def Let_def table_eval)
  have r: "map_of (by_id sample_ctl) [1] = Some (sample_iface 1)" by (simp add: sample_ctl_def)
  have "rdn (snat_egress (tabs g') sample_syn 14 (ir_vni (sample_iface 1))) (14 + 12) 4 = [203, 0, 113, 7] \<and>
     rdn (dnat_ingress (tabs g') (wrn sample_syn 30 [203, 0, 113, 7]) 14 (ir_vni (sample_iface 1))) (14 + 16) 4 = ir_ipv4 (sample_iface 1)"
    by (rule create_vip_translates [OF g' r])
      (simp_all add: sample_iface_def sample_syn_def packet_eval ihl_bytes_def wr8_def)
  then show ?thesis using g' by (simp add: sample_iface_def)
qed

section \<open>Overlapping NAT ranges\<close>

text \<open>\<^verbatim>\<open>create_nat\<close> compares ranges only with those of interfaces that exist, and
  \<^verbatim>\<open>detach_interface\<close> leaves the NAT entry of its interface behind while the VNI is in use. A range
  given to another interface in between belongs to two guests once the interface is back.\<close>

lemma NAT_frames:
  "NAT (tabs (snd (create_interface env iid dev ps g))) = NAT (tabs g)"
  "NAT (tabs (drop_iface iid rec g)) = NAT (tabs g)"
proof -
  have "NAT (tabs (snd (program_iface_maps tap mac ps g))) = NAT (tabs g)" for tap mac g
    by (auto simp: program_iface_maps_def Let_def set_routes_def set_routes6_def
          intro!: upd_frame [where P = "\<lambda>g. NAT (tabs g)"])
  then show "NAT (tabs (snd (create_interface env iid dev ps g))) = NAT (tabs g)"
    by (simp add: create_interface_def Let_def split: sum.splits)
  show "NAT (tabs (drop_iface iid rec g)) = NAT (tabs g)"
    by (simp add: drop_iface_def Let_def routes_remove_def routes6_remove_def set_routes_def set_routes6_def split: option.splits)
qed

theorem nat_ranges_overlap_after_reattach:
  "\<exists>g v. reachable sample_env g \<and> nat_of g (sample_iface 1) = Some v \<and> nat_of g (sample_iface 2) = Some v \<and>
     nv_port_min v < nv_port_max v \<and>
     by_id g = [([2], sample_iface 2), ([1], sample_iface 1)]"
proof -
  let ?v = "\<lparr>nv_nat_ipv4 = [203, 0, 113, 5], nv_port_min = 1024, nv_port_max = 2048\<rparr>"
  let ?k = "\<lambda>n. \<lparr>nk_vni = 100, nk_ipv4 = [10, 0, 0, n]\<rparr>"
  define g1 where "g1 = snd (create_interface sample_env [1] ''dtapvf_0'' (sample_params 1) sample_node)"
  define g2 where "g2 = snd (create_interface sample_env [2] ''dtapvf_0'' (sample_params 2) g1)"
  define g3 where "g3 = snd (create_nat [1] [203, 0, 113, 5] 1024 2048 None g2)"
  define g4 where "g4 = snd (detach_interface [1] g3)"
  define g5 where "g5 = snd (create_nat [2] [203, 0, 113, 5] 1024 2048 None g4)"
  define g6 where "g6 = snd (create_interface sample_env [1] ''dtapvf_0'' (sample_params 1) g5)"
  note steps = reachable.step sys_step.create_interface sys_step.create_nat sys_step.detach_interface
  have "reachable sample_env g1" unfolding g1_def by (rule steps(1) [OF sample_node_reachable steps(2)])
  then have "reachable sample_env g2" unfolding g2_def by (rule steps(1) [OF _ steps(2)])
  then have "reachable sample_env g3" unfolding g3_def by (rule steps(1) [OF _ steps(3)])
  then have "reachable sample_env g4" unfolding g4_def by (rule steps(1) [OF _ steps(4)])
  then have "reachable sample_env g5" unfolding g5_def by (rule steps(1) [OF _ steps(3)])
  then have r: "reachable sample_env g6" unfolding g6_def by (rule steps(1) [OF _ steps(2)])
  note eval = create_interface_def sample_env_def resolve_iface_def sample_params_def Let_def
  note nat = create_nat_def nat_of_def nat_overlaps_def hinsert_def hget_def upd_def sample_iface_def
  have n0: "NAT (tabs sample_node) = \<lparr>max_entries = 1024, entries = []\<rparr>" by (simp add: sample_node_def fresh_maps_def hnew_def)
  have b1: "by_id g1 = [([1], sample_iface 1)]" by (simp add: g1_def eval sample_node_def sample_iface_def)
  have n1: "NAT (tabs g1) = \<lparr>max_entries = 1024, entries = []\<rparr>" by (simp add: g1_def NAT_frames n0)
  have b2: "by_id g2 = [([1], sample_iface 1), ([2], sample_iface 2)]" by (simp add: g2_def eval b1 sample_iface_def)
  have n2: "NAT (tabs g2) = \<lparr>max_entries = 1024, entries = []\<rparr>" by (simp add: g2_def NAT_frames n1)
  have b3: "by_id g3 = by_id g2" by (simp add: g3_def)
  have n3: "NAT (tabs g3) = \<lparr>max_entries = 1024, entries = [(?k 1, ?v)]\<rparr>" by (simp add: g3_def nat b2 n2)
  have d: "g4 = drop_iface [1] (sample_iface 1) g3"
    by (simp add: g4_def detach_interface_def b3 b2 Let_def drop_iface_frame) (simp add: sample_iface_def)
  have b4: "by_id g4 = [([2], sample_iface 2)]" by (simp add: d drop_iface_frame b3 b2)
  have n4: "NAT (tabs g4) = \<lparr>max_entries = 1024, entries = [(?k 1, ?v)]\<rparr>" by (simp add: d NAT_frames n3)
  have b5: "by_id g5 = by_id g4" by (simp add: g5_def)
  have n5: "NAT (tabs g5) = \<lparr>max_entries = 1024, entries = [(?k 1, ?v), (?k 2, ?v)]\<rparr>" by (simp add: g5_def nat b4 n4)
  have b6: "by_id g6 = [([2], sample_iface 2), ([1], sample_iface 1)]" by (simp add: g6_def eval b5 b4 sample_iface_def)
  have n6: "NAT (tabs g6) = NAT (tabs g5)" by (simp add: g6_def NAT_frames)
  have "nat_of g6 (sample_iface 1) = Some ?v" "nat_of g6 (sample_iface 2) = Some ?v" "nv_port_min ?v < nv_port_max ?v"
    by (simp_all add: nat_of_def n6 n5 hget_def sample_iface_def)
  then show ?thesis using r b6 by blast
qed

end
