(* ===== verification/Tc_Props.thy ===== *)
theory Tc_Props
  imports System
begin

text \<open>
  The two guest edges compared: on a packet held in one piece the tc program does exactly what the
  XDP program does; on one that is not, the encapsulation it writes has the wrong length.
\<close>

section \<open>Outer headers\<close>

text \<open>The outer headers cover 54 bytes completely, whatever was there before.\<close>

lemma write_outer_v6_determined:
  assumes "encap_wf e" "54 \<le> length p" "length p' = length p" "drop 54 p' = drop 54 p"
  shows "write_outer_v6 p' e = write_outer_v6 p e"
proof -
  obtain q q' where w: "write_outer_v6 p e = Some q" "write_outer_v6 p' e = Some q'"
    using assms(2,3) by (auto simp: write_outer_v6_def Let_def)
  have f: "length q = length p" "drop 54 q = drop 54 p" "length q' = length p'" "drop 54 q' = drop 54 p'"
    using write_outer_v6_frame [OF w(1) assms(1)] write_outer_v6_frame [OF w(2) assms(1)] by auto
  have "rd8 q i = rd8 q' i" if "i < 54" for i
    using w assms(1-3) that by (auto simp: write_outer_v6_def Let_def encap_wf_def pkt split: if_splits; arith)
  then have "take 54 q = take 54 q'"
    using f assms(2,3) by (intro nth_equalityI) (simp_all add: rd8_def)
  then show ?thesis using f assms(4) w by (metis append_take_drop_id)
qed

section \<open>Well-formed tables\<close>

definition edge_wf :: "maps \<Rightarrow> PortMeta \<Rightarrow> bool" where
  "edge_wf s meta =
     (length (pm_underlay_ipv6 meta) = 16 \<and>
      list_all (\<lambda>l. length (lo_gateway_mac l) = 6 \<and> length (lo_uplink_mac l) = 6) (LOCAL s) \<and>
      list_all (\<lambda>(_, rv). length (rv_nexthop_ipv6 rv) = 16) (lpm_entries (ROUTES s)) \<and>
      list_all (\<lambda>(_, rv). length (rv_nexthop_ipv6 rv) = 16) (lpm_entries (ROUTES6 s)))"

lemma edge_wf_stable:
  assumes "stable s' = stable s"
  shows "edge_wf s' meta = edge_wf s meta"
proof -
  have "LOCAL (fst (stable x)) = LOCAL x" "ROUTES (fst (stable x)) = ROUTES x" "ROUTES6 (fst (stable x)) = ROUTES6 x" for x
    by (simp_all add: stable_def)
  then have "LOCAL s' = LOCAL s" "ROUTES s' = ROUTES s" "ROUTES6 s' = ROUTES6 s" using assms by metis+
  then show ?thesis by (simp add: edge_wf_def)
qed

lemma lpm_get_entry: "lpm_get t q = Some v \<Longrightarrow> list_all (\<lambda>(_, v). P v) (lpm_entries t) \<Longrightarrow> P v"
  by (auto simp: lpm_get_def list_all_iff dest!: lpm_best_Some)

lemma route_wf:
  "edge_wf s meta \<Longrightarrow> route_lookup s vni dst = Some rv \<Longrightarrow> length (rv_nexthop_ipv6 rv) = 16"
  "edge_wf s meta \<Longrightarrow> route_lookup6 s vni dst6 = Some rv \<Longrightarrow> length (rv_nexthop_ipv6 rv) = 16"
  by (auto simp: edge_wf_def route_lookup_def route_lookup6_def dest!: lpm_get_entry [where P = "\<lambda>rv. length (rv_nexthop_ipv6 rv) = 16"])

lemma deliver_wf:
  assumes "edge_wf s meta" "length (rv_nexthop_ipv6 rv) = 16" "deliver_or_encap p meta rv proto s = Encap e"
  shows "encap_wf e"
  using assms
  by (auto simp: deliver_or_encap_def Let_def encap_wf_def edge_wf_def aget_def list_all_length split: option.splits if_splits)

lemma forward_v6_wf: "edge_wf s meta \<Longrightarrow> forward_decision_v6 p meta s = Encap e \<Longrightarrow> encap_wf e"
  by (auto simp: forward_decision_v6_def Let_def dest: route_wf deliver_wf split: option.splits)

lemma forward_v4_wf:
  assumes wf: "edge_wf s meta" and f: "forward_decision_v4 now p ix meta s = (Encap e, p', s')"
  shows "encap_wf e"
proof -
  have st: "stable s' = stable s" using stable_forward [of now p ix meta s] by (simp add: f)
  obtain p1 s1 where ct: "egress_ct_fw now p ix (pm_vni meta) s = Some (p1, s1)"
    using f by (auto simp: forward_decision_v4_def split: option.splits)
  then have "stable s1 = stable s"
    by (auto simp: egress_ct_fw_def Let_def split: option.splits if_splits)
  moreover obtain dst rv where "route_lookup s1 (pm_vni meta) dst = Some rv" "deliver_or_encap p' meta rv IPPROTO_IPIP s' = Encap e"
    using f by (auto simp: forward_decision_v4_def ct Let_def case_prod_beta split: option.splits if_splits)
  ultimately show ?thesis using wf st by (metis edge_wf_stable route_wf(1) deliver_wf)
qed

section \<open>Verdicts\<close>

definition tc_of :: "xdp_action \<Rightarrow> tc_action" where
  "tc_of act = (case act of XDP_PASS \<Rightarrow> TC_ACT_OK | XDP_DROP \<Rightarrow> TC_ACT_SHOT | XDP_REDIRECT i \<Rightarrow> TC_REDIRECT i)"

text \<open>A packet as the two kinds of program see it, with the room the resizes need.\<close>

definition same_packet :: "skb \<Rightarrow> xdp_ctx \<Rightarrow> bool" where
  "same_packet k ctx =
     (sk_linear k = pkt ctx \<and> sk_frags k = [] \<and> sk_ifindex k = ingress_ifindex ctx \<and>
      sk_room k IPV6_LEN \<and> sk_mem k (ETH_LEN + IPV6_LEN) \<and> IPV6_LEN \<le> length (headroom ctx))"

lemma pull_linear:
  assumes "sk_frags k = []"
  shows "pull_data k n = (if n \<le> length (sk_linear k) \<and> sk_mem k n then Some k else None)" "pull_ignore k n = k"
proof -
  have "linear_upto n k = k" if "n \<le> length (sk_linear k)" using that by (simp add: linear_upto_def)
  then show p: "pull_data k n = (if n \<le> length (sk_linear k) \<and> sk_mem k n then Some k else None)"
    using assms by (simp add: pull_data_def skb_bytes_def)
  show "pull_ignore k n = k" by (simp add: pull_ignore_def p)
qed

lemma execute_same:
  assumes same: "same_packet k ctx" and len: "ETH_LEN \<le> length (pkt ctx)" and wf: "\<And>e. v = Encap e \<Longrightarrow> encap_wf e"
  shows "\<exists>act ctx'. execute_verdict ctx v et = (Inr act, ctx') \<and> tc_execute k v et = (tc_of act, k\<lparr>sk_linear := pkt ctx'\<rparr>)"
proof (cases v)
  case (Encap e)
  let ?p = "drop (length (headroom ctx) - 40) (headroom ctx) @ pkt ctx"
  let ?p' = "take 14 (pkt ctx) @ replicate 40 0 @ drop 14 (pkt ctx)"
  have "write_outer_v6 ?p' e = write_outer_v6 ?p e"
    using same len wf [OF Encap] by (intro write_outer_v6_determined) (auto simp: same_packet_def)
  moreover obtain q where "write_outer_v6 ?p e = Some q"
    using same len by (auto simp: write_outer_v6_def Let_def same_packet_def)
  moreover have "pull_data (k\<lparr>sk_linear := ?p'\<rparr>) 54 = Some (k\<lparr>sk_linear := ?p'\<rparr>)"
    using same len by (auto simp: pull_data_def linear_upto_def skb_bytes_def same_packet_def)
  ultimately show ?thesis
    using same len by (auto simp: Encap execute_verdict_def tc_execute_def adjust_head_grow_def adjust_room_def same_packet_def tc_of_def)
qed (use same len in \<open>auto simp: execute_verdict_def tc_execute_def Let_def same_packet_def tc_of_def\<close>)

section \<open>The two edges\<close>

text \<open>A frame that is neither DHCP nor a neighbour solicitation for the gateway nor bound for NAT64:
  what remains is routed.\<close>

definition routed_frame :: "PortMeta \<Rightarrow> bytes \<Rightarrow> bool" where
  "routed_frame meta p =
     (\<not> is_dhcp_request p \<and>
      (rd16 p 12 = ETH_P_IP \<and> ETH_LEN + 20 \<le> length p \<or>
       rd16 p 12 = ETH_P_IPV6 \<and> ETH_LEN + IPV6_LEN \<le> length p \<and> \<not> is_nat64_addr (rdn p (ETH_LEN + 24) 16) \<and>
       try_write_nd_reply p (pm_gateway_ipv6 meta) (pm_guest_mac meta) = None))"

lemma length_forward_v4: "length (fst (snd (forward_decision_v4 now p ix meta s))) = length p"
proof -
  have nat: "length (fst (snd (nat_snat_egress now q off vni ext s))) = length q" for q off vni ext s
    by (simp add: nat_snat_egress_def nat_rewrite_def Let_def case_prod_beta split: option.splits)
  have ct: "length q = length p" if "egress_ct_fw now p ix vni s = Some (q, s1)" for q vni s1
    using that by (auto simp: egress_ct_fw_def Let_def split: option.splits if_splits)
  show ?thesis
    by (auto simp: forward_decision_v4_def Let_def case_prod_beta nat dest!: ct split: option.splits)
qed

lemma dhcp_filters: "looks_like_dhcpv4 p \<Longrightarrow> is_dhcp_request p" "looks_like_dhcpv6 p \<Longrightarrow> is_dhcp_request p"
  by (auto simp: looks_like_dhcpv4_def looks_like_dhcpv6_def is_dhcp_request_def Let_def)

lemma tc_ipv4_same:
  assumes same: "same_packet k ctx" and meta: "hget (PORT_META s) (ingress_ifindex ctx) = Some meta" and wf: "edge_wf s meta"
    and f: "rd16 (pkt ctx) 12 = ETH_P_IP" "ETH_LEN + 20 \<le> length (pkt ctx)" "\<not> is_dhcp_request (pkt ctx)"
  shows "\<exists>act ctx' s'. guest_tx now tail_ok ctx s = (act, ctx', s') \<and> tc_ipv4 now k meta s = (tc_of act, k\<lparr>sk_linear := pkt ctx'\<rparr>, s')"
proof -
  obtain v p s1 where d: "forward_decision_v4 now (pkt ctx) (ingress_ifindex ctx) meta s = (v, p, s1)" by (metis prod_cases3)
  have len: "length p = length (pkt ctx)" using length_forward_v4 [of now "pkt ctx" "ingress_ifindex ctx" meta s] by (simp add: d)
  have "same_packet (k\<lparr>sk_linear := p\<rparr>) (ctx\<lparr>pkt := p\<rparr>)" using same by (simp add: same_packet_def)
  then obtain act ctx' where e: "execute_verdict (ctx\<lparr>pkt := p\<rparr>) v None = (Inr act, ctx')"
    "tc_execute (k\<lparr>sk_linear := p\<rparr>) v None = (tc_of act, k\<lparr>sk_linear := pkt ctx'\<rparr>)"
    using execute_same [of "k\<lparr>sk_linear := p\<rparr>" "ctx\<lparr>pkt := p\<rparr>" v None] forward_v4_wf [OF wf] d f(2) len by fastforce
  have "guest_tx now tail_ok ctx s = (act, ctx', s1)"
    using f by (simp add: guest_tx_def try_guest_tx_def meta arp_nd_not_ip d e)
  moreover have "tc_ipv4 now k meta s = (tc_of act, k\<lparr>sk_linear := pkt ctx'\<rparr>, s1)"
    using same f by (simp add: tc_ipv4_def pull_linear same_packet_def d e)
  ultimately show ?thesis by blast
qed

lemma tc_ipv6_same:
  assumes same: "same_packet k ctx" and meta: "hget (PORT_META s) (ingress_ifindex ctx) = Some meta" and wf: "edge_wf s meta"
    and f: "rd16 (pkt ctx) 12 = ETH_P_IPV6" "ETH_LEN + IPV6_LEN \<le> length (pkt ctx)" "\<not> is_dhcp_request (pkt ctx)"
      "\<not> is_nat64_addr (rdn (pkt ctx) (ETH_LEN + 24) 16)" "try_write_nd_reply (pkt ctx) (pm_gateway_ipv6 meta) (pm_guest_mac meta) = None"
  shows "\<exists>act ctx' s'. guest_tx now tail_ok ctx s = (act, ctx', s') \<and> tc_ipv6 now tails k meta s = (tc_of act, k\<lparr>sk_linear := pkt ctx'\<rparr>, s')"
proof -
  obtain act ctx' where e: "execute_verdict ctx (forward_decision_v6 (pkt ctx) meta s) (Some ETH_P_IPV6) = (Inr act, ctx')"
    "tc_execute k (forward_decision_v6 (pkt ctx) meta s) (Some ETH_P_IPV6) = (tc_of act, k\<lparr>sk_linear := pkt ctx'\<rparr>)"
    using execute_same [OF same _ forward_v6_wf [OF wf]] f(2) by fastforce
  have arp: "try_arp_reply ctx meta = None" using f(1) by (simp add: try_arp_reply_def try_write_arp_reply_def)
  have nat64: "nat64_egress now ctx vni gip ul s = (Inr None, ctx, s)" for vni gip ul
    using f(4) by (simp add: nat64_egress_def Let_def)
  have "guest_tx now tail_ok ctx s = (act, ctx', s)"
    using f by (simp add: guest_tx_def try_guest_tx_def meta arp try_nd_reply_def v6_guest_tx_def nat64 e)
  moreover have "tc_ipv6 now tails k meta s = (tc_of act, k\<lparr>sk_linear := pkt ctx'\<rparr>, s)"
    using same f dhcp_filters(2) [of "pkt ctx"] by (auto simp: tc_ipv6_def tc_nd_def pull_linear same_packet_def e)
  ultimately show ?thesis by blast
qed

text \<open>C40: the two guest edges agree. On a packet held in one piece, with the room to encapsulate,
  the tc program and the XDP program take the same decision, leave the same bytes and make the same
  changes to the tables for every routed IPv4 and IPv6 frame: firewall, translation, conntrack,
  metering, local delivery and encapsulation do not depend on how the guest is attached.\<close>

theorem tc_edge_like_xdp:
  assumes "same_packet k ctx" "hget (PORT_META s) (ingress_ifindex ctx) = Some meta" "edge_wf s meta" "routed_frame meta (pkt ctx)"
    and "guest_tx now tail_ok ctx s = (act, ctx', s')"
  shows "tc_guest_tx now tails k s = (tc_of act, k\<lparr>sk_linear := pkt ctx'\<rparr>, s')"
proof -
  have k: "sk_linear k = pkt ctx" "sk_ifindex k = ingress_ifindex ctx" using assms(1) by (simp_all add: same_packet_def)
  consider "rd16 (pkt ctx) 12 = ETH_P_IP" "ETH_LEN + 20 \<le> length (pkt ctx)" "\<not> is_dhcp_request (pkt ctx)"
    | "rd16 (pkt ctx) 12 = ETH_P_IPV6" "ETH_LEN + IPV6_LEN \<le> length (pkt ctx)" "\<not> is_dhcp_request (pkt ctx)"
      "\<not> is_nat64_addr (rdn (pkt ctx) (ETH_LEN + 24) 16)" "try_write_nd_reply (pkt ctx) (pm_gateway_ipv6 meta) (pm_guest_mac meta) = None"
    using assms(4) by (auto simp: routed_frame_def)
  then show ?thesis
  proof cases
    case 1
    then have "tc_guest_tx now tails k s = tc_ipv4 now k meta s"
      using assms(2) dhcp_filters(1) by (auto simp: tc_guest_tx_def k)
    then show ?thesis using tc_ipv4_same [OF assms(1-3) 1, of now tail_ok] assms(5) by simp
  next
    case 2
    then have "tc_guest_tx now tails k s = tc_ipv6 now tails k meta s" using assms(2) by (simp add: tc_guest_tx_def k)
    then show ?thesis using tc_ipv6_same [OF assms(1-3) 2, of now tail_ok tails] assms(5) by simp
  qed
qed

definition sample_skb :: "bytes \<Rightarrow> skb" where
  "sample_skb frags = \<lparr>sk_linear = sample_syn, sk_frags = frags, sk_ifindex = 7, sk_mem = (\<lambda>_. True), sk_room = (\<lambda>_. True),
     sk_tail = (\<lambda>_. True)\<rparr>"

definition sample_xdp :: xdp_ctx where
  "sample_xdp = \<lparr>headroom = replicate 256 0, pkt = sample_syn, tailroom = [], ingress_ifindex = 7\<rparr>"

lemma sample_edge:
  "hget (PORT_META sample_routed) 7 = Some sample_meta" "edge_wf sample_routed sample_meta" "routed_frame sample_meta sample_syn"
proof -
  show "hget (PORT_META sample_routed) 7 = Some sample_meta"
    by (simp add: sample_routed_def fresh_maps_def hget_hput hnew_def hget_def hinsert_def)
  show "edge_wf sample_routed sample_meta"
    by (simp add: edge_wf_def sample_routed_def fresh_maps_def sample_meta_def zero_local_def)
  show "routed_frame sample_meta sample_syn"
    by (simp add: routed_frame_def is_dhcp_request_def sample_syn_def packet_eval)
qed

theorem tc_edge_like_xdp_witness:
  "same_packet (sample_skb []) sample_xdp \<and> hget (PORT_META sample_routed) (ingress_ifindex sample_xdp) = Some sample_meta \<and>
   edge_wf sample_routed sample_meta \<and> routed_frame sample_meta (pkt sample_xdp) \<and>
   (\<exists>act ctx' s'. guest_tx 5 True sample_xdp sample_routed = (act, ctx', s') \<and>
      tc_guest_tx 5 (True, True) (sample_skb []) sample_routed = (tc_of act, (sample_skb [])\<lparr>sk_linear := pkt ctx'\<rparr>, s'))"
proof -
  have same: "same_packet (sample_skb []) sample_xdp" by (simp add: same_packet_def sample_skb_def sample_xdp_def)
  have edge: "hget (PORT_META sample_routed) (ingress_ifindex sample_xdp) = Some sample_meta" "routed_frame sample_meta (pkt sample_xdp)"
    using sample_edge by (simp_all add: sample_xdp_def)
  obtain act ctx' s' where g: "guest_tx 5 True sample_xdp sample_routed = (act, ctx', s')" by (metis prod_cases3)
  show ?thesis using tc_edge_like_xdp [OF same edge(1) sample_edge(2) edge(2) g, of "(True, True)"] same edge sample_edge(2) g by blast
qed

section \<open>Packets in several pieces\<close>

text \<open>A packet of 154 bytes whose last 100 bytes are not in the linear part is encapsulated with a
  payload length of 40 instead of 140: the length is taken from the linear part alone.\<close>

theorem tc_length_ignores_fragments:
  "\<exists>act k' s'. tc_guest_tx 5 (True, True) (sample_skb (replicate 100 0)) sample_routed = (TC_REDIRECT act, k', s') \<and>
     rd16 (sk_linear k') 18 = 40 \<and> length (skb_bytes k') - 54 = 140"
proof -
  let ?k = "sample_skb (replicate 100 0)"
  obtain e s' where f: "forward_decision_v4 5 sample_syn 7 sample_meta sample_routed = (Encap e, sample_syn, s')" "ep_inner_len e = 40"
    using sample_routed_forwards by blast
  let ?p = "take 14 sample_syn @ replicate 40 0 @ drop 14 sample_syn"
  obtain q where q: "write_outer_v6 ?p e = Some q" by (auto simp: write_outer_v6_def Let_def length_sample_syn)
  have wf: "encap_wf e" by (rule forward_v4_wf [OF sample_edge(2) f(1)])
  have len: "length q = 94" using write_outer_v6_frame [OF q wf] by (simp add: length_sample_syn)
  have k: "sk_linear ?k = sample_syn" "sk_ifindex ?k = 7" "pull_ignore ?k 54 = ?k"
    by (simp_all add: sample_skb_def pull_ignore_def pull_data_def linear_upto_def skb_bytes_def length_sample_syn)
  have "tc_execute ?k (Encap e) None = (TC_REDIRECT (ep_uplink_ifindex e), ?k\<lparr>sk_linear := q\<rparr>)"
    using q by (simp add: tc_execute_def sample_skb_def adjust_room_def pull_data_def linear_upto_def skb_bytes_def length_sample_syn)
  moreover have idle: "?k\<lparr>sk_linear := sample_syn\<rparr> = ?k" by (simp add: sample_skb_def)
  moreover have "rd16 sample_syn 12 = ETH_P_IP" "\<not> looks_like_dhcpv4 sample_syn"
    by (simp_all add: sample_syn_def looks_like_dhcpv4_def packet_eval)
  ultimately have "tc_guest_tx 5 (True, True) ?k sample_routed = (TC_REDIRECT (ep_uplink_ifindex e), ?k\<lparr>sk_linear := q\<rparr>, s')"
    using f k by (simp add: tc_guest_tx_def tc_ipv4_def sample_edge(1) length_sample_syn idle)
  moreover have "rd16 (sk_linear (?k\<lparr>sk_linear := q\<rparr>)) 18 = 40" using write_outer_v6_fields(5) [OF q wf] f(2) by simp
  moreover have "length (skb_bytes (?k\<lparr>sk_linear := q\<rparr>)) - 54 = 140" using len by (simp add: skb_bytes_def sample_skb_def)
  ultimately show ?thesis by blast
qed

section \<open>Short client identifiers\<close>

text \<open>A client identifier of fewer than ten bytes at the end of a request is lost by the tc walk: it
  always reads ten bytes, the read runs past the packet, and the reply carries zeros. The XDP program
  grows the packet before it parses and finds the identifier.\<close>

lemma walk_clientid:
  assumes "length h = F6_OPTS" "length d < 10" "p = h @ [0, 1, 0, of_nat (length d)] @ d"
  shows "tc_d6_walk p r (4 + length d) 0 0 =
      r\<lparr>d6_got_clientid := True, d6_duid_len := of_nat (length d), d6_duid := replicate 10 0\<rparr>"
    "d6_parse (p @ replicate 20 0) r (4 + length d) 0 0 =
      r\<lparr>d6_got_clientid := True, d6_duid_len := of_nat (length d), d6_duid := take 10 (d @ replicate 20 0)\<rparr>"
proof -
  have p: "length p = 70 + length d" using assms by simp
  have hd: "take 4 (drop 66 p) = [0, 1, 0, of_nat (length d)]" "drop 70 p = d" using assms(1,3) by simp_all
  have hb: "load_bytes p 66 4 = Some [0, 1, 0, of_nat (length d)]" "load_bytes (p @ replicate 20 0) 66 4 = Some [0, 1, 0, of_nat (length d)]"
    using hd p by (simp_all add: load_bytes_def rdn_eq_take_drop)
  have duid: "load_bytes p 70 10 = None" "load_bytes (p @ replicate 20 0) 70 10 = Some (take 10 (d @ replicate 20 0))"
    using hd p assms(2) by (simp_all add: load_bytes_def rdn_eq_take_drop)
  have n: "unat (of_nat (length d) :: u8) = length d" using assms(2) by (simp add: unat_of_nat)
  have stop: "tc_d6_walk q x m m g = x" "d6_parse q x m m g = x" for q x m g
    by (simp_all add: tc_d6_walk.simps [of q x m m g] d6_parse.simps [of q x m m g])
  have code: "be16 0 1 = 1" by (simp add: be16_def)
  show "tc_d6_walk p r (4 + length d) 0 0 =
      r\<lparr>d6_got_clientid := True, d6_duid_len := of_nat (length d), d6_duid := replicate 10 0\<rparr>"
    using assms(2) by (subst tc_d6_walk.simps) (simp add: hb n code tc_d6_option_def duid stop Let_def)
  show "d6_parse (p @ replicate 20 0) r (4 + length d) 0 0 =
      r\<lparr>d6_got_clientid := True, d6_duid_len := of_nat (length d), d6_duid := take 10 (d @ replicate 20 0)\<rparr>"
    using assms(2) by (subst d6_parse.simps) (simp add: hb n code d6_option_def duid stop Let_def)
qed

theorem tc_short_duid_lost:
  assumes "length h = F6_OPTS" "length d < 10" "sk_linear k @ sk_frags k = h @ [0, 1, 0, of_nat (length d)] @ d"
  shows "take (length d) (d6_duid (tc_d6_parse k r (4 + length d))) = replicate (length d) 0 \<and>
    take (length d) (d6_duid (d6_parse (skb_bytes k @ replicate 20 0) r (4 + length d) 0 0)) = d"
  using walk_clientid [OF assms(1,2), of "skb_bytes k" r] assms(2,3) by (simp add: tc_d6_parse_def skb_bytes_def)

end
