(* ===== verification/Ip_Text.thy ===== *)
theory Ip_Text
  imports Parse
begin

text \<open>
  The text forms of IP addresses, as Rust's \<^verbatim>\<open>std::net\<close> reads and prints them, and the UTF-8 check
  of \<^verbatim>\<open>std::str::from_utf8\<close>: what \<^verbatim>\<open>xdp-dp/src/grpc.rs\<close> uses to exchange addresses with its
  clients. A reader takes the remaining bytes and returns what it read with the bytes behind it;
  \<open>None\<close> leaves the position where it was.
\<close>

section \<open>Reading\<close>

definition to_digit :: "nat \<Rightarrow> u8 \<Rightarrow> nat option" where
  "to_digit radix c =
     (let n = unat c;
          d = (if 48 \<le> n \<and> n \<le> 57 then Some (n - 48)
               else if 97 \<le> n \<and> n \<le> 122 then Some (n - 87)
               else if 65 \<le> n \<and> n \<le> 90 then Some (n - 55) else None)
      in case d of Some v \<Rightarrow> if v < radix then Some v else None | None \<Rightarrow> None)"

definition is_digit :: "nat \<Rightarrow> u8 \<Rightarrow> bool" where
  "is_digit radix c = (to_digit radix c \<noteq> None)"

definition digits_val :: "nat \<Rightarrow> bytes \<Rightarrow> nat" where
  "digits_val radix ds = foldl (\<lambda>n c. n * radix + (case to_digit radix c of Some d \<Rightarrow> d | None \<Rightarrow> 0)) 0 ds"

definition read_number :: "nat \<Rightarrow> nat \<Rightarrow> bool \<Rightarrow> nat \<Rightarrow> bytes \<Rightarrow> (nat \<times> bytes) option" where
  "read_number radix max_digits allow_zero_prefix limit s =
     (let ds = takeWhile (is_digit radix) s; n = digits_val radix ds
      in if ds = [] \<or> length ds > max_digits then None
         else if \<not> allow_zero_prefix \<and> hd ds = 48 \<and> length ds > 1 then None
         else if n \<le> limit then Some (n, drop (length ds) s) else None)"

definition read_separator :: "u8 \<Rightarrow> nat \<Rightarrow> (bytes \<Rightarrow> ('a \<times> bytes) option) \<Rightarrow> bytes \<Rightarrow> ('a \<times> bytes) option" where
  "read_separator sep i inner s =
     (if i = 0 then inner s
      else case s of [] \<Rightarrow> None | c # s' \<Rightarrow> if c = sep then inner s' else None)"

fun read_octets :: "nat \<Rightarrow> nat \<Rightarrow> bytes \<Rightarrow> (bytes \<times> bytes) option" where
  "read_octets i 0 s = Some ([], s)"
| "read_octets i (Suc n) s =
     (case read_separator 46 i (read_number 10 3 False 255) s of
        None \<Rightarrow> None
      | Some (v, s) \<Rightarrow>
          (case read_octets (i + 1) n s of None \<Rightarrow> None | Some (vs, s) \<Rightarrow> Some (of_nat v # vs, s)))"

definition read_ipv4 :: "bytes \<Rightarrow> (bytes \<times> bytes) option" where
  "read_ipv4 s = read_octets 0 4 s"

text \<open>\<^verbatim>\<open>read_groups\<close>: the groups of one side of an IPv6 address, the last two of which may be
  written as an IPv4 address; \<open>n\<close> slots are left.\<close>

fun read_groups :: "nat \<Rightarrow> nat \<Rightarrow> bytes \<Rightarrow> u16 list \<times> bool \<times> bytes" where
  "read_groups i 0 s = ([], False, s)"
| "read_groups i (Suc n) s =
     (case (if n > 0 then read_separator 58 i read_ipv4 s else None) of
        Some (a, s) \<Rightarrow> ([be16 (a ! 0) (a ! 1), be16 (a ! 2) (a ! 3)], True, s)
      | None \<Rightarrow>
          (case read_separator 58 i (read_number 16 4 True 65535) s of
             None \<Rightarrow> ([], False, s)
           | Some (g, s) \<Rightarrow> (let (gs, v4, s) = read_groups (i + 1) n s in (of_nat g # gs, v4, s))))"

definition read_ipv6 :: "bytes \<Rightarrow> (u16 list \<times> bytes) option" where
  "read_ipv6 s =
     (let (head, v4, s) = read_groups 0 8 s
      in if length head = 8 then Some (head, s)
         else if v4 then None
         else if take 2 s \<noteq> [58, 58] then None
         else let (tail, _, s) = read_groups 0 (8 - (length head + 1)) (drop 2 s)
              in Some (head @ replicate (8 - length head - length tail) 0 @ tail, s))"

definition octets6 :: "u16 list \<Rightarrow> bytes" where
  "octets6 gs = concat (map (\<lambda>g. [hi8 g, lo8 g]) gs)"

definition parse_ipv4 :: "bytes \<Rightarrow> bytes option" where
  "parse_ipv4 s =
     (if length s > 15 then None
      else case read_ipv4 s of Some (a, []) \<Rightarrow> Some a | _ \<Rightarrow> None)"

definition parse_ipv6 :: "bytes \<Rightarrow> bytes option" where
  "parse_ipv6 s = (case read_ipv6 s of Some (gs, []) \<Rightarrow> Some (octets6 gs) | _ \<Rightarrow> None)"

text \<open>\<^verbatim>\<open>parse::<IpAddr>()\<close>: an IPv4 address on the left, an IPv6 address on the right.\<close>

definition parse_ip :: "bytes \<Rightarrow> (bytes + bytes) option" where
  "parse_ip s =
     (case read_ipv4 s of
        Some (a, r) \<Rightarrow> if r = [] then Some (Inl a) else None
      | None \<Rightarrow>
          (case read_ipv6 s of
             Some (gs, r) \<Rightarrow> if r = [] then Some (Inr (octets6 gs)) else None
           | None \<Rightarrow> None))"

section \<open>UTF-8\<close>

definition cont :: "u8 \<Rightarrow> bool" where
  "cont c = (0x80 \<le> c \<and> c \<le> 0xbf)"

fun utf8_ok :: "bytes \<Rightarrow> bool" where
  "utf8_ok [] = True"
| "utf8_ok (a # s) =
     (if a < 0x80 then utf8_ok s
      else if 0xc2 \<le> a \<and> a \<le> 0xdf
      then (case s of c1 # s \<Rightarrow> cont c1 \<and> utf8_ok s | _ \<Rightarrow> False)
      else if 0xe0 \<le> a \<and> a \<le> 0xef
      then (case s of
              c1 # c2 # s \<Rightarrow>
                cont c1 \<and> (a = 0xe0 \<longrightarrow> 0xa0 \<le> c1) \<and> (a = 0xed \<longrightarrow> c1 \<le> 0x9f) \<and> cont c2 \<and> utf8_ok s
            | _ \<Rightarrow> False)
      else if 0xf0 \<le> a \<and> a \<le> 0xf4
      then (case s of
              c1 # c2 # c3 # s \<Rightarrow>
                cont c1 \<and> (a = 0xf0 \<longrightarrow> 0x90 \<le> c1) \<and> (a = 0xf4 \<longrightarrow> c1 \<le> 0x8f) \<and> cont c2 \<and> cont c3 \<and> utf8_ok s
            | _ \<Rightarrow> False)
      else False)"

section \<open>Printing\<close>

definition byte :: "nat \<Rightarrow> u8" where
  "byte n = of_nat n"

definition dec8 :: "u8 \<Rightarrow> bytes" where
  "dec8 b =
     (let n = unat b
      in if n < 10 then [byte (48 + n)]
         else if n < 100 then [byte (48 + n div 10), byte (48 + n mod 10)]
         else [byte (48 + n div 100), byte (48 + n div 10 mod 10), byte (48 + n mod 10)])"

definition show_ipv4 :: "bytes \<Rightarrow> bytes" where
  "show_ipv4 a = dec8 (a ! 0) @ 46 # dec8 (a ! 1) @ 46 # dec8 (a ! 2) @ 46 # dec8 (a ! 3)"

definition hex_digit :: "nat \<Rightarrow> u8" where
  "hex_digit d = (if d < 10 then byte (48 + d) else byte (87 + d))"

definition hex16 :: "u16 \<Rightarrow> bytes" where
  "hex16 g =
     (let n = unat g
      in if n < 16 then [hex_digit n]
         else if n < 256 then [hex_digit (n div 16), hex_digit (n mod 16)]
         else if n < 4096 then [hex_digit (n div 256), hex_digit (n div 16 mod 16), hex_digit (n mod 16)]
         else [hex_digit (n div 4096), hex_digit (n div 256 mod 16), hex_digit (n div 16 mod 16), hex_digit (n mod 16)])"

fun fmt_groups :: "u16 list \<Rightarrow> bytes" where
  "fmt_groups [] = []"
| "fmt_groups [g] = hex16 g"
| "fmt_groups (g # gs) = hex16 g @ 58 # fmt_groups gs"

text \<open>The longest run of zero groups, the first one on a tie: start and length, with the run that
  ends at the current group.\<close>

fun zero_span :: "nat \<Rightarrow> nat \<times> nat \<Rightarrow> nat \<times> nat \<Rightarrow> u16 list \<Rightarrow> nat \<times> nat" where
  "zero_span i cur best [] = best"
| "zero_span i cur best (g # gs) =
     (if g = 0
      then let cur = (if snd cur = 0 then (i, 1) else (fst cur, snd cur + 1))
           in zero_span (i + 1) cur (if snd cur > snd best then cur else best) gs
      else zero_span (i + 1) (0, 0) best gs)"

definition groups6 :: "bytes \<Rightarrow> u16 list" where
  "groups6 a = map (\<lambda>i. be16 (a ! (2 * i)) (a ! (2 * i + 1))) [0..<8]"

definition show_ipv6 :: "bytes \<Rightarrow> bytes" where
  "show_ipv6 a =
     (let gs = groups6 a
      in if take 6 gs = [0, 0, 0, 0, 0, 0xffff]
         then [58, 58, 102, 102, 102, 102, 58] @ show_ipv4 (drop 12 a)
         else let (start, len) = zero_span 0 (0, 0) (0, 0) gs
              in if len > 1
                 then fmt_groups (take start gs) @ [58, 58] @ fmt_groups (drop (start + len) gs)
                 else fmt_groups gs)"

section \<open>IPv4 round trip\<close>

lemma unat_byte: "n < 256 \<Longrightarrow> unat (byte n) = n"
  unfolding byte_def unat_of_nat by simp

lemma to_digit_dec: "d < 10 \<Longrightarrow> to_digit 10 (byte (48 + d)) = Some d"
  by (simp add: to_digit_def unat_byte)

text \<open>A reader stops at a byte that is not a digit.\<close>

definition stops :: "nat \<Rightarrow> bytes \<Rightarrow> bool" where
  "stops radix s = (case s of [] \<Rightarrow> True | c # _ \<Rightarrow> \<not> is_digit radix c)"

lemma takeWhile_digits:
  "list_all (is_digit radix) ds \<Longrightarrow> stops radix s \<Longrightarrow> takeWhile (is_digit radix) (ds @ s) = ds"
  by (induction ds) (auto simp: stops_def split: list.splits)

lemma digits_10: "n div 100 * 100 + n div 10 mod 10 * 10 + n mod 10 = (n :: nat)"
proof -
  have "(n div 10 div 10 * 10 + n div 10 mod 10) * 10 + n mod 10 = n" by (simp only: div_mult_mod_eq)
  then show ?thesis by (simp add: div_mult2_eq [symmetric])
qed

lemma digits_16:
  "(n div 256 * 16 + n div 16 mod 16) * 16 + n mod 16 = (n :: nat)"
  "((n div 4096 * 16 + n div 256 mod 16) * 16 + n div 16 mod 16) * 16 + n mod 16 = n"
proof -
  have "(n div 16 div 16 * 16 + n div 16 mod 16) * 16 + n mod 16 = n"
    "((n div 16 div 16 div 16 * 16 + n div 16 div 16 mod 16) * 16 + n div 16 mod 16) * 16 + n mod 16 = n"
    by (simp_all only: div_mult_mod_eq)
  moreover have "n div 16 div 16 = n div 256" "n div 256 div 16 = n div 4096" by (simp_all add: div_mult2_eq [symmetric])
  ultimately show "(n div 256 * 16 + n div 16 mod 16) * 16 + n mod 16 = n"
    "((n div 4096 * 16 + n div 256 mod 16) * 16 + n div 16 mod 16) * 16 + n mod 16 = n" by (simp_all only:)
qed

lemma read_dec8:
  assumes "stops 10 s"
  shows "read_number 10 3 False 255 (dec8 b @ s) = Some (unat b, s)"
proof -
  let ?n = "unat b"
  have n: "?n < 256" "?n div 100 < 10" using unat_lt8 [of b] by (simp, linarith)
  have 48: "byte (48 + d) = 48 \<longleftrightarrow> d = 0" if "d < 10" for d
    using that by (simp add: word_unat_eq_iff unat_byte)
  have dig: "list_all (is_digit 10) (dec8 b)"
    using n by (auto simp: dec8_def Let_def is_digit_def to_digit_dec)
  have val: "digits_val 10 (dec8 b) = ?n"
    using n digits_10 [of ?n] by (auto simp: dec8_def Let_def digits_val_def to_digit_dec)
  have len: "0 < length (dec8 b)" "length (dec8 b) \<le> 3" by (simp_all add: dec8_def Let_def)
  have zero: "hd (dec8 b) = 48 \<Longrightarrow> length (dec8 b) = 1"
    using n 48 [of "?n div 10"] 48 [of "?n div 100"] by (auto simp: dec8_def Let_def split: if_splits)
  show ?thesis
    using takeWhile_digits [OF dig assms] val len zero unat_lt8 [of b] by (auto simp: read_number_def Let_def less_Suc_eq_le [symmetric] simp del: unat_lt8)
qed

lemma stops_46 [simp]: "stops 10 (46 # s)"
  by (simp add: stops_def is_digit_def to_digit_def)

lemma stops_Nil [simp]: "stops r []"
  by (simp add: stops_def)

lemma read_show_ipv4:
  assumes "length a = 4" "stops 10 s"
  shows "read_ipv4 (show_ipv4 a @ s) = Some (a, s)"
proof -
  obtain a0 a1 a2 a3 where a: "a = [a0, a1, a2, a3]"
    using assms(1) by (auto simp: numeral_eq_Suc length_Suc_conv)
  have 4: "(4 :: nat) = Suc (Suc (Suc (Suc 0)))" by simp
  show ?thesis
    using assms(2) unfolding read_ipv4_def 4 by (simp add: a show_ipv4_def read_separator_def read_dec8)
qed

lemma length_dec8: "length (dec8 b) \<le> 3"
  by (simp add: dec8_def Let_def)

lemma parse_show_ipv4: "length a = 4 \<Longrightarrow> parse_ipv4 (show_ipv4 a) = Some a"
  using read_show_ipv4 [of a "[]"] length_dec8 [of "a ! 0"] length_dec8 [of "a ! 1"] length_dec8 [of "a ! 2"]
    length_dec8 [of "a ! 3"]
  by (simp add: parse_ipv4_def) (simp add: show_ipv4_def)

lemma parse_ip_show_ipv4: "length a = 4 \<Longrightarrow> parse_ip (show_ipv4 a) = Some (Inl a)"
  using read_show_ipv4 [of a "[]"] by (simp add: parse_ip_def)

section \<open>IPv6 round trip\<close>

lemma to_digit_hex: "d < 16 \<Longrightarrow> to_digit 16 (hex_digit d) = Some d"
  by (simp add: to_digit_def hex_digit_def unat_byte)

lemma hex_digit_neq: "d < 16 \<Longrightarrow> hex_digit d \<noteq> 46"
  by (simp add: hex_digit_def word_unat_eq_iff unat_byte)

lemma hex16_digits: "\<exists>ds. hex16 g = map hex_digit ds \<and> ds \<noteq> [] \<and> length ds \<le> 4 \<and> (\<forall>d \<in> set ds. d < 16) \<and>
    foldl (\<lambda>n d. n * 16 + d) 0 ds = unat g"
proof -
  let ?n = "unat g"
  have n: "?n div 4096 < 16" using unat_lt16 [of g] by linarith
  consider "?n < 16" | "16 \<le> ?n" "?n < 256" | "256 \<le> ?n" "?n < 4096" | "4096 \<le> ?n" by linarith
  then show ?thesis
  proof cases
    case 1
    then show ?thesis by (intro exI [of _ "[?n]"]) (simp add: hex16_def Let_def)
  next
    case 2
    then have "?n div 16 < 16" by linarith
    with 2 show ?thesis by (intro exI [of _ "[?n div 16, ?n mod 16]"]) (simp add: hex16_def Let_def)
  next
    case 3
    then have "?n div 256 < 16" by linarith
    with 3 digits_16(1) [of ?n] show ?thesis
      by (intro exI [of _ "[?n div 256, ?n div 16 mod 16, ?n mod 16]"]) (simp add: hex16_def Let_def)
  next
    case 4
    with n digits_16(2) [of ?n] show ?thesis
      by (intro exI [of _ "[?n div 4096, ?n div 256 mod 16, ?n div 16 mod 16, ?n mod 16]"]) (simp add: hex16_def Let_def)
  qed
qed

lemma digits_val_hex: "\<forall>d \<in> set ds. d < 16 \<Longrightarrow> digits_val 16 (map hex_digit ds) = foldl (\<lambda>n d. n * 16 + d) 0 ds"
proof -
  assume "\<forall>d \<in> set ds. d < 16"
  then have "foldl (\<lambda>n c. n * 16 + (case to_digit 16 c of Some d \<Rightarrow> d | None \<Rightarrow> 0)) m (map hex_digit ds) =
      foldl (\<lambda>n d. n * 16 + d) m ds" for m
    by (induction ds arbitrary: m) (simp_all add: to_digit_hex)
  then show ?thesis by (simp add: digits_val_def)
qed

lemma read_hex16:
  assumes "stops 16 s"
  shows "read_number 16 4 True 65535 (hex16 g @ s) = Some (unat g, s)"
proof -
  obtain ds where ds: "hex16 g = map hex_digit ds" "ds \<noteq> []" "length ds \<le> 4" "\<forall>d \<in> set ds. d < 16"
    "foldl (\<lambda>n d. n * 16 + d) 0 ds = unat g" using hex16_digits by blast
  then have "list_all (is_digit 16) (hex16 g)" by (auto simp: list_all_iff is_digit_def to_digit_hex)
  from takeWhile_digits [OF this assms] ds show ?thesis
    by (simp add: read_number_def Let_def digits_val_hex)
qed

text \<open>Where a group is followed by a colon or the end, no IPv4 address can be read.\<close>

definition group_end :: "bytes \<Rightarrow> bool" where
  "group_end s = (s = [] \<or> hd s = 58)"

lemma group_end_stops: "group_end s \<Longrightarrow> stops 16 s" "group_end s \<Longrightarrow> stops 10 s"
  by (auto simp: group_end_def stops_def is_digit_def to_digit_def split: list.splits)

lemma read_number_rest: "read_number r m z l s = Some (v, t) \<Longrightarrow> t = dropWhile (is_digit r) s"
  by (auto simp: read_number_def Let_def dropWhile_eq_drop split: if_splits)

lemma read_ipv4_None:
  assumes "dropWhile (is_digit 10) s = [] \<or> hd (dropWhile (is_digit 10) s) \<noteq> 46"
  shows "read_ipv4 s = None"
proof -
  have 4: "(4 :: nat) = Suc (Suc (Suc (Suc 0)))" by simp
  have "read_octets (0 + 1) (Suc (Suc (Suc 0))) t = None" if "t = [] \<or> hd t \<noteq> 46" for t
    using that by (cases t) (simp_all add: read_separator_def)
  then have "read_octets (0 + 1) (Suc (Suc (Suc 0))) (dropWhile (is_digit 10) s) = None" using assms by blast
  then show ?thesis
    unfolding read_ipv4_def 4 read_octets.simps(2) [of 0] read_separator_def [of _ 0]
    by (auto simp del: read_octets.simps dest!: read_number_rest split: option.splits)
qed

lemma read_ipv4_group: "group_end s \<Longrightarrow> read_ipv4 (hex16 g @ s) = None"
proof (rule read_ipv4_None)
  assume s: "group_end s"
  obtain ds where ds: "hex16 g = map hex_digit ds" "\<forall>d \<in> set ds. d < 16" using hex16_digits by blast
  show "dropWhile (is_digit 10) (hex16 g @ s) = [] \<or> hd (dropWhile (is_digit 10) (hex16 g @ s)) \<noteq> 46"
  proof (cases "list_all (is_digit 10) (hex16 g)")
    case True
    then have "dropWhile (is_digit 10) (hex16 g @ s) = dropWhile (is_digit 10) s"
      by (simp add: dropWhile_append list_all_iff)
    also have "\<dots> = s" using group_end_stops(2) [OF s] by (auto simp: stops_def split: list.splits)
    finally show ?thesis using s by (auto simp: group_end_def)
  next
    case False
    then have "dropWhile (is_digit 10) (hex16 g @ s) = dropWhile (is_digit 10) (hex16 g) @ s" "dropWhile (is_digit 10) (hex16 g) \<noteq> []"
      by (auto simp: dropWhile_append list_all_iff dropWhile_eq_Nil_conv)
    moreover have "hd (dropWhile (is_digit 10) (hex16 g)) \<in> set (hex16 g)"
      using \<open>dropWhile (is_digit 10) (hex16 g) \<noteq> []\<close> by (meson hd_in_set set_dropWhileD)
    ultimately show ?thesis using ds hex_digit_neq by auto
  qed
qed

definition join_groups :: "u16 list \<Rightarrow> bytes" where
  "join_groups gs = concat (map (\<lambda>g. 58 # hex16 g) gs)"

lemma fmt_groups_Cons: "fmt_groups (g # gs) = hex16 g @ join_groups gs"
  by (induction gs arbitrary: g) (simp_all add: join_groups_def)

text \<open>The end of one side: nothing left, or the double colon.\<close>

definition side_end :: "bytes \<Rightarrow> bool" where
  "side_end s = (s = [] \<or> (\<exists>t. s = 58 # 58 # t))"

lemma read_colon: "read_ipv4 (58 # t) = None" "read_number 16 4 True 65535 (58 # t) = None"
  by (rule read_ipv4_None) (simp_all add: is_digit_def to_digit_def read_number_def)

lemma read_empty: "read_ipv4 [] = None" "read_number 16 4 True 65535 [] = None"
  by (rule read_ipv4_None) (simp_all add: read_number_def)

lemma read_groups_end:
  "side_end s \<Longrightarrow> read_groups i n s = ([], False, s)"
  by (cases n; cases "i = 0") (auto simp: side_end_def read_separator_def read_colon read_empty)

lemma group_end_join: "side_end s \<Longrightarrow> group_end (join_groups gs @ s)"
  by (cases gs) (auto simp: side_end_def group_end_def join_groups_def)

lemma read_groups_join:
  "side_end s \<Longrightarrow> length gs \<le> n \<Longrightarrow> read_groups (Suc i) n (join_groups gs @ s) = (gs, False, s)"
proof (induction gs arbitrary: i n)
  case Nil
  then show ?case by (simp add: join_groups_def read_groups_end)
next
  case (Cons g gs)
  then obtain m where m: "n = Suc m" "length gs \<le> m" by (cases n) auto
  have e: "group_end (join_groups gs @ s)" using Cons.prems(1) by (rule group_end_join)
  have "join_groups (g # gs) @ s = 58 # hex16 g @ join_groups gs @ s" by (simp add: join_groups_def)
  then show ?case
    using Cons.IH [OF Cons.prems(1) m(2), of "Suc i"] read_ipv4_group [OF e, of g] read_hex16 [OF group_end_stops(1) [OF e], of g]
    by (cases m) (use m(2) in \<open>simp_all add: m(1) read_separator_def join_groups_def\<close>)
qed

lemma read_groups_fmt:
  assumes "side_end s" "length gs \<le> n"
  shows "read_groups 0 n (fmt_groups gs @ s) = (gs, False, s)"
proof (cases gs)
  case Nil
  then show ?thesis using assms by (simp add: read_groups_end)
next
  case (Cons g hs)
  then obtain m where m: "n = Suc m" "length hs \<le> m" using assms(2) by (cases n) auto
  have e: "group_end (join_groups hs @ s)" using assms(1) by (rule group_end_join)
  show ?thesis
    using read_groups_join [OF assms(1) m(2), of 0] read_ipv4_group [OF e, of g] read_hex16 [OF group_end_stops(1) [OF e], of g]
    by (cases m) (use m(2) in \<open>simp_all add: Cons fmt_groups_Cons m(1) read_separator_def join_groups_def\<close>)
qed

lemma zero_span_zeros:
  assumes "snd cur = 0 \<or> fst cur + snd cur = length pre \<and> (\<forall>i. fst cur \<le> i \<and> i < length pre \<longrightarrow> pre ! i = 0)"
    and "fst best + snd best \<le> length pre" "\<forall>i. fst best \<le> i \<and> i < fst best + snd best \<longrightarrow> pre ! i = 0"
    and "zero_span (length pre) cur best gs = (st, len)"
  shows "st + len \<le> length (pre @ gs) \<and> (\<forall>i. st \<le> i \<and> i < st + len \<longrightarrow> (pre @ gs) ! i = 0)"
  using assms
proof (induction gs arbitrary: pre cur best)
  case Nil
  then show ?case by simp
next
  case (Cons g gs)
  show ?case
  proof (cases "g = 0")
    case True
    let ?cur = "if snd cur = 0 then (length pre, 1) else (fst cur, snd cur + 1)"
    let ?best = "if snd ?cur > snd best then ?cur else best"
    have cur: "fst ?cur + snd ?cur = length (pre @ [g])" "\<forall>i. fst ?cur \<le> i \<and> i < length (pre @ [g]) \<longrightarrow> (pre @ [g]) ! i = 0"
      using Cons.prems(1) True by (auto simp: nth_append less_Suc_eq)
    have best: "fst ?best + snd ?best \<le> length (pre @ [g])" "\<forall>i. fst ?best \<le> i \<and> i < fst ?best + snd ?best \<longrightarrow> (pre @ [g]) ! i = 0"
      using cur Cons.prems(2,3) by (auto simp: nth_append)
    have "zero_span (length (pre @ [g])) ?cur ?best gs = (st, len)"
      using Cons.prems(4) True by (simp add: Let_def)
    from Cons.IH [OF _ best this] cur show ?thesis by simp
  next
    case False
    then have "zero_span (length (pre @ [g])) (0, 0) best gs = (st, len)" using Cons.prems(4) by simp
    from Cons.IH [OF _ _ _ this] Cons.prems(2,3) show ?thesis by (auto simp: nth_append)
  qed
qed

lemma zero_span_split:
  assumes "zero_span 0 (0, 0) (0, 0) gs = (st, len)"
  shows "st + len \<le> length gs" "take st gs @ replicate len 0 @ drop (st + len) gs = gs"
proof -
  have z: "st + len \<le> length gs \<and> (\<forall>i. st \<le> i \<and> i < st + len \<longrightarrow> gs ! i = 0)"
    using zero_span_zeros [of "(0, 0)" "[]" "(0, 0)" gs st len] assms by simp
  then show "st + len \<le> length gs" by simp
  show "take st gs @ replicate len 0 @ drop (st + len) gs = gs"
  proof (rule nth_equalityI)
    show "length (take st gs @ replicate len 0 @ drop (st + len) gs) = length gs" using z by simp
    fix i assume "i < length (take st gs @ replicate len 0 @ drop (st + len) gs)"
    then show "(take st gs @ replicate len 0 @ drop (st + len) gs) ! i = gs ! i"
      using z by (auto simp: nth_append)
  qed
qed

lemma length_groups6 [simp]: "length (groups6 a) = 8"
  by (simp add: groups6_def)

lemma octets6_groups6: "length a = 16 \<Longrightarrow> octets6 (groups6 a) = a"
  by (auto simp: octets6_def groups6_def upt_rec numeral_eq_Suc length_Suc_conv)

lemma take_drop_12: "take 6 (groups6 a) = [0, 0, 0, 0, 0, 0xffff] \<Longrightarrow> length a = 16 \<Longrightarrow>
    groups6 a = [0, 0, 0, 0, 0, 0xffff, be16 (a ! 12) (a ! 13), be16 (a ! 14) (a ! 15)]"
  by (simp add: groups6_def upt_rec)

lemma replicate_5: "replicate 5 x = [x, x, x, x, x]"
  by (simp add: numeral_eq_Suc)

lemma read_mapped:
  assumes "length b = 4"
  shows "read_ipv6 ([58, 58, 102, 102, 102, 102, 58] @ show_ipv4 b) =
    Some ([0, 0, 0, 0, 0, 0xffff, be16 (b ! 0) (b ! 1), be16 (b ! 2) (b ! 3)], [])"
proof -
  let ?v = "show_ipv4 b"
  have e: "side_end (58 # 58 # t)" for t by (simp add: side_end_def)
  have h: "hex16 0xffff = [102, 102, 102, 102]" by (simp add: hex16_def Let_def hex_digit_def byte_def)
  have g: "group_end (58 # ?v)" by (simp add: group_end_def)
  have t6: "read_groups 1 6 (58 # ?v) = ([be16 (b ! 0) (b ! 1), be16 (b ! 2) (b ! 3)], True, [])"
    using read_groups.simps(2) [of 1 5 "58 # ?v"] read_show_ipv4 [OF assms stops_Nil] by (simp add: read_separator_def)
  have t7: "read_groups 0 7 ([102, 102, 102, 102] @ 58 # ?v) = ([0xffff, be16 (b ! 0) (b ! 1), be16 (b ! 2) (b ! 3)], True, [])"
    unfolding h [symmetric]
    using read_groups.simps(2) [of 0 6 "hex16 0xffff @ 58 # ?v"] read_ipv4_group [OF g, of "0xffff"] read_hex16 [OF group_end_stops(1) [OF g], of "0xffff"] t6
    by (simp add: read_separator_def)
  show ?thesis
    using read_groups_end [OF e, of 0 8 "[102, 102, 102, 102, 58] @ ?v"] t7
    by (simp add: read_ipv6_def replicate_5)
qed

lemma parse_show_ipv6:
  assumes len: "length a = 16"
  shows "parse_ipv6 (show_ipv6 a) = Some a"
proof -
  let ?gs = "groups6 a"
  have "read_ipv6 (show_ipv6 a) = Some (?gs, [])"
  proof (cases "take 6 ?gs = [0, 0, 0, 0, 0, 0xffff]")
    case True
    then have "show_ipv6 a = [58, 58, 102, 102, 102, 102, 58] @ show_ipv4 (drop 12 a)" by (simp add: show_ipv6_def Let_def)
    then show ?thesis using read_mapped [of "drop 12 a"] take_drop_12 [OF True len] len by simp
  next
    case False
    obtain st n where z: "zero_span 0 (0, 0) (0, 0) ?gs = (st, n)" by (cases "zero_span 0 (0, 0) (0, 0) ?gs")
    note sp = zero_span_split [OF z]
    show ?thesis
    proof (cases "n > 1")
      case True
      have tl: "length (drop (st + n) ?gs) \<le> 8 - (st + 1)" using True by simp
      have "show_ipv6 a = fmt_groups (take st ?gs) @ [58, 58] @ fmt_groups (drop (st + n) ?gs)"
        using False z True by (simp add: show_ipv6_def Let_def)
      moreover have "read_groups 0 8 (fmt_groups (take st ?gs) @ [58, 58] @ fmt_groups (drop (st + n) ?gs)) =
          (take st ?gs, False, [58, 58] @ fmt_groups (drop (st + n) ?gs))"
        using sp(1) by (intro read_groups_fmt) (simp_all add: side_end_def)
      moreover have "read_groups 0 (8 - (st + 1)) (fmt_groups (drop (st + n) ?gs) @ []) = (drop (st + n) ?gs, False, [])"
        using tl by (intro read_groups_fmt) (simp_all add: side_end_def)
      ultimately show ?thesis using True sp by (simp add: read_ipv6_def)
    next
      case n: False
      have "show_ipv6 a = fmt_groups ?gs" using False z n by (simp add: show_ipv6_def Let_def)
      moreover have "read_groups 0 8 (fmt_groups ?gs @ []) = (?gs, False, [])"
        by (intro read_groups_fmt) (simp_all add: side_end_def)
      ultimately show ?thesis by (simp add: read_ipv6_def)
    qed
  qed
  then show ?thesis using octets6_groups6 [OF len] by (simp add: parse_ipv6_def)
qed

text \<open>What is printed is ASCII and, for IPv6, has a colon.\<close>

lemma utf8_ascii: "list_all (\<lambda>c. c < 0x80) s \<Longrightarrow> utf8_ok s"
  by (induction s) auto

lemma ascii_dec8: "list_all (\<lambda>c. c < 0x80) (dec8 b)"
proof -
  have "unat b div 100 < 10" using unat_lt8 [of b] by linarith
  then show ?thesis by (auto simp: dec8_def Let_def word_less_nat_alt unat_byte)
qed

lemma ascii_show_ipv4: "list_all (\<lambda>c. c < 0x80) (show_ipv4 a)"
  by (simp add: show_ipv4_def ascii_dec8)

lemma ascii_hex16: "list_all (\<lambda>c. c < 0x80) (hex16 g)"
proof -
  have "hex_digit d < 0x80" if "d < 16" for d using that by (simp add: hex_digit_def word_less_nat_alt unat_byte)
  then show ?thesis using hex16_digits [of g] by (auto simp: list_all_iff)
qed

lemma ascii_fmt: "list_all (\<lambda>c. c < 0x80) (fmt_groups gs)"
  by (induction gs rule: fmt_groups.induct) (simp_all add: ascii_hex16)

lemma ascii_show_ipv6: "list_all (\<lambda>c. c < 0x80) (show_ipv6 a)"
  by (simp add: show_ipv6_def Let_def ascii_show_ipv4 ascii_fmt split: prod.splits)

lemma colon_show_ipv6: "58 \<in> set (show_ipv6 a)"
proof -
  have "58 \<in> set (fmt_groups (g # h # gs))" for g h gs by simp
  moreover obtain g h gs where "groups6 a = g # h # gs" by (simp add: groups6_def upt_rec)
  ultimately show ?thesis
    by (cases "zero_span 0 (0, 0) (0, 0) (groups6 a)") (simp add: show_ipv6_def Let_def del: zero_span.simps)
qed

end
