(* ===== verification/Grpc_Types.thy ===== *)
theory Grpc_Types
  imports Control_Services Ip_Text
begin

text \<open>
  The messages of \<^verbatim>\<open>proto/dpdk.proto\<close> that the gRPC service of \<^verbatim>\<open>xdp-dp/src/grpc.rs\<close> exchanges,
  its decoding and encoding helpers, and the texts of the control plane's errors, which the
  service inspects to choose a status code. Message fields that are themselves messages are
  options, enumerations are 32-bit integers, as the generated code has them. A request the service
  rejects on the transport level is an \<open>rpc_status\<close>; its text is kept only where it is an error of
  the control plane.
\<close>

section \<open>Messages\<close>

type_synonym i32 = "32 word"

abbreviation (input) IPV4 :: i32 where "IPV4 \<equiv> 0"
abbreviation (input) IPV6 :: i32 where "IPV6 \<equiv> 1"
abbreviation (input) DIR_EGRESS :: i32 where "DIR_EGRESS \<equiv> 1"
abbreviation (input) DIR_INGRESS :: i32 where "DIR_INGRESS \<equiv> 0"
abbreviation (input) ACTION_DROP :: i32 where "ACTION_DROP \<equiv> 0"
abbreviation (input) ACTION_ACCEPT :: i32 where "ACTION_ACCEPT \<equiv> 1"

datatype rpc_status = FailedPrecondition | InvalidArgument | Internal string | Unimplemented

record DpStatus =
  st_code :: u32
  st_message :: string

record IpAddress =
  ia_ipver :: i32
  ia_address :: bytes

record Prefix =
  px_ip :: "IpAddress option"
  px_length :: u32
  px_underlay_route :: bytes

record PortFilter =
  pf_src_lower :: i32
  pf_src_upper :: i32
  pf_dst_lower :: i32
  pf_dst_upper :: i32

datatype ProtoFilter = Tcp PortFilter | Udp PortFilter | Icmp i32 i32

record FirewallRule =
  pr_id :: bytes
  pr_direction :: i32
  pr_action :: i32
  pr_priority :: u32
  pr_source_prefix :: "Prefix option"
  pr_destination_prefix :: "Prefix option"
  pr_protocol_filter :: "ProtoFilter option option"

record Interface =
  if_id :: bytes
  if_vni :: u32
  if_primary_ipv4 :: bytes
  if_primary_ipv6 :: bytes
  if_underlay_route :: bytes
  if_pci_name :: string
  if_metering_params :: "u64 \<times> u64"
  if_hostname :: string

record Route =
  ro_prefix :: "Prefix option"
  ro_nexthop_vni :: u32
  ro_nexthop_address :: "IpAddress option"
  ro_weight :: u32

record LbPort =
  lp_port :: u32
  lp_protocol :: i32

record NatEntry =
  ne_nat_ip :: "IpAddress option"
  ne_min_port :: u32
  ne_max_port :: u32
  ne_underlay_route :: bytes
  ne_vni :: u32
  ne_actual_nat_ip :: "IpAddress option"

record Loadbalancer =
  ld_id :: bytes
  ld_vni :: u32
  ld_ip :: "IpAddress option"
  ld_ports :: "LbPort list"
  ld_underlay_route :: bytes

section \<open>Status values\<close>

definition ok_status :: DpStatus where
  "ok_status = \<lparr>st_code = 0, st_message = ''OK''\<rparr>"

definition err_status :: "u32 \<Rightarrow> string \<Rightarrow> DpStatus" where
  "err_status code msg = \<lparr>st_code = code, st_message = msg\<rparr>"

section \<open>Addresses\<close>

definition encode_ipv6_str :: "bytes \<Rightarrow> bytes" where
  "encode_ipv6_str addr = show_ipv6 addr"

definition encode_ipv4_str :: "bytes \<Rightarrow> bytes" where
  "encode_ipv4_str addr = show_ipv4 addr"

definition decode_ipv4 :: "bytes \<Rightarrow> rpc_status + bytes" where
  "decode_ipv4 bs =
     (if length bs = 4 then Inr bs
      else if \<not> utf8_ok bs then Inl InvalidArgument
      else case parse_ipv4 bs of None \<Rightarrow> Inl InvalidArgument | Some a \<Rightarrow> Inr a)"

definition decode_ipv6 :: "bytes \<Rightarrow> rpc_status + bytes" where
  "decode_ipv6 bs =
     (if utf8_ok bs \<and> 58 \<in> set bs
      then (case parse_ipv6 bs of None \<Rightarrow> Inl InvalidArgument | Some a \<Rightarrow> Inr a)
      else if length bs = 16 then Inr bs else Inl InvalidArgument)"

text \<open>The tests \<^verbatim>\<open>from_utf8(..).ok().and_then(parse::<IpAddr>).map(is_ipv6).unwrap_or(false)\<close> and
  likewise \<^verbatim>\<open>is_ipv4\<close>.\<close>

definition text_is_ipv6 :: "bytes \<Rightarrow> bool" where
  "text_is_ipv6 bs = (utf8_ok bs \<and> (case parse_ip bs of Some (Inr _) \<Rightarrow> True | _ \<Rightarrow> False))"

definition text_is_ipv4 :: "bytes \<Rightarrow> bool" where
  "text_is_ipv4 bs = (utf8_ok bs \<and> (case parse_ip bs of Some (Inl _) \<Rightarrow> True | _ \<Rightarrow> False))"

definition ip4_addr :: "bytes \<Rightarrow> IpAddress" where
  "ip4_addr a = \<lparr>ia_ipver = IPV4, ia_address = encode_ipv4_str a\<rparr>"

definition ip6_addr :: "bytes \<Rightarrow> IpAddress" where
  "ip6_addr a = \<lparr>ia_ipver = IPV6, ia_address = encode_ipv6_str a\<rparr>"

text \<open>\<^verbatim>\<open>preferred_underlay_route\<close>: absent when empty or all zero.\<close>

definition decode_preferred :: "bytes \<Rightarrow> rpc_status + bytes option" where
  "decode_preferred bs =
     (if bs \<noteq> []
      then (case decode_ipv6 bs of
              Inl e \<Rightarrow> Inl e
            | Inr ul \<Rightarrow> Inr (if ul = replicate 16 0 then None else Some ul))
      else Inr None)"

section \<open>Firewall rules\<close>

definition mask_from_len :: "u32 \<Rightarrow> bytes" where
  "mask_from_len len =
     (let len = min len 32
      in u32_be (if len = 0 then 0 else push_bit (32 - unat len) (- 1 :: u32)))"

definition count_ones :: "bytes \<Rightarrow> u32" where
  "count_ones m = of_nat (length (filter (key_bit m) [0..<32]))"

definition decode_fw_prefix :: "IpAddress \<Rightarrow> u32 \<Rightarrow> rpc_status + bytes \<times> bytes" where
  "decode_fw_prefix addr len =
     (if ia_ipver addr = IPV6 \<or> text_is_ipv6 (ia_address addr) then Inr (replicate 4 0, replicate 4 0)
      else case decode_ipv4 (ia_address addr) of
             Inl e \<Rightarrow> Inl e
           | Inr ip \<Rightarrow> Inr (ip, mask_from_len len))"

definition decode_fw_side :: "Prefix option \<Rightarrow> rpc_status + bytes \<times> bytes" where
  "decode_fw_side p =
     (case p of
        Some px \<Rightarrow> (case px_ip px of Some addr \<Rightarrow> decode_fw_prefix addr (px_length px) | None \<Rightarrow> Inr (replicate 4 0, replicate 4 0))
      | None \<Rightarrow> Inr (replicate 4 0, replicate 4 0))"

text \<open>\<^verbatim>\<open>if f < 0 { dflt } else { f as u16 }\<close>.\<close>

definition or_default :: "i32 \<Rightarrow> u16 \<Rightarrow> u16" where
  "or_default f dflt = (if sint f < 0 then dflt else ucast f)"

definition decode_filter :: "ProtoFilter option option \<Rightarrow> u8 \<times> u16 \<times> u16 \<times> u16 \<times> u16 \<times> u16 \<times> u16" where
  "decode_filter pf =
     (case pf of
        Some (Some (Tcp f)) \<Rightarrow>
          (6, or_default (pf_src_lower f) 0, or_default (pf_src_upper f) 65535,
           or_default (pf_dst_lower f) 0, or_default (pf_dst_upper f) 65535, 0xffff, 0xffff)
      | Some (Some (Udp f)) \<Rightarrow>
          (17, or_default (pf_src_lower f) 0, or_default (pf_src_upper f) 65535,
           or_default (pf_dst_lower f) 0, or_default (pf_dst_upper f) 65535, 0xffff, 0xffff)
      | Some (Some (Icmp ty co)) \<Rightarrow> (1, 0, 65535, 0, 65535, or_default ty 0xffff, or_default co 0xffff)
      | _ \<Rightarrow> (0, 0, 65535, 0, 65535, 0xffff, 0xffff))"

definition decode_fw_rule :: "FirewallRule \<Rightarrow> rpc_status + FwRule" where
  "decode_fw_rule r =
     (let direction = (if pr_direction r = DIR_EGRESS then FW_DIR_EGRESS else FW_DIR_INGRESS);
          action = (if pr_action r = ACTION_ACCEPT then FW_ACTION_ACCEPT else FW_ACTION_DROP)
      in case decode_fw_side (pr_source_prefix r) of
           Inl e \<Rightarrow> Inl e
         | Inr (src_ip, src_mask) \<Rightarrow>
             (case decode_fw_side (pr_destination_prefix r) of
                Inl e \<Rightarrow> Inl e
              | Inr (dst_ip, dst_mask) \<Rightarrow>
                  let (proto, smin, smax, dmin, dmax, ty, co) = decode_filter (pr_protocol_filter r)
                  in Inr \<lparr>fr_src_ip = src_ip, fr_src_mask = src_mask, fr_dst_ip = dst_ip, fr_dst_mask = dst_mask,
                          fr_src_port_min = smin, fr_src_port_max = smax, fr_dst_port_min = dmin,
                          fr_dst_port_max = dmax, fr_icmp_type = ty, fr_icmp_code = co, fr_proto = proto,
                          fr_action = action, fr_direction = direction, fr_enabled = 1\<rparr>))"

definition enc_port :: "u16 \<Rightarrow> u16 \<Rightarrow> i32 \<times> i32" where
  "enc_port pmin pmax = (if pmin = 0 \<and> pmax = 65535 then (- 1, - 1) else (ucast pmin, ucast pmax))"

definition enc_ports :: "FwRule \<Rightarrow> PortFilter" where
  "enc_ports r =
     (let (spl, spu) = enc_port (fr_src_port_min r) (fr_src_port_max r);
          (dpl, dpu) = enc_port (fr_dst_port_min r) (fr_dst_port_max r)
      in \<lparr>pf_src_lower = spl, pf_src_upper = spu, pf_dst_lower = dpl, pf_dst_upper = dpu\<rparr>)"

definition encode_fw_rule :: "bytes \<Rightarrow> FwRule \<Rightarrow> FirewallRule" where
  "encode_fw_rule rule_id r =
     \<lparr>pr_id = rule_id,
      pr_direction = (if fr_direction r = FW_DIR_EGRESS then DIR_EGRESS else DIR_INGRESS),
      pr_action = (if fr_action r = FW_ACTION_ACCEPT then ACTION_ACCEPT else ACTION_DROP),
      pr_priority = 1000,
      pr_source_prefix = Some \<lparr>px_ip = Some (ip4_addr (fr_src_ip r)), px_length = count_ones (fr_src_mask r), px_underlay_route = []\<rparr>,
      pr_destination_prefix = Some \<lparr>px_ip = Some (ip4_addr (fr_dst_ip r)), px_length = count_ones (fr_dst_mask r), px_underlay_route = []\<rparr>,
      pr_protocol_filter =
        (if fr_proto r = 6 then Some (Some (Tcp (enc_ports r)))
         else if fr_proto r = 17 then Some (Some (Udp (enc_ports r)))
         else if fr_proto r = 1
         then Some (Some (Icmp (if fr_icmp_type r = 0xffff then - 1 else ucast (fr_icmp_type r))
                               (if fr_icmp_code r = 0xffff then - 1 else ucast (fr_icmp_code r))))
         else None)\<rparr>"

definition make_interface :: "bytes \<Rightarrow> u32 \<Rightarrow> bytes \<Rightarrow> bytes \<Rightarrow> bytes \<Rightarrow> string \<Rightarrow> Interface" where
  "make_interface i vni ipv4 ipv6 underlay device =
     \<lparr>if_id = i, if_vni = vni, if_primary_ipv4 = encode_ipv4_str ipv4, if_primary_ipv6 = encode_ipv6_str ipv6,
      if_underlay_route = encode_ipv6_str underlay, if_pci_name = device, if_metering_params = (0, 0), if_hostname = ''''\<rparr>"

section \<open>Error texts\<close>

text \<open>\<open>lib\<close> is the text of an error of a kernel table, which the map library composes.\<close>

fun err_text :: "(map_error \<Rightarrow> string) \<Rightarrow> ctl_error \<Rightarrow> string" where
  "err_text lib (DeviceError msg) = msg"
| "err_text lib (AttachError msg) = msg"
| "err_text lib InterfaceExists = ''interface already exists''"
| "err_text lib IpInUse = ''ROUTE_EXISTS: IP already in use in this VNI''"
| "err_text lib Ip6InUse = ''ROUTE_EXISTS: IPv6 already in use in this VNI''"
| "err_text lib UnknownInterface = ''unknown interface''"
| "err_text lib NoUnderlay = ''interface has no underlay''"
| "err_text lib RouteExists = ''ROUTE_EXISTS: route already exists''"
| "err_text lib PrefixExists = ''ROUTE_EXISTS: prefix already exists''"
| "err_text lib Prefix6Exists = ''ROUTE_EXISTS: IPv6 prefix already exists''"
| "err_text lib PrefixInUse = ''ROUTE_EXISTS: prefix already in use in this VNI''"
| "err_text lib LbExists = ''load balancer already exists''"
| "err_text lib UnknownLb = ''unknown load balancer''"
| "err_text lib LbTargetExists = ''load balancer target already exists''"
| "err_text lib NoVm = ''NO_VM: unknown interface''"
| "err_text lib VipExists = ''SNAT_EXISTS: VIP already set for this interface''"
| "err_text lib NatExists = ''SNAT_EXISTS: NAT already configured for this interface''"
| "err_text lib NatRangeOverlap = ''SNAT_EXISTS: overlapping NAT port range''"
| "err_text lib VnfInsert = ''VNF_INSERT: preferred underlay collision''"
| "err_text lib TooManyRules = ''too many firewall rules for interface (max 16)''"
| "err_text lib FwRuleExists = ''ALREADY_EXISTS: firewall rule already exists''"
| "err_text lib LbPrefixExists = ''ALREADY_EXISTS: LB prefix already exists''"
| "err_text lib LbPrefix6Exists = ''ALREADY_EXISTS: IPv6 LB prefix already exists''"
| "err_text lib NeighborNatExists = ''ALREADY_EXISTS: neighbor NAT entry already exists or port range overlaps''"
| "err_text lib NeighborNatFull = ''neighbor NAT table full (max 64)''"
| "err_text lib MaglevError = ''''"
| "err_text lib (MapError e) = lib e"

fun has_text :: "string \<Rightarrow> string \<Rightarrow> bool" where
  "has_text [] pat = (pat = [])"
| "has_text (c # s) pat = (take (length pat) (c # s) = pat \<or> has_text s pat)"

end
