(* ===== verification/Grpc.thy ===== *)
theory Grpc
  imports Grpc_Types
begin

text \<open>
  The gRPC service of \<^verbatim>\<open>xdp-dp/src/grpc.rs\<close>: one definition \<open>rpc_<name>\<close> per handler of
  \<^verbatim>\<open>impl DpdKironcore for Service\<close>. A handler takes the request and the service and returns the
  response, or the transport error, with the service after it; a response starts with its status.
  Handlers run one at a time here: where the code calls the control plane twice in one handler,
  nothing comes in between. \<open>lib\<close> gives the texts of table errors and \<open>env\<close> what the host answers
  about devices.
\<close>

section \<open>The service\<close>

record Service =
  sv_state :: "string option"
  sv_control :: "ctl option"
  sv_underlay :: bytes
  sv_gateway_ipv4 :: bytes
  sv_gateway_ipv6 :: bytes

type_synonym 'r handler = "ctl \<Rightarrow> (rpc_status + 'r) \<times> ctl"

definition with_control :: "'r handler \<Rightarrow> Service \<Rightarrow> (rpc_status + 'r) \<times> Service" where
  "with_control h svc =
     (case sv_control svc of
        None \<Rightarrow> (Inl FailedPrecondition, svc)
      | Some g \<Rightarrow> (let (res, g) = h g in (res, svc\<lparr>sv_control := Some g\<rparr>)))"

text \<open>The operator \<^verbatim>\<open>?\<close> on a decoding step, and a mandatory message field.\<close>

definition try_res :: "rpc_status + 'a \<Rightarrow> ('a \<Rightarrow> 'r handler) \<Rightarrow> 'r handler" where
  "try_res r k g = (case r of Inl e \<Rightarrow> (Inl e, g) | Inr a \<Rightarrow> k a g)"

definition required :: "'a option \<Rightarrow> rpc_status + 'a" where
  "required x = (case x of None \<Rightarrow> Inl InvalidArgument | Some a \<Rightarrow> Inr a)"

definition reply :: "'r \<Rightarrow> 'r handler" where
  "reply r g = (Inr r, g)"

section \<open>Identity\<close>

definition rpc_initialize :: "string \<Rightarrow> Service \<Rightarrow> (rpc_status + DpStatus \<times> string) \<times> Service" where
  "rpc_initialize fresh svc =
     (let (uuid, st) = initialize fresh (sv_state svc) in (Inr (ok_status, uuid), svc\<lparr>sv_state := st\<rparr>))"

definition rpc_check_initialized :: "Service \<Rightarrow> (rpc_status + DpStatus \<times> string) \<times> Service" where
  "rpc_check_initialized svc =
     (case check_initialized (sv_state svc) of
        Some uuid \<Rightarrow> (Inr (ok_status, uuid), svc)
      | None \<Rightarrow> (Inr (err_status 1 ''not initialized'', ''''), svc))"

definition rpc_get_version :: "string \<Rightarrow> Service \<Rightarrow> (rpc_status + DpStatus \<times> string \<times> string) \<times> Service" where
  "rpc_get_version client_protocol svc = (Inr (ok_status, client_protocol, client_protocol), svc)"

section \<open>Interfaces\<close>

record CreateInterfaceRequest =
  ci_interface_id :: bytes
  ci_vni :: u32
  ci_ipv4_config :: "bytes option"
  ci_ipv6_config :: "bytes option"
  ci_pxe_config :: "(bytes \<times> bytes) option"
  ci_device_name :: string
  ci_metering_parameters :: "(u64 \<times> u64) option"
  ci_preferred_underlay_route :: bytes
  ci_hostname :: bytes

text \<open>The underlay address of an object: the node's prefix, the VNI and four address bytes.\<close>

definition derive_underlay :: "bytes \<Rightarrow> u32 \<Rightarrow> bytes \<Rightarrow> bytes" where
  "derive_underlay base vni ip4 = take 8 base @ u32_be vni @ ip4"

definition interface_error :: "string \<Rightarrow> rpc_status + DpStatus \<times> bytes" where
  "interface_error msg =
     (if has_text msg ''already exists'' then Inr (err_status 202 ''ALREADY_EXISTS'', [])
      else if has_text msg ''NOT_FOUND'' \<or> has_text msg ''invalid pci'' \<or> has_text msg ''no such device'' \<or>
              has_text msg ''read ifindex''
      then Inr (err_status 201 ''NOT_FOUND'', [])
      else if has_text msg ''IP already in use'' \<or> has_text msg ''ROUTE_EXISTS'' \<or> has_text msg ''route already''
      then Inr (err_status 301 ''ROUTE_EXISTS'', [])
      else if has_text msg ''preferred underlay collision'' \<or> has_text msg ''VNF_INSERT''
      then Inr (err_status 401 ''VNF_INSERT'', [])
      else Inl (Internal msg))"

definition ipv6_or_zero :: "bytes option \<Rightarrow> rpc_status + bytes" where
  "ipv6_or_zero c = (case c of Some bs \<Rightarrow> if bs = [] then Inr (replicate 16 0) else decode_ipv6 bs | None \<Rightarrow> Inr (replicate 16 0))"

definition underlay_or :: "bytes \<Rightarrow> bytes \<Rightarrow> rpc_status + bytes" where
  "underlay_or derived preferred =
     (if preferred \<noteq> []
      then (case decode_ipv6 preferred of
              Inl e \<Rightarrow> Inl e
            | Inr pul \<Rightarrow> Inr (if pul \<noteq> replicate 16 0 then pul else derived))
      else Inr derived)"

definition pxe_meta :: "(bytes \<times> bytes) option \<Rightarrow> bytes \<times> bytes" where
  "pxe_meta c =
     (case c of
        Some (next_server, boot_filename) \<Rightarrow> if next_server \<noteq> [] then (next_server, boot_filename) else ([], [])
      | None \<Rightarrow> ([], []))"

text \<open>The calls into the control plane: create the interface, then write its DHCP data.\<close>

definition bring_interface ::
  "(map_error \<Rightarrow> string) \<Rightarrow> netdev_env \<Rightarrow> CreateInterfaceRequest \<Rightarrow> IfaceParams \<Rightarrow> (DpStatus \<times> bytes) handler" where
  "bring_interface lib env r ps g =
     (case create_interface env (ci_interface_id r) (ci_device_name r) ps g of
        (Inl e, g) \<Rightarrow> (interface_error (err_text lib e), g)
      | (Inr _, g) \<Rightarrow>
          (case set_dhcp_meta (ci_interface_id r) (ci_hostname r) (fst (pxe_meta (ci_pxe_config r)))
                  (snd (pxe_meta (ci_pxe_config r))) g of
             (Inl e, g) \<Rightarrow> (Inl (Internal (err_text lib e)), g)
           | (Inr _, g) \<Rightarrow> (Inr (ok_status, encode_ipv6_str (ip_underlay_ipv6 ps)), g)))"

definition rpc_create_interface ::
  "(map_error \<Rightarrow> string) \<Rightarrow> netdev_env \<Rightarrow> CreateInterfaceRequest \<Rightarrow> Service \<Rightarrow> (rpc_status + DpStatus \<times> bytes) \<times> Service" where
  "rpc_create_interface lib env r svc = with_control (
     try_res (required (ci_ipv4_config r)) (\<lambda>ipv4_config.
     try_res (decode_ipv4 ipv4_config) (\<lambda>ipv4.
     try_res (ipv6_or_zero (ci_ipv6_config r)) (\<lambda>ipv6.
     if ipv4 = replicate 4 0 \<and> ipv6 = replicate 16 0 then (\<lambda>g. (Inl InvalidArgument, g))
     else
       try_res (underlay_or (derive_underlay (sv_underlay svc) (ci_vni r) ipv4) (ci_preferred_underlay_route r)) (\<lambda>underlay.
         let (total_mbps, public_mbps) = (case ci_metering_parameters r of Some mp \<Rightarrow> mp | None \<Rightarrow> (0, 0))
         in bring_interface lib env r
              \<lparr>ip_vni = ci_vni r, ip_ipv4 = ipv4, ip_ipv6 = ipv6, ip_gateway_ipv4 = sv_gateway_ipv4 svc,
               ip_gateway_ipv6 = sv_gateway_ipv6 svc, ip_underlay_ipv6 = underlay,
               ip_total_mbps = total_mbps, ip_public_mbps = public_mbps\<rparr>))))) svc"

definition rpc_list_interfaces :: "Service \<Rightarrow> (rpc_status + DpStatus \<times> Interface list) \<times> Service" where
  "rpc_list_interfaces = with_control (\<lambda>g.
     (Inr (ok_status, map (\<lambda>(i, vni, ipv4, ipv6, ul, dev). make_interface i vni ipv4 ipv6 ul dev) (list_interfaces g)), g))"

definition rpc_get_interface :: "bytes \<Rightarrow> Service \<Rightarrow> (rpc_status + DpStatus \<times> Interface option) \<times> Service" where
  "rpc_get_interface i = with_control (\<lambda>g.
     (case get_interface i g of
        Some (vni, ipv4, ipv6, ul, dev) \<Rightarrow> (Inr (ok_status, Some (make_interface i vni ipv4 ipv6 ul dev)), g)
      | None \<Rightarrow> (Inr (err_status 201 ''NOT_FOUND'', None), g)))"

text \<open>The deletions share one shape: a result of \<^verbatim>\<open>Ok(true)\<close>, \<^verbatim>\<open>Ok(false)\<close> or an error.\<close>

definition deleted :: "(map_error \<Rightarrow> string) \<Rightarrow> u32 \<Rightarrow> string \<Rightarrow> (ctl_error + bool) \<times> ctl \<Rightarrow> (rpc_status + DpStatus) \<times> ctl" where
  "deleted lib code msg res =
     (case res of
        (Inr True, g) \<Rightarrow> (Inr ok_status, g)
      | (Inr False, g) \<Rightarrow> (Inr (err_status code msg), g)
      | (Inl e, g) \<Rightarrow> (Inl (Internal (err_text lib e)), g))"

definition rpc_delete_interface :: "(map_error \<Rightarrow> string) \<Rightarrow> bytes \<Rightarrow> Service \<Rightarrow> (rpc_status + DpStatus) \<times> Service" where
  "rpc_delete_interface lib i = with_control (\<lambda>g. deleted lib 201 ''NOT_FOUND'' (detach_interface i g))"

section \<open>Routes\<close>

definition mask4 :: "bytes \<Rightarrow> u32 \<Rightarrow> bytes" where
  "mask4 raw len =
     (let m = mask_from_len len
      in [raw ! 0 AND m ! 0, raw ! 1 AND m ! 1, raw ! 2 AND m ! 2, raw ! 3 AND m ! 3])"

definition route_error :: "string \<Rightarrow> rpc_status + DpStatus" where
  "route_error msg =
     (if has_text msg ''already exists'' \<or> has_text msg ''ROUTE_EXISTS'' then Inr (err_status 301 ''ROUTE_EXISTS'')
      else Inl (Internal msg))"

definition rpc_create_route :: "(map_error \<Rightarrow> string) \<Rightarrow> u32 \<Rightarrow> Route option \<Rightarrow> Service \<Rightarrow> (rpc_status + DpStatus) \<times> Service" where
  "rpc_create_route lib vni ro = with_control (
     try_res (required ro) (\<lambda>route.
     try_res (required (ro_prefix route)) (\<lambda>prefix.
     try_res (required (px_ip prefix)) (\<lambda>prefix_ip.
     try_res (required (ro_nexthop_address route)) (\<lambda>nexthop_addr.
     if ia_ipver nexthop_addr = IPV4 \<or> ia_ipver nexthop_addr \<noteq> IPV6 \<and> text_is_ipv4 (ia_address nexthop_addr)
     then reply (err_status 204 ''BAD_IPVER'')
     else try_res (decode_ipv6 (ia_address nexthop_addr)) (\<lambda>nexthop_ipv6 g.
       if vni \<noteq> 0 \<and> \<not> vni_in_use vni g then (Inr (err_status 206 ''NO_VNI''), g)
       else
         let prefix_len = px_length prefix; is_external = (prefix_len = 0); nhop_vni = ro_nexthop_vni route;
             answer = (\<lambda>res. case res of
                               (Inl e, g) \<Rightarrow> (route_error (err_text lib e), g)
                             | (Inr _, g) \<Rightarrow> (Inr ok_status, g))
         in if ia_ipver prefix_ip = IPV6
            then try_res (decode_ipv6 (ia_address prefix_ip))
                   (\<lambda>ipv6 g. answer (create_route6 vni ipv6 prefix_len nexthop_ipv6 nhop_vni is_external g)) g
            else try_res (decode_ipv4 (ia_address prefix_ip))
                   (\<lambda>raw g. answer (create_route vni (mask4 raw prefix_len) prefix_len nexthop_ipv6 nhop_vni is_external g)) g))))))"

definition rpc_list_routes :: "u32 \<Rightarrow> Service \<Rightarrow> (rpc_status + DpStatus \<times> Route list) \<times> Service" where
  "rpc_list_routes vni = with_control (\<lambda>g.
     if vni \<noteq> 0 \<and> \<not> vni_in_use vni g then (Inr (err_status 206 ''NO_VNI'', []), g)
     else (Inr (ok_status,
       map (\<lambda>(route_vni, p, l, nhop_vni, n, is6).
              \<lparr>ro_prefix = Some \<lparr>px_ip = Some (ip4_addr (take 4 p)), px_length = l, px_underlay_route = []\<rparr>,
               ro_nexthop_vni = nhop_vni, ro_nexthop_address = Some (ip6_addr n), ro_weight = 0\<rparr>)
         (filter (\<lambda>(_, _, _, _, _, is6). \<not> is6) (list_routes_all vni g))), g))"

definition rpc_delete_route :: "(map_error \<Rightarrow> string) \<Rightarrow> u32 \<Rightarrow> Route option \<Rightarrow> Service \<Rightarrow> (rpc_status + DpStatus) \<times> Service" where
  "rpc_delete_route lib vni ro = with_control (\<lambda>g.
     if vni \<noteq> 0 \<and> \<not> vni_in_use vni g then (Inr (err_status 206 ''NO_VNI''), g)
     else
       try_res (required ro) (\<lambda>route.
       try_res (required (ro_prefix route)) (\<lambda>prefix.
       try_res (required (px_ip prefix)) (\<lambda>ip.
       if ia_ipver ip = IPV6
       then try_res (decode_ipv6 (ia_address ip)) (\<lambda>ipv6 g.
              deleted lib 302 ''ROUTE_NOT_FOUND'' (delete_route6 vni ipv6 (px_length prefix) g))
       else try_res (decode_ipv4 (ia_address ip)) (\<lambda>raw g.
              deleted lib 302 ''ROUTE_NOT_FOUND'' (delete_route vni (mask4 raw (px_length prefix)) (px_length prefix) g))))) g)"

definition rpc_check_vni_in_use :: "u32 \<Rightarrow> Service \<Rightarrow> (rpc_status + DpStatus \<times> bool) \<times> Service" where
  "rpc_check_vni_in_use vni = with_control (\<lambda>g. (Inr (ok_status, vni_in_use vni g), g))"

definition rpc_reset_vni :: "(map_error \<Rightarrow> string) \<Rightarrow> u32 \<Rightarrow> Service \<Rightarrow> (rpc_status + DpStatus) \<times> Service" where
  "rpc_reset_vni lib vni = with_control (\<lambda>g.
     case reset_vni vni g of
       (Inl e, g) \<Rightarrow> (Inl (Internal (err_text lib e)), g)
     | (Inr _, g) \<Rightarrow> (Inr ok_status, g))"

section \<open>Prefixes\<close>

definition prefix_msg :: "bytes \<times> u32 \<times> bytes \<times> bool \<Rightarrow> Prefix" where
  "prefix_msg = (\<lambda>(ip, len, ul, is_ipv6).
     \<lparr>px_ip = Some (if is_ipv6 then ip6_addr (take 16 ip) else ip4_addr (take 4 ip)), px_length = len,
      px_underlay_route = encode_ipv6_str ul\<rparr>)"

definition rpc_list_prefixes :: "bytes \<Rightarrow> Service \<Rightarrow> (rpc_status + DpStatus \<times> Prefix list) \<times> Service" where
  "rpc_list_prefixes iface_id = with_control (\<lambda>g.
     if iface_id = [] then (Inr (ok_status, map prefix_msg (list_prefixes_all g)), g)
     else if get_interface iface_id g = None then (Inr (err_status 205 ''NO_VM'', []), g)
     else (Inr (ok_status, map prefix_msg (list_prefixes_with_underlay iface_id g)), g))"

definition rpc_list_load_balancer_prefixes :: "bytes \<Rightarrow> Service \<Rightarrow> (rpc_status + DpStatus \<times> Prefix list) \<times> Service" where
  "rpc_list_load_balancer_prefixes iface_id = with_control (\<lambda>g.
     if iface_id = [] then (Inr (ok_status, map prefix_msg (list_lb_prefixes_all g)), g)
     else if get_interface iface_id g = None then (Inr (err_status 205 ''NO_VM'', []), g)
     else (Inr (ok_status, map prefix_msg (list_lb_prefixes_with_underlay iface_id g)), g))"

definition prefix_error :: "u32 \<Rightarrow> string \<Rightarrow> string \<Rightarrow> rpc_status + DpStatus \<times> bytes" where
  "prefix_error code name msg =
     (if has_text msg ''NO_VM'' \<or> has_text msg ''unknown interface'' then Inr (err_status 205 ''NO_VM'', [])
      else if has_text msg ''already exists'' \<or> has_text msg ''ROUTE_EXISTS'' then Inr (err_status code name, [])
      else Inl (Internal msg))"

definition rpc_create_prefix ::
  "(map_error \<Rightarrow> string) \<Rightarrow> bytes \<Rightarrow> Prefix option \<Rightarrow> bytes \<Rightarrow> Service \<Rightarrow> (rpc_status + DpStatus \<times> bytes) \<times> Service" where
  "rpc_create_prefix lib iface_id px preferred = with_control (
     try_res (required px) (\<lambda>pfx.
     try_res (required (px_ip pfx)) (\<lambda>addr.
     try_res (decode_preferred preferred) (\<lambda>preferred_ul.
     let answer = (\<lambda>res. case res of
                     (Inr underlay, g) \<Rightarrow> (Inr (ok_status, encode_ipv6_str underlay), g)
                   | (Inl e, g) \<Rightarrow> (prefix_error 301 ''ROUTE_EXISTS'' (err_text lib e), g))
     in if ia_ipver addr = IPV6
        then try_res (decode_ipv6 (ia_address addr)) (\<lambda>ip g. answer (add_prefix6 iface_id ip (px_length pfx) preferred_ul g))
        else try_res (decode_ipv4 (ia_address addr)) (\<lambda>ip g. answer (add_prefix iface_id ip (px_length pfx) preferred_ul g))))))"

definition rpc_create_load_balancer_prefix ::
  "(map_error \<Rightarrow> string) \<Rightarrow> bytes \<Rightarrow> Prefix option \<Rightarrow> bytes \<Rightarrow> Service \<Rightarrow> (rpc_status + DpStatus \<times> bytes) \<times> Service" where
  "rpc_create_load_balancer_prefix lib iface_id px preferred = with_control (
     try_res (required px) (\<lambda>pfx.
     try_res (required (px_ip pfx)) (\<lambda>addr.
     try_res (decode_preferred preferred) (\<lambda>preferred_ul.
     let answer = (\<lambda>res. case res of
                     (Inr underlay, g) \<Rightarrow> (Inr (ok_status, encode_ipv6_str underlay), g)
                   | (Inl e, g) \<Rightarrow> (prefix_error 202 ''ALREADY_EXISTS'' (err_text lib e), g))
     in if ia_ipver addr = IPV6
        then try_res (decode_ipv6 (ia_address addr)) (\<lambda>ip g. answer (add_lb_prefix6 iface_id ip (px_length pfx) preferred_ul g))
        else try_res (decode_ipv4 (ia_address addr)) (\<lambda>ip g. answer (add_lb_prefix iface_id ip (px_length pfx) preferred_ul g))))))"

text \<open>The deletions that report an unknown interface as a status.\<close>

definition deleted_vm :: "(map_error \<Rightarrow> string) \<Rightarrow> u32 \<Rightarrow> string \<Rightarrow> (ctl_error + bool) \<times> ctl \<Rightarrow> (rpc_status + DpStatus) \<times> ctl" where
  "deleted_vm lib code msg res =
     (case res of
        (Inr True, g) \<Rightarrow> (Inr ok_status, g)
      | (Inr False, g) \<Rightarrow> (Inr (err_status code msg), g)
      | (Inl e, g) \<Rightarrow>
          (if has_text (err_text lib e) ''NO_VM'' \<or> has_text (err_text lib e) ''unknown interface''
           then (Inr (err_status 205 ''NO_VM''), g) else (Inl (Internal (err_text lib e)), g)))"

definition rpc_delete_prefix ::
  "(map_error \<Rightarrow> string) \<Rightarrow> bytes \<Rightarrow> Prefix option \<Rightarrow> Service \<Rightarrow> (rpc_status + DpStatus) \<times> Service" where
  "rpc_delete_prefix lib iface_id px = with_control (
     try_res (required px) (\<lambda>pfx.
     try_res (required (px_ip pfx)) (\<lambda>addr.
     if ia_ipver addr = IPV6
     then try_res (decode_ipv6 (ia_address addr)) (\<lambda>ip g.
            deleted_vm lib 302 ''ROUTE_NOT_FOUND'' (del_prefix6 iface_id ip (px_length pfx) g))
     else try_res (decode_ipv4 (ia_address addr)) (\<lambda>ip g.
            deleted_vm lib 302 ''ROUTE_NOT_FOUND'' (del_prefix iface_id ip (px_length pfx) g)))))"

definition rpc_delete_load_balancer_prefix ::
  "(map_error \<Rightarrow> string) \<Rightarrow> bytes \<Rightarrow> Prefix option \<Rightarrow> Service \<Rightarrow> (rpc_status + DpStatus) \<times> Service" where
  "rpc_delete_load_balancer_prefix lib iface_id px = with_control (
     try_res (required px) (\<lambda>pfx.
     try_res (required (px_ip pfx)) (\<lambda>addr.
     if ia_ipver addr = IPV6
     then try_res (decode_ipv6 (ia_address addr)) (\<lambda>ip g.
            deleted_vm lib 201 ''NOT_FOUND'' (del_lb_prefix6 iface_id ip (px_length pfx) g))
     else try_res (decode_ipv4 (ia_address addr)) (\<lambda>ip g.
            deleted_vm lib 201 ''NOT_FOUND'' (del_lb_prefix iface_id ip (px_length pfx) g)))))"

end
