(* ===== verification/Grpc_Services.thy ===== *)
theory Grpc_Services
  imports Grpc
begin

text \<open>
  The handlers of \<^verbatim>\<open>xdp-dp/src/grpc.rs\<close> for the services of an interface: VIPs, load balancers and
  their targets, NAT and neighbour NAT, firewall rules, and packet capture, which is refused.
\<close>

text \<open>The guards \<^verbatim>\<open>ipver == Ipv6 || text is IPv6\<close> and \<^verbatim>\<open>ipver == Ipv4 || text is IPv4\<close>.\<close>

definition names_ipv6 :: "IpAddress \<Rightarrow> bool" where
  "names_ipv6 addr = (ia_ipver addr = IPV6 \<or> text_is_ipv6 (ia_address addr))"

definition names_ipv4 :: "IpAddress \<Rightarrow> bool" where
  "names_ipv4 addr = (ia_ipver addr = IPV4 \<or> text_is_ipv4 (ia_address addr))"

section \<open>VIPs\<close>

definition vip_error :: "string \<Rightarrow> rpc_status + DpStatus \<times> bytes" where
  "vip_error msg =
     (if has_text msg ''NO_VM'' \<or> has_text msg ''unknown interface'' then Inr (err_status 205 ''NO_VM'', [])
      else if has_text msg ''already exists'' \<or> has_text msg ''SNAT_EXISTS'' then Inr (err_status 343 ''SNAT_EXISTS'', [])
      else if has_text msg ''VNF_INSERT'' \<or> has_text msg ''underlay collision'' then Inr (err_status 401 ''VNF_INSERT'', [])
      else Inl (Internal msg))"

definition rpc_create_vip ::
  "(map_error \<Rightarrow> string) \<Rightarrow> bytes \<Rightarrow> IpAddress option \<Rightarrow> bytes \<Rightarrow> Service \<Rightarrow> (rpc_status + DpStatus \<times> bytes) \<times> Service" where
  "rpc_create_vip lib iface_id vip_ip preferred = with_control (
     try_res (required vip_ip) (\<lambda>vip_addr.
     if names_ipv6 vip_addr then reply (err_status 204 ''BAD_IPVER'', [])
     else
       try_res (decode_ipv4 (ia_address vip_addr)) (\<lambda>vip.
       try_res (decode_preferred preferred) (\<lambda>preferred_ul g.
       case create_vip iface_id vip preferred_ul g of
         (Inr underlay, g) \<Rightarrow> (Inr (ok_status, encode_ipv6_str underlay), g)
       | (Inl e, g) \<Rightarrow> (vip_error (err_text lib e), g)))))"

definition rpc_get_vip :: "bytes \<Rightarrow> Service \<Rightarrow> (rpc_status + DpStatus \<times> IpAddress option \<times> bytes) \<times> Service" where
  "rpc_get_vip iface_id = with_control (\<lambda>g.
     if get_interface iface_id g = None then (Inr (err_status 205 ''NO_VM'', None, []), g)
     else case get_vip iface_id g of
            Some (vip, underlay) \<Rightarrow> (Inr (ok_status, Some (ip4_addr vip), encode_ipv6_str underlay), g)
          | None \<Rightarrow> (Inr (err_status 341 ''SNAT_NO_DATA'', None, []), g))"

definition rpc_delete_vip :: "(map_error \<Rightarrow> string) \<Rightarrow> bytes \<Rightarrow> Service \<Rightarrow> (rpc_status + DpStatus) \<times> Service" where
  "rpc_delete_vip lib iface_id = with_control (\<lambda>g.
     if get_interface iface_id g = None then (Inr (err_status 205 ''NO_VM''), g)
     else deleted lib 341 ''SNAT_NO_DATA'' (delete_vip iface_id g))"

section \<open>Load balancers\<close>

text \<open>The validation loop over the requested ports, with the set \<open>seen\<close> as a list.\<close>

fun ports_valid :: "(u32 \<times> i32) list \<Rightarrow> LbPort list \<Rightarrow> bool" where
  "ports_valid seen [] = True"
| "ports_valid seen (p # ps) =
     (if lp_protocol p = 1 \<or> lp_protocol p = 58 then False
      else if 65535 < lp_port p then False
      else if (lp_port p, lp_protocol p) \<in> set seen then False
      else ports_valid ((lp_port p, lp_protocol p) # seen) ps)"

definition lb_address :: "bytes \<Rightarrow> u32 \<Rightarrow> IpAddress \<Rightarrow> bytes option \<Rightarrow> rpc_status + LbIp \<times> bytes" where
  "lb_address base vni lb_addr preferred_ul =
     (if names_ipv6 lb_addr
      then (case decode_ipv6 (ia_address lb_addr) of
              Inl e \<Rightarrow> Inl e
            | Inr ipv6 \<Rightarrow> Inr (Ipv6 ipv6, case preferred_ul of Some pul \<Rightarrow> pul | None \<Rightarrow> derive_underlay base vni (drop 12 ipv6)))
      else (case decode_ipv4 (ia_address lb_addr) of
              Inl e \<Rightarrow> Inl e
            | Inr ipv4 \<Rightarrow> Inr (Ipv4 ipv4, case preferred_ul of Some pul \<Rightarrow> pul | None \<Rightarrow> derive_underlay base vni ipv4)))"

definition rpc_create_load_balancer ::
  "(map_error \<Rightarrow> string) \<Rightarrow> bytes \<Rightarrow> u32 \<Rightarrow> IpAddress option \<Rightarrow> LbPort list \<Rightarrow> bytes \<Rightarrow> Service \<Rightarrow>
   (rpc_status + DpStatus \<times> bytes) \<times> Service" where
  "rpc_create_load_balancer lib lid vni loadbalanced_ip loadbalanced_ports preferred svc = with_control (
     try_res (required loadbalanced_ip) (\<lambda>lb_addr.
     try_res (decode_preferred preferred) (\<lambda>preferred_ul.
     try_res (lb_address (sv_underlay svc) vni lb_addr preferred_ul) (\<lambda>(ip_bytes, lb_underlay) g.
       if \<not> ports_valid [] loadbalanced_ports then (Inl InvalidArgument, g)
       else
         case create_lb lid vni ip_bytes lb_underlay
                (map (\<lambda>p. (ucast (lp_port p), ucast (lp_protocol p))) loadbalanced_ports) g of
           (Inr _, g) \<Rightarrow> (Inr (ok_status, encode_ipv6_str lb_underlay), g)
         | (Inl e, g) \<Rightarrow>
             (if has_text (err_text lib e) ''already exists'' then (Inr (err_status 202 ''ALREADY_EXISTS'', []), g)
              else (Inl (Internal (err_text lib e)), g)))))) svc"

definition lb_msg :: "bytes \<Rightarrow> u32 \<times> LbIp \<times> bytes \<times> (u16 \<times> u8) list \<Rightarrow> Loadbalancer" where
  "lb_msg lid = (\<lambda>(vni, ip_bytes, lb_underlay, ports).
     \<lparr>ld_id = lid, ld_vni = vni,
      ld_ip = Some (case ip_bytes of Ipv4 ip \<Rightarrow> ip4_addr ip | Ipv6 ip \<Rightarrow> ip6_addr ip),
      ld_ports = map (\<lambda>(port, proto). \<lparr>lp_port = ucast port, lp_protocol = ucast proto\<rparr>) ports,
      ld_underlay_route = encode_ipv6_str lb_underlay\<rparr>)"

text \<open>The fields of \<^verbatim>\<open>GetLoadBalancerResponse\<close> are those of the listed message but for the identifier.\<close>

definition rpc_get_load_balancer ::
  "bytes \<Rightarrow> Service \<Rightarrow> (rpc_status + DpStatus \<times> IpAddress option \<times> u32 \<times> LbPort list \<times> bytes) \<times> Service" where
  "rpc_get_load_balancer lid = with_control (\<lambda>g.
     case get_lb lid g of
       Some lb \<Rightarrow> (let m = lb_msg lid lb in (Inr (ok_status, ld_ip m, ld_vni m, ld_ports m, ld_underlay_route m), g))
     | None \<Rightarrow> (Inr (err_status 201 ''NOT_FOUND'', None, 0, [], []), g))"

definition rpc_delete_load_balancer :: "(map_error \<Rightarrow> string) \<Rightarrow> bytes \<Rightarrow> Service \<Rightarrow> (rpc_status + DpStatus) \<times> Service" where
  "rpc_delete_load_balancer lib lid = with_control (\<lambda>g. deleted lib 201 ''NOT_FOUND'' (delete_lb lid g))"

definition rpc_list_load_balancers :: "Service \<Rightarrow> (rpc_status + DpStatus \<times> Loadbalancer list) \<times> Service" where
  "rpc_list_load_balancers = with_control (\<lambda>g. (Inr (ok_status, map (\<lambda>(i, lb). lb_msg i lb) (list_lbs g)), g))"

definition rpc_create_load_balancer_target ::
  "(map_error \<Rightarrow> string) \<Rightarrow> bytes \<Rightarrow> IpAddress option \<Rightarrow> Service \<Rightarrow> (rpc_status + DpStatus) \<times> Service" where
  "rpc_create_load_balancer_target lib lid target_ip = with_control (
     try_res (required target_ip) (\<lambda>target_addr.
     if names_ipv4 target_addr then reply (err_status 204 ''BAD_IPVER'')
     else try_res (decode_ipv6 (ia_address target_addr)) (\<lambda>backend_underlay g.
       case add_lb_target lid backend_underlay g of
         (Inr _, g) \<Rightarrow> (Inr ok_status, g)
       | (Inl e, g) \<Rightarrow>
           (let msg = err_text lib e
            in if has_text msg ''unknown load balancer'' \<or> has_text msg ''NO_LB'' then (Inr (err_status 422 ''NO_LB''), g)
               else if has_text msg ''already exists'' \<or> has_text msg ''BACKIP_ADD'' then (Inr (err_status 202 ''ALREADY_EXISTS''), g)
               else (Inl (Internal msg), g)))))"

definition rpc_list_load_balancer_targets :: "bytes \<Rightarrow> Service \<Rightarrow> (rpc_status + DpStatus \<times> IpAddress list) \<times> Service" where
  "rpc_list_load_balancer_targets lid = with_control (\<lambda>g.
     if lid = [] then (Inr (ok_status, map ip6_addr (list_lb_targets_all g)), g)
     else if get_lb lid g = None then (Inr (err_status 422 ''NO_LB'', []), g)
     else (Inr (ok_status, map ip6_addr (list_lb_targets lid g)), g))"

definition rpc_delete_load_balancer_target ::
  "(map_error \<Rightarrow> string) \<Rightarrow> bytes \<Rightarrow> IpAddress option \<Rightarrow> Service \<Rightarrow> (rpc_status + DpStatus) \<times> Service" where
  "rpc_delete_load_balancer_target lib lid target_ip = with_control (
     try_res (required target_ip) (\<lambda>target_addr.
     if names_ipv4 target_addr then reply (err_status 204 ''BAD_IPVER'')
     else try_res (decode_ipv6 (ia_address target_addr)) (\<lambda>backend_underlay g.
       case del_lb_target lid backend_underlay g of
         (Inr True, g) \<Rightarrow> (Inr ok_status, g)
       | (Inr False, g) \<Rightarrow> (Inr (err_status 201 ''NOT_FOUND''), g)
       | (Inl e, g) \<Rightarrow>
           (let msg = err_text lib e
            in if has_text msg ''unknown load balancer'' \<or> has_text msg ''NO_LB'' then (Inr (err_status 422 ''NO_LB''), g)
               else (Inl (Internal msg), g)))))"

section \<open>NAT\<close>

definition nat_error :: "string \<Rightarrow> rpc_status + DpStatus \<times> bytes" where
  "nat_error msg =
     (if has_text msg ''NO_VM'' \<or> has_text msg ''unknown interface'' then Inr (err_status 205 ''NO_VM'', [])
      else if has_text msg ''already exists'' \<or> has_text msg ''SNAT_EXISTS'' then Inr (err_status 343 ''SNAT_EXISTS'', [])
      else Inl (Internal msg))"

definition rpc_create_nat ::
  "(map_error \<Rightarrow> string) \<Rightarrow> bytes \<Rightarrow> IpAddress option \<Rightarrow> u32 \<Rightarrow> u32 \<Rightarrow> bytes \<Rightarrow> Service \<Rightarrow>
   (rpc_status + DpStatus \<times> bytes) \<times> Service" where
  "rpc_create_nat lib iface_id nat_ip min_port max_port preferred = with_control (
     try_res (required nat_ip) (\<lambda>nat_addr.
     if names_ipv6 nat_addr then reply (err_status 204 ''BAD_IPVER'', [])
     else
       try_res (decode_ipv4 (ia_address nat_addr)) (\<lambda>ip.
       try_res (decode_preferred preferred) (\<lambda>preferred_ul g.
       case create_nat iface_id ip (ucast min_port) (ucast max_port) preferred_ul g of
         (Inr underlay, g) \<Rightarrow> (Inr (ok_status, encode_ipv6_str underlay), g)
       | (Inl e, g) \<Rightarrow> (nat_error (err_text lib e), g)))))"

definition rpc_get_nat ::
  "bytes \<Rightarrow> Service \<Rightarrow> (rpc_status + DpStatus \<times> IpAddress option \<times> u32 \<times> u32 \<times> bytes) \<times> Service" where
  "rpc_get_nat iface_id = with_control (\<lambda>g.
     if get_interface iface_id g = None then (Inr (err_status 205 ''NO_VM'', None, 0, 0, []), g)
     else case get_nat iface_id g of
            Some (nat_ip, min_port, max_port, underlay, _) \<Rightarrow>
              (Inr (ok_status, Some (ip4_addr nat_ip), ucast min_port, ucast max_port, encode_ipv6_str underlay), g)
          | None \<Rightarrow> (Inr (err_status 341 ''SNAT_NO_DATA'', None, 0, 0, []), g))"

definition rpc_delete_nat :: "(map_error \<Rightarrow> string) \<Rightarrow> bytes \<Rightarrow> Service \<Rightarrow> (rpc_status + DpStatus) \<times> Service" where
  "rpc_delete_nat lib iface_id = with_control (\<lambda>g.
     if get_interface iface_id g = None then (Inr (err_status 205 ''NO_VM''), g)
     else deleted lib 341 ''SNAT_NO_DATA'' (delete_nat iface_id g))"

definition rpc_list_local_nats :: "IpAddress option \<Rightarrow> Service \<Rightarrow> (rpc_status + DpStatus \<times> NatEntry list) \<times> Service" where
  "rpc_list_local_nats nat_ip = with_control (\<lambda>g.
     let entries = (\<lambda>filter_ip.
           map (\<lambda>(_, guest_ipv4, ip, port_min, port_max, vni, _).
                  \<lparr>ne_nat_ip = Some (ip4_addr guest_ipv4), ne_min_port = ucast port_min, ne_max_port = ucast port_max,
                   ne_underlay_route = [], ne_vni = vni, ne_actual_nat_ip = Some (ip4_addr ip)\<rparr>)
             (filter (\<lambda>(_, _, ip, _, _, _, _). filter_ip = None \<or> filter_ip = Some ip) (list_local_nats g)))
     in case nat_ip of
          None \<Rightarrow> (Inr (ok_status, entries None), g)
        | Some addr \<Rightarrow>
            if names_ipv6 addr then (Inr (err_status 204 ''BAD_IPVER'', []), g)
            else (case decode_ipv4 (ia_address addr) of
                    Inl e \<Rightarrow> (Inl e, g)
                  | Inr ip \<Rightarrow> (Inr (ok_status, entries (if ip = replicate 4 0 then None else Some ip)), g)))"

definition rpc_create_neighbor_nat ::
  "(map_error \<Rightarrow> string) \<Rightarrow> IpAddress option \<Rightarrow> u32 \<Rightarrow> u32 \<Rightarrow> u32 \<Rightarrow> bytes \<Rightarrow> Service \<Rightarrow> (rpc_status + DpStatus) \<times> Service" where
  "rpc_create_neighbor_nat lib nat_ip vni min_port max_port underlay_route = with_control (
     try_res (required nat_ip) (\<lambda>nat_addr.
     if names_ipv6 nat_addr then reply (err_status 204 ''BAD_IPVER'')
     else
       try_res (decode_ipv4 (ia_address nat_addr)) (\<lambda>ip.
       try_res (decode_ipv6 underlay_route) (\<lambda>underlay g.
       case add_neighbor_nat vni ip (ucast min_port) (ucast max_port) underlay g of
         (Inr _, g) \<Rightarrow> (Inr ok_status, g)
       | (Inl e, g) \<Rightarrow>
           (let msg = err_text lib e
            in if has_text msg ''already exists'' \<or> has_text msg ''ALREADY_EXISTS''
               then (Inr (err_status 202 ''ALREADY_EXISTS''), g) else (Inl (Internal msg), g))))))"

definition rpc_delete_neighbor_nat ::
  "(map_error \<Rightarrow> string) \<Rightarrow> IpAddress option \<Rightarrow> u32 \<Rightarrow> u32 \<Rightarrow> u32 \<Rightarrow> Service \<Rightarrow> (rpc_status + DpStatus) \<times> Service" where
  "rpc_delete_neighbor_nat lib nat_ip vni min_port max_port = with_control (
     try_res (required nat_ip) (\<lambda>nat_addr.
     if names_ipv6 nat_addr then reply (err_status 204 ''BAD_IPVER'')
     else try_res (decode_ipv4 (ia_address nat_addr)) (\<lambda>ip g.
       deleted lib 201 ''NOT_FOUND'' (del_neighbor_nat vni ip (ucast min_port) (ucast max_port) g))))"

definition rpc_list_neighbor_nats :: "IpAddress option \<Rightarrow> Service \<Rightarrow> (rpc_status + DpStatus \<times> NatEntry list) \<times> Service" where
  "rpc_list_neighbor_nats nat_ip = with_control (\<lambda>g.
     let entries = (\<lambda>filter_ip.
           map (\<lambda>e. \<lparr>ne_nat_ip = None, ne_min_port = ucast (nn_port_min e), ne_max_port = ucast (nn_port_max e),
                     ne_underlay_route = encode_ipv6_str (nn_underlay e), ne_vni = nn_vni e,
                     ne_actual_nat_ip = Some (ip4_addr (nn_nat_ip e))\<rparr>)
             (filter (\<lambda>e. filter_ip = None \<or> filter_ip = Some (nn_nat_ip e)) (list_neighbor_nats g)))
     in case nat_ip of
          None \<Rightarrow> (Inr (ok_status, entries None), g)
        | Some addr \<Rightarrow>
            if names_ipv6 addr then (Inr (err_status 204 ''BAD_IPVER'', []), g)
            else (case decode_ipv4 (ia_address addr) of
                    Inl e \<Rightarrow> (Inl e, g)
                  | Inr ip \<Rightarrow> (Inr (ok_status, entries (Some ip)), g)))"

section \<open>Firewall rules\<close>

definition rpc_list_firewall_rules :: "bytes \<Rightarrow> Service \<Rightarrow> (rpc_status + DpStatus \<times> FirewallRule list) \<times> Service" where
  "rpc_list_firewall_rules iface_id = with_control (\<lambda>g.
     if get_interface iface_id g = None then (Inr (err_status 205 ''NO_VM'', []), g)
     else (Inr (ok_status, map (\<lambda>(i, rule). encode_fw_rule i rule) (list_fw_rules iface_id g)), g))"

definition fw_error :: "string \<Rightarrow> rpc_status + DpStatus \<times> bytes" where
  "fw_error msg =
     (if has_text msg ''NO_VM'' \<or> has_text msg ''unknown interface'' then Inr (err_status 205 ''NO_VM'', [])
      else if has_text msg ''already exists'' \<or> has_text msg ''ALREADY_EXISTS'' then Inr (err_status 202 ''ALREADY_EXISTS'', [])
      else Inl (Internal msg))"

text \<open>The decimal text of a number.\<close>

fun dec :: "nat \<Rightarrow> bytes" where
  "dec n = (if n < 10 then [48 + of_nat n] else dec (n div 10) @ [48 + of_nat (n mod 10)])"

declare dec.simps [simp del]

text \<open>A rule without an identifier gets one from the clock's nanoseconds.\<close>

definition gen_rule_id :: "u32 \<Rightarrow> bytes" where
  "gen_rule_id nanos = [102, 119, 45] @ dec (unat nanos)"

definition rpc_create_firewall_rule ::
  "(map_error \<Rightarrow> string) \<Rightarrow> u32 \<Rightarrow> bytes \<Rightarrow> FirewallRule option \<Rightarrow> Service \<Rightarrow> (rpc_status + DpStatus \<times> bytes) \<times> Service" where
  "rpc_create_firewall_rule lib nanos iface_id rule = with_control (
     try_res (required rule) (\<lambda>pbrule.
     if pr_action pbrule = ACTION_DROP then reply (err_status 441 ''NO_DROP_SUPPORT'', [])
     else
       let rule_id = (if pr_id pbrule = [] then gen_rule_id nanos else pr_id pbrule)
       in try_res (decode_fw_rule pbrule) (\<lambda>fw g.
          case add_fw_rule iface_id rule_id fw g of
            (Inr _, g) \<Rightarrow> (Inr (ok_status, rule_id), g)
          | (Inl e, g) \<Rightarrow> (fw_error (err_text lib e), g))))"

definition rpc_get_firewall_rule :: "bytes \<Rightarrow> bytes \<Rightarrow> Service \<Rightarrow> (rpc_status + DpStatus \<times> FirewallRule option) \<times> Service" where
  "rpc_get_firewall_rule iface_id rule_id = with_control (\<lambda>g.
     if get_interface iface_id g = None then (Inr (err_status 205 ''NO_VM'', None), g)
     else case get_fw_rule iface_id rule_id g of
            Some r \<Rightarrow> (Inr (ok_status, Some (encode_fw_rule rule_id r)), g)
          | None \<Rightarrow> (Inr (err_status 201 ''NOT_FOUND'', None), g))"

definition rpc_delete_firewall_rule ::
  "(map_error \<Rightarrow> string) \<Rightarrow> bytes \<Rightarrow> bytes \<Rightarrow> Service \<Rightarrow> (rpc_status + DpStatus) \<times> Service" where
  "rpc_delete_firewall_rule lib iface_id rule_id = with_control (\<lambda>g.
     if get_interface iface_id g = None then (Inr (err_status 205 ''NO_VM''), g)
     else deleted lib 201 ''NOT_FOUND'' (del_fw_rule iface_id rule_id g))"

section \<open>Capture\<close>

definition rpc_capture_start :: "Service \<Rightarrow> (rpc_status + unit) \<times> Service" where
  "rpc_capture_start svc = (Inl Unimplemented, svc)"

definition rpc_capture_stop :: "Service \<Rightarrow> (rpc_status + unit) \<times> Service" where
  "rpc_capture_stop svc = (Inl Unimplemented, svc)"

definition rpc_capture_status :: "Service \<Rightarrow> (rpc_status + unit) \<times> Service" where
  "rpc_capture_status svc = (Inl Unimplemented, svc)"

end
