(* ===== verification/Grpc_Serve.thy ===== *)
theory Grpc_Serve
  imports Grpc_Services
begin

text \<open>
  All requests of the gRPC service as one type, their dispatch to the handlers, and rules for the
  shapes the handlers share.
\<close>

section \<open>Requests\<close>

datatype node_rpc =
    Initialize string | CheckInitialized | GetVersion string | CaptureStart | CaptureStop | CaptureStatus

datatype interface_rpc =
    CreateInterface CreateInterfaceRequest | ListInterfaces | GetInterface bytes | DeleteInterface bytes

datatype route_rpc =
    CreateRoute u32 "Route option" | ListRoutes u32 | DeleteRoute u32 "Route option" | CheckVniInUse u32 | ResetVni u32

datatype prefix_rpc =
    ListPrefixes bytes | CreatePrefix bytes "Prefix option" bytes | DeletePrefix bytes "Prefix option"
  | ListLoadBalancerPrefixes bytes | CreateLoadBalancerPrefix bytes "Prefix option" bytes
  | DeleteLoadBalancerPrefix bytes "Prefix option"

datatype vip_rpc =
    CreateVip bytes "IpAddress option" bytes | GetVip bytes | DeleteVip bytes

datatype lb_rpc =
    CreateLoadBalancer bytes u32 "IpAddress option" "LbPort list" bytes | GetLoadBalancer bytes
  | DeleteLoadBalancer bytes | ListLoadBalancers
  | CreateLoadBalancerTarget bytes "IpAddress option" | ListLoadBalancerTargets bytes
  | DeleteLoadBalancerTarget bytes "IpAddress option"

datatype nat_rpc =
    CreateNat bytes "IpAddress option" u32 u32 bytes | GetNat bytes | DeleteNat bytes | ListLocalNats "IpAddress option"
  | CreateNeighborNat "IpAddress option" u32 u32 u32 bytes | DeleteNeighborNat "IpAddress option" u32 u32 u32
  | ListNeighborNats "IpAddress option"

datatype fw_rpc =
    ListFirewallRules bytes | CreateFirewallRule u32 bytes "FirewallRule option" | GetFirewallRule bytes bytes
  | DeleteFirewallRule bytes bytes

datatype rpc =
    NodeRpc node_rpc | IfaceRpc interface_rpc | RtRpc route_rpc | PxRpc prefix_rpc | VipRpc vip_rpc | LbRpc lb_rpc | NatRpc nat_rpc | FwRpc fw_rpc

text \<open>The status of a response and the service after the request.\<close>

definition status_only :: "(rpc_status + DpStatus \<times> 'a) \<times> Service \<Rightarrow> (rpc_status + DpStatus) \<times> Service" where
  "status_only = map_prod (map_sum id fst) id"

definition no_response :: "(rpc_status + unit) \<times> Service \<Rightarrow> (rpc_status + DpStatus) \<times> Service" where
  "no_response = map_prod (map_sum id (\<lambda>_. ok_status)) id"

primrec serve_node :: "(map_error \<Rightarrow> string) \<Rightarrow> netdev_env \<Rightarrow> node_rpc \<Rightarrow> Service \<Rightarrow> (rpc_status + DpStatus) \<times> Service" where
  "serve_node lib env (Initialize fresh) svc = status_only (rpc_initialize fresh svc)"
| "serve_node lib env CheckInitialized svc = status_only (rpc_check_initialized svc)"
| "serve_node lib env (GetVersion p) svc = status_only (rpc_get_version p svc)"
| "serve_node lib env CaptureStart svc = no_response (rpc_capture_start svc)"
| "serve_node lib env CaptureStop svc = no_response (rpc_capture_stop svc)"
| "serve_node lib env CaptureStatus svc = no_response (rpc_capture_status svc)"

primrec serve_interface :: "(map_error \<Rightarrow> string) \<Rightarrow> netdev_env \<Rightarrow> interface_rpc \<Rightarrow> Service \<Rightarrow> (rpc_status + DpStatus) \<times> Service" where
  "serve_interface lib env (CreateInterface r) svc = status_only (rpc_create_interface lib env r svc)"
| "serve_interface lib env ListInterfaces svc = status_only (rpc_list_interfaces svc)"
| "serve_interface lib env (GetInterface i) svc = status_only (rpc_get_interface i svc)"
| "serve_interface lib env (DeleteInterface i) svc = rpc_delete_interface lib i svc"

primrec serve_route :: "(map_error \<Rightarrow> string) \<Rightarrow> netdev_env \<Rightarrow> route_rpc \<Rightarrow> Service \<Rightarrow> (rpc_status + DpStatus) \<times> Service" where
  "serve_route lib env (CreateRoute vni ro) svc = rpc_create_route lib vni ro svc"
| "serve_route lib env (ListRoutes vni) svc = status_only (rpc_list_routes vni svc)"
| "serve_route lib env (DeleteRoute vni ro) svc = rpc_delete_route lib vni ro svc"
| "serve_route lib env (CheckVniInUse vni) svc = status_only (rpc_check_vni_in_use vni svc)"
| "serve_route lib env (ResetVni vni) svc = rpc_reset_vni lib vni svc"

primrec serve_prefix :: "(map_error \<Rightarrow> string) \<Rightarrow> netdev_env \<Rightarrow> prefix_rpc \<Rightarrow> Service \<Rightarrow> (rpc_status + DpStatus) \<times> Service" where
  "serve_prefix lib env (ListPrefixes i) svc = status_only (rpc_list_prefixes i svc)"
| "serve_prefix lib env (CreatePrefix i px pul) svc = status_only (rpc_create_prefix lib i px pul svc)"
| "serve_prefix lib env (DeletePrefix i px) svc = rpc_delete_prefix lib i px svc"
| "serve_prefix lib env (ListLoadBalancerPrefixes i) svc = status_only (rpc_list_load_balancer_prefixes i svc)"
| "serve_prefix lib env (CreateLoadBalancerPrefix i px pul) svc = status_only (rpc_create_load_balancer_prefix lib i px pul svc)"
| "serve_prefix lib env (DeleteLoadBalancerPrefix i px) svc = rpc_delete_load_balancer_prefix lib i px svc"

primrec serve_vip :: "(map_error \<Rightarrow> string) \<Rightarrow> netdev_env \<Rightarrow> vip_rpc \<Rightarrow> Service \<Rightarrow> (rpc_status + DpStatus) \<times> Service" where
  "serve_vip lib env (CreateVip i vip pul) svc = status_only (rpc_create_vip lib i vip pul svc)"
| "serve_vip lib env (GetVip i) svc = status_only (rpc_get_vip i svc)"
| "serve_vip lib env (DeleteVip i) svc = rpc_delete_vip lib i svc"

primrec serve_lb :: "(map_error \<Rightarrow> string) \<Rightarrow> netdev_env \<Rightarrow> lb_rpc \<Rightarrow> Service \<Rightarrow> (rpc_status + DpStatus) \<times> Service" where
  "serve_lb lib env (CreateLoadBalancer lid vni ip ports pul) svc = status_only (rpc_create_load_balancer lib lid vni ip ports pul svc)"
| "serve_lb lib env (GetLoadBalancer lid) svc = status_only (rpc_get_load_balancer lid svc)"
| "serve_lb lib env (DeleteLoadBalancer lid) svc = rpc_delete_load_balancer lib lid svc"
| "serve_lb lib env ListLoadBalancers svc = status_only (rpc_list_load_balancers svc)"
| "serve_lb lib env (CreateLoadBalancerTarget lid ip) svc = rpc_create_load_balancer_target lib lid ip svc"
| "serve_lb lib env (ListLoadBalancerTargets lid) svc = status_only (rpc_list_load_balancer_targets lid svc)"
| "serve_lb lib env (DeleteLoadBalancerTarget lid ip) svc = rpc_delete_load_balancer_target lib lid ip svc"

primrec serve_nat :: "(map_error \<Rightarrow> string) \<Rightarrow> netdev_env \<Rightarrow> nat_rpc \<Rightarrow> Service \<Rightarrow> (rpc_status + DpStatus) \<times> Service" where
  "serve_nat lib env (CreateNat i ip pmin pmax pul) svc = status_only (rpc_create_nat lib i ip pmin pmax pul svc)"
| "serve_nat lib env (GetNat i) svc = status_only (rpc_get_nat i svc)"
| "serve_nat lib env (DeleteNat i) svc = rpc_delete_nat lib i svc"
| "serve_nat lib env (ListLocalNats ip) svc = status_only (rpc_list_local_nats ip svc)"
| "serve_nat lib env (CreateNeighborNat ip vni pmin pmax ul) svc = rpc_create_neighbor_nat lib ip vni pmin pmax ul svc"
| "serve_nat lib env (DeleteNeighborNat ip vni pmin pmax) svc = rpc_delete_neighbor_nat lib ip vni pmin pmax svc"
| "serve_nat lib env (ListNeighborNats ip) svc = status_only (rpc_list_neighbor_nats ip svc)"

primrec serve_fw :: "(map_error \<Rightarrow> string) \<Rightarrow> netdev_env \<Rightarrow> fw_rpc \<Rightarrow> Service \<Rightarrow> (rpc_status + DpStatus) \<times> Service" where
  "serve_fw lib env (ListFirewallRules i) svc = status_only (rpc_list_firewall_rules i svc)"
| "serve_fw lib env (CreateFirewallRule nanos i rule) svc = status_only (rpc_create_firewall_rule lib nanos i rule svc)"
| "serve_fw lib env (GetFirewallRule i rid) svc = status_only (rpc_get_firewall_rule i rid svc)"
| "serve_fw lib env (DeleteFirewallRule i rid) svc = rpc_delete_firewall_rule lib i rid svc"

primrec serve :: "(map_error \<Rightarrow> string) \<Rightarrow> netdev_env \<Rightarrow> rpc \<Rightarrow> Service \<Rightarrow> (rpc_status + DpStatus) \<times> Service" where
  "serve lib env (NodeRpc r) svc = serve_node lib env r svc"
| "serve lib env (IfaceRpc r) svc = serve_interface lib env r svc"
| "serve lib env (RtRpc r) svc = serve_route lib env r svc"
| "serve lib env (PxRpc r) svc = serve_prefix lib env r svc"
| "serve lib env (VipRpc r) svc = serve_vip lib env r svc"
| "serve lib env (LbRpc r) svc = serve_lb lib env r svc"
| "serve lib env (NatRpc r) svc = serve_nat lib env r svc"
| "serve lib env (FwRpc r) svc = serve_fw lib env r svc"

section \<open>Shapes of handlers\<close>

lemma snd_status_only [simp]: "snd (status_only r) = snd r" "snd (no_response q) = snd q"
  by (simp_all add: status_only_def no_response_def)

lemma snd_deleted [simp]: "snd (deleted lib c m res) = snd res" "snd (deleted_vm lib c m res) = snd res"
  by (auto simp: deleted_def deleted_vm_def split: prod.splits sum.splits bool.splits)

lemma snd_case_result [simp]:
  "(\<And>e g. snd (f e g) = g) \<Longrightarrow> (\<And>x g. snd (h x g) = g) \<Longrightarrow>
   snd (case p of (r, g) \<Rightarrow> case r of Inl e \<Rightarrow> f e g | Inr x \<Rightarrow> h x g) = snd p"
  by (simp split: prod.splits sum.splits)

lemma snd_reply [simp]: "snd (reply r g) = g"
  by (simp add: reply_def)

lemma snd_try_res: "snd (try_res r k g) = (case r of Inl e \<Rightarrow> g | Inr a \<Rightarrow> snd (k a g))"
  by (simp add: try_res_def split: sum.splits)

lemma sv_control_with: "sv_control (snd (with_control h svc)) = map_option (\<lambda>g. snd (h g)) (sv_control svc)"
  by (simp add: with_control_def Let_def case_prod_beta split: option.splits)

lemmas read_handlers = rpc_check_initialized_def rpc_get_version_def rpc_list_interfaces_def rpc_get_interface_def
  rpc_list_routes_def rpc_check_vni_in_use_def rpc_list_prefixes_def rpc_list_load_balancer_prefixes_def rpc_get_vip_def
  rpc_get_load_balancer_def rpc_list_load_balancers_def rpc_list_load_balancer_targets_def rpc_get_nat_def
  rpc_list_local_nats_def rpc_list_neighbor_nats_def rpc_list_firewall_rules_def rpc_get_firewall_rule_def
  rpc_capture_start_def rpc_capture_stop_def rpc_capture_status_def

end
