(* ===== verification/Grpc_Steps.thy ===== *)
theory Grpc_Steps
  imports Grpc_Serve Grpc_Props Services
begin

text \<open>
  What holds across every request of the gRPC service. The locale \<open>control_api\<close> states what the service relies on about the control
  plane: a relation between states that every operation respects when its addresses have the
  length of their family. It is interpreted with the steps of the running system and with
  well-formedness of the control plane's records.
\<close>

section \<open>What the service relies on\<close>

definition addr4 :: "bytes \<Rightarrow> bool" where "addr4 a = (length a = 4)"
definition addr6 :: "bytes \<Rightarrow> bool" where "addr6 a = (length a = 16)"

definition lb_ip_wf :: "LbIp \<Rightarrow> bool" where
  "lb_ip_wf ip = (case ip of Ipv4 a \<Rightarrow> addr4 a | Ipv6 a \<Rightarrow> addr6 a)"

definition pref_wf :: "bytes option \<Rightarrow> bool" where
  "pref_wf p = (case p of None \<Rightarrow> True | Some a \<Rightarrow> addr6 a)"

lemma decode_wf:
  "decode_ipv4 bs = Inr a \<Longrightarrow> addr4 a" "decode_ipv6 bs = Inr a \<Longrightarrow> addr6 a" "decode_preferred bs = Inr p \<Longrightarrow> pref_wf p"
  by (auto simp: addr4_def addr6_def pref_wf_def dest: decode_ipv4_length decode_ipv6_length decode_preferred_length split: option.splits)

lemma mask4_wf: "addr4 (mask4 a len)"
  by (simp add: addr4_def mask4_def Let_def)

lemma derive_wf: "addr6 base \<Longrightarrow> addr4 a \<Longrightarrow> addr6 (derive_underlay base vni a)"
  by (simp add: addr4_def addr6_def derive_underlay_def u32_be_def)

lemma ipv6_or_zero_wf: "ipv6_or_zero c = Inr a \<Longrightarrow> addr6 a"
  by (auto simp: ipv6_or_zero_def addr6_def dest: decode_ipv6_length split: option.splits if_splits)

lemma underlay_or_wf:
  "underlay_or (derive_underlay base vni ip) p = Inr a \<Longrightarrow> decode_ipv4 bs = Inr ip \<Longrightarrow> addr6 base \<Longrightarrow> addr6 a"
  by (auto simp: underlay_or_def derive_wf decode_wf split: sum.splits if_splits)

lemma lb_address_wf: "lb_address base vni addr p = Inr (ip, ul) \<Longrightarrow> addr6 base \<Longrightarrow> pref_wf p \<Longrightarrow> lb_ip_wf ip \<and> addr6 ul"
  by (auto simp: lb_address_def lb_ip_wf_def pref_wf_def decode_wf derive_wf addr4_def addr6_def dest!: decode_ipv4_length decode_ipv6_length
      split: if_splits sum.splits option.splits) (auto simp: derive_underlay_def u32_be_def)

locale control_api =
  fixes env :: netdev_env and R :: "ctl \<Rightarrow> ctl \<Rightarrow> bool"
  assumes refl: "R g g"
    and trans: "R g h \<Longrightarrow> R h k \<Longrightarrow> R g k"
    and set_dhcp_meta: "R g (snd (set_dhcp_meta i hn pxe boot g))"
    and create_interface: "addr4 (ip_ipv4 ps) \<Longrightarrow> addr6 (ip_ipv6 ps) \<Longrightarrow> addr6 (ip_underlay_ipv6 ps) \<Longrightarrow>
          R g (snd (create_interface env i dev ps g))"
    and detach_interface: "R g (snd (detach_interface i g))"
    and create_route: "addr4 ip4 \<Longrightarrow> addr6 nh \<Longrightarrow> R g (snd (create_route vni ip4 len nh nhvni ext g))"
    and create_route6: "addr6 ip6 \<Longrightarrow> addr6 nh \<Longrightarrow> R g (snd (create_route6 vni ip6 len nh nhvni ext g))"
    and delete_route: "R g (snd (delete_route vni ip4 len g))"
    and delete_route6: "R g (snd (delete_route6 vni ip6 len g))"
    and reset_vni: "R g (snd (reset_vni vni g))"
    and create_lb: "lb_ip_wf ip \<Longrightarrow> addr6 ul \<Longrightarrow> R g (snd (create_lb lid vni ip ul ports g))"
    and add_lb_target: "addr6 b \<Longrightarrow> R g (snd (add_lb_target lid b g))"
    and del_lb_target: "R g (snd (del_lb_target lid b g))"
    and delete_lb: "R g (snd (delete_lb lid g))"
    and create_vip: "addr4 vip \<Longrightarrow> R g (snd (create_vip i vip pul g))"
    and delete_vip: "R g (snd (delete_vip i g))"
    and create_nat: "addr4 nip \<Longrightarrow> R g (snd (create_nat i nip pmin pmax pul g))"
    and delete_nat: "R g (snd (delete_nat i g))"
    and add_fw_rule: "R g (snd (add_fw_rule i rid rule g))"
    and del_fw_rule: "R g (snd (del_fw_rule i rid g))"
    and add_prefix: "addr4 ip4 \<Longrightarrow> pref_wf pul \<Longrightarrow> R g (snd (add_prefix i ip4 len pul g))"
    and add_prefix6: "addr6 ip6 \<Longrightarrow> pref_wf pul \<Longrightarrow> R g (snd (add_prefix6 i ip6 len pul g))"
    and del_prefix: "R g (snd (del_prefix i ip4 len g))"
    and del_prefix6: "R g (snd (del_prefix6 i ip6 len g))"
    and add_lb_prefix: "addr4 ip4 \<Longrightarrow> pref_wf pul \<Longrightarrow> R g (snd (add_lb_prefix i ip4 len pul g))"
    and add_lb_prefix6: "addr6 ip6 \<Longrightarrow> pref_wf pul \<Longrightarrow> R g (snd (add_lb_prefix6 i ip6 len pul g))"
    and del_lb_prefix: "R g (snd (del_lb_prefix i ip4 len g))"
    and del_lb_prefix6: "R g (snd (del_lb_prefix6 i ip6 len g))"
    and add_neighbor_nat: "addr4 nip \<Longrightarrow> addr6 ul \<Longrightarrow> R g (snd (add_neighbor_nat vni nip pmin pmax ul g))"
    and del_neighbor_nat: "R g (snd (del_neighbor_nat vni nip pmin pmax g))"
begin

lemma serve_try: "(\<And>a. r = Inr a \<Longrightarrow> R g (snd (k a g))) \<Longrightarrow> R g (snd (try_res r k g))"
  by (simp add: snd_try_res refl split: sum.splits)

lemma serve_control: "(\<And>g. sv_control svc = Some g \<Longrightarrow> R g (snd (h g))) \<Longrightarrow>
    rel_option R (sv_control svc) (sv_control (snd (with_control h svc)))"
  by (cases "sv_control svc") (simp_all add: sv_control_with)

lemma serve_reads: "rel_option R (sv_control svc) (sv_control svc)"
  by (simp add: option.rel_refl refl)

lemma bring_interface:
  assumes "addr4 (ip_ipv4 ps)" "addr6 (ip_ipv6 ps)" "addr6 (ip_underlay_ipv6 ps)"
  shows "R g (snd (bring_interface lib env r ps g))"
proof -
  obtain res h where c: "create_interface env (ci_interface_id r) (ci_device_name r) ps g = (res, h)" by fastforce
  then have "R g h" using create_interface [OF assms, of g] by (metis snd_conv)
  then show ?thesis using set_dhcp_meta [of h] trans by (cases res) (simp_all add: bring_interface_def c)
qed

lemma serve_interface: "addr6 (sv_underlay svc) \<Longrightarrow> rel_option R (sv_control svc) (sv_control (snd (serve_interface lib env r svc)))"
proof (cases r)
  case (CreateInterface q)
  assume base: "addr6 (sv_underlay svc)"
  then show ?thesis
    unfolding CreateInterface serve_interface.simps snd_status_only rpc_create_interface_def Let_def case_prod_beta
    by (intro serve_control serve_try)
      (auto simp: refl intro!: serve_try bring_interface dest: decode_wf ipv6_or_zero_wf underlay_or_wf)
qed (auto simp: read_handlers rpc_delete_interface_def refl detach_interface split: option.splits intro!: serve_control)

lemma serve_node: "rel_option R (sv_control svc) (sv_control (snd (serve_node lib env r svc)))"
  by (cases r) (auto simp: read_handlers rpc_initialize_def Let_def serve_reads case_prod_beta split: option.splits)

lemma serve_route: "rel_option R (sv_control svc) (sv_control (snd (serve_route lib env r svc)))"
proof (cases r)
  case (CreateRoute vni ro)
  then show ?thesis
    unfolding CreateRoute serve_route.simps rpc_create_route_def Let_def
    by (intro serve_control serve_try) (auto simp: refl mask4_wf intro!: create_route create_route6 serve_try; blast intro: decode_wf)
next
  case (DeleteRoute vni ro)
  then show ?thesis
    by (auto simp: rpc_delete_route_def refl intro!: serve_control serve_try delete_route delete_route6)
qed (auto simp: read_handlers rpc_reset_vni_def refl reset_vni intro!: serve_control)

lemma serve_prefix: "rel_option R (sv_control svc) (sv_control (snd (serve_prefix lib env r svc)))"
proof (cases r)
  case (CreatePrefix i px pul)
  then show ?thesis
    by (auto simp: rpc_create_prefix_def refl Let_def intro!: serve_control serve_try add_prefix add_prefix6; blast intro: decode_wf)
next
  case (CreateLoadBalancerPrefix i px pul)
  then show ?thesis
    by (auto simp: rpc_create_load_balancer_prefix_def refl Let_def
          intro!: serve_control serve_try add_lb_prefix add_lb_prefix6; blast intro: decode_wf)
qed (auto simp: read_handlers rpc_delete_prefix_def rpc_delete_load_balancer_prefix_def refl
      intro!: serve_control serve_try del_prefix del_prefix6 del_lb_prefix del_lb_prefix6)

lemma serve_vip: "rel_option R (sv_control svc) (sv_control (snd (serve_vip lib env r svc)))"
proof (cases r)
  case (CreateVip i vip pul)
  then show ?thesis
    by (auto simp: rpc_create_vip_def refl intro!: serve_control serve_try create_vip; blast intro: decode_wf)
qed (auto simp: read_handlers rpc_delete_vip_def refl split: option.splits intro!: serve_control delete_vip)

lemma serve_lb: "addr6 (sv_underlay svc) \<Longrightarrow> rel_option R (sv_control svc) (sv_control (snd (serve_lb lib env r svc)))"
proof (cases r)
  case (CreateLoadBalancer lid vni ip ports pul)
  assume "addr6 (sv_underlay svc)"
  then show ?thesis
    by (auto simp: CreateLoadBalancer rpc_create_load_balancer_def refl if_distrib [of snd]
          intro!: serve_control serve_try create_lb dest: decode_wf lb_address_wf)
next
  case (CreateLoadBalancerTarget lid ip)
  then show ?thesis
    by (auto simp: rpc_create_load_balancer_target_def refl Let_def if_distrib [of snd] intro!: serve_control serve_try add_lb_target; blast intro: decode_wf)
next
  case (DeleteLoadBalancerTarget lid ip)
  then show ?thesis
    by (auto simp: rpc_delete_load_balancer_target_def refl Let_def if_distrib [of snd] bool.case_eq_if intro!: serve_control serve_try del_lb_target)
qed (auto simp: read_handlers rpc_delete_load_balancer_def refl delete_lb Let_def split: option.splits intro!: serve_control)

lemma serve_nat: "rel_option R (sv_control svc) (sv_control (snd (serve_nat lib env r svc)))"
proof (cases r)
  case (CreateNat i ip pmin pmax pul)
  then show ?thesis
    by (auto simp: rpc_create_nat_def refl intro!: serve_control serve_try create_nat; blast intro: decode_wf)
next
  case (CreateNeighborNat ip vni pmin pmax ul)
  then show ?thesis
    by (auto simp: rpc_create_neighbor_nat_def refl Let_def if_distrib [of snd] intro!: serve_control serve_try add_neighbor_nat; blast intro: decode_wf)
qed (auto simp: read_handlers rpc_delete_nat_def rpc_delete_neighbor_nat_def refl Let_def split: option.splits sum.splits
      intro!: serve_control serve_try delete_nat del_neighbor_nat)

lemma serve_fw: "rel_option R (sv_control svc) (sv_control (snd (serve_fw lib env r svc)))"
  by (cases r) (auto simp: read_handlers rpc_create_firewall_rule_def rpc_delete_firewall_rule_def refl Let_def split: option.splits
      intro!: serve_control serve_try add_fw_rule del_fw_rule)

lemma serve_respects: "addr6 (sv_underlay svc) \<Longrightarrow> rel_option R (sv_control svc) (sv_control (snd (serve lib env r svc)))"
  by (cases r) (simp_all add: serve_node serve_interface serve_route serve_prefix serve_vip serve_lb serve_nat serve_fw)

end

section \<open>Requests are steps of the system\<close>

lemmas sys_step_op [intro] = sys_step.intros [THEN r_into_rtranclp [of "sys_step env" for env]]

interpretation steps: control_api env "(sys_step env)\<^sup>*\<^sup>*" for env
  by unfold_locales (auto intro: rtranclp_trans)

text \<open>The gRPC service drives the control plane only through its operations. Whatever request
  is served, the control state after it is reached from the one before by operations of the
  control plane, so a reachable state of the system stays reachable and every invariant of
  reachable states holds at the gRPC interface too.\<close>

theorem grpc_requests_reachable:
  assumes "addr6 (sv_underlay svc)" "sv_control svc = Some g" "reachable env g"
  shows "\<exists>g'. sv_control (snd (serve lib env r svc)) = Some g' \<and> (sys_step env)\<^sup>*\<^sup>* g g' \<and> reachable env g'"
proof -
  have "reachable env g'" if "(sys_step env)\<^sup>*\<^sup>* g g'" for g'
    using that assms(3) by (induction rule: rtranclp_induct) (auto intro: reachable.step)
  then show ?thesis
    using steps.serve_respects [OF assms(1), of env lib r] assms(2) by (auto simp: option_rel_Some1)
qed

definition sample_service :: Service where
  "sample_service = \<lparr>sv_state = None, sv_control = Some sample_node, sv_underlay = replicate 15 0 @ [9],
     sv_gateway_ipv4 = [10, 0, 0, 254], sv_gateway_ipv6 = replicate 15 0 @ [1]\<rparr>"

theorem grpc_requests_reachable_witness:
  "addr6 (sv_underlay sample_service) \<and> sv_control sample_service = Some sample_node \<and> reachable sample_env sample_node \<and>
   (\<exists>g'. sv_control (snd (serve (\<lambda>_. []) sample_env
            (NatRpc (CreateNeighborNat (Some (ip4_addr [1, 2, 3, 4])) 100 1000 2000 (encode_ipv6_str (replicate 15 0 @ [8])))) sample_service)) =
        Some g' \<and> (sys_step sample_env)\<^sup>*\<^sup>* sample_node g' \<and> reachable sample_env g')"
proof -
  have "addr6 (sv_underlay sample_service)" "sv_control sample_service = Some sample_node"
    by (simp_all add: sample_service_def addr6_def)
  then show ?thesis using grpc_requests_reachable [OF _ _ sample_node_reachable] sample_node_reachable by blast
qed

section \<open>Well-formed records\<close>

definition iface_wf :: "bytes \<times> IfaceRecord \<Rightarrow> bool" where
  "iface_wf = (\<lambda>(_, r). addr4 (ir_ipv4 r) \<and> addr6 (ir_ipv6 r) \<and> addr6 (ir_underlay r))"

definition lb_wf :: "bytes \<times> LbEntry \<Rightarrow> bool" where
  "lb_wf = (\<lambda>(_, e). lb_ip_wf (le_ip e) \<and> addr6 (le_lb_underlay e) \<and> list_all addr6 (le_backends e))"

definition route_wf :: "nat \<Rightarrow> route_shadow \<Rightarrow> bool" where
  "route_wf n = (\<lambda>(_, p, _, _, nh). length p = n \<and> addr6 nh)"

definition prefix_wf :: "bytes \<times> PrefixRecord list \<Rightarrow> bool" where
  "prefix_wf = (\<lambda>(_, ps). list_all (\<lambda>p. addr6 (pr_ip p) \<and> addr6 (pr_underlay p)) ps)"

definition neighbor_wf :: "NeighborNatEntry \<Rightarrow> bool" where
  "neighbor_wf e = (addr4 (nn_nat_ip e) \<and> addr6 (nn_underlay e))"

definition ctl_wf :: "ctl \<Rightarrow> bool" where
  "ctl_wf g =
     (list_all iface_wf (by_id g) \<and> list_all (\<lambda>(_, ul). addr6 ul) (iface_underlay g) \<and> list_all lb_wf (lbs g) \<and>
      list_all (route_wf 4) (routes_shadow g) \<and> list_all (route_wf 16) (routes6_shadow g) \<and>
      list_all prefix_wf (prefixes g) \<and> list_all prefix_wf (lb_prefixes g) \<and> list_all neighbor_wf (neigh_nats g))"

lemma ctl_wf_tabs [simp]:
  "ctl_wf (g\<lparr>tabs := t\<rparr>) = ctl_wf g" "ctl_wf (g\<lparr>by_ifindex := a\<rparr>) = ctl_wf g" "ctl_wf (g\<lparr>fw := b\<rparr>) = ctl_wf g"
  "ctl_wf (g\<lparr>links := c\<rparr>) = ctl_wf g" "ctl_wf (g\<lparr>learned_macs := d\<rparr>) = ctl_wf g" "ctl_wf (g\<lparr>next_table_id := n\<rparr>) = ctl_wf g"
  by (simp_all add: ctl_wf_def)

lemma ctl_wf_set [simp]:
  "ctl_wf (set_routes t g) = ctl_wf g" "ctl_wf (set_routes6 t' g) = ctl_wf g" "ctl_wf (set_vips v g) = ctl_wf g"
  "ctl_wf (routes_remove vni p l g) = ctl_wf g" "ctl_wf (routes6_remove vni p l g) = ctl_wf g"
  by (simp_all add: set_routes_def set_routes6_def set_vips_def routes_remove_def routes6_remove_def)

lemma wf_update: "list_all P xs \<Longrightarrow> P (k, v) \<Longrightarrow> list_all P (AList.update k v xs)"
  by (induction xs) auto

lemma wf_delete: "list_all P xs \<Longrightarrow> list_all P (AList.delete k xs)"
  by (auto simp: list_all_iff AList.delete_eq)

lemma wf_filter: "list_all P xs \<Longrightarrow> list_all P (filter Q xs)"
  by (auto simp: list_all_iff)

lemma wf_lookup: "list_all P xs \<Longrightarrow> map_of xs k = Some v \<Longrightarrow> P (k, v)"
  by (auto simp: list_all_iff dest: map_of_SomeD)

lemma wf_upd: "(\<And>m. ctl_wf (f m g) = ctl_wf g) \<Longrightarrow> (\<And>g. ctl_wf g \<Longrightarrow> ctl_wf (snd (k g))) \<Longrightarrow> ctl_wf g \<Longrightarrow> ctl_wf (snd (upd r f k g))"
  by (simp add: upd_def split: sum.splits)

lemmas wf_parts = iface_wf_def lb_wf_def route_wf_def prefix_wf_def neighbor_wf_def addr4_def addr6_def

lemma wf_dhcp_meta: "ctl_wf g \<Longrightarrow> ctl_wf (snd (set_dhcp_meta i hn pxe boot g))"
  by (auto simp: set_dhcp_meta_def Let_def intro!: wf_upd split: option.splits)

lemma wf_create_interface:
  assumes "ctl_wf g" "addr4 (ip_ipv4 ps)" "addr6 (ip_ipv6 ps)" "addr6 (ip_underlay_ipv6 ps)"
  shows "ctl_wf (snd (create_interface env i dev ps g))"
proof -
  have prog: "ctl_wf g \<Longrightarrow> ctl_wf (snd (program_iface_maps tap mac ps g))" for tap mac g
    by (auto simp: program_iface_maps_def Let_def intro!: wf_upd)
  have ext: "ctl_wf (g\<lparr>links := a, by_id := AList.update i r (by_id g), by_ifindex := b,
      iface_underlay := AList.update i (ip_underlay_ipv6 ps) (iface_underlay g)\<rparr>)" if "iface_wf (i, r)" for a b r
    using that assms by (simp add: ctl_wf_def wf_update)
  show ?thesis
    using assms by (auto simp: create_interface_def Let_def iface_wf_def intro!: prog ext split: sum.splits)
qed

lemma wf_drop_iface: "ctl_wf g \<Longrightarrow> ctl_wf (drop_iface i rec g)"
  by (simp add: drop_iface_def Let_def wf_delete split: option.splits) (simp add: ctl_wf_def wf_delete)

lemma wf_foldl: "(\<And>g x. ctl_wf g \<Longrightarrow> ctl_wf (f g x)) \<Longrightarrow> ctl_wf g \<Longrightarrow> ctl_wf (foldl f g xs)"
  by (induction xs arbitrary: g) auto

lemma wf_shadow:
  "ctl_wf g \<Longrightarrow> ctl_wf (g\<lparr>routes_shadow := filter P (routes_shadow g)\<rparr>)"
  "ctl_wf g \<Longrightarrow> ctl_wf (g\<lparr>routes6_shadow := filter Q (routes6_shadow g)\<rparr>)"
  "ctl_wf g \<Longrightarrow> ctl_wf (g\<lparr>neigh_nats := filter S (neigh_nats g)\<rparr>)"
  by (simp_all add: ctl_wf_def wf_filter)

lemma wf_purge: "ctl_wf g \<Longrightarrow> ctl_wf (purge_vni vni ip g)"
proof -
  have "ctl_wf g \<Longrightarrow> ctl_wf (purge_neighbors vni g)" for g
    by (simp add: purge_neighbors_def reprogram_ignore_def Let_def wf_shadow)
  moreover have "ctl_wf g \<Longrightarrow> ctl_wf (purge_nat vni ip g)" for g
    by (simp add: purge_nat_def Let_def)
  moreover have "ctl_wf g \<Longrightarrow> ctl_wf (purge_routes vni g)" "ctl_wf g \<Longrightarrow> ctl_wf (purge_routes6 vni g)" for g
    by (auto simp: purge_routes_def purge_routes6_def Let_def intro!: wf_shadow wf_foldl)
  ultimately show "ctl_wf g \<Longrightarrow> ctl_wf (purge_vni vni ip g)" by (simp add: purge_vni_def)
qed

lemma wf_detach: "ctl_wf g \<Longrightarrow> ctl_wf (snd (detach_interface i g))"
  by (simp add: detach_interface_def Let_def wf_drop_iface wf_purge split: option.splits)

lemma wf_routes:
  "ctl_wf g \<Longrightarrow> addr4 ip4 \<Longrightarrow> addr6 nh \<Longrightarrow> ctl_wf (snd (create_route vni ip4 len nh nhvni ext g))"
  "ctl_wf g \<Longrightarrow> addr6 ip6 \<Longrightarrow> addr6 nh \<Longrightarrow> ctl_wf (snd (create_route6 vni ip6 len nh nhvni ext g))"
  "ctl_wf g \<Longrightarrow> ctl_wf (snd (delete_route vni ip4 len g))" "ctl_wf g \<Longrightarrow> ctl_wf (snd (delete_route6 vni ip6 len g))"
proof -
  show "ctl_wf g \<Longrightarrow> addr4 ip4 \<Longrightarrow> addr6 nh \<Longrightarrow> ctl_wf (snd (create_route vni ip4 len nh nhvni ext g))"
    by (auto simp: create_route_def intro!: wf_upd; simp add: ctl_wf_def wf_parts)
  show "ctl_wf g \<Longrightarrow> addr6 ip6 \<Longrightarrow> addr6 nh \<Longrightarrow> ctl_wf (snd (create_route6 vni ip6 len nh nhvni ext g))"
    by (auto simp: create_route6_def intro!: wf_upd; simp add: ctl_wf_def wf_parts)
  show "ctl_wf g \<Longrightarrow> ctl_wf (snd (delete_route vni ip4 len g))" "ctl_wf g \<Longrightarrow> ctl_wf (snd (delete_route6 vni ip6 len g))"
    by (simp_all add: delete_route_def delete_route6_def Let_def wf_shadow)
qed

lemma wf_reset: "ctl_wf g \<Longrightarrow> ctl_wf (snd (reset_vni vni g))"
  by (auto simp: reset_vni_def Let_def intro!: wf_foldl wf_routes)

lemma wf_write_maglev [simp]: "ctl_wf (snd (write_maglev t bs g)) = ctl_wf g"
  by (simp add: write_maglev_def Let_def case_prod_beta split: option.splits)

lemma wf_lbs: "ctl_wf g \<Longrightarrow> lb_wf (lid, e) \<Longrightarrow> ctl_wf (g\<lparr>lbs := AList.update lid e (lbs g)\<rparr>)"
  by (simp add: ctl_wf_def wf_update)

lemma wf_lb_lookup: "ctl_wf g \<Longrightarrow> map_of (lbs g) lid = Some e \<Longrightarrow> lb_wf (lid, e)"
  by (auto simp: ctl_wf_def dest: wf_lookup)

lemma wf_lb:
  "ctl_wf g \<Longrightarrow> lb_ip_wf ip \<Longrightarrow> addr6 ul \<Longrightarrow> ctl_wf (snd (create_lb lid vni ip ul ports g))"
  "ctl_wf g \<Longrightarrow> addr6 b \<Longrightarrow> ctl_wf (snd (add_lb_target lid b g))"
  "ctl_wf g \<Longrightarrow> ctl_wf (snd (del_lb_target lid b' g))" "ctl_wf g \<Longrightarrow> ctl_wf (snd (delete_lb lid g))"
proof -
  show "ctl_wf g \<Longrightarrow> lb_ip_wf ip \<Longrightarrow> addr6 ul \<Longrightarrow> ctl_wf (snd (create_lb lid vni ip ul ports g))"
    by (auto simp: create_lb_def Let_def case_prod_beta lb_wf_def intro!: wf_upd wf_lbs split: option.splits)
  assume g: "ctl_wf g"
  have e: "lb_wf (lid, e\<lparr>le_backends := bs\<rparr>)" if "map_of (lbs g) lid = Some e" "list_all addr6 (le_backends e) \<Longrightarrow> list_all addr6 bs" for e bs
    using wf_lb_lookup [OF g that(1)] that(2) by (simp add: lb_wf_def)
  show "addr6 b \<Longrightarrow> ctl_wf (snd (add_lb_target lid b g))" "ctl_wf (snd (del_lb_target lid b' g))"
    using g by (auto simp: add_lb_target_def del_lb_target_def Let_def wf_filter intro!: wf_lbs e split: option.splits)
  show "ctl_wf (snd (delete_lb lid g))"
    using g by (simp add: delete_lb_def Let_def split: option.splits) (simp add: ctl_wf_def wf_delete)
qed

lemma wf_services:
  "ctl_wf g \<Longrightarrow> ctl_wf (snd (create_vip i vip pul g))" "ctl_wf g \<Longrightarrow> ctl_wf (snd (delete_vip i g))"
  "ctl_wf g \<Longrightarrow> ctl_wf (snd (create_nat i nip pmin pmax pul g))" "ctl_wf g \<Longrightarrow> ctl_wf (snd (delete_nat i g))"
  "ctl_wf g \<Longrightarrow> ctl_wf (snd (add_fw_rule i rid rule g))" "ctl_wf g \<Longrightarrow> ctl_wf (snd (del_fw_rule i rid g))"
proof -
  show "ctl_wf g \<Longrightarrow> ctl_wf (snd (create_vip i vip pul g))" "ctl_wf g \<Longrightarrow> ctl_wf (snd (create_nat i nip pmin pmax pul g))"
    by (auto simp: create_vip_def create_nat_def Let_def intro!: wf_upd split: option.splits)
  show "ctl_wf g \<Longrightarrow> ctl_wf (snd (delete_vip i g))" "ctl_wf g \<Longrightarrow> ctl_wf (snd (delete_nat i g))"
    by (simp_all add: delete_vip_def delete_nat_def Let_def split: option.splits)
  have "ctl_wf g \<Longrightarrow> ctl_wf (snd (fw_reprogram ix g))" for ix g
    by (auto simp: fw_reprogram_def Let_def case_prod_beta intro!: wf_upd split: option.splits)
  then show "ctl_wf g \<Longrightarrow> ctl_wf (snd (add_fw_rule i rid rule g))" "ctl_wf g \<Longrightarrow> ctl_wf (snd (del_fw_rule i rid g))"
    by (simp_all add: add_fw_rule_def del_fw_rule_def Let_def split: option.splits)
qed

lemma wf_prefixes:
  "ctl_wf g \<Longrightarrow> prefix_wf (i, ps) \<Longrightarrow> ctl_wf (g\<lparr>prefixes := AList.update i ps (prefixes g)\<rparr>)"
  "ctl_wf g \<Longrightarrow> prefix_wf (i, ps) \<Longrightarrow> ctl_wf (g\<lparr>lb_prefixes := AList.update i ps (lb_prefixes g)\<rparr>)"
  by (simp_all add: ctl_wf_def wf_update)

lemma wf_prefixes_of: "list_all prefix_wf m \<Longrightarrow> prefix_wf (i, prefixes_of m i)"
  by (auto simp: prefixes_of_def prefix_wf_def dest: wf_lookup split: option.splits)

lemma wf_prefix_extend:
  "list_all prefix_wf m \<Longrightarrow> addr6 ip \<Longrightarrow> addr6 ul \<Longrightarrow>
   prefix_wf (i, prefixes_of m i @ [\<lparr>pr_ip = ip, pr_len = len, pr_underlay = ul, pr_is_ipv6 = v6\<rparr>])"
  using wf_prefixes_of [of m i] by (simp add: prefix_wf_def)

lemma wf_retain: "list_all prefix_wf m \<Longrightarrow> list_all prefix_wf (snd (retain_prefixes P i m))"
  by (auto simp: retain_prefixes_def Let_def prefix_wf_def wf_filter intro!: wf_update dest: wf_lookup split: option.splits)

lemma wf_fields:
  "ctl_wf g \<Longrightarrow> list_all prefix_wf (prefixes g)" "ctl_wf g \<Longrightarrow> list_all prefix_wf (lb_prefixes g)"
  "ctl_wf g \<Longrightarrow> map_of (iface_underlay g) i = Some ul \<Longrightarrow> addr6 ul"
  "ctl_wf g \<Longrightarrow> map_of (by_id g) i = Some rec \<Longrightarrow> addr6 (ir_underlay rec)"
  by (auto simp: ctl_wf_def iface_wf_def dest: wf_lookup)

lemma wf_effective: "pref_wf pul \<Longrightarrow> addr6 ul \<Longrightarrow> addr6 (case pul of Some u \<Rightarrow> u | None \<Rightarrow> ul)"
  by (simp add: pref_wf_def split: option.splits)

lemma wf_pad: "addr4 ip \<Longrightarrow> addr6 (ip @ replicate 12 0)"
  by (simp add: addr4_def addr6_def)

lemma wf_add_prefix:
  assumes g: "ctl_wf g" and p: "pref_wf pul"
  shows "addr4 ip4 \<Longrightarrow> ctl_wf (snd (add_prefix i ip4 len pul g))" "addr6 ip6 \<Longrightarrow> ctl_wf (snd (add_prefix6 i ip6 len pul g))"
    "addr4 ip4 \<Longrightarrow> ctl_wf (snd (add_lb_prefix i ip4 len pul g))" "addr6 ip6 \<Longrightarrow> ctl_wf (snd (add_lb_prefix6 i ip6 len pul g))"
proof -
  show "addr4 ip4 \<Longrightarrow> ctl_wf (snd (add_prefix i ip4 len pul g))" "addr6 ip6 \<Longrightarrow> ctl_wf (snd (add_prefix6 i ip6 len pul g))"
    using g p wf_fields(3) [OF g, of i]
    by (auto simp: add_prefix_def add_prefix6_def Let_def wf_fields pref_wf_def split: option.split
          intro!: wf_upd wf_prefixes wf_prefix_extend wf_effective wf_pad)
  show "addr4 ip4 \<Longrightarrow> ctl_wf (snd (add_lb_prefix i ip4 len pul g))" "addr6 ip6 \<Longrightarrow> ctl_wf (snd (add_lb_prefix6 i ip6 len pul g))"
    using g p wf_fields(4) [OF g, of i]
    by (auto simp: add_lb_prefix_def add_lb_prefix6_def add_lb_prefix_rec_def Let_def wf_fields pref_wf_def split: option.split
          intro!: wf_prefixes wf_prefix_extend wf_effective wf_pad)
qed

lemma wf_del_prefix:
  assumes g: "ctl_wf g"
  shows "ctl_wf (snd (del_prefix i ip4 len g))" "ctl_wf (snd (del_prefix6 i ip6 len g))"
    "ctl_wf (snd (del_lb_prefix i ip4 len g))" "ctl_wf (snd (del_lb_prefix6 i ip6 len g))"
proof -
  have "ctl_wf (g\<lparr>prefixes := snd (retain_prefixes P i (prefixes g))\<rparr>)" "ctl_wf (g\<lparr>lb_prefixes := snd (retain_prefixes P i (lb_prefixes g))\<rparr>)" for P
    using g wf_retain by (simp_all add: ctl_wf_def)
  then show "ctl_wf (snd (del_prefix i ip4 len g))" "ctl_wf (snd (del_prefix6 i ip6 len g))"
    "ctl_wf (snd (del_lb_prefix i ip4 len g))" "ctl_wf (snd (del_lb_prefix6 i ip6 len g))"
    using g by (simp_all add: del_prefix_def del_prefix6_def del_lb_prefix_def del_lb_prefix6_def Let_def case_prod_beta split: option.splits)
qed

lemma wf_neighbors:
  "ctl_wf g \<Longrightarrow> addr4 nip \<Longrightarrow> addr6 ul \<Longrightarrow> ctl_wf (snd (add_neighbor_nat vni nip pmin pmax ul g))"
  "ctl_wf g \<Longrightarrow> ctl_wf (snd (del_neighbor_nat vni nip pmin pmax g))"
proof -
  have r: "ctl_wf g \<Longrightarrow> ctl_wf (snd (neigh_nat_reprogram g))" for g
    by (auto simp: neigh_nat_reprogram_def Let_def case_prod_beta intro!: wf_upd split: option.splits)
  show "ctl_wf g \<Longrightarrow> addr4 nip \<Longrightarrow> addr6 ul \<Longrightarrow> ctl_wf (snd (add_neighbor_nat vni nip pmin pmax ul g))"
    by (auto simp: add_neighbor_nat_def intro!: r) (simp add: ctl_wf_def neighbor_wf_def)
  show "ctl_wf g \<Longrightarrow> ctl_wf (snd (del_neighbor_nat vni nip pmin pmax g))"
    by (simp add: del_neighbor_nat_def Let_def wf_shadow r)
qed

interpretation records: control_api env "\<lambda>g g'. ctl_wf g \<longrightarrow> ctl_wf g'" for env
  by unfold_locales
    (auto intro: wf_dhcp_meta wf_create_interface wf_detach wf_routes wf_reset wf_lb wf_services wf_add_prefix wf_del_prefix wf_neighbors)

text \<open>What the service stores is well formed. Addresses arrive as raw bytes or as text of any
  length; whatever a request carries, every IPv4 address in the control plane's records (interfaces,
  routes, balancers, neighbour NATs) has four bytes and every IPv6 address, underlay address and
  stored prefix sixteen, as the fixed-size arrays of the code require.\<close>

theorem grpc_records_well_formed:
  assumes "addr6 (sv_underlay svc)" "sv_control svc = Some g" "ctl_wf g"
  shows "\<exists>g'. sv_control (snd (serve lib env r svc)) = Some g' \<and> ctl_wf g'"
  using records.serve_respects [OF assms(1), where env = env and lib = lib and r = r] assms(2,3) by (auto simp: option_rel_Some1)

theorem grpc_records_well_formed_witness:
  "addr6 (sv_underlay sample_service) \<and> sv_control sample_service = Some sample_node \<and> ctl_wf sample_node \<and>
   (\<exists>g'. sv_control (snd (serve (\<lambda>_. []) sample_env
            (IfaceRpc (CreateInterface \<lparr>ci_interface_id = [118], ci_vni = 100, ci_ipv4_config = Some [10, 0, 0, 5],
               ci_ipv6_config = None, ci_pxe_config = None, ci_device_name = ''tap0'', ci_metering_parameters = None,
               ci_preferred_underlay_route = [], ci_hostname = [118]\<rparr>)) sample_service)) = Some g' \<and> ctl_wf g')"
proof -
  have "addr6 (sv_underlay sample_service)" "sv_control sample_service = Some sample_node" "ctl_wf sample_node"
    by (simp_all add: sample_service_def addr6_def ctl_wf_def sample_node_def)
  then show ?thesis using grpc_records_well_formed by blast
qed

end
