(* ===== verification/Grpc_Errors.thy ===== *)
theory Grpc_Errors
  imports Grpc_Steps
begin

text \<open>
  What the gRPC service leaves behind when it turns a request down. The handlers choose a status
  by looking for phrases in error texts; the texts \<^verbatim>\<open>maps.rs\<close> attaches to table errors
  (\<^verbatim>\<open>insert route\<close>, \<^verbatim>\<open>remove vip\<close>, \<^verbatim>\<open>write LOCAL[0]\<close> and the like) hold none of these phrases, which
  is what \<open>plain_texts\<close> says of \<open>lib\<close>.
\<close>

definition phrases :: "string list" where
  "phrases = [''already exists'', ''NOT_FOUND'', ''invalid pci'', ''no such device'', ''read ifindex'', ''IP already in use'',
     ''ROUTE_EXISTS'', ''route already'', ''preferred underlay collision'', ''VNF_INSERT'', ''NO_VM'', ''unknown interface'',
     ''SNAT_EXISTS'', ''underlay collision'', ''unknown load balancer'', ''NO_LB'', ''BACKIP_ADD'', ''ALREADY_EXISTS'']"

definition plain_texts :: "(map_error \<Rightarrow> string) \<Rightarrow> bool" where
  "plain_texts lib = list_all (\<lambda>p. \<not> has_text (lib E2BIG) p \<and> \<not> has_text (lib ENOENT) p) phrases"

lemma plain_text: "plain_texts lib \<Longrightarrow> p \<in> set phrases \<Longrightarrow> \<not> refusal e \<Longrightarrow> \<not> has_text (err_text lib e) p"
proof -
  have empty: "\<forall>p \<in> set phrases. p \<noteq> []" by (simp add: phrases_def)
  assume "plain_texts lib" "p \<in> set phrases" "\<not> refusal e"
  then show ?thesis
    using empty by (cases e) (auto simp: refusal_def plain_texts_def list_all_iff, metis map_error.exhaust)
qed

lemma plain_phrases:
  assumes "plain_texts lib" "\<not> refusal e"
  shows "\<not> has_text (err_text lib e) ''already exists''" "\<not> has_text (err_text lib e) ''NOT_FOUND''" "\<not> has_text (err_text lib e) ''invalid pci''"
    "\<not> has_text (err_text lib e) ''no such device''" "\<not> has_text (err_text lib e) ''read ifindex''" "\<not> has_text (err_text lib e) ''IP already in use''"
    "\<not> has_text (err_text lib e) ''ROUTE_EXISTS''" "\<not> has_text (err_text lib e) ''route already''" "\<not> has_text (err_text lib e) ''preferred underlay collision''"
    "\<not> has_text (err_text lib e) ''VNF_INSERT''" "\<not> has_text (err_text lib e) ''NO_VM''" "\<not> has_text (err_text lib e) ''unknown interface''"
    "\<not> has_text (err_text lib e) ''SNAT_EXISTS''" "\<not> has_text (err_text lib e) ''underlay collision''" "\<not> has_text (err_text lib e) ''unknown load balancer''"
    "\<not> has_text (err_text lib e) ''NO_LB''" "\<not> has_text (err_text lib e) ''BACKIP_ADD''" "\<not> has_text (err_text lib e) ''ALREADY_EXISTS''"
  by (rule plain_text [OF assms(1) _ assms(2)], simp add: phrases_def)+

text \<open>A request is turned down by a transport error other than an internal one, or by a status
  with a code.\<close>

definition turned_down :: "('r \<Rightarrow> DpStatus) \<Rightarrow> rpc_status + 'r \<Rightarrow> bool" where
  "turned_down stat res = (case res of Inl (Internal _) \<Rightarrow> False | Inl _ \<Rightarrow> True | Inr r \<Rightarrow> st_code (stat r) \<noteq> 0)"

definition harmless :: "('r \<Rightarrow> DpStatus) \<Rightarrow> ctl \<Rightarrow> (rpc_status + 'r) \<times> ctl \<Rightarrow> bool" where
  "harmless stat g out = (turned_down stat (fst out) \<longrightarrow> tabs (snd out) = tabs g)"

lemma turned_down_simps [simp]:
  "\<not> turned_down stat (Inl (Internal m))" "\<not> turned_down id (Inr ok_status)" "\<not> turned_down fst (Inr (ok_status, x))"
  by (simp_all add: turned_down_def ok_status_def)

lemma harmless_same [simp, intro!]: "harmless stat g (res, g)"
  by (simp add: harmless_def)

lemma harmless_reply [simp, intro!]: "harmless stat g (reply r g)"
  by (simp add: reply_def)

lemma harmless_not [intro]: "\<not> turned_down stat res \<Longrightarrow> harmless stat g (res, h)"
  by (simp add: harmless_def)

lemma harmless_try: "(\<And>a. r = Inr a \<Longrightarrow> harmless stat g (k a g)) \<Longrightarrow> harmless stat g (try_res r k g)"
  by (simp add: try_res_def split: sum.splits)

lemma harmless_op:
  assumes "clean_refusal (tabs g) out" "\<And>e h. snd (f e h) = h" "\<And>e h. \<not> refusal e \<Longrightarrow> \<not> turned_down stat (fst (f e h))"
    "\<And>x h. \<not> turned_down stat (fst (k x h))"
  shows "harmless stat g (case out of (Inl e, g) \<Rightarrow> f e g | (Inr x, g) \<Rightarrow> k x g)"
  using assms by (auto simp: clean_refusal_def harmless_def split: prod.splits sum.splits)

lemma harmless_deleted:
  assumes "clean_absent (tabs g) out"
  shows "harmless id g (deleted lib code msg out)"
  using assms by (auto simp: clean_absent_def harmless_def deleted_def split: prod.splits sum.splits bool.splits)

lemma harmless_deleted_vm:
  assumes "plain_texts lib" "clean_absent (tabs g) out"
  shows "harmless id g (deleted_vm lib code msg out)"
proof -
  obtain res h where out: "out = (res, h)" by fastforce
  show ?thesis
  proof (cases res)
    case (Inl e)
    then show ?thesis
      using assms plain_phrases [OF assms(1), of e] by (cases "refusal e") (simp_all add: out clean_absent_def harmless_def deleted_vm_def)
  next
    case (Inr b)
    then show ?thesis using assms by (cases b) (simp_all add: out clean_absent_def harmless_def deleted_vm_def)
  qed
qed

text \<open>An error of a table always ends as an internal error.\<close>

lemma table_errors:
  assumes "plain_texts lib" "\<not> refusal e"
  shows "interface_error (err_text lib e) = Inl (Internal (err_text lib e))" "route_error (err_text lib e) = Inl (Internal (err_text lib e))"
    "prefix_error c n (err_text lib e) = Inl (Internal (err_text lib e))" "vip_error (err_text lib e) = Inl (Internal (err_text lib e))"
    "nat_error (err_text lib e) = Inl (Internal (err_text lib e))" "fw_error (err_text lib e) = Inl (Internal (err_text lib e))"
  using plain_phrases [OF assms]
  by (simp_all add: interface_error_def route_error_def prefix_error_def vip_error_def nat_error_def fw_error_def)

section \<open>Every handler\<close>

definition kept :: "('r \<Rightarrow> DpStatus) \<Rightarrow> Service \<Rightarrow> (rpc_status + 'r) \<times> Service \<Rightarrow> bool" where
  "kept stat svc out =
     (turned_down stat (fst out) \<longrightarrow> map_option tabs (sv_control (snd out)) = map_option tabs (sv_control svc))"

lemma kept_control: "(\<And>g. harmless stat g (h g)) \<Longrightarrow> kept stat svc (with_control h svc)"
  by (auto simp: with_control_def harmless_def kept_def Let_def case_prod_beta split: option.splits)

lemma kept_status: "kept fst svc out \<Longrightarrow> kept id svc (status_only out)"
  by (cases out; cases "fst out") (auto simp: kept_def status_only_def turned_down_def split: rpc_status.splits)

lemma kept_same: "snd out = svc \<Longrightarrow> kept stat svc out"
  by (simp add: kept_def)

lemma kept_reads: "(\<And>g. snd (h g) = g) \<Longrightarrow> kept stat svc (with_control h svc)"
  by (auto simp: with_control_def kept_def Let_def case_prod_beta split: option.splits)

lemmas harmless_ops = clean_ops [THEN harmless_op]

lemmas kept_intros = kept_control harmless_try harmless_ops clean_deletions [THEN harmless_deleted]

lemma kept_node: "kept id svc (serve_node lib env r svc)"
  by (cases r) (auto simp: read_handlers rpc_initialize_def Let_def case_prod_beta kept_def status_only_def no_response_def split: option.splits)

lemma kept_interface:
  assumes plain: "plain_texts lib"
  shows "kept id svc (serve_interface lib env r svc)"
proof (cases r)
  case (CreateInterface q)
  have "harmless fst g (bring_interface lib env q ps g)" for g ps
  proof -
    obtain res h where c: "create_interface env (ci_interface_id q) (ci_device_name q) ps g = (res, h)" by fastforce
    have "clean_refusal (tabs g) (res, h)" unfolding c [symmetric] by (rule clean_ops)
    then show ?thesis
      by (cases res)
        (auto simp: bring_interface_def c harmless_def clean_refusal_def table_errors [OF plain] split: prod.splits sum.splits)
  qed
  then show ?thesis
    by (auto simp: CreateInterface rpc_create_interface_def Let_def case_prod_beta intro!: kept_status kept_control harmless_try)
qed (auto simp: read_handlers rpc_delete_interface_def intro!: kept_status kept_reads kept_intros split: option.splits)

lemma kept_route:
  assumes plain: "plain_texts lib"
  shows "kept id svc (serve_route lib env r svc)"
proof (cases r)
  case (CreateRoute vni ro)
  then show ?thesis
    by (auto simp: rpc_create_route_def Let_def table_errors [OF plain] intro!: kept_intros)
next
  case (ResetVni vni)
  then show ?thesis by (auto simp: rpc_reset_vni_def harmless_def reset_vni_def Let_def intro!: kept_control)
qed (auto simp: read_handlers rpc_delete_route_def intro!: kept_status kept_reads kept_intros)

lemma kept_prefix:
  assumes plain: "plain_texts lib"
  shows "kept id svc (serve_prefix lib env r svc)"
  by (cases r)
    (auto simp: read_handlers rpc_create_prefix_def rpc_create_load_balancer_prefix_def rpc_delete_prefix_def
      rpc_delete_load_balancer_prefix_def Let_def table_errors [OF plain]
      intro!: kept_status kept_reads kept_intros harmless_deleted_vm [OF plain] clean_deletions)

lemma kept_vip:
  assumes plain: "plain_texts lib"
  shows "kept id svc (serve_vip lib env r svc)"
  by (cases r) (auto simp: read_handlers rpc_create_vip_def rpc_delete_vip_def table_errors [OF plain]
      intro!: kept_status kept_reads kept_intros split: option.splits)

lemma kept_lb:
  assumes plain: "plain_texts lib"
  shows "kept id svc (serve_lb lib env r svc)"
proof (cases r)
  case (CreateLoadBalancer lid vni ip ports pul)
  then show ?thesis
    by (auto simp: rpc_create_load_balancer_def plain_phrases [OF plain] intro!: kept_status kept_intros)
next
  case (CreateLoadBalancerTarget lid ip)
  then show ?thesis
    by (auto simp: rpc_create_load_balancer_target_def Let_def plain_phrases [OF plain] intro!: kept_intros)
next
  case (DeleteLoadBalancerTarget lid ip)
  have "harmless id g (case del_lb_target lid b g of
         (Inr True, g) \<Rightarrow> (Inr ok_status, g)
       | (Inr False, g) \<Rightarrow> (Inr (err_status 201 ''NOT_FOUND''), g)
       | (Inl e, g) \<Rightarrow>
           (let msg = err_text lib e
            in if has_text msg ''unknown load balancer'' \<or> has_text msg ''NO_LB'' then (Inr (err_status 422 ''NO_LB''), g)
               else (Inl (Internal msg), g)))" for g b
    using clean_deletions(4) [of g lid b] plain_phrases [OF plain]
    by (auto simp: harmless_def clean_absent_def Let_def split: prod.splits sum.splits bool.splits)
  then show ?thesis
    by (auto simp: DeleteLoadBalancerTarget rpc_delete_load_balancer_target_def intro!: kept_control harmless_try)
qed (auto simp: read_handlers rpc_delete_load_balancer_def Let_def intro!: kept_status kept_reads kept_intros split: option.splits)

lemma kept_nat:
  assumes plain: "plain_texts lib"
  shows "kept id svc (serve_nat lib env r svc)"
proof (cases r)
  case (CreateNeighborNat ip vni pmin pmax ul)
  then show ?thesis
    by (auto simp: rpc_create_neighbor_nat_def Let_def plain_phrases [OF plain] intro!: kept_intros)
qed (auto simp: read_handlers rpc_create_nat_def rpc_delete_nat_def rpc_delete_neighbor_nat_def Let_def table_errors [OF plain]
      intro!: kept_status kept_reads kept_intros split: option.splits sum.splits)

lemma kept_fw:
  assumes plain: "plain_texts lib"
  shows "kept id svc (serve_fw lib env r svc)"
  by (cases r) (auto simp: read_handlers rpc_create_firewall_rule_def rpc_delete_firewall_rule_def Let_def table_errors [OF plain]
      intro!: kept_status kept_reads kept_intros split: option.splits)

text \<open>C37: a request that is turned down has no effect on traffic. Whenever the service answers
  with a status code (object unknown or existing, address or range in use, wrong address family,
  unknown VNI and so on) or rejects the request as malformed, unimplemented or premature, every
  kernel table is exactly what it was before; only an internal error may leave a partial change.\<close>

theorem grpc_turned_down_unchanged:
  assumes "plain_texts lib" "serve lib env r svc = (res, svc')" "turned_down id res"
  shows "map_option tabs (sv_control svc') = map_option tabs (sv_control svc)"
proof -
  have "kept id svc (serve lib env r svc)"
    by (cases r) (simp_all add: kept_node kept_interface kept_route kept_prefix kept_vip kept_lb kept_nat kept_fw assms(1))
  then show ?thesis using assms by (simp add: kept_def)
qed

theorem grpc_turned_down_unchanged_witness:
  "plain_texts (\<lambda>_. ''insert route'') \<and>
   serve (\<lambda>_. ''insert route'') sample_env (NatRpc (DeleteNat [118])) sample_service = (Inr (err_status 205 ''NO_VM''), sample_service) \<and>
   turned_down id (Inr (err_status 205 ''NO_VM'')) \<and>
   map_option tabs (sv_control sample_service) = map_option tabs (sv_control sample_service)"
proof -
  have "plain_texts (\<lambda>_. ''insert route'')" by code_simp
  moreover have "serve (\<lambda>_. ''insert route'') sample_env (NatRpc (DeleteNat [118])) sample_service = (Inr (err_status 205 ''NO_VM''), sample_service)"
    by (simp add: rpc_delete_nat_def with_control_def get_interface_def sample_service_def sample_node_def)
  moreover have "turned_down id (Inr (err_status 205 ''NO_VM''))" by (simp add: turned_down_def err_status_def)
  ultimately show ?thesis using grpc_turned_down_unchanged by blast
qed

end
