(* ===== verification/Fw_Serve.thy ===== *)
theory Fw_Serve
  imports System_Inv
begin

text \<open>
  What is fixed when a node starts: \<^verbatim>\<open>LOCAL\<close>, written once by \<^verbatim>\<open>Control::bring_up\<close>, and the enforcement
  switch \<^verbatim>\<open>FW_CONFIG\<close>, a zero-filled array that the control plane neither opens nor writes. No
  operation and no packet changes either. So the firewall of a node that was started by \<^verbatim>\<open>Serve\<close>
  evaluates the rules it is given and drops nothing.
\<close>

definition boot_view :: "ctl \<Rightarrow> u32 list \<times> Local list" where
  "boot_view g = (FW_CONFIG (tabs g), LOCAL (tabs g))"

section \<open>Frames\<close>

lemma boot_view_simps [simp]:
  "boot_view (g\<lparr>neigh_nats := a\<rparr>) = boot_view g" "boot_view (g\<lparr>routes_shadow := b\<rparr>) = boot_view g"
  "boot_view (g\<lparr>routes6_shadow := c\<rparr>) = boot_view g" "boot_view (g\<lparr>fw := d\<rparr>) = boot_view g"
  "boot_view (g\<lparr>learned_macs := l\<rparr>) = boot_view g"
  "FW_CONFIG t = FW_CONFIG (tabs g) \<Longrightarrow> LOCAL t = LOCAL (tabs g) \<Longrightarrow> boot_view (g\<lparr>tabs := t\<rparr>) = boot_view g"
  by (simp_all add: boot_view_def)

lemma switch_stable: "stable s = stable (tabs g) \<Longrightarrow> boot_view (g\<lparr>tabs := s\<rparr>) = boot_view g"
  using stable_fields(6,7) [of s "tabs g"] by (simp add: boot_view_def)

lemma switch_removes [simp]:
  "boot_view (routes_remove vni p l g) = boot_view g" "boot_view (routes6_remove vni q l g) = boot_view g"
  by (simp_all add: boot_view_def routes_remove_def routes6_remove_def set_routes_def set_routes6_def)

lemma switch_services:
  "boot_view (snd (set_dhcp_config mtu dns4 dns6 g)) = boot_view g"
  "boot_view (snd (set_dhcp_meta iid hn pxe boot g)) = boot_view g"
  "boot_view (snd (create_route vni ip len nh nhvni ext g)) = boot_view g"
  "boot_view (snd (delete_route vni ip len g)) = boot_view g"
  "boot_view (snd (create_route6 vni ip len nh nhvni ext g)) = boot_view g"
  "boot_view (snd (delete_route6 vni ip len g)) = boot_view g"
  "boot_view (snd (create_vip iid vip pul g)) = boot_view g"
  "boot_view (snd (delete_vip iid g)) = boot_view g"
  "boot_view (snd (create_nat iid nip pmin pmax pul g)) = boot_view g"
  "boot_view (snd (delete_nat iid g)) = boot_view g"
  by (auto simp: boot_view_def frame_defs split: sum.splits option.splits)

lemma switch_lb:
  "boot_view (snd (create_lb lid vni lbip ul ports g)) = boot_view g"
  "boot_view (snd (add_lb_target lid b g)) = boot_view g"
  "boot_view (snd (del_lb_target lid b g)) = boot_view g"
  "boot_view (snd (delete_lb lid g)) = boot_view g"
  by (auto simp: boot_view_def frame_defs case_prod_beta split: sum.splits option.splits prod.splits)

lemma switch_rules:
  "boot_view (snd (add_fw_rule iid rid rule g)) = boot_view g"
  "boot_view (snd (del_fw_rule iid rid g)) = boot_view g"
  by (auto simp: boot_view_def frame_defs case_prod_beta split: sum.splits option.splits prod.splits)

lemma switch_prefix:
  "boot_view (snd (add_prefix iid pre len pul g)) = boot_view g"
  "boot_view (snd (add_prefix6 iid pre len pul g)) = boot_view g"
  "boot_view (snd (del_prefix iid pre len g)) = boot_view g"
  "boot_view (snd (del_prefix6 iid pre len g)) = boot_view g"
  "boot_view (snd (add_lb_prefix iid pre len pul g)) = boot_view g"
  "boot_view (snd (add_lb_prefix6 iid pre len pul g)) = boot_view g"
  "boot_view (snd (del_lb_prefix iid pre len g)) = boot_view g"
  "boot_view (snd (del_lb_prefix6 iid pre len g)) = boot_view g"
  by (auto simp: boot_view_def frame_defs case_prod_beta split: sum.splits option.splits prod.splits)

lemma switch_neighbors:
  "boot_view (snd (neigh_nat_reprogram g)) = boot_view g"
  "boot_view (snd (add_neighbor_nat vni nip pmin pmax ul g)) = boot_view g"
  "boot_view (snd (del_neighbor_nat vni nip pmin pmax g)) = boot_view g"
proof -
  show r: "boot_view (snd (neigh_nat_reprogram g)) = boot_view g" for g
    by (auto simp: boot_view_def neigh_nat_reprogram_def upd_def Let_def case_prod_beta split: option.splits sum.splits)
  show "boot_view (snd (add_neighbor_nat vni nip pmin pmax ul g)) = boot_view g"
    "boot_view (snd (del_neighbor_nat vni nip pmin pmax g)) = boot_view g"
    by (simp_all add: add_neighbor_nat_def del_neighbor_nat_def Let_def case_prod_beta r split: sum.splits)
qed

lemma switch_create_interface: "boot_view (snd (create_interface env iid dev ps g)) = boot_view g"
proof -
  have "boot_view (snd (program_iface_maps tap mac ps g)) = boot_view g" for tap mac g
    by (auto simp: boot_view_def program_iface_maps_def Let_def set_routes_def set_routes6_def intro!: upd_frame)
  then show ?thesis by (auto simp: create_interface_def Let_def split: sum.splits) (simp_all add: boot_view_def)
qed

lemma switch_purge:
  "boot_view (purge_nat vni ip g) = boot_view g" "boot_view (purge_routes vni g) = boot_view g"
  "boot_view (purge_routes6 vni g) = boot_view g" "boot_view (purge_neighbors vni g) = boot_view g"
  by (simp_all add: purge_nat_def purge_routes_def purge_routes6_def purge_neighbors_def reprogram_ignore_def Let_def case_prod_beta
      foldl_frame [where P = boot_view])

lemma switch_reset: "boot_view (snd (reset_vni vni g)) = boot_view g"
  by (simp add: reset_vni_def Let_def case_prod_beta switch_services foldl_frame [where P = boot_view])

lemma switch_detach: "boot_view (snd (detach_interface iid g)) = boot_view g"
proof -
  have "boot_view (drop_iface iid rec g) = boot_view g" for rec by (simp add: boot_view_def drop_iface_def routes_remove_def routes6_remove_def set_routes_def set_routes6_def Let_def split: option.splits)
  then show ?thesis by (simp add: detach_interface_def Let_def purge_vni_def switch_purge split: option.splits)
qed

lemma switch_step: "sys_step env g g' \<Longrightarrow> boot_view g' = boot_view g"
  by (induction rule: sys_step.induct)
     (simp_all add: switch_services switch_lb switch_rules switch_prefix switch_neighbors switch_create_interface switch_reset
       switch_detach switch_stable [OF stable_guest_tx] switch_stable [OF stable_tc_guest_tx] switch_stable [OF stable_uplink_rx] switch_stable)

lemma switch_off: "reachable env g \<Longrightarrow> \<not> fw_enforcing (tabs g)"
proof -
  assume "reachable env g"
  then have "FW_CONFIG (tabs g) = [0]"
    by (induction rule: reachable.induct) (auto dest!: switch_step simp: boot_view_def bring_up_def aset_def fresh_maps_def split: sum.splits if_splits)
  then show ?thesis by (simp add: fw_enforcing_def aget_def)
qed

text \<open>The firewall of a served node drops nothing. In every state the control plane and the
  datapath reach from \<^verbatim>\<open>Control::bring_up\<close>, whatever rules were added, no packet of a guest is stopped by
  the egress firewall and none from the uplink by the ingress firewall: the enforcement switch stays
  off, because only \<^verbatim>\<open>Bringup\<close> sets it.\<close>

theorem served_firewall_drops_nothing:
  assumes "reachable env g"
  shows "egress_ct_fw now p ifindex vni (tabs g) \<noteq> None \<and> \<not> ingress_fw_drops p vni ifindex (tabs g)"
  using switch_off [OF assms] by (simp add: egress_ct_fw_def ingress_fw_drops_def Let_def split: option.splits)

theorem served_firewall_drops_nothing_witness:
  "reachable sample_env sample_node \<and> egress_ct_fw 5 sample_syn 7 100 (tabs sample_node) \<noteq> None \<and>
   \<not> ingress_fw_drops sample_syn 100 7 (tabs sample_node)"
  using served_firewall_drops_nothing [OF sample_node_reachable] sample_node_reachable by blast

end
