(* ===== verification/Cli_Text.thy ===== *)
theory Cli_Text
  imports Ip_Text
begin

text \<open>
  Reading the arguments of \<^verbatim>\<open>xdp-dp/src/main.rs\<close>: its helpers \<^verbatim>\<open>parse_mac\<close>, \<^verbatim>\<open>parse_ipv4\<close> and
  \<^verbatim>\<open>parse_ipv6\<close>, and what they and the argument formats use of Rust's \<^verbatim>\<open>str\<close>: splitting, trimming
  and reading numbers. A text is its UTF-8 bytes. Splitting at an ASCII character is splitting at
  its byte.
\<close>

section \<open>Results\<close>

text \<open>The errors that end the program, one constructor for each kind of message (the texts quoted in
  the messages are not kept). The last group consists of errors the code never meets.\<close>

datatype cli_error =
    BadMac | BadIpv4 | BadIpv6 | BadNumber | BadArg string
  | NoDevice | BadSize | LoadFailed | Rejected string | AttachFailed string bytes | PinFailed bytes | NoLink
  | RegisterFailed string | TableError map_error | ServiceError
  | ProgramMissing string | AlreadyLoaded string | NotLoaded string | MapMissing string | Panic

text \<open>The operator \<^verbatim>\<open>?\<close>, and a \<^verbatim>\<open>for\<close> loop whose body may leave with an error.\<close>

definition and_then :: "'e + 'a \<Rightarrow> ('a \<Rightarrow> 'e + 'b) \<Rightarrow> 'e + 'b" where
  "and_then r f = (case r of Inl e \<Rightarrow> Inl e | Inr x \<Rightarrow> f x)"

lemma and_then_simps [simp]: "and_then (Inl e) f = Inl e" "and_then (Inr x) f = f x"
  by (simp_all add: and_then_def)

lemma and_then_Inr: "and_then r f = Inr y \<longleftrightarrow> (\<exists>x. r = Inr x \<and> f x = Inr y)"
  by (cases r) simp_all

lemma and_then_Inl: "and_then r f = Inl e \<longleftrightarrow> r = Inl e \<or> (\<exists>x. r = Inr x \<and> f x = Inl e)"
  by (cases r) simp_all

fun for_each :: "('x \<Rightarrow> 's \<Rightarrow> 'e + 's) \<Rightarrow> 'x list \<Rightarrow> 's \<Rightarrow> 'e + 's" where
  "for_each f [] s = Inr s"
| "for_each f (x # xs) s = and_then (f x s) (for_each f xs)"

lemma for_each_inv:
  assumes "for_each f xs s = Inr s'" "P s" "\<And>x s s'. x \<in> set xs \<Longrightarrow> f x s = Inr s' \<Longrightarrow> P s \<Longrightarrow> P s'"
  shows "P s'"
  using assms by (induction xs arbitrary: s) (auto simp: and_then_Inr)

text \<open>A loop fails only where its body does, in a state the body has led to.\<close>

lemma for_each_error:
  assumes "for_each f xs s = Inl e" "P s" "\<And>x s s'. x \<in> set xs \<Longrightarrow> f x s = Inr s' \<Longrightarrow> P s \<Longrightarrow> P s'"
  shows "\<exists>x s. x \<in> set xs \<and> P s \<and> f x s = Inl e"
  using assms
proof (induction xs arbitrary: s)
  case (Cons x xs)
  consider "f x s = Inl e" | s' where "f x s = Inr s'" "for_each f xs s' = Inl e"
    using Cons.prems(1) by (auto simp: and_then_Inl)
  then show ?case
  proof cases
    case 1
    then show ?thesis using Cons.prems(2) by auto
  next
    case 2
    moreover have "P s'" using Cons.prems(2,3) 2(1) by auto
    ultimately obtain y t where "y \<in> set xs" "P t" "f y t = Inl e"
      using Cons.IH [of s'] Cons.prems(3) by (metis list.set_intros(2))
    then show ?thesis by auto
  qed
qed simp

text \<open>Invariants that follow the items already processed.\<close>

lemma for_each_trace:
  assumes "for_each f xs s = Inr s'" "Q [] s" "\<And>ys x s s'. f x s = Inr s' \<Longrightarrow> Q ys s \<Longrightarrow> Q (ys @ [x]) s'"
  shows "Q xs s'"
proof -
  have "Q (ys @ xs) s'" if "for_each f xs s = Inr s'" "Q ys s" for ys xs s
    using that
  proof (induction xs arbitrary: ys s)
    case (Cons x xs)
    obtain t where t: "f x s = Inr t" "for_each f xs t = Inr s'" using Cons.prems(1) by (auto simp: and_then_Inr)
    have "Q (ys @ [x]) t" by (rule assms(3) [OF t(1) Cons.prems(2)])
    then show ?case using Cons.IH [OF t(2)] by fastforce
  qed simp
  from this [OF assms(1), of "[]"] assms(2) show ?thesis by simp
qed

section \<open>Splitting\<close>

fun split_on :: "u8 \<Rightarrow> bytes \<Rightarrow> bytes list" where
  "split_on c [] = [[]]"
| "split_on c (x # xs) =
     (if x = c then [] # split_on c xs
      else case split_on c xs of w # ws \<Rightarrow> (x # w) # ws | [] \<Rightarrow> [[x]])"

fun split_once :: "u8 \<Rightarrow> bytes \<Rightarrow> (bytes \<times> bytes) option" where
  "split_once c [] = None"
| "split_once c (x # xs) =
     (if x = c then Some ([], xs)
      else case split_once c xs of Some (a, b) \<Rightarrow> Some (x # a, b) | None \<Rightarrow> None)"

fun splitn :: "nat \<Rightarrow> u8 \<Rightarrow> bytes \<Rightarrow> bytes list" where
  "splitn 0 c s = []"
| "splitn (Suc 0) c s = [s]"
| "splitn (Suc n) c s = (case split_once c s of Some (a, b) \<Rightarrow> a # splitn n c b | None \<Rightarrow> [s])"

text \<open>\<^verbatim>\<open>rfind\<close> and the two slices around the position found.\<close>

definition rsplit_once :: "u8 \<Rightarrow> bytes \<Rightarrow> (bytes \<times> bytes) option" where
  "rsplit_once c s = (case split_once c (rev s) of Some (a, b) \<Rightarrow> Some (rev b, rev a) | None \<Rightarrow> None)"

fun join_with :: "u8 \<Rightarrow> bytes list \<Rightarrow> bytes" where
  "join_with c [] = []"
| "join_with c [w] = w"
| "join_with c (w # ws) = w @ c # join_with c ws"

lemma split_on_nonempty [simp]: "split_on c s \<noteq> []"
  by (cases s) (auto split: list.splits)

lemma split_on_free: "w \<in> set (split_on c s) \<Longrightarrow> c \<notin> set w"
  by (induction s arbitrary: w) (auto split: if_splits list.splits)

lemma join_split: "join_with c (split_on c s) = s"
proof (induction s)
  case (Cons x xs)
  obtain w ws where "split_on c xs = w # ws" by (meson list.exhaust split_on_nonempty)
  then show ?case using Cons by (cases ws) auto
qed simp

lemma split_free: "c \<notin> set w \<Longrightarrow> split_on c w = [w]" "c \<notin> set w \<Longrightarrow> split_on c (w @ c # s) = w # split_on c s"
  by (induction w) auto

lemma split_join: "ws \<noteq> [] \<Longrightarrow> (\<And>w. w \<in> set ws \<Longrightarrow> c \<notin> set w) \<Longrightarrow> split_on c (join_with c ws) = ws"
  by (induction c ws rule: join_with.induct) (auto simp: split_free)

section \<open>Trimming\<close>

text \<open>The length of the white space character a text starts with, 0 if there is none: the characters
  with the property \<^verbatim>\<open>White_Space\<close> of Unicode in their UTF-8 form.\<close>

definition ws_seqs :: "bytes list" where
  "ws_seqs =
     [[9], [10], [11], [12], [13], [32], [0xc2, 0x85], [0xc2, 0xa0], [0xe1, 0x9a, 0x80],
      [0xe2, 0x80, 0x80], [0xe2, 0x80, 0x81], [0xe2, 0x80, 0x82], [0xe2, 0x80, 0x83], [0xe2, 0x80, 0x84],
      [0xe2, 0x80, 0x85], [0xe2, 0x80, 0x86], [0xe2, 0x80, 0x87], [0xe2, 0x80, 0x88], [0xe2, 0x80, 0x89],
      [0xe2, 0x80, 0x8a], [0xe2, 0x80, 0xa8], [0xe2, 0x80, 0xa9], [0xe2, 0x80, 0xaf], [0xe2, 0x81, 0x9f],
      [0xe3, 0x80, 0x80]]"

definition skip_one :: "bytes list \<Rightarrow> bytes \<Rightarrow> nat" where
  "skip_one seqs s = (case List.find (\<lambda>w. take (length w) s = w) seqs of Some w \<Rightarrow> length w | None \<Rightarrow> 0)"

function trim_by :: "bytes list \<Rightarrow> bytes \<Rightarrow> bytes" where
  "trim_by seqs s = (let n = skip_one seqs s in if n = 0 \<or> s = [] then s else trim_by seqs (drop n s))"
  by pat_completeness auto
termination by (relation "measure (\<lambda>(_, s). length s)") auto

declare trim_by.simps [simp del]

definition trim :: "bytes \<Rightarrow> bytes" where
  "trim s = rev (trim_by (map rev ws_seqs) (rev (trim_by ws_seqs s)))"

section \<open>Numbers and addresses\<close>

text \<open>\<^verbatim>\<open>from_str_radix\<close> for an unsigned type with the given largest value: an optional plus sign and
  at least one digit.\<close>

definition parse_uint :: "nat \<Rightarrow> nat \<Rightarrow> bytes \<Rightarrow> nat option" where
  "parse_uint radix largest s =
     (let ds = (case s of c # ds \<Rightarrow> if c = 43 then ds else s | [] \<Rightarrow> []); n = digits_val radix ds
      in if ds = [] \<or> \<not> list_all (is_digit radix) ds then None
         else if n \<le> largest then Some n else None)"

definition number :: "nat \<Rightarrow> bytes \<Rightarrow> cli_error + nat" where
  "number largest s = (case parse_uint 10 largest s of Some n \<Rightarrow> Inr n | None \<Rightarrow> Inl BadNumber)"

abbreviation (input) "U8_MAX \<equiv> 255 :: nat"
abbreviation (input) "U16_MAX \<equiv> 65535 :: nat"
abbreviation (input) "U32_MAX \<equiv> 4294967295 :: nat"
abbreviation (input) "U64_MAX \<equiv> 18446744073709551615 :: nat"

definition parse_u8 :: "bytes \<Rightarrow> cli_error + u8" where "parse_u8 s = and_then (number U8_MAX s) (\<lambda>n. Inr (of_nat n))"
definition parse_u16 :: "bytes \<Rightarrow> cli_error + u16" where "parse_u16 s = and_then (number U16_MAX s) (\<lambda>n. Inr (of_nat n))"
definition read_u32 :: "bytes \<Rightarrow> cli_error + u32" where "read_u32 s = and_then (number U32_MAX s) (\<lambda>n. Inr (of_nat n))"
definition parse_u64 :: "bytes \<Rightarrow> cli_error + u64" where "parse_u64 s = and_then (number U64_MAX s) (\<lambda>n. Inr (of_nat n))"

text \<open>The loop of \<^verbatim>\<open>parse_mac\<close>: \<open>i\<close> octets have been read into \<open>out\<close>.\<close>

fun mac_octets :: "nat \<Rightarrow> bytes \<Rightarrow> bytes list \<Rightarrow> cli_error + bytes \<times> nat" where
  "mac_octets i out [] = Inr (out, i)"
| "mac_octets i out (part # parts) =
     (if i < 6
      then case parse_uint 16 U8_MAX part of
             Some v \<Rightarrow> mac_octets (i + 1) (out[i := of_nat v]) parts
           | None \<Rightarrow> Inl BadMac
      else Inl BadMac)"

definition parse_mac :: "bytes \<Rightarrow> cli_error + bytes" where
  "parse_mac s =
     and_then (mac_octets 0 (replicate 6 0) (split_on 58 s)) (\<lambda>(out, n). if n = 6 then Inr out else Inl BadMac)"

definition arg_ipv4 :: "bytes \<Rightarrow> cli_error + bytes" where
  "arg_ipv4 s = (case parse_ipv4 s of Some a \<Rightarrow> Inr a | None \<Rightarrow> Inl BadIpv4)"

definition arg_ipv6 :: "bytes \<Rightarrow> cli_error + bytes" where
  "arg_ipv6 s = (case parse_ipv6 s of Some a \<Rightarrow> Inr a | None \<Rightarrow> Inl BadIpv6)"

end
