(* ===== verification/Loader.thy ===== *)
theory Loader
  imports Cli_Text Control Dhcp6
begin

text \<open>
  Loading and attaching the programs, \<^verbatim>\<open>xdp-dp/src/loader.rs\<close>, and the table handles of
  \<^verbatim>\<open>xdp-dp/src/maps.rs\<close>. What the machine answers is the record \<open>host\<close>: environment variables,
  the files below \<^verbatim>\<open>/sys/class/net\<close>, and whether the kernel loads the object, accepts a program,
  attaches it, pins a file, enters a program in a tail-call table and lets the server listen on an
  address. A loaded object keeps which of its tables were taken out, which
  programs were loaded, what is attached and pinned, and the programs in the two tail-call tables.
  The object's library refuses to load a program twice, to attach one that is not loaded and to hand
  out a table twice.
\<close>

section \<open>The machine\<close>

datatype attach_mode = Driver | Skb | TcIngress
datatype prog_kind = Xdp | Classifier

type_synonym link = "string \<times> bytes \<times> attach_mode"

record host =
  hs_var :: "string \<Rightarrow> bytes option"
  hs_sys :: "bytes \<Rightarrow> string \<Rightarrow> bytes option"
  hs_load :: bool
  hs_verify :: "string \<Rightarrow> bool"
  hs_attach :: "link list \<Rightarrow> link \<Rightarrow> bool"
  hs_fd_link :: bool
  hs_pin :: "bytes \<Rightarrow> bool"
  hs_prog_set :: "string \<Rightarrow> bool"
  hs_listen :: "bytes \<Rightarrow> bool"

definition ifindex :: "host \<Rightarrow> bytes \<Rightarrow> cli_error + u32" where
  "ifindex h iface = (case hs_sys h iface ''ifindex'' of None \<Rightarrow> Inl NoDevice | Some s \<Rightarrow> read_u32 (trim s))"

definition mac_of :: "host \<Rightarrow> bytes \<Rightarrow> cli_error + bytes" where
  "mac_of h iface = (case hs_sys h iface ''address'' of None \<Rightarrow> Inl NoDevice | Some s \<Rightarrow> parse_mac (trim s))"

section \<open>The object\<close>

text \<open>The programs of the object, from the entry points of \<^verbatim>\<open>xdp-dp-ebpf\<close>, and its tables.\<close>

definition object_programs :: "(string \<times> prog_kind) list" where
  "object_programs =
     [(''xdp_pass'', Xdp), (''guest_tx'', Xdp), (''guest_dhcp'', Xdp), (''uplink_rx'', Xdp), (''xdp_inspect'', Xdp),
      (''tc_guest_tx'', Classifier), (''tc_guest_nat64'', Classifier), (''tc_guest_dhcp'', Classifier)]"

definition object_maps :: "string list" where
  "object_maps =
     [''INTERFACES'', ''ROUTES'', ''ROUTES6'', ''CONFIG'', ''PORT_META'', ''LOCAL'', ''INSPECT'', ''VIPS'', ''LB'', ''MAGLEV'',
      ''CONNTRACK'', ''NAT'', ''NAT_IPS'', ''FW_RULES'', ''FW_META'', ''FW_CONFIG'', ''UNDERLAY'', ''NEIGHBOR_NAT'',
      ''NEIGHBOR_NAT_COUNT'', ''METER'', ''DHCP_CONFIG'', ''DHCP_META'', ''GUEST_PROGS'', ''GUEST_PROGS_TC'']"

record ebpf =
  eb_tabs :: maps
  eb_taken :: "string list"
  eb_loaded :: "string list"
  eb_links :: "link list"
  eb_pins :: "bytes list"
  eb_progs :: "(u32 \<times> string) list"
  eb_progs_tc :: "(u32 \<times> string) list"

abbreviation (input) GUEST_PROG_DHCP :: u32 where "GUEST_PROG_DHCP \<equiv> 0"
abbreviation (input) GUEST_PROG_IPV6 :: u32 where "GUEST_PROG_IPV6 \<equiv> 2"

text \<open>\<^verbatim>\<open>set_max_entries\<close>. The conntrack table evicts instead of filling up, so its size does not show.\<close>

definition set_max_entries :: "string \<Rightarrow> nat \<Rightarrow> maps \<Rightarrow> maps" where
  "set_max_entries name n t =
     (if name = ''ROUTES'' then t\<lparr>ROUTES := (ROUTES t)\<lparr>lpm_max := n\<rparr>\<rparr>
      else if name = ''INTERFACES'' then t\<lparr>INTERFACES := (INTERFACES t)\<lparr>max_entries := n\<rparr>\<rparr>
      else if name = ''MAGLEV'' then t\<lparr>MAGLEV := (MAGLEV t)\<lparr>max_entries := n\<rparr>\<rparr>
      else if name = ''NAT'' then t\<lparr>NAT := (NAT t)\<lparr>max_entries := n\<rparr>\<rparr>
      else if name = ''LB'' then t\<lparr>LB := (LB t)\<lparr>max_entries := n\<rparr>\<rparr>
      else if name = ''PORT_META'' then t\<lparr>PORT_META := (PORT_META t)\<lparr>max_entries := n\<rparr>\<rparr>
      else t)"

definition size_vars :: "(string \<times> string) list" where
  "size_vars =
     [(''CONNTRACK'', ''XDP_DP_CONNTRACK_MAX''), (''ROUTES'', ''XDP_DP_ROUTES_MAX''),
      (''INTERFACES'', ''XDP_DP_INTERFACES_MAX''), (''MAGLEV'', ''XDP_DP_MAGLEV_MAX''),
      (''NAT'', ''XDP_DP_NAT_MAX''), (''LB'', ''XDP_DP_LB_MAX''), (''PORT_META'', ''XDP_DP_PORT_META_MAX'')]"

definition apply_size :: "host \<Rightarrow> string \<times> string \<Rightarrow> maps \<Rightarrow> cli_error + maps" where
  "apply_size h mv t =
     (case hs_var h (snd mv) of
        None \<Rightarrow> Inr t
      | Some v \<Rightarrow>
          (case parse_uint 10 U32_MAX v of
             None \<Rightarrow> Inl BadSize
           | Some n \<Rightarrow> Inr (set_max_entries (fst mv) n t)))"

definition load_ebpf :: "host \<Rightarrow> cli_error + ebpf" where
  "load_ebpf h =
     and_then (for_each (apply_size h) size_vars fresh_maps) (\<lambda>t.
       if hs_load h
       then Inr \<lparr>eb_tabs = t, eb_taken = [], eb_loaded = [], eb_links = [], eb_pins = [], eb_progs = [], eb_progs_tc = []\<rparr>
       else Inl LoadFailed)"

section \<open>Programs\<close>

definition program :: "prog_kind \<Rightarrow> string \<Rightarrow> cli_error + unit" where
  "program kind name = (if (name, kind) \<in> set object_programs then Inr () else Inl (ProgramMissing name))"

definition prog_load :: "host \<Rightarrow> string \<Rightarrow> ebpf \<Rightarrow> cli_error + ebpf" where
  "prog_load h name e =
     (if name \<in> set (eb_loaded e) then Inl (AlreadyLoaded name)
      else if hs_verify h name then Inr (e\<lparr>eb_loaded := name # eb_loaded e\<rparr>)
      else Inl (Rejected name))"

definition prog_attach :: "host \<Rightarrow> string \<Rightarrow> bytes \<Rightarrow> attach_mode \<Rightarrow> ebpf \<Rightarrow> cli_error + ebpf" where
  "prog_attach h name iface mode e =
     (if name \<notin> set (eb_loaded e) then Inl (NotLoaded name)
      else if hs_attach h (eb_links e) (name, iface, mode) then Inr (e\<lparr>eb_links := (name, iface, mode) # eb_links e\<rparr>)
      else Inl (AttachFailed name iface))"

text \<open>Attach in driver mode and fall back to generic mode.\<close>

definition attach_fallback :: "host \<Rightarrow> string \<Rightarrow> bytes \<Rightarrow> ebpf \<Rightarrow> cli_error + ebpf" where
  "attach_fallback h name iface e =
     (case prog_attach h name iface Driver e of Inr e' \<Rightarrow> Inr e' | Inl _ \<Rightarrow> prog_attach h name iface Skb e)"

definition load_program :: "host \<Rightarrow> string \<Rightarrow> ebpf \<Rightarrow> cli_error + ebpf" where
  "load_program h name e = and_then (program Xdp name) (\<lambda>_. prog_load h name e)"

definition load_program_tc :: "host \<Rightarrow> string \<Rightarrow> ebpf \<Rightarrow> cli_error + ebpf" where
  "load_program_tc h name e = and_then (program Classifier name) (\<lambda>_. prog_load h name e)"

definition attach_xdp :: "host \<Rightarrow> string \<Rightarrow> bytes \<Rightarrow> ebpf \<Rightarrow> cli_error + ebpf" where
  "attach_xdp h name iface e =
     and_then (program Xdp name) (\<lambda>_. and_then (prog_load h name e) (prog_attach h name iface Driver))"

definition attach_xdp_extra :: "host \<Rightarrow> string \<Rightarrow> bytes \<Rightarrow> ebpf \<Rightarrow> cli_error + ebpf" where
  "attach_xdp_extra h name iface e = and_then (program Xdp name) (\<lambda>_. prog_attach h name iface Driver e)"

definition attach_xdp_link :: "host \<Rightarrow> string \<Rightarrow> bytes \<Rightarrow> ebpf \<Rightarrow> cli_error + ebpf" where
  "attach_xdp_link h name iface e =
     and_then (program Xdp name) (\<lambda>_.
       if hs_var h ''XDP_DP_SKB_MODE'' \<noteq> None then prog_attach h name iface Skb e else attach_fallback h name iface e)"

definition attach_tc_clsact_ingress :: "host \<Rightarrow> string \<Rightarrow> bytes \<Rightarrow> ebpf \<Rightarrow> cli_error + ebpf" where
  "attach_tc_clsact_ingress h name iface e =
     and_then (program Classifier name) (\<lambda>_. and_then (prog_load h name e) (prog_attach h name iface TcIngress))"

definition attach_tc_clsact_ingress_link :: "host \<Rightarrow> string \<Rightarrow> bytes \<Rightarrow> ebpf \<Rightarrow> cli_error + ebpf" where
  "attach_tc_clsact_ingress_link h name iface e =
     and_then (program Classifier name) (\<lambda>_. prog_attach h name iface TcIngress e)"

definition attach_uplink :: "host \<Rightarrow> bytes \<Rightarrow> cli_error + ebpf" where
  "attach_uplink h iface = and_then (load_ebpf h) (attach_xdp h ''uplink_rx'' iface)"

definition pin :: "host \<Rightarrow> bytes \<Rightarrow> ebpf \<Rightarrow> cli_error + ebpf" where
  "pin h path e = (if hs_pin h path then Inr (e\<lparr>eb_pins := path # eb_pins e\<rparr>) else Inl (PinFailed path))"

definition attach_xdp_pinned :: "host \<Rightarrow> string \<Rightarrow> bytes \<Rightarrow> bytes \<Rightarrow> bool \<Rightarrow> ebpf \<Rightarrow> cli_error + ebpf" where
  "attach_xdp_pinned h prog iface pin_dir already_loaded e =
     and_then (program Xdp prog) (\<lambda>_.
     and_then (if already_loaded then Inr e else prog_load h prog e) (\<lambda>e.
     and_then (attach_fallback h prog iface e) (\<lambda>e.
       if hs_fd_link h then pin h (pin_dir @ ascii ''/links/'' @ ascii prog @ ascii ''-'' @ iface) e else Inl NoLink)))"

section \<open>Tables of the object\<close>

definition take_map :: "string \<Rightarrow> ebpf \<Rightarrow> cli_error + ebpf" where
  "take_map name e =
     (if name \<in> set object_maps \<and> name \<notin> set (eb_taken e) then Inr (e\<lparr>eb_taken := name # eb_taken e\<rparr>)
      else Inl (MapMissing name))"

definition pin_map :: "host \<Rightarrow> string \<Rightarrow> bytes \<Rightarrow> ebpf \<Rightarrow> cli_error + ebpf" where
  "pin_map h name pin_dir e =
     (if name \<in> set object_maps \<and> name \<notin> set (eb_taken e) then pin h (pin_dir @ ascii ''/'' @ ascii name) e
      else Inl (MapMissing name))"

definition register_guest_dhcp :: "host \<Rightarrow> ebpf \<Rightarrow> cli_error + ebpf" where
  "register_guest_dhcp h e =
     and_then (load_program h ''guest_dhcp'' e) (\<lambda>e.
     and_then (take_map ''GUEST_PROGS'' e) (\<lambda>e.
       if hs_prog_set h ''guest_dhcp''
       then Inr (e\<lparr>eb_progs := AList.update GUEST_PROG_DHCP ''guest_dhcp'' (eb_progs e)\<rparr>)
       else Inl (RegisterFailed ''guest_dhcp'')))"

definition register_guest_dhcp_tc :: "host \<Rightarrow> ebpf \<Rightarrow> cli_error + ebpf" where
  "register_guest_dhcp_tc h e =
     and_then (load_program_tc h ''tc_guest_dhcp'' e) (\<lambda>e.
     and_then (take_map ''GUEST_PROGS_TC'' e) (\<lambda>e.
     and_then (if hs_prog_set h ''tc_guest_dhcp''
               then Inr (e\<lparr>eb_progs_tc := AList.update GUEST_PROG_DHCP ''tc_guest_dhcp'' (eb_progs_tc e)\<rparr>)
               else Inl (RegisterFailed ''tc_guest_dhcp'')) (\<lambda>e.
     and_then (load_program_tc h ''tc_guest_nat64'' e) (\<lambda>e.
       if hs_prog_set h ''tc_guest_nat64''
       then Inr (e\<lparr>eb_progs_tc := AList.update GUEST_PROG_IPV6 ''tc_guest_nat64'' (eb_progs_tc e)\<rparr>)
       else Inl (RegisterFailed ''tc_guest_nat64'')))))"

section \<open>Handles\<close>

text \<open>A write through a handle; the error of the table ends the command.\<close>

definition table_write :: "(maps \<Rightarrow> map_error + maps) \<Rightarrow> ebpf \<Rightarrow> cli_error + ebpf" where
  "table_write f e = (case f (eb_tabs e) of Inl x \<Rightarrow> Inl (TableError x) | Inr t \<Rightarrow> Inr (e\<lparr>eb_tabs := t\<rparr>))"

definition Interfaces_upsert :: "IfaceKey \<Rightarrow> IfaceValue \<Rightarrow> ebpf \<Rightarrow> cli_error + ebpf" where
  "Interfaces_upsert k v = table_write (\<lambda>t. map_sum id (\<lambda>m. t\<lparr>INTERFACES := m\<rparr>) (hinsert (INTERFACES t) k v))"

definition LocalMap_set :: "Local \<Rightarrow> ebpf \<Rightarrow> cli_error + ebpf" where
  "LocalMap_set v = table_write (\<lambda>t. map_sum id (\<lambda>m. t\<lparr>LOCAL := m\<rparr>) (aset (LOCAL t) 0 v))"

definition PortMetaMap_upsert :: "u32 \<Rightarrow> PortMeta \<Rightarrow> ebpf \<Rightarrow> cli_error + ebpf" where
  "PortMetaMap_upsert k v = table_write (\<lambda>t. map_sum id (\<lambda>m. t\<lparr>PORT_META := m\<rparr>) (hinsert (PORT_META t) k v))"

definition Routes_upsert :: "u32 \<Rightarrow> bytes \<Rightarrow> u32 \<Rightarrow> RouteValue \<Rightarrow> ebpf \<Rightarrow> cli_error + ebpf" where
  "Routes_upsert vni ipv4 prefix_len v =
     table_write (\<lambda>t. map_sum id (\<lambda>m. t\<lparr>ROUTES := m\<rparr>) (lpm_insert (ROUTES t) (route_key vni ipv4 prefix_len) v))"

definition Routes6_upsert :: "u32 \<Rightarrow> bytes \<Rightarrow> u32 \<Rightarrow> RouteValue \<Rightarrow> ebpf \<Rightarrow> cli_error + ebpf" where
  "Routes6_upsert vni ipv6 prefix_len v =
     table_write (\<lambda>t. map_sum id (\<lambda>m. t\<lparr>ROUTES6 := m\<rparr>) (lpm_insert (ROUTES6 t) (route_key6 vni ipv6 prefix_len) v))"

definition Vips_upsert :: "VipKey \<Rightarrow> bytes \<Rightarrow> ebpf \<Rightarrow> cli_error + ebpf" where
  "Vips_upsert k v = table_write (\<lambda>t. map_sum id (\<lambda>m. t\<lparr>VIPS := m\<rparr>) (hinsert (VIPS t) k v))"

definition Lb_upsert :: "LbKey \<Rightarrow> LbValue \<Rightarrow> ebpf \<Rightarrow> cli_error + ebpf" where
  "Lb_upsert k v = table_write (\<lambda>t. map_sum id (\<lambda>m. t\<lparr>LB := m\<rparr>) (hinsert (LB t) k v))"

definition Maglev_upsert :: "MaglevKey \<Rightarrow> bytes \<Rightarrow> ebpf \<Rightarrow> cli_error + ebpf" where
  "Maglev_upsert k v = table_write (\<lambda>t. map_sum id (\<lambda>m. t\<lparr>MAGLEV := m\<rparr>) (hinsert (MAGLEV t) k v))"

definition Nat_upsert :: "NatKey \<Rightarrow> NatValue \<Rightarrow> ebpf \<Rightarrow> cli_error + ebpf" where
  "Nat_upsert k v = table_write (\<lambda>t. map_sum id (\<lambda>m. t\<lparr>NAT := m\<rparr>) (hinsert (NAT t) k v))"

definition FwRules_upsert :: "FwRuleKey \<Rightarrow> FwRule \<Rightarrow> ebpf \<Rightarrow> cli_error + ebpf" where
  "FwRules_upsert k v = table_write (\<lambda>t. map_sum id (\<lambda>m. t\<lparr>FW_RULES := m\<rparr>) (hinsert (FW_RULES t) k v))"

definition FwMetaMap_upsert :: "u32 \<Rightarrow> FwMeta \<Rightarrow> ebpf \<Rightarrow> cli_error + ebpf" where
  "FwMetaMap_upsert k v = table_write (\<lambda>t. map_sum id (\<lambda>m. t\<lparr>FW_META := m\<rparr>) (hinsert (FW_META t) k v))"

definition FwConfig_set :: "u32 \<Rightarrow> ebpf \<Rightarrow> cli_error + ebpf" where
  "FwConfig_set v = table_write (\<lambda>t. map_sum id (\<lambda>m. t\<lparr>FW_CONFIG := m\<rparr>) (aset (FW_CONFIG t) 0 v))"

definition Underlay_upsert :: "bytes \<Rightarrow> UnderlayValue \<Rightarrow> ebpf \<Rightarrow> cli_error + ebpf" where
  "Underlay_upsert k v = table_write (\<lambda>t. map_sum id (\<lambda>m. t\<lparr>UNDERLAY := m\<rparr>) (hinsert (UNDERLAY t) k v))"

definition NeighborNat_upsert :: "u32 \<Rightarrow> NeighborNatEntry \<Rightarrow> ebpf \<Rightarrow> cli_error + ebpf" where
  "NeighborNat_upsert k v = table_write (\<lambda>t. map_sum id (\<lambda>m. t\<lparr>NEIGHBOR_NAT := m\<rparr>) (hinsert (NEIGHBOR_NAT t) k v))"

definition Meter_upsert :: "u32 \<Rightarrow> MeterState \<Rightarrow> ebpf \<Rightarrow> cli_error + ebpf" where
  "Meter_upsert k v = table_write (\<lambda>t. map_sum id (\<lambda>m. t\<lparr>METER := m\<rparr>) (hinsert (METER t) k v))"

definition NatIps_set :: "u32 \<Rightarrow> bytes \<Rightarrow> ebpf \<Rightarrow> cli_error + ebpf" where
  "NatIps_set vni nat_ip =
     table_write (\<lambda>t. map_sum id (\<lambda>m. t\<lparr>NAT_IPS := m\<rparr>) (hinsert (NAT_IPS t) \<lparr>vk_vni = vni, vk_ipv4 = nat_ip\<rparr> 1))"

definition NeighborNatCount_set :: "u32 \<Rightarrow> ebpf \<Rightarrow> cli_error + ebpf" where
  "NeighborNatCount_set n = table_write (\<lambda>t. map_sum id (\<lambda>m. t\<lparr>NEIGHBOR_NAT_COUNT := m\<rparr>) (aset (NEIGHBOR_NAT_COUNT t) 0 n))"

definition DhcpConfigMap_set :: "DhcpConfig \<Rightarrow> ebpf \<Rightarrow> cli_error + ebpf" where
  "DhcpConfigMap_set v = table_write (\<lambda>t. map_sum id (\<lambda>m. t\<lparr>DHCP_CONFIG := m\<rparr>) (aset (DHCP_CONFIG t) 0 v))"

end
