(* ===== verification/Bringup.thy ===== *)
theory Bringup
  imports Loader Control_Services
begin

text \<open>
  The command \<^verbatim>\<open>Bringup\<close> of \<^verbatim>\<open>xdp-dp/src/main.rs\<close>: it loads and attaches the datapath and programs
  every table from its command line. Each stage below is one block of the command, in the order the
  code runs them; a stage takes the loaded object and returns it changed, or the error that ends the
  command (the kernel then frees the tables, except those kept by pinned links).
\<close>

abbreviation (input) "CH_COLON \<equiv> 58 :: u8"
abbreviation (input) "CH_EQ \<equiv> 61 :: u8"
abbreviation (input) "CH_SLASH \<equiv> 47 :: u8"
abbreviation (input) "CH_AT \<equiv> 64 :: u8"

record BringupArgs =
  br_uplink :: bytes
  br_local_underlay :: bytes
  br_gateway :: bytes
  br_gateway_mac :: bytes
  br_guests :: "bytes list"
  br_remotes :: "bytes list"
  br_vips :: "bytes list"
  br_lbs :: "bytes list"
  br_lb_targets :: "bytes list"
  br_nats :: "bytes list"
  br_externals :: "bytes list"
  br_conntrack_max :: "u32 option"
  br_fw_rules :: "bytes list"
  br_firewall_enforce :: bool
  br_neigh_nats :: "bytes list"
  br_underlay_markers :: "bytes list"
  br_meters :: "bytes list"
  br_pin_dir :: "bytes option"
  br_adopt :: bool
  br_gateway6 :: "bytes option"
  br_guests6 :: "bytes list"
  br_remotes6 :: "bytes list"
  br_dhcp_mtu :: "u32 option"
  br_dhcp_dns :: "bytes list"
  br_dhcpv6_dns :: "bytes list"

section \<open>Programs\<close>

text \<open>\<^verbatim>\<open>--conntrack-max\<close> sets the variable the loader reads.\<close>

definition with_conntrack_max :: "u32 option \<Rightarrow> host \<Rightarrow> host" where
  "with_conntrack_max n h =
     (case n of
        Some n \<Rightarrow> h\<lparr>hs_var := (hs_var h)(''XDP_DP_CONNTRACK_MAX'' \<mapsto> ascii (show_nat (unat n)))\<rparr>
      | None \<Rightarrow> h)"

definition attach_guest :: "host \<Rightarrow> bytes option \<Rightarrow> nat \<times> bytes \<Rightarrow> ebpf \<Rightarrow> cli_error + ebpf" where
  "attach_guest h pin_dir ig e =
     (let idx = fst ig; ifname = hd (splitn 3 CH_EQ (snd ig))
      in case pin_dir of
           Some dir \<Rightarrow> attach_xdp_pinned h ''guest_tx'' ifname dir (idx \<noteq> 0) e
         | None \<Rightarrow> if idx = 0 then attach_xdp h ''guest_tx'' ifname e else attach_xdp_extra h ''guest_tx'' ifname e)"

definition attach_all :: "host \<Rightarrow> BringupArgs \<Rightarrow> ebpf \<Rightarrow> cli_error + ebpf" where
  "attach_all h a e =
     and_then (case br_pin_dir a of
                 Some dir \<Rightarrow> attach_xdp_pinned h ''uplink_rx'' (br_uplink a) dir False e
               | None \<Rightarrow> attach_xdp h ''uplink_rx'' (br_uplink a) e) (\<lambda>e.
     and_then (for_each (attach_guest h (br_pin_dir a)) (enumerate 0 (br_guests a)) e)
       (register_guest_dhcp h))"

section \<open>The node and its guests\<close>

definition set_local :: "host \<Rightarrow> bytes \<Rightarrow> bytes \<Rightarrow> bytes \<Rightarrow> ebpf \<Rightarrow> cli_error + ebpf" where
  "set_local h uplink gateway_mac local_underlay e =
     and_then (take_map ''LOCAL'' e) (\<lambda>e.
     and_then (ifindex h uplink) (\<lambda>ix.
     and_then (mac_of h uplink) (\<lambda>mac.
     and_then (parse_mac gateway_mac) (\<lambda>gmac.
     and_then (arg_ipv6 local_underlay) (\<lambda>ul.
       LocalMap_set \<lparr>lo_uplink_ifindex = ix, lo_uplink_mac = mac, lo_gateway_mac = gmac, lo_underlay_ipv6 = ul\<rparr> e)))))"

type_synonym guest_v4 = "(bytes \<times> (bytes \<times> bytes \<times> bytes \<times> u32)) list"

definition program_guest :: "host \<Rightarrow> bytes \<Rightarrow> bytes \<Rightarrow> ebpf \<times> guest_v4 \<Rightarrow> cli_error + ebpf \<times> guest_v4" where
  "program_guest h gw g st =
     (case split_on CH_EQ g of
        [ifname, ip_s, mac_s, ul_s, vni_s] \<Rightarrow>
          and_then (arg_ipv4 ip_s) (\<lambda>ip.
          and_then (parse_mac mac_s) (\<lambda>mac.
          and_then (arg_ipv6 ul_s) (\<lambda>ul.
          and_then (read_u32 vni_s) (\<lambda>vni.
          and_then (ifindex h ifname) (\<lambda>tap.
          and_then (PortMetaMap_upsert tap
                      \<lparr>pm_vni = vni, pm_guest_ipv4 = ip, pm_gateway_ipv4 = gw, pm_guest_mac = mac, pm_underlay_ipv6 = ul,
                       pm_gateway_ipv6 = replicate 16 0, pm_guest_ipv6 = replicate 16 0\<rparr> (fst st)) (\<lambda>e.
          and_then (Interfaces_upsert \<lparr>ik_vni = vni, ik_ipv4 = ip\<rparr>
                      \<lparr>iv_tap_ifindex = tap, iv_is_local = 1, iv_underlay_ipv6 = ul, iv_guest_mac = mac\<rparr> e) (\<lambda>e.
          and_then (Underlay_upsert ul \<lparr>uv_vni = vni, uv_tap_ifindex = tap, uv_guest_mac = mac\<rparr> e) (\<lambda>e.
            Inr (e, AList.update ifname (ip, mac, ul, vni) (snd st))))))))))
      | _ \<Rightarrow> Inl (BadArg ''--guest''))"

definition opt_ipv6 :: "bytes option \<Rightarrow> cli_error + bytes" where
  "opt_ipv6 a = (case a of Some s \<Rightarrow> arg_ipv6 s | None \<Rightarrow> Inr (replicate 16 0))"

definition program_guest6 :: "host \<Rightarrow> bytes \<Rightarrow> bytes \<Rightarrow> guest_v4 \<Rightarrow> bytes \<Rightarrow> ebpf \<Rightarrow> cli_error + ebpf" where
  "program_guest6 h gw gw6 v4 g6 e =
     (case split_on CH_EQ g6 of
        [ifname, ov_s, ul_s, vni_s] \<Rightarrow>
          and_then (arg_ipv6 ov_s) (\<lambda>overlay.
          and_then (arg_ipv6 ul_s) (\<lambda>ul.
          and_then (read_u32 vni_s) (\<lambda>vni.
          and_then (ifindex h ifname) (\<lambda>tap.
          let (ip, mac, _, _) = (case map_of v4 ifname of Some x \<Rightarrow> x | None \<Rightarrow> (replicate 4 0, replicate 6 0, replicate 16 0, vni))
          in and_then (PortMetaMap_upsert tap
                         \<lparr>pm_vni = vni, pm_guest_ipv4 = ip, pm_gateway_ipv4 = gw, pm_guest_mac = mac, pm_underlay_ipv6 = ul,
                          pm_gateway_ipv6 = gw6, pm_guest_ipv6 = overlay\<rparr> e) (\<lambda>e.
               if map_of v4 ifname = None
               then Underlay_upsert ul \<lparr>uv_vni = vni, uv_tap_ifindex = tap, uv_guest_mac = mac\<rparr> e
               else Inr e)))))
      | _ \<Rightarrow> Inl (BadArg ''--guest6''))"

definition program_node :: "host \<Rightarrow> BringupArgs \<Rightarrow> ebpf \<Rightarrow> cli_error + ebpf" where
  "program_node h a e =
     and_then (set_local h (br_uplink a) (br_gateway_mac a) (br_local_underlay a) e) (\<lambda>e.
     and_then (arg_ipv4 (br_gateway a)) (\<lambda>gw.
     and_then (take_map ''PORT_META'' e) (\<lambda>e.
     and_then (take_map ''INTERFACES'' e) (\<lambda>e.
     and_then (take_map ''UNDERLAY'' e) (\<lambda>e.
     and_then (for_each (program_guest h gw) (br_guests a) (e, [])) (\<lambda>(e, v4).
     and_then (opt_ipv6 (br_gateway6 a)) (\<lambda>gw6.
       for_each (program_guest6 h gw gw6 v4) (br_guests6 a) e)))))))"

section \<open>Routes and VIPs\<close>

text \<open>An address with an optional prefix length.\<close>

definition split_prefix :: "u32 \<Rightarrow> bytes \<Rightarrow> cli_error + bytes \<times> u32" where
  "split_prefix full s =
     (case split_once CH_SLASH s of
        Some (ip, l) \<Rightarrow> and_then (read_u32 l) (\<lambda>n. Inr (ip, n))
      | None \<Rightarrow> Inr (s, full))"

definition program_remote6 :: "bytes \<Rightarrow> ebpf \<Rightarrow> cli_error + ebpf" where
  "program_remote6 r6 e =
     (case split_on CH_EQ r6 of
        [dst_s, nh_s, vni_s] \<Rightarrow>
          and_then (split_prefix 128 dst_s) (\<lambda>(ip_s, plen).
          and_then (arg_ipv6 ip_s) (\<lambda>ip.
          and_then (arg_ipv6 nh_s) (\<lambda>nh.
          and_then (read_u32 vni_s) (\<lambda>vni.
            Routes6_upsert vni ip plen \<lparr>rv_nexthop_vni = vni, rv_nexthop_ipv6 = nh, rv_is_external = 0\<rparr> e))))
      | _ \<Rightarrow> Inl (BadArg ''--remote6''))"

definition program_remote :: "bytes list \<Rightarrow> bytes \<Rightarrow> ebpf \<Rightarrow> cli_error + ebpf" where
  "program_remote externals r e =
     (case split_on CH_EQ r of
        [dst_s, nh_s, vni_s] \<Rightarrow>
          and_then (split_prefix 32 dst_s) (\<lambda>(ip_s, plen).
          and_then (arg_ipv4 ip_s) (\<lambda>ip.
          and_then (arg_ipv6 nh_s) (\<lambda>nh.
          and_then (read_u32 vni_s) (\<lambda>vni.
            Routes_upsert vni ip plen
              \<lparr>rv_nexthop_vni = vni, rv_nexthop_ipv6 = nh, rv_is_external = (if ip \<in> set externals then 1 else 0)\<rparr> e))))
      | _ \<Rightarrow> Inl (BadArg ''--remote''))"

definition collect_externals :: "bytes list \<Rightarrow> cli_error + bytes list" where
  "collect_externals ss = for_each (\<lambda>s acc. and_then (arg_ipv4 s) (\<lambda>ip. Inr (ip # acc))) ss []"

definition program_vip :: "bytes \<Rightarrow> ebpf \<Rightarrow> cli_error + ebpf" where
  "program_vip v e =
     (case split_once CH_EQ v of
        Some (g_s, vip_s) \<Rightarrow>
          and_then (arg_ipv4 g_s) (\<lambda>g.
          and_then (arg_ipv4 vip_s) (\<lambda>vip.
          and_then (Vips_upsert \<lparr>vk_vni = 0, vk_ipv4 = g\<rparr> vip e)
            (Vips_upsert \<lparr>vk_vni = 0, vk_ipv4 = vip\<rparr> g)))
      | None \<Rightarrow> Inl (BadArg ''--vip''))"

definition program_routes :: "BringupArgs \<Rightarrow> ebpf \<Rightarrow> cli_error + ebpf" where
  "program_routes a e =
     and_then (take_map ''ROUTES6'' e) (\<lambda>e.
     and_then (for_each program_remote6 (br_remotes6 a) e) (\<lambda>e.
     and_then (collect_externals (br_externals a)) (\<lambda>ext.
     and_then (take_map ''ROUTES'' e) (\<lambda>e.
     and_then (for_each (program_remote ext) (br_remotes a) e) (\<lambda>e.
     and_then (take_map ''VIPS'' e)
       (for_each program_vip (br_vips a)))))))"

section \<open>Load balancers\<close>

text \<open>\<^verbatim>\<open>it.next().context(..)?\<close> on the fields of a split text.\<close>

definition next_field :: "string \<Rightarrow> bytes list \<Rightarrow> (bytes \<Rightarrow> bytes list \<Rightarrow> cli_error + 'a) \<Rightarrow> cli_error + 'a" where
  "next_field err fs k = (case fs of [] \<Rightarrow> Inl (BadArg err) | f # fs \<Rightarrow> k f fs)"

type_synonym lb_spec = "bytes \<times> u16 \<times> u8 \<times> bytes"

definition parse_lb_spec :: "bytes \<Rightarrow> cli_error + lb_spec" where
  "parse_lb_spec spec =
     next_field ''--lb: missing ipv4'' (split_on CH_COLON spec) (\<lambda>ip_s fs.
     and_then (arg_ipv4 ip_s) (\<lambda>ip.
     next_field ''--lb: missing port'' fs (\<lambda>port_s fs.
     and_then (parse_u16 port_s) (\<lambda>port.
     next_field ''--lb: missing proto'' fs (\<lambda>proto_s fs.
     and_then (parse_u8 proto_s) (\<lambda>proto.
     and_then (arg_ipv6 (trim (join_with CH_COLON fs))) (\<lambda>ul. Inr (ip, port, proto, ul))))))))"

text \<open>The maps the command builds while it reads the balancers: table ids by service and backends by
  table id, with the next id.\<close>

record lb_plan =
  lp_table_ids :: "(lb_spec \<times> u32) list"
  lp_backends :: "(u32 \<times> bytes list) list"
  lp_next :: u32

definition program_lb :: "bytes \<Rightarrow> ebpf \<times> lb_plan \<Rightarrow> cli_error + ebpf \<times> lb_plan" where
  "program_lb lb st =
     and_then (parse_lb_spec lb) (\<lambda>(ip, port, proto, ul).
       let tid = lp_next (snd st);
           plan = \<lparr>lp_table_ids = AList.update (ip, port, proto, ul) tid (lp_table_ids (snd st)),
                   lp_backends = AList.update tid [] (lp_backends (snd st)), lp_next = tid + 1\<rparr>
       in and_then (Lb_upsert \<lparr>lk_vni = 0, lk_ipv4 = ip, lk_port = port, lk_proto = proto\<rparr>
                      \<lparr>lv_table_id = tid, lv_size = 1021\<rparr> (fst st)) (\<lambda>e.
          and_then (Underlay_upsert ul \<lparr>uv_vni = 0, uv_tap_ifindex = 0, uv_guest_mac = replicate 6 0\<rparr> e) (\<lambda>e.
            Inr (e, plan))))"

definition plan_target :: "bytes \<Rightarrow> lb_plan \<Rightarrow> cli_error + lb_plan" where
  "plan_target t plan =
     (case split_once CH_EQ t of
        Some (spec_s, backend_s) \<Rightarrow>
          and_then (parse_lb_spec spec_s) (\<lambda>spec.
          and_then (arg_ipv6 backend_s) (\<lambda>backend.
            case map_of (lp_table_ids plan) spec of
              None \<Rightarrow> Inl (BadArg ''--lb-target references an unknown --lb service'')
            | Some tid \<Rightarrow>
                (case map_of (lp_backends plan) tid of
                   None \<Rightarrow> Inl Panic
                 | Some bes \<Rightarrow> Inr (plan\<lparr>lp_backends := AList.update tid (bes @ [backend]) (lp_backends plan)\<rparr>))))
      | None \<Rightarrow> Inl (BadArg ''--lb-target''))"

text \<open>\<^verbatim>\<open>maglev::build\<close> always returns; \<open>None\<close> is its value if it did not.\<close>

definition write_slot :: "u32 \<Rightarrow> bytes list \<Rightarrow> nat \<times> u32 \<Rightarrow> ebpf \<Rightarrow> cli_error + ebpf" where
  "write_slot tid bes sb e =
     (if unat (snd sb) < length bes
      then Maglev_upsert \<lparr>mk_table_id = tid, mk_slot = of_nat (fst sb)\<rparr> (bes ! unat (snd sb)) e
      else Inl Panic)"

definition write_table :: "u32 \<times> bytes list \<Rightarrow> ebpf \<Rightarrow> cli_error + ebpf" where
  "write_table tb e =
     (if snd tb = [] then Inr e
      else case maglev_build (snd tb) of
             None \<Rightarrow> Inl Panic
           | Some table \<Rightarrow> for_each (write_slot (fst tb) (snd tb)) (enumerate 0 table) e)"

definition program_lbs :: "BringupArgs \<Rightarrow> ebpf \<Rightarrow> cli_error + ebpf" where
  "program_lbs a e =
     and_then (take_map ''LB'' e) (\<lambda>e.
     and_then (take_map ''MAGLEV'' e) (\<lambda>e.
     and_then (for_each program_lb (br_lbs a) (e, \<lparr>lp_table_ids = [], lp_backends = [], lp_next = 1\<rparr>)) (\<lambda>(e, plan).
     and_then (for_each plan_target (br_lb_targets a) plan) (\<lambda>plan.
       for_each write_table (lp_backends plan) e))))"

section \<open>NAT\<close>

text \<open>An address and a port range, separated by colons; fields behind them are ignored.\<close>

definition parse_nat_range :: "string \<Rightarrow> bytes \<Rightarrow> cli_error + bytes \<times> u16 \<times> u16" where
  "parse_nat_range err s =
     next_field err (split_on CH_COLON s) (\<lambda>nat_s fs.
     and_then (arg_ipv4 nat_s) (\<lambda>nat_ip.
     next_field err fs (\<lambda>pmin_s fs.
     and_then (parse_u16 pmin_s) (\<lambda>pmin.
     next_field err fs (\<lambda>pmax_s fs.
     and_then (parse_u16 pmax_s) (\<lambda>pmax. Inr (nat_ip, pmin, pmax)))))))"

definition program_nat :: "bytes \<Rightarrow> ebpf \<Rightarrow> cli_error + ebpf" where
  "program_nat n e =
     (case split_once CH_EQ n of
        None \<Rightarrow> Inl (BadArg ''--nat'')
      | Some (gip_s, cfg) \<Rightarrow>
          and_then (arg_ipv4 gip_s) (\<lambda>gip.
          and_then (parse_nat_range ''--nat'' cfg) (\<lambda>(nat_ip, pmin, pmax).
          and_then (Nat_upsert \<lparr>nk_vni = 0, nk_ipv4 = gip\<rparr>
                      \<lparr>nv_nat_ipv4 = nat_ip, nv_port_min = pmin, nv_port_max = pmax\<rparr> e) (\<lambda>e.
            case NatIps_set 0 nat_ip e of Inr e' \<Rightarrow> Inr e' | Inl _ \<Rightarrow> Inr e))))"

definition program_nats :: "BringupArgs \<Rightarrow> ebpf \<Rightarrow> cli_error + ebpf" where
  "program_nats a e =
     and_then (take_map ''NAT'' e) (\<lambda>e.
     and_then (take_map ''NAT_IPS'' e)
       (for_each program_nat (br_nats a)))"

section \<open>Firewall\<close>

definition parse_cidr :: "bytes \<Rightarrow> cli_error + bytes \<times> bytes" where
  "parse_cidr s =
     (case split_once CH_SLASH s of
        None \<Rightarrow> Inl (BadArg ''--fw-rule: cidr must be ip/len'')
      | Some (ip_s, len_s) \<Rightarrow>
          and_then (arg_ipv4 ip_s) (\<lambda>ip.
          and_then (read_u32 len_s) (\<lambda>len.
            if len \<le> 32
            then Inr (ip, u32_be (if len = 0 then 0 else push_bit (32 - unat len) (- 1)))
            else Inl (BadArg ''--fw-rule: prefix length > 32''))))"

definition parse_dport :: "bytes \<Rightarrow> cli_error + u16 \<times> u16" where
  "parse_dport s = (if s = ascii ''*'' then Inr (0, 65535) else and_then (parse_u16 s) (\<lambda>p. Inr (p, p)))"

definition lookup_word :: "string \<Rightarrow> (string \<times> 'a) list \<Rightarrow> bytes \<Rightarrow> cli_error + 'a" where
  "lookup_word err table w =
     (case List.find (\<lambda>(k, _). ascii k = w) table of Some (_, v) \<Rightarrow> Inr v | None \<Rightarrow> Inl (BadArg err))"

definition parse_fw_rule :: "host \<Rightarrow> bytes \<Rightarrow> cli_error + u32 \<times> FwRule" where
  "parse_fw_rule h spec =
     (case split_on CH_COLON spec of
        [ifname, dir_s, act_s, proto_s, src_s, dst_s, dport_s] \<Rightarrow>
          and_then (ifindex h ifname) (\<lambda>ix.
          and_then (lookup_word ''--fw-rule dir'' [(''in'', FW_DIR_INGRESS), (''eg'', FW_DIR_EGRESS)] dir_s) (\<lambda>dir.
          and_then (lookup_word ''--fw-rule action'' [(''accept'', FW_ACTION_ACCEPT), (''drop'', FW_ACTION_DROP)] act_s) (\<lambda>act.
          and_then (lookup_word ''--fw-rule proto'' [(''any'', 0), (''icmp'', 1), (''tcp'', 6), (''udp'', 17)] proto_s) (\<lambda>proto.
          and_then (parse_cidr src_s) (\<lambda>(src_ip, src_mask).
          and_then (parse_cidr dst_s) (\<lambda>(dst_ip, dst_mask).
          and_then (parse_dport dport_s) (\<lambda>(pmin, pmax).
            Inr (ix, \<lparr>fr_src_ip = src_ip, fr_src_mask = src_mask, fr_dst_ip = dst_ip, fr_dst_mask = dst_mask,
                      fr_src_port_min = 0, fr_src_port_max = 65535, fr_dst_port_min = pmin, fr_dst_port_max = pmax,
                      fr_icmp_type = 0xffff, fr_icmp_code = 0xffff, fr_proto = proto, fr_action = act,
                      fr_direction = dir, fr_enabled = 1\<rparr>))))))))
      | _ \<Rightarrow> Inl (BadArg ''--fw-rule''))"

text \<open>The slot to use next and the rule counts, by interface.\<close>

record fw_plan =
  fp_slots :: "(u32 \<times> u32) list"
  fp_counts :: "(u32 \<times> FwMeta) list"

definition place_rule :: "u32 \<times> FwRule \<Rightarrow> ebpf \<times> fw_plan \<Rightarrow> cli_error + ebpf \<times> fw_plan" where
  "place_rule ir st =
     (let ix = fst ir; rule = snd ir; plan = snd st;
          slot = (case map_of (fp_slots plan) ix of Some n \<Rightarrow> n | None \<Rightarrow> 0);
          c = (case map_of (fp_counts plan) ix of Some c \<Rightarrow> c | None \<Rightarrow> \<lparr>fm_ingress_count = 0, fm_egress_count = 0\<rparr>);
          c = (if fr_direction rule = FW_DIR_EGRESS then c\<lparr>fm_egress_count := fm_egress_count c + 1\<rparr>
               else c\<lparr>fm_ingress_count := fm_ingress_count c + 1\<rparr>)
      in if unat slot < FW_MAX_RULES
         then and_then (FwRules_upsert \<lparr>fk_ifindex = ix, fk_idx = slot\<rparr> rule (fst st)) (\<lambda>e.
                Inr (e, \<lparr>fp_slots = AList.update ix (slot + 1) (fp_slots plan), fp_counts = AList.update ix c (fp_counts plan)\<rparr>))
         else Inl (BadArg ''--fw-rule: too many rules''))"

definition program_fw_rule :: "host \<Rightarrow> bytes \<Rightarrow> ebpf \<times> fw_plan \<Rightarrow> cli_error + ebpf \<times> fw_plan" where
  "program_fw_rule h spec st = and_then (parse_fw_rule h spec) (\<lambda>ir. place_rule ir st)"

definition program_firewall :: "host \<Rightarrow> BringupArgs \<Rightarrow> ebpf \<Rightarrow> cli_error + ebpf" where
  "program_firewall h a e =
     and_then (take_map ''FW_RULES'' e) (\<lambda>e.
     and_then (take_map ''FW_META'' e) (\<lambda>e.
     and_then (take_map ''FW_CONFIG'' e) (\<lambda>e.
     and_then (FwConfig_set (if br_firewall_enforce a then 1 else 0) e) (\<lambda>e.
     and_then (for_each (program_fw_rule h) (br_fw_rules a) (e, \<lparr>fp_slots = [], fp_counts = []\<rparr>)) (\<lambda>(e, plan).
       for_each (\<lambda>(ix, c). FwMetaMap_upsert ix c) (fp_counts plan) e)))))"

section \<open>Markers, neighbour NAT, metering, DHCP\<close>

definition program_marker :: "bytes \<Rightarrow> ebpf \<Rightarrow> cli_error + ebpf" where
  "program_marker spec e =
     (case rsplit_once CH_COLON spec of
        None \<Rightarrow> Inl (BadArg ''--underlay-marker'')
      | Some (ip_s, vni_s) \<Rightarrow>
          and_then (read_u32 vni_s) (\<lambda>vni.
          and_then (arg_ipv6 ip_s) (\<lambda>ul.
            Underlay_upsert ul \<lparr>uv_vni = vni, uv_tap_ifindex = 0, uv_guest_mac = replicate 6 0\<rparr> e)))"

definition program_neigh_nat :: "bytes \<Rightarrow> ebpf \<times> u32 \<Rightarrow> cli_error + ebpf \<times> u32" where
  "program_neigh_nat spec st =
     (if unat (snd st) < NB_MAX_ENTRIES
      then case splitn 3 CH_AT spec of
             [head_s, ul_s, vni_s] \<Rightarrow>
               and_then (read_u32 vni_s) (\<lambda>vni.
               and_then (arg_ipv6 ul_s) (\<lambda>ul.
               and_then (parse_nat_range ''--neigh-nat'' head_s) (\<lambda>(nat_ip, pmin, pmax).
               and_then (NeighborNat_upsert (snd st)
                           \<lparr>nn_underlay = ul, nn_nat_ip = nat_ip, nn_vni = vni, nn_port_min = pmin,
                            nn_port_max = pmax, nn_enabled = 1\<rparr> (fst st)) (\<lambda>e.
                 Inr (e, snd st + 1)))))
           | _ \<Rightarrow> Inl (BadArg ''--neigh-nat'')
      else Inl (BadArg ''--neigh-nat: too many entries''))"

definition program_neigh_nats :: "BringupArgs \<Rightarrow> ebpf \<Rightarrow> cli_error + ebpf" where
  "program_neigh_nats a e =
     and_then (take_map ''NEIGHBOR_NAT'' e) (\<lambda>e.
     and_then (take_map ''NEIGHBOR_NAT_COUNT'' e) (\<lambda>e.
     and_then (for_each program_neigh_nat (br_neigh_nats a) (e, 0)) (\<lambda>(e, n).
       NeighborNatCount_set n e)))"

definition program_meter :: "host \<Rightarrow> bytes \<Rightarrow> ebpf \<Rightarrow> cli_error + ebpf" where
  "program_meter h spec e =
     (case split_once CH_EQ spec of
        None \<Rightarrow> Inl (BadArg ''--meter'')
      | Some (ifname, rates) \<Rightarrow>
          (case split_once CH_COLON rates of
             None \<Rightarrow> Inl (BadArg ''--meter rates'')
           | Some (total_s, public_s) \<Rightarrow>
               and_then (parse_u64 total_s) (\<lambda>total.
               and_then (parse_u64 public_s) (\<lambda>public.
               and_then (ifindex h ifname) (\<lambda>tap.
                 Meter_upsert tap (meter_state total public) e)))))"

definition dhcp_config :: "u16 \<Rightarrow> bytes list \<Rightarrow> bytes list \<Rightarrow> DhcpConfig" where
  "dhcp_config mtu dns4 dns6 =
     \<lparr>dc_mtu = mtu, dc_dns4_len = of_nat (min (length dns4) DHCP_MAX_DNS),
      dc_dns6_len = of_nat (min (length dns6) DHCP_MAX_DNS),
      dc_dns4 = take DHCP_MAX_DNS dns4 @ replicate (DHCP_MAX_DNS - length dns4) (replicate 4 0),
      dc_dns6 = take DHCP_MAX_DNS dns6 @ replicate (DHCP_MAX_DNS - length dns6) (replicate 16 0)\<rparr>"

definition program_dhcp :: "u32 \<Rightarrow> bytes list \<Rightarrow> bytes list \<Rightarrow> ebpf \<Rightarrow> cli_error + ebpf" where
  "program_dhcp mtu dns4 dns6 e =
     and_then (take_map ''DHCP_CONFIG'' e)
       (DhcpConfigMap_set (dhcp_config (ucast mtu) (List.map_filter parse_ipv4 dns4) (List.map_filter parse_ipv6 dns6)))"

section \<open>The command\<close>

definition program_rest :: "host \<Rightarrow> BringupArgs \<Rightarrow> ebpf \<Rightarrow> cli_error + ebpf" where
  "program_rest h a e =
     and_then (for_each program_marker (br_underlay_markers a) e) (\<lambda>e.
     and_then (program_neigh_nats a e) (\<lambda>e.
     and_then (take_map ''METER'' e) (\<lambda>e.
     and_then (for_each (program_meter h) (br_meters a) e)
       (program_dhcp (case br_dhcp_mtu a of Some m \<Rightarrow> m | None \<Rightarrow> 1500) (br_dhcp_dns a) (br_dhcpv6_dns a)))))"

definition keep_conntrack :: "host \<Rightarrow> bytes option \<Rightarrow> ebpf \<Rightarrow> cli_error + ebpf" where
  "keep_conntrack h pin_dir e =
     and_then (case pin_dir of Some dir \<Rightarrow> pin_map h ''CONNTRACK'' dir e | None \<Rightarrow> Inr e) (take_map ''CONNTRACK'')"

definition bringup :: "host \<Rightarrow> BringupArgs \<Rightarrow> cli_error + ebpf" where
  "bringup h a =
     (let h = with_conntrack_max (br_conntrack_max a) h
      in and_then (load_ebpf h) (\<lambda>e.
         and_then (attach_all h a e) (\<lambda>e.
         and_then (program_node h a e) (\<lambda>e.
         and_then (program_routes a e) (\<lambda>e.
         and_then (program_lbs a e) (\<lambda>e.
         and_then (program_nats a e) (\<lambda>e.
         and_then (program_firewall h a e) (\<lambda>e.
         and_then (program_rest h a e)
           (keep_conntrack h (br_pin_dir a))))))))))"

end
