(* ===== verification/Commands.thy ===== *)
theory Commands
  imports Bringup Grpc
begin

text \<open>
  The other commands of \<^verbatim>\<open>xdp-dp/src/main.rs\<close> and their dispatch: \<^verbatim>\<open>Serve\<close> with
  \<^verbatim>\<open>Control::bring_up\<close> of \<^verbatim>\<open>control.rs\<close>, \<^verbatim>\<open>TcBringup\<close>, \<^verbatim>\<open>Load\<close>, \<^verbatim>\<open>Pass\<close> and \<^verbatim>\<open>Inspect\<close>. A
  command that returns an object keeps it until it is interrupted.
\<close>

section \<open>Serve\<close>

definition guest_tc_mode :: "host \<Rightarrow> bool" where
  "guest_tc_mode h =
     (case hs_var h ''XDP_DP_GUEST_TC'' of
        Some v \<Rightarrow> v \<notin> set (map ascii [''0'', ''false'', ''no'', ''off''])
      | None \<Rightarrow> True)"

definition register_guest :: "host \<Rightarrow> bool \<Rightarrow> ebpf \<Rightarrow> cli_error + ebpf" where
  "register_guest h tc e =
     (if tc then and_then (register_guest_dhcp_tc h e) (load_program_tc h ''tc_guest_tx'')
      else and_then (load_program h ''guest_tx'' e) (register_guest_dhcp h))"

text \<open>The tables \<^verbatim>\<open>bring_up\<close> opens after \<^verbatim>\<open>LOCAL\<close>, in order.\<close>

definition control_maps :: "string list" where
  "control_maps =
     [''PORT_META'', ''INTERFACES'', ''ROUTES'', ''ROUTES6'', ''VIPS'', ''LB'', ''MAGLEV'', ''NAT'', ''FW_RULES'', ''FW_META'',
      ''UNDERLAY'', ''METER'', ''NEIGHBOR_NAT'', ''NEIGHBOR_NAT_COUNT'', ''NAT_IPS'', ''DHCP_CONFIG'', ''DHCP_META'', ''CONNTRACK'']"

definition control_bring_up :: "host \<Rightarrow> bytes \<Rightarrow> u32 \<Rightarrow> bytes \<Rightarrow> bytes \<Rightarrow> bytes \<Rightarrow> cli_error + ebpf \<times> ctl" where
  "control_bring_up h uplink uplink_ifindex uplink_mac gateway_mac underlay_ipv6 =
     and_then (load_ebpf h) (\<lambda>e.
     and_then (attach_xdp h ''uplink_rx'' uplink e) (\<lambda>e.
     and_then (register_guest h (guest_tc_mode h) e) (\<lambda>e.
     and_then (take_map ''LOCAL'' e) (\<lambda>e.
     and_then (LocalMap_set \<lparr>lo_uplink_ifindex = uplink_ifindex, lo_uplink_mac = uplink_mac,
                 lo_gateway_mac = gateway_mac, lo_underlay_ipv6 = underlay_ipv6\<rparr> e) (\<lambda>e.
     and_then (for_each take_map control_maps e) (\<lambda>e.
       Inr (e, \<lparr>tabs = eb_tabs e, neigh_nats = [], lbs = [], next_table_id = 1, by_id = [], by_ifindex = [],
                iface_underlay = [], prefixes = [], fw = [], lb_prefixes = [], links = [],
                guest_tc = guest_tc_mode h, routes_shadow = [], routes6_shadow = [], learned_macs = []\<rparr>)))))))"

record ServeArgs =
  sa_addr :: bytes
  sa_uplink :: bytes
  sa_local_underlay :: bytes
  sa_gateway_mac :: bytes
  sa_conntrack_max :: "u32 option"
  sa_gateway :: bytes
  sa_gateway6 :: "bytes option"
  sa_pin_dir :: "bytes option"
  sa_dhcp_mtu :: "u32 option"
  sa_dhcp_dns :: "bytes list"
  sa_dhcpv6_dns :: "bytes list"

definition start_service :: "host \<Rightarrow> ServeArgs \<Rightarrow> bytes \<Rightarrow> bytes \<Rightarrow> bytes \<Rightarrow> ebpf \<times> ctl \<Rightarrow> cli_error + ebpf \<times> Service" where
  "start_service h a ul gw gw6 eg =
     (let mtu = (case sa_dhcp_mtu a of Some m \<Rightarrow> m | None \<Rightarrow> 1500);
          (r, g) = set_dhcp_config (ucast mtu) (List.map_filter parse_ipv4 (sa_dhcp_dns a))
                     (List.map_filter parse_ipv6 (sa_dhcpv6_dns a)) (snd eg)
      in case r of
           Inl _ \<Rightarrow> Inl ServiceError
         | Inr _ \<Rightarrow>
             if hs_listen h (sa_addr a)
             then Inr (fst eg, \<lparr>sv_state = None, sv_control = Some g, sv_underlay = ul, sv_gateway_ipv4 = gw, sv_gateway_ipv6 = gw6\<rparr>)
             else Inl ServiceError)"

definition serve_command :: "host \<Rightarrow> ServeArgs \<Rightarrow> cli_error + ebpf \<times> Service" where
  "serve_command h a =
     (let h = with_conntrack_max (sa_conntrack_max a) h
      in and_then (arg_ipv6 (sa_local_underlay a)) (\<lambda>ul.
         and_then (arg_ipv4 (sa_gateway a)) (\<lambda>gw.
         and_then (opt_ipv6 (sa_gateway6 a)) (\<lambda>gw6.
         and_then (ifindex h (sa_uplink a)) (\<lambda>ix.
         and_then (mac_of h (sa_uplink a)) (\<lambda>mac.
         and_then (parse_mac (sa_gateway_mac a)) (\<lambda>gmac.
         and_then (control_bring_up h (sa_uplink a) ix mac gmac ul)
           (start_service h a ul gw gw6))))))))"

section \<open>TcBringup\<close>

record TcArgs =
  ta_tap :: bytes
  ta_guest_ipv4 :: bytes
  ta_gateway_ipv4 :: bytes
  ta_gateway6 :: bytes
  ta_guest_mac :: bytes
  ta_gateway_mac :: bytes
  ta_dhcp_mtu :: u32
  ta_dhcp_dns :: "bytes list"
  ta_uplink :: "bytes option"
  ta_local_underlay :: bytes
  ta_guest_underlay :: bytes
  ta_remotes :: "bytes list"
  ta_guest6 :: "bytes option"
  ta_remotes6 :: "bytes list"

text \<open>Here \<^verbatim>\<open>--remote\<close> takes a bare address.\<close>

definition tc_remote :: "bytes \<Rightarrow> ebpf \<Rightarrow> cli_error + ebpf" where
  "tc_remote r e =
     (case split_on CH_EQ r of
        [ip_s, nh_s, vni_s] \<Rightarrow>
          and_then (arg_ipv4 ip_s) (\<lambda>ip.
          and_then (arg_ipv6 nh_s) (\<lambda>nh.
          and_then (read_u32 vni_s) (\<lambda>vni.
            Routes_upsert vni ip 32 \<lparr>rv_nexthop_vni = vni, rv_nexthop_ipv6 = nh, rv_is_external = 0\<rparr> e)))
      | _ \<Rightarrow> Inl (BadArg ''--remote''))"

definition tc_tables :: "host \<Rightarrow> TcArgs \<Rightarrow> u32 \<Rightarrow> bytes \<Rightarrow> bytes \<Rightarrow> ebpf \<Rightarrow> cli_error + ebpf" where
  "tc_tables h a tap mac ul e =
     and_then (case ta_uplink a of
                 Some up \<Rightarrow> set_local h up (ta_gateway_mac a) (ta_local_underlay a) e
               | None \<Rightarrow> Inr e) (\<lambda>e.
     and_then (take_map ''UNDERLAY'' e) (\<lambda>e.
     and_then (Underlay_upsert ul \<lparr>uv_vni = 100, uv_tap_ifindex = tap, uv_guest_mac = mac\<rparr> e) (\<lambda>e.
     and_then (take_map ''ROUTES'' e) (\<lambda>e.
     and_then (for_each tc_remote (ta_remotes a) e) (\<lambda>e.
     and_then (take_map ''ROUTES6'' e) (\<lambda>e.
     and_then (for_each program_remote6 (ta_remotes6 a) e)
       (program_dhcp (ta_dhcp_mtu a) (ta_dhcp_dns a) [])))))))"

definition tc_bringup :: "host \<Rightarrow> TcArgs \<Rightarrow> cli_error + ebpf" where
  "tc_bringup h a =
     and_then (load_ebpf h) (\<lambda>e.
     and_then (ifindex h (ta_tap a)) (\<lambda>tap.
     and_then (parse_mac (ta_guest_mac a)) (\<lambda>mac.
     and_then (arg_ipv6 (ta_guest_underlay a)) (\<lambda>ul.
     and_then (opt_ipv6 (ta_guest6 a)) (\<lambda>g6.
     and_then (attach_tc_clsact_ingress h ''tc_guest_tx'' (ta_tap a) e) (\<lambda>e.
     and_then (register_guest_dhcp_tc h e) (\<lambda>e.
     and_then (take_map ''PORT_META'' e) (\<lambda>e.
     and_then (arg_ipv4 (ta_guest_ipv4 a)) (\<lambda>gip.
     and_then (arg_ipv4 (ta_gateway_ipv4 a)) (\<lambda>gw.
     and_then (arg_ipv6 (ta_gateway6 a)) (\<lambda>gw6.
     and_then (PortMetaMap_upsert tap
                 \<lparr>pm_vni = 100, pm_guest_ipv4 = gip, pm_gateway_ipv4 = gw, pm_guest_mac = mac, pm_underlay_ipv6 = ul,
                  pm_gateway_ipv6 = gw6, pm_guest_ipv6 = g6\<rparr> e)
       (tc_tables h a tap mac ul))))))))))))"

section \<open>The packet inspector\<close>

text \<open>The program \<^verbatim>\<open>xdp_inspect\<close> of \<^verbatim>\<open>xdp-dp-ebpf/src/inspect.rs\<close> and its one-entry table, which the
  command \<^verbatim>\<open>Inspect\<close> prints whenever the counter has moved.\<close>

record InspectEntry =
  ie_len :: u32
  ie_seen :: u32
  ie_bytes :: bytes

definition try_inspect :: "xdp_ctx \<Rightarrow> InspectEntry list \<Rightarrow> xdp_action \<times> InspectEntry list" where
  "try_inspect ctx table =
     (XDP_PASS,
      case table of
        entry # _ \<Rightarrow>
          table[0 := \<lparr>ie_len = of_nat (length (pkt ctx)), ie_seen = ie_seen entry + 1,
                       ie_bytes = (case load_bytes (pkt ctx) 0 32 of Some b \<Rightarrow> b | None \<Rightarrow> replicate 32 0)\<rparr>]
      | [] \<Rightarrow> table)"

section \<open>The remaining commands\<close>

definition inspect_command :: "host \<Rightarrow> bytes \<Rightarrow> cli_error + ebpf" where
  "inspect_command h iface =
     and_then (load_ebpf h) (\<lambda>e.
     and_then (load_program h ''xdp_inspect'' e) (\<lambda>e.
     and_then (attach_fallback h ''xdp_inspect'' iface e)
       (take_map ''INSPECT'')))"

datatype Cmd =
    Load bytes
  | Serve ServeArgs
  | Pass_on bytes
  | Inspect bytes
  | Bringup BringupArgs
  | TcBringup TcArgs

text \<open>What a command runs until it is interrupted: a loaded object, a server on one, or, for
  \<^verbatim>\<open>--adopt\<close>, only the aging of a conntrack table pinned earlier.\<close>

datatype running = Datapath ebpf | Server ebpf Service | Aging bytes

definition adopt :: "host \<Rightarrow> bytes option \<Rightarrow> (bytes \<Rightarrow> bool) \<Rightarrow> cli_error + running" where
  "adopt h pin_dir pinned =
     (case pin_dir of
        None \<Rightarrow> Inl (BadArg ''--adopt requires --pin-dir'')
      | Some dir \<Rightarrow>
          let path = dir @ ascii ''/CONNTRACK''
          in if pinned path then Inr (Aging path) else Inl (PinFailed path))"

definition run_command :: "host \<Rightarrow> (bytes \<Rightarrow> bool) \<Rightarrow> Cmd \<Rightarrow> cli_error + running" where
  "run_command h pinned c =
     (case c of
        Load uplink \<Rightarrow> and_then (attach_uplink h uplink) (\<lambda>e. Inr (Datapath e))
      | Serve a \<Rightarrow> and_then (serve_command h a) (\<lambda>(e, svc). Inr (Server e svc))
      | Pass_on iface \<Rightarrow> and_then (load_ebpf h) (\<lambda>e. and_then (attach_xdp h ''xdp_pass'' iface e) (\<lambda>e. Inr (Datapath e)))
      | Inspect iface \<Rightarrow> and_then (inspect_command h iface) (\<lambda>e. Inr (Datapath e))
      | Bringup a \<Rightarrow>
          if br_adopt a then adopt h (br_pin_dir a) pinned else and_then (bringup h a) (\<lambda>e. Inr (Datapath e))
      | TcBringup a \<Rightarrow> and_then (tc_bringup h a) (\<lambda>e. Inr (Datapath e)))"

end
