(* ===== verification/Boot_Safety.thy ===== *)
theory Boot_Safety
  imports Commands
begin

text \<open>
  The commands use the loaded object correctly: whatever the arguments and the machine, no command
  asks for a program or a table that is not there, loads a program twice, attaches one that was not
  loaded, or runs into a failing \<^verbatim>\<open>unwrap\<close> or index. The calculus follows the sequence of operations:
  \<open>safe r Q\<close> holds when the result \<open>r\<close> is no such error and a value of it satisfies \<open>Q\<close>.
\<close>

named_theorems safe_rules

definition misuse :: "cli_error \<Rightarrow> bool" where
  "misuse x = (case x of ProgramMissing _ \<Rightarrow> True | AlreadyLoaded _ \<Rightarrow> True | NotLoaded _ \<Rightarrow> True | MapMissing _ \<Rightarrow> True
     | Panic \<Rightarrow> True | _ \<Rightarrow> False)"

definition safe :: "cli_error + 'a \<Rightarrow> ('a \<Rightarrow> bool) \<Rightarrow> bool" where
  "safe r Q = (case r of Inl x \<Rightarrow> \<not> misuse x | Inr y \<Rightarrow> Q y)"

lemma safe_Inr [simp]: "safe (Inr y) Q = Q y"
  by (simp add: safe_def)

lemma safe_mono: "safe r P \<Longrightarrow> (\<And>y. P y \<Longrightarrow> Q y) \<Longrightarrow> safe r Q"
  by (auto simp: safe_def split: sum.splits)

lemma safe_and_then: "safe r (\<lambda>x. safe (f x) Q) \<Longrightarrow> safe (and_then r f) Q"
  by (cases r) (simp_all add: safe_def)

lemma safe_then: "safe r P \<Longrightarrow> (\<And>x. P x \<Longrightarrow> safe (f x) Q) \<Longrightarrow> safe (and_then r f) Q"
  by (rule safe_and_then) (rule safe_mono)

lemma safe_for_each:
  assumes "P s" "\<And>x s. x \<in> set xs \<Longrightarrow> P s \<Longrightarrow> safe (f x s) P"
  shows "safe (for_each f xs s) P"
  using assms
proof (induction xs arbitrary: s)
  case (Cons x xs)
  have "safe (f x s) P" using Cons.prems by simp
  then show ?case using Cons.IH Cons.prems(2) by (auto intro!: safe_then)
qed simp

section \<open>Reading arguments\<close>

lemma safe_texts [safe_rules]:
  "safe (number n s) (\<lambda>_. True)" "safe (parse_u8 s) (\<lambda>_. True)" "safe (parse_u16 s) (\<lambda>_. True)"
  "safe (read_u32 s) (\<lambda>_. True)" "safe (parse_u64 s) (\<lambda>_. True)" "safe (arg_ipv4 s) (\<lambda>_. True)"
  "safe (arg_ipv6 s) (\<lambda>_. True)" "safe (opt_ipv6 o6) (\<lambda>_. True)"
  by (simp_all add: number_def parse_u8_def parse_u16_def read_u32_def parse_u64_def arg_ipv4_def arg_ipv6_def opt_ipv6_def
      safe_def misuse_def and_then_def split: option.splits sum.splits)

lemma safe_mac_octets: "safe (mac_octets i out parts) (\<lambda>_. True)"
  by (induction i out parts rule: mac_octets.induct) (auto simp: safe_def misuse_def split: option.splits)

lemma safe_parse_mac [safe_rules]: "safe (parse_mac s) (\<lambda>_. True)"
  using safe_mac_octets [of 0 "replicate 6 0" "split_on 58 s"]
  by (auto simp: parse_mac_def safe_def misuse_def and_then_def split: sum.splits)

lemma safe_netdev [safe_rules]: "safe (ifindex h iface) (\<lambda>_. True)" "safe (mac_of h iface) (\<lambda>_. True)"
  using safe_texts(4) safe_parse_mac
  by (auto simp: ifindex_def mac_of_def safe_def misuse_def split: option.splits)

section \<open>Operations on the object\<close>

text \<open>A table write changes neither what was taken nor what was loaded.\<close>

definition framed :: "ebpf \<Rightarrow> ebpf \<Rightarrow> bool" where
  "framed e e' = (eb_taken e' = eb_taken e \<and> eb_loaded e' = eb_loaded e)"

lemma framed_refl [simp]: "framed e e"
  by (simp add: framed_def)

lemma framed_trans: "framed a b \<Longrightarrow> framed b c \<Longrightarrow> framed a c"
  by (simp add: framed_def)

lemma safe_write: "safe (table_write f e) (framed e)"
  by (auto simp: table_write_def safe_def misuse_def framed_def split: sum.splits)

lemma safe_after_write: "(\<And>e'. framed e e' \<Longrightarrow> safe (k e') Q) \<Longrightarrow> safe (and_then (table_write f e) k) Q"
  using safe_write by (rule safe_then)

lemmas write_defs = Interfaces_upsert_def LocalMap_set_def PortMetaMap_upsert_def Routes_upsert_def Routes6_upsert_def
  Vips_upsert_def Lb_upsert_def Maglev_upsert_def Nat_upsert_def FwRules_upsert_def FwMetaMap_upsert_def FwConfig_set_def
  Underlay_upsert_def NeighborNat_upsert_def Meter_upsert_def NatIps_set_def NeighborNatCount_set_def DhcpConfigMap_set_def

lemma safe_take:
  "n \<in> set object_maps \<Longrightarrow> n \<notin> set (eb_taken e) \<Longrightarrow>
     safe (take_map n e) (\<lambda>e'. eb_taken e' = n # eb_taken e \<and> eb_loaded e' = eb_loaded e)"
  by (simp add: take_map_def)

text \<open>Loading a program that is not loaded yet, and attaching one that is.\<close>

lemma safe_load:
  "(n, k) \<in> set object_programs \<Longrightarrow> n \<notin> set (eb_loaded e) \<Longrightarrow>
     safe (and_then (program k n) (\<lambda>_. prog_load h n e)) (\<lambda>e'. eb_taken e' = eb_taken e \<and> eb_loaded e' = n # eb_loaded e)"
  by (simp add: program_def prog_load_def safe_def misuse_def)

lemma safe_attach:
  "n \<in> set (eb_loaded e) \<Longrightarrow> safe (prog_attach h n iface m e) (framed e)"
  "n \<in> set (eb_loaded e) \<Longrightarrow> safe (attach_fallback h n iface e) (framed e)"
  by (auto simp: prog_attach_def attach_fallback_def safe_def misuse_def framed_def split: sum.splits)

lemma safe_load_attach:
  assumes "(n, k) \<in> set object_programs" "n \<notin> set (eb_loaded e)"
  shows "safe (and_then (program k n) (\<lambda>_. and_then (prog_load h n e) (prog_attach h n iface m)))
    (\<lambda>e'. eb_taken e' = eb_taken e \<and> eb_loaded e' = n # eb_loaded e)"
proof -
  have "safe (prog_load h n e) (\<lambda>e'. eb_taken e' = eb_taken e \<and> eb_loaded e' = n # eb_loaded e)"
    using safe_load [OF assms] assms by (simp add: program_def)
  then show ?thesis using assms
    by (auto simp: program_def framed_def intro!: safe_then [where P = "\<lambda>e'. eb_taken e' = eb_taken e \<and> eb_loaded e' = n # eb_loaded e"]
        intro: safe_mono [OF safe_attach(1)])
qed

lemma safe_pin: "safe (pin h path e) (framed e)"
  by (simp add: pin_def safe_def misuse_def framed_def)

lemma safe_load_ebpf: "safe (load_ebpf h) (\<lambda>e. eb_taken e = [] \<and> eb_loaded e = [])"
proof -
  have "safe (for_each (apply_size h) size_vars fresh_maps) (\<lambda>_. True)"
    by (intro safe_for_each) (simp_all add: apply_size_def safe_def misuse_def split: option.splits)
  then show ?thesis by (auto simp: load_ebpf_def safe_def misuse_def split: sum.splits if_splits intro!: safe_then)
qed

lemma safe_register:
  assumes "''guest_dhcp'' \<notin> set (eb_loaded e)" "''GUEST_PROGS'' \<notin> set (eb_taken e)"
  shows "safe (register_guest_dhcp h e) (\<lambda>e'. eb_taken e' = ''GUEST_PROGS'' # eb_taken e \<and> eb_loaded e' = ''guest_dhcp'' # eb_loaded e)"
  unfolding register_guest_dhcp_def load_program_def using assms
  by (auto intro!: safe_then [OF safe_load] safe_then [OF safe_take] simp: object_programs_def object_maps_def)
    (simp_all add: safe_def misuse_def)

lemma safe_register_tc:
  assumes "''tc_guest_dhcp'' \<notin> set (eb_loaded e)" "''tc_guest_nat64'' \<notin> set (eb_loaded e)" "''GUEST_PROGS_TC'' \<notin> set (eb_taken e)"
  shows "safe (register_guest_dhcp_tc h e) (\<lambda>e'. eb_taken e' = ''GUEST_PROGS_TC'' # eb_taken e \<and>
    eb_loaded e' = ''tc_guest_nat64'' # ''tc_guest_dhcp'' # eb_loaded e)"
  unfolding register_guest_dhcp_tc_def load_program_tc_def Let_def using assms
  by (auto intro!: safe_then [OF safe_load] safe_then [OF safe_take] simp: object_programs_def object_maps_def)
    (simp_all add: safe_def misuse_def)

section \<open>Programming the tables\<close>

lemma safe_read: "safe r (\<lambda>_. True) \<Longrightarrow> (\<And>x. safe (f x) Q) \<Longrightarrow> safe (and_then r f) Q"
  by (rule safe_then)

lemma safe_bad [simp]: "safe (Inl (BadArg t)) Q"
  by (simp add: safe_def misuse_def)

lemma safe_write_frame: "framed e0 e \<Longrightarrow> safe (table_write f e) (framed e0)"
  by (rule safe_mono [OF safe_write]) (rule framed_trans)

lemma safe_write_then: "framed e0 e \<Longrightarrow> (\<And>e'. framed e0 e' \<Longrightarrow> safe (k e') Q) \<Longrightarrow> safe (and_then (table_write f e) k) Q"
  by (rule safe_then [OF safe_write_frame])

lemma safe_write_ignored:
  "framed e0 e \<Longrightarrow> safe (case table_write f e of Inl _ \<Rightarrow> Inr e | Inr e' \<Rightarrow> Inr e') (framed e0)"
  using safe_write_frame [of e0 e f] by (auto simp: safe_def split: sum.splits)

lemmas safe_writes = safe_write_frame safe_write_then safe_write_ignored

lemma safe_split_prefix [safe_rules]: "safe (split_prefix n s) (\<lambda>_. True)"
  by (auto simp: split_prefix_def split: option.splits intro!: safe_read safe_rules)

lemma safe_next_field: "(\<And>f fs. safe (k f fs) Q) \<Longrightarrow> safe (next_field t fs k) Q"
  by (simp add: next_field_def split: list.splits)

lemma safe_specs [safe_rules]:
  "safe (parse_lb_spec s) (\<lambda>_. True)" "safe (parse_nat_range t s) (\<lambda>_. True)" "safe (parse_cidr s) (\<lambda>_. True)"
  "safe (parse_dport s) (\<lambda>_. True)" "safe (lookup_word t ws s) (\<lambda>_. True)" "safe (collect_externals ss) (\<lambda>_. True)"
  unfolding parse_lb_spec_def parse_nat_range_def parse_cidr_def parse_dport_def lookup_word_def collect_externals_def
  by (auto intro!: safe_next_field safe_read safe_rules safe_for_each split: option.splits)

lemma safe_parse_fw_rule [safe_rules]: "safe (parse_fw_rule h s) (\<lambda>_. True)"
  by (auto simp: parse_fw_rule_def intro!: safe_read safe_rules split: list.splits)

lemma safe_guest: "framed e0 (fst st) \<Longrightarrow> safe (program_guest h gw g st) (\<lambda>st. framed e0 (fst st))"
  by (auto simp: program_guest_def write_defs intro!: safe_read safe_rules safe_writes split: list.splits)

lemma safe_items:
  "framed e0 e \<Longrightarrow> safe (program_guest6 h gw gw6 v4 g6 e) (framed e0)"
  "framed e0 e \<Longrightarrow> safe (program_remote6 r6 e) (framed e0)"
  "framed e0 e \<Longrightarrow> safe (program_remote ext r e) (framed e0)"
  "framed e0 e \<Longrightarrow> safe (program_vip v e) (framed e0)"
  "framed e0 e \<Longrightarrow> safe (program_marker m e) (framed e0)"
  "framed e0 e \<Longrightarrow> safe (program_meter h mt e) (framed e0)"
  "framed e0 e \<Longrightarrow> safe (tc_remote r e) (framed e0)"
  by (auto simp: program_guest6_def program_remote6_def program_remote_def program_vip_def program_marker_def
      program_meter_def tc_remote_def write_defs Let_def case_prod_beta
      intro!: safe_read safe_rules safe_writes split: list.splits option.splits)

lemma safe_nat: "framed e0 e \<Longrightarrow> safe (program_nat n e) (framed e0)"
  by (auto simp: program_nat_def write_defs intro!: safe_read safe_rules safe_writes split: option.splits)

lemma safe_neigh_nat: "framed e0 (fst st) \<Longrightarrow> safe (program_neigh_nat n st) (\<lambda>st. framed e0 (fst st))"
  by (auto simp: program_neigh_nat_def write_defs intro!: safe_read safe_rules safe_writes split: list.splits)

lemma safe_fw_rule: "framed e0 (fst st) \<Longrightarrow> safe (program_fw_rule h r st) (\<lambda>st. framed e0 (fst st))"
  by (auto simp: program_fw_rule_def place_rule_def write_defs Let_def intro!: safe_read safe_rules safe_writes)

text \<open>Every table id the command hands out has a list of backends, so \<^verbatim>\<open>get_mut(..).unwrap()\<close> succeeds,
  and the entries of a Maglev table are indices of its backends.\<close>

definition plan_ok :: "lb_plan \<Rightarrow> bool" where
  "plan_ok plan = (\<forall>spec tid. map_of (lp_table_ids plan) spec = Some tid \<longrightarrow> map_of (lp_backends plan) tid \<noteq> None)"

lemma plan_okD: "plan_ok plan \<Longrightarrow> map_of (lp_table_ids plan) spec = Some tid \<Longrightarrow> map_of (lp_backends plan) tid \<noteq> None"
  unfolding plan_ok_def by blast

lemma plan_ok_backends: "plan_ok plan \<Longrightarrow> plan_ok (plan\<lparr>lp_backends := AList.update tid bes (lp_backends plan)\<rparr>)"
  by (auto simp: plan_ok_def update_conv')

lemma safe_lb:
  "framed e0 (fst st) \<and> plan_ok (snd st) \<Longrightarrow> safe (program_lb lb st) (\<lambda>st. framed e0 (fst st) \<and> plan_ok (snd st))"
  by (auto simp: program_lb_def write_defs Let_def plan_ok_def update_conv' intro!: safe_read safe_rules safe_write_then)

lemma safe_target: "plan_ok plan \<Longrightarrow> safe (plan_target t plan) plan_ok"
  unfolding plan_target_def
  by (auto dest: plan_okD intro!: safe_read safe_rules plan_ok_backends split: option.splits)

lemma safe_table: "framed e0 e \<Longrightarrow> safe (write_table tb e) (framed e0)"
proof (cases "snd tb = []")
  case False
  assume e: "framed e0 e"
  obtain table where t: "maglev_build (snd tb) = Some table" "\<forall>v \<in> set table. unat v < length (snd tb)"
    using maglev_build_entries [OF False] by blast
  have "safe (for_each (write_slot (fst tb) (snd tb)) (enumerate 0 table) e) (framed e0)"
    using t(2) e by (intro safe_for_each) (auto simp: write_slot_def write_defs in_set_enumerate_eq intro!: safe_writes)
  then show ?thesis using False t(1) by (simp add: write_table_def)
qed (simp add: write_table_def)

section \<open>The stages\<close>

text \<open>Which tables a stage takes.\<close>

definition takes :: "string list \<Rightarrow> ebpf \<Rightarrow> ebpf \<Rightarrow> bool" where
  "takes ns e e' = (eb_taken e' = ns @ eb_taken e \<and> eb_loaded e' = eb_loaded e)"

lemma takes_framed: "takes ns e e1 \<Longrightarrow> framed e1 e2 \<Longrightarrow> takes ns e e2"
  by (simp add: takes_def framed_def)

definition unopened :: "string list \<Rightarrow> ebpf \<Rightarrow> bool" where
  "unopened ns e = list_all (\<lambda>n. n \<in> set object_maps \<and> n \<notin> set (eb_taken e)) ns"

lemma safe_take_then:
  assumes "unopened N e0" "takes ns e0 e" "n \<in> set N" "n \<notin> set ns" "\<And>e'. takes (n # ns) e0 e' \<Longrightarrow> safe (k e') Q"
  shows "safe (and_then (take_map n e) k) Q"
  using assms by (auto simp: take_map_def takes_def unopened_def list_all_iff)

lemma safe_take_last:
  assumes "unopened N e0" "takes ns e0 e" "n \<in> set N" "n \<notin> set ns"
  shows "safe (take_map n e) (takes (n # ns) e0)"
  using assms by (auto simp: take_map_def takes_def unopened_def list_all_iff)

text \<open>A loop that only writes, anywhere in a stage.\<close>

lemma safe_loop_then:
  assumes "\<And>x e'. framed e e' \<Longrightarrow> safe (f x e') (framed e)" "takes ns e0 e"
    "\<And>e'. takes ns e0 e' \<Longrightarrow> safe (k e') Q"
  shows "safe (and_then (for_each f xs e) k) Q"
  by (rule safe_then [OF safe_for_each [where P = "framed e"]]) (use assms takes_framed framed_refl in blast)+

lemma safe_loop:
  assumes "\<And>x e'. framed e e' \<Longrightarrow> safe (f x e') (framed e)" "takes ns e0 e"
  shows "safe (for_each f xs e) (takes ns e0)"
  by (rule safe_mono [OF safe_for_each [where P = "framed e"]]) (use assms takes_framed framed_refl in blast)+

lemma safe_write_takes:
  "takes ns e0 e \<Longrightarrow> safe (table_write f e) (takes ns e0)"
  "takes ns e0 e \<Longrightarrow> (\<And>e'. takes ns e0 e' \<Longrightarrow> safe (k e') Q) \<Longrightarrow> safe (and_then (table_write f e) k) Q"
  by (blast intro: safe_mono [OF safe_write] takes_framed safe_then [OF safe_write])+

lemma takes_refl: "takes [] e e"
  by (simp add: takes_def)

text \<open>The rules by the operation in front, for use from left to right.\<close>

lemmas read_rules = safe_texts [THEN safe_read] safe_parse_mac [THEN safe_read] safe_netdev [THEN safe_read]
  safe_specs [THEN safe_read]

lemma safe_set_local:
  assumes "unopened N e0" "takes ns e0 e" "''LOCAL'' \<in> set N" "''LOCAL'' \<notin> set ns"
  shows "safe (set_local h up gm lu e) (takes (''LOCAL'' # ns) e0)"
  unfolding set_local_def write_defs
  by (rule safe_take_then [OF assms]) (auto intro!: read_rules safe_write_takes)

lemma safe_guests:
  "takes ns e e1 \<Longrightarrow> safe (for_each (program_guest h gw) gs (e1, [])) (\<lambda>st. takes ns e (fst st))"
  by (rule safe_mono [OF safe_for_each [where P = "\<lambda>st. framed e1 (fst st)"]]) (use safe_guest takes_framed in auto)

lemma safe_program_node:
  assumes "unopened [''LOCAL'', ''PORT_META'', ''INTERFACES'', ''UNDERLAY''] e"
  shows "safe (program_node h a e) (takes [''UNDERLAY'', ''INTERFACES'', ''PORT_META'', ''LOCAL''] e)"
  unfolding program_node_def case_prod_beta
  apply (rule safe_then [OF safe_set_local [OF assms takes_refl]], simp, simp)
  apply (rule read_rules)
  apply (rule safe_take_then [OF assms], assumption, simp, simp)+
  apply (rule safe_then [OF safe_guests], assumption)
  apply (rule read_rules safe_loop safe_items | assumption)+
  done

lemma safe_program_routes:
  assumes "unopened [''ROUTES6'', ''ROUTES'', ''VIPS''] e"
  shows "safe (program_routes a e) (takes [''VIPS'', ''ROUTES'', ''ROUTES6''] e)"
  unfolding program_routes_def
  by (rule safe_take_then [OF assms takes_refl], simp, simp)
     (rule read_rules safe_loop_then safe_loop safe_items | assumption | (rule safe_take_then [OF assms], assumption, simp, simp))+

lemma safe_lbs:
  "takes ns e0 e \<Longrightarrow> safe (for_each program_lb ls (e, \<lparr>lp_table_ids = [], lp_backends = [], lp_next = 1\<rparr>))
     (\<lambda>st. takes ns e0 (fst st) \<and> plan_ok (snd st))"
  by (rule safe_mono [OF safe_for_each [where P = "\<lambda>st. framed e (fst st) \<and> plan_ok (snd st)"]])
     (use safe_lb takes_framed in \<open>auto simp: plan_ok_def\<close>)

lemma safe_program_lbs:
  assumes "unopened [''LB'', ''MAGLEV''] e"
  shows "safe (program_lbs a e) (takes [''MAGLEV'', ''LB''] e)"
proof -
  have "safe (and_then (for_each plan_target ts (snd st)) (\<lambda>plan. for_each write_table (lp_backends plan) (fst st))) (takes ns e)"
    if "takes ns e (fst st) \<and> plan_ok (snd st)" for ts st ns
    by (rule safe_then [OF safe_for_each [where P = plan_ok]]) (use that safe_target safe_loop [OF safe_table] in auto)
  then show ?thesis
    unfolding program_lbs_def case_prod_beta
    by (auto intro!: safe_take_then [OF assms takes_refl] safe_take_then [OF assms] safe_then [OF safe_lbs])
qed

lemma safe_program_nats:
  assumes "unopened [''NAT'', ''NAT_IPS''] e"
  shows "safe (program_nats a e) (takes [''NAT_IPS'', ''NAT''] e)"
  unfolding program_nats_def
  by (auto intro!: safe_take_then [OF assms takes_refl] safe_take_then [OF assms] safe_loop safe_nat)

lemma safe_fw_rules:
  "takes ns e0 e \<Longrightarrow> safe (for_each (program_fw_rule h) rs (e, \<lparr>fp_slots = [], fp_counts = []\<rparr>)) (\<lambda>st. takes ns e0 (fst st))"
  by (rule safe_mono [OF safe_for_each [where P = "\<lambda>st. framed e (fst st)"]]) (use safe_fw_rule takes_framed in auto)

lemma safe_program_firewall:
  assumes "unopened [''FW_RULES'', ''FW_META'', ''FW_CONFIG''] e"
  shows "safe (program_firewall h a e) (takes [''FW_CONFIG'', ''FW_META'', ''FW_RULES''] e)"
  unfolding program_firewall_def case_prod_beta write_defs
  by (rule safe_take_then [OF assms takes_refl], simp, simp)
     (rule safe_write_takes safe_then [OF safe_fw_rules] safe_loop safe_write_frame | assumption
      | (rule safe_take_then [OF assms], assumption, simp, simp))+

lemma safe_neigh_nats:
  "takes ns e0 e \<Longrightarrow> safe (for_each program_neigh_nat ls (e, n)) (\<lambda>st. takes ns e0 (fst st))"
  by (rule safe_mono [OF safe_for_each [where P = "\<lambda>st. framed e (fst st)"]]) (use safe_neigh_nat takes_framed in auto)

lemma safe_dhcp:
  assumes "unopened N e0" "takes ns e0 e" "''DHCP_CONFIG'' \<in> set N" "''DHCP_CONFIG'' \<notin> set ns"
  shows "safe (program_dhcp mtu dns4 dns6 e) (takes (''DHCP_CONFIG'' # ns) e0)"
  unfolding program_dhcp_def write_defs by (rule safe_take_then [OF assms]) (rule safe_write_takes)

lemma safe_program_neigh:
  assumes "unopened N e0" "takes ns e0 e" "{''NEIGHBOR_NAT'', ''NEIGHBOR_NAT_COUNT''} \<subseteq> set N - set ns"
  shows "safe (program_neigh_nats a e) (takes (''NEIGHBOR_NAT_COUNT'' # ''NEIGHBOR_NAT'' # ns) e0)"
  unfolding program_neigh_nats_def case_prod_beta write_defs using assms(3)
  by (auto intro!: safe_take_then [OF assms(1,2)] safe_take_then [OF assms(1)] safe_then [OF safe_neigh_nats] safe_write_takes)

lemma safe_program_rest:
  assumes "unopened [''NEIGHBOR_NAT'', ''NEIGHBOR_NAT_COUNT'', ''METER'', ''DHCP_CONFIG''] e"
  shows "safe (program_rest h a e) (takes [''DHCP_CONFIG'', ''METER'', ''NEIGHBOR_NAT_COUNT'', ''NEIGHBOR_NAT''] e)"
  unfolding program_rest_def
  by (rule safe_loop_then [OF safe_items(5) takes_refl], assumption)
     (rule safe_then [OF safe_program_neigh [OF assms]] safe_loop_then safe_items safe_dhcp [OF assms] | assumption | simp; fail
      | (rule safe_take_then [OF assms], assumption, simp, simp))+

section \<open>The commands\<close>

lemma safe_attach_pinned:
  assumes "(n, Xdp) \<in> set object_programs" "already = (n \<in> set (eb_loaded e))"
  shows "safe (attach_xdp_pinned h n iface dir already e)
    (\<lambda>e'. eb_taken e' = eb_taken e \<and> set (eb_loaded e') = insert n (set (eb_loaded e)))"
proof -
  let ?Q = "\<lambda>e'. eb_taken e' = eb_taken e \<and> set (eb_loaded e') = insert n (set (eb_loaded e))"
  have "safe (if already then Inr e else prog_load h n e) ?Q"
    using assms(2) by (auto simp: prog_load_def safe_def misuse_def insert_absorb)
  moreover have "safe (and_then (attach_fallback h n iface e1) (\<lambda>e. if hs_fd_link h then pin h path e else Inl NoLink)) ?Q"
    if "?Q e1" for e1 path
  proof (rule safe_then [OF safe_attach(2)])
    show "n \<in> set (eb_loaded e1)" using that by simp
    fix e2 assume "framed e1 e2"
    then show "safe (if hs_fd_link h then pin h path e2 else Inl NoLink) ?Q"
      using that safe_pin [of h path e2] by (auto simp: safe_def misuse_def framed_def split: sum.splits)
  qed
  ultimately show ?thesis using assms(1) by (auto simp: attach_xdp_pinned_def program_def intro: safe_then)
qed

lemma safe_attach_xdp:
  assumes "(n, Xdp) \<in> set object_programs" "n \<notin> set (eb_loaded e)"
  shows "safe (attach_xdp h n iface e) (\<lambda>e'. eb_taken e' = eb_taken e \<and> set (eb_loaded e') = insert n (set (eb_loaded e)))"
  unfolding attach_xdp_def by (rule safe_mono [OF safe_load_attach [OF assms]]) simp

text \<open>The first guest loads the program, the others attach it.\<close>

lemma safe_attach_guest:
  assumes "(fst ig \<noteq> 0) = (''guest_tx'' \<in> set (eb_loaded e))"
  shows "safe (attach_guest h dir ig e)
    (\<lambda>e'. eb_taken e' = eb_taken e \<and> set (eb_loaded e') = insert ''guest_tx'' (set (eb_loaded e)))"
proof -
  have p: "(''guest_tx'', Xdp) \<in> set object_programs" by (simp add: object_programs_def)
  have "safe (attach_xdp_extra h ''guest_tx'' iface e)
      (\<lambda>e'. eb_taken e' = eb_taken e \<and> set (eb_loaded e') = insert ''guest_tx'' (set (eb_loaded e)))"
    if "''guest_tx'' \<in> set (eb_loaded e)" for iface
    using that p safe_attach(1) [OF that, of h iface Driver]
    by (auto simp: attach_xdp_extra_def program_def safe_def framed_def insert_absorb split: sum.splits)
  then show ?thesis
    using assms safe_attach_pinned [OF p refl, of h _ _ e] safe_attach_xdp [OF p, of e]
    by (cases "''guest_tx'' \<in> set (eb_loaded e)") (simp_all add: attach_guest_def Let_def split: option.splits)
qed

lemma safe_attach_guests:
  assumes "''guest_tx'' \<notin> set (eb_loaded e)"
  shows "safe (for_each (attach_guest h dir) (enumerate 0 gs) e)
    (\<lambda>e'. eb_taken e' = eb_taken e \<and> set (eb_loaded e') \<subseteq> insert ''guest_tx'' (set (eb_loaded e)))"
proof (cases gs)
  case (Cons g gs')
  let ?P = "\<lambda>e'. eb_taken e' = eb_taken e \<and> set (eb_loaded e') = insert ''guest_tx'' (set (eb_loaded e))"
  have first: "safe (attach_guest h dir (0, g) e) ?P" using safe_attach_guest [of "(0, g)" e h dir] assms by simp
  have "safe (for_each (attach_guest h dir) (enumerate 1 gs') e1) ?P" if "?P e1" for e1
  proof (rule safe_for_each [where P = ?P, OF that])
    fix ig and e' :: ebpf assume "ig \<in> set (enumerate 1 gs')" "?P e'"
    then show "safe (attach_guest h dir ig e') ?P"
      using safe_attach_guest [of ig e' h dir] by (auto simp: in_set_enumerate_eq insert_absorb)
  qed
  then have "safe (for_each (attach_guest h dir) (enumerate 0 gs) e) ?P" using Cons by (auto intro: safe_then [OF first])
  then show ?thesis by (rule safe_mono) auto
qed (use assms in auto)

lemma safe_attach_all:
  assumes "eb_taken e = []" "eb_loaded e = []"
  shows "safe (attach_all h a e) (\<lambda>e'. eb_taken e' = [''GUEST_PROGS''])"
proof -
  have p: "(''uplink_rx'', Xdp) \<in> set object_programs" by (simp add: object_programs_def)
  have up: "safe (case br_pin_dir a of Some dir \<Rightarrow> attach_xdp_pinned h ''uplink_rx'' (br_uplink a) dir False e
      | None \<Rightarrow> attach_xdp h ''uplink_rx'' (br_uplink a) e) (\<lambda>e'. eb_taken e' = [] \<and> set (eb_loaded e') = {''uplink_rx''})"
    using safe_attach_pinned [OF p, of False e] safe_attach_xdp [OF p, of e] assms by (auto split: option.splits)
  have "safe (and_then (for_each (attach_guest h dir) (enumerate 0 gs) e1) (register_guest_dhcp h)) (\<lambda>e'. eb_taken e' = [''GUEST_PROGS''])"
    if e1: "eb_taken e1 = [] \<and> set (eb_loaded e1) = {''uplink_rx''}" for e1 dir gs
  proof (rule safe_then [OF safe_attach_guests])
    show "''guest_tx'' \<notin> set (eb_loaded e1)" using e1 by simp
    fix e2 :: ebpf assume "eb_taken e2 = eb_taken e1 \<and> set (eb_loaded e2) \<subseteq> insert ''guest_tx'' (set (eb_loaded e1))"
    then have "''guest_dhcp'' \<notin> set (eb_loaded e2)" "eb_taken e2 = []" using e1 by auto
    then show "safe (register_guest_dhcp h e2) (\<lambda>e'. eb_taken e' = [''GUEST_PROGS''])"
      by (intro safe_mono [OF safe_register]) auto
  qed
  then show ?thesis unfolding attach_all_def by (rule safe_then [OF up])
qed

lemma safe_keep_conntrack:
  assumes "''CONNTRACK'' \<notin> set (eb_taken e)"
  shows "safe (keep_conntrack h dir e) (\<lambda>_. True)"
proof -
  have "safe (case dir of Some d \<Rightarrow> pin_map h ''CONNTRACK'' d e | None \<Rightarrow> Inr e) (framed e)"
    using assms safe_pin by (simp add: pin_map_def object_maps_def split: option.splits)
  then show ?thesis unfolding keep_conntrack_def
    by (rule safe_then) (use assms in \<open>simp add: take_map_def framed_def object_maps_def\<close>)
qed

lemma safe_bringup: "safe (bringup h a) (\<lambda>_. True)"
proof -
  note open_simps = unopened_def object_maps_def takes_def
  show ?thesis
    unfolding bringup_def Let_def
    by (rule safe_then [OF safe_load_ebpf], rule safe_then [OF safe_attach_all], simp, simp)
       (rule safe_then [OF safe_program_node] safe_then [OF safe_program_routes] safe_then [OF safe_program_lbs]
         safe_then [OF safe_program_nats] safe_then [OF safe_program_firewall] safe_then [OF safe_program_rest] safe_keep_conntrack
        | (simp add: open_simps; fail))+
qed

lemma safe_take_all:
  assumes "distinct ns" "unopened ns e"
  shows "safe (for_each take_map ns e) (\<lambda>_. True)"
  using assms
proof (induction ns arbitrary: e)
  case (Cons n ns)
  have "safe (take_map n e) (\<lambda>e'. unopened ns e')"
    using Cons.prems by (auto simp: take_map_def unopened_def list_all_iff)
  then show ?case using Cons by (auto intro: safe_then)
qed simp

lemma safe_register_guest:
  assumes "eb_taken e = []" "set (eb_loaded e) = {''uplink_rx''}"
  shows "safe (register_guest h tc e) (\<lambda>e'. set (eb_taken e') \<subseteq> {''GUEST_PROGS'', ''GUEST_PROGS_TC''})"
proof (cases tc)
  case True
  have load: "safe (load_program_tc h ''tc_guest_tx'' e1) (\<lambda>e'. eb_taken e' = eb_taken e1)" if "''tc_guest_tx'' \<notin> set (eb_loaded e1)" for e1
    unfolding load_program_tc_def by (rule safe_mono [OF safe_load]) (use that in \<open>simp_all add: object_programs_def\<close>)
  have "safe (and_then (register_guest_dhcp_tc h e) (load_program_tc h ''tc_guest_tx'')) (\<lambda>e'. eb_taken e' = [''GUEST_PROGS_TC''])"
    by (rule safe_then [OF safe_register_tc], simp add: assms, simp add: assms, simp add: assms)
       (rule safe_mono [OF load]; simp add: assms)
  then show ?thesis using True by (auto simp: register_guest_def elim: safe_mono)
next
  case False
  have "safe (and_then (load_program h ''guest_tx'' e) (register_guest_dhcp h)) (\<lambda>e'. eb_taken e' = [''GUEST_PROGS''])"
    unfolding load_program_def
    by (rule safe_then [OF safe_load], simp add: object_programs_def, simp add: assms)
       (rule safe_mono [OF safe_register]; simp add: assms)
  then show ?thesis using False by (auto simp: register_guest_def elim: safe_mono)
qed

lemma safe_control_bring_up: "safe (control_bring_up h up ix mac gmac ul) (\<lambda>_. True)"
proof -
  have p: "(''uplink_rx'', Xdp) \<in> set object_programs" by (simp add: object_programs_def)
  have rest: "safe (and_then (for_each take_map control_maps e) (\<lambda>e. Inr (e, c e))) (\<lambda>_. True)"
    if "set (eb_taken e) \<subseteq> {''GUEST_PROGS'', ''GUEST_PROGS_TC'', ''LOCAL''}" for e and c :: "ebpf \<Rightarrow> ctl"
    by (rule safe_then [OF safe_take_all]) (use that in \<open>auto simp: control_maps_def unopened_def object_maps_def\<close>)
  show ?thesis
    unfolding control_bring_up_def write_defs
    by (rule safe_then [OF safe_load_ebpf], rule safe_then [OF safe_attach_xdp [OF p]], simp)
       (rule safe_then [OF safe_register_guest] safe_then [OF safe_take] safe_then [OF safe_write] rest
        | (auto simp: object_maps_def framed_def; fail))+
qed

lemma safe_serve_command: "safe (serve_command h a) (\<lambda>_. True)"
proof -
  have "safe (start_service h a ul gw gw6 eg) (\<lambda>_. True)" for h a ul gw gw6 eg
    by (auto simp: start_service_def safe_def misuse_def Let_def split: sum.splits prod.splits if_splits)
  then show ?thesis
    unfolding serve_command_def Let_def
    by (intro read_rules safe_then [OF safe_control_bring_up])
qed

lemma safe_tc_rest:
  assumes N: "unopened [''PORT_META'', ''LOCAL'', ''UNDERLAY'', ''ROUTES'', ''ROUTES6'', ''DHCP_CONFIG''] e0"
    and ns: "takes ns e0 e" "set ns \<subseteq> {''PORT_META'', ''LOCAL''}"
  shows "safe (and_then (take_map ''UNDERLAY'' e) (\<lambda>e.
     and_then (Underlay_upsert ul uv e) (\<lambda>e.
     and_then (take_map ''ROUTES'' e) (\<lambda>e.
     and_then (for_each tc_remote rs e) (\<lambda>e.
     and_then (take_map ''ROUTES6'' e) (\<lambda>e.
     and_then (for_each program_remote6 rs6 e) (program_dhcp mtu dns4 dns6))))))) (\<lambda>_. True)"
  unfolding write_defs
  by (rule safe_take_then [OF N ns(1)], simp, use ns(2) in force)
     (rule safe_write_takes(2) safe_loop_then safe_items safe_mono [OF safe_dhcp [OF N]] TrueI | assumption
      | (rule safe_take_then [OF N], assumption, simp, use ns(2) in force) | (simp; fail) | (use ns(2) in force))+

lemma safe_tc_bringup: "safe (tc_bringup h a) (\<lambda>_. True)"
proof -
  let ?N = "[''PORT_META'', ''LOCAL'', ''UNDERLAY'', ''ROUTES'', ''ROUTES6'', ''DHCP_CONFIG'']"
  have tables: "safe (tc_tables h a tap mac ul e) (\<lambda>_. True)" if "unopened ?N e0" "takes [''PORT_META''] e0 e" for e0 e tap mac ul
    unfolding tc_tables_def using that
    by (auto split: option.splits intro!: safe_tc_rest [OF that] safe_then [OF safe_set_local [OF that]] safe_tc_rest [OF that(1)])
  have tc: "(''tc_guest_tx'', Classifier) \<in> set object_programs" by (simp add: object_programs_def)
  have port: "safe (and_then (take_map ''PORT_META'' e) (\<lambda>e.
      and_then (arg_ipv4 (ta_guest_ipv4 a)) (\<lambda>gip.
      and_then (arg_ipv4 (ta_gateway_ipv4 a)) (\<lambda>gw.
      and_then (arg_ipv6 (ta_gateway6 a)) (\<lambda>gw6.
      and_then (PortMetaMap_upsert tap (m gip gw gw6) e) (tc_tables h a tap mac ul)))))) (\<lambda>_. True)"
    if "eb_taken e = [''GUEST_PROGS_TC'']" for e tap mac ul m
  proof -
    have N: "unopened ?N e" using that by (simp add: unopened_def object_maps_def)
    show ?thesis unfolding write_defs
      by (rule safe_take_then [OF N takes_refl], simp, simp)
         (rule read_rules safe_write_takes tables [OF N] | assumption)+
  qed
  show ?thesis
    unfolding tc_bringup_def attach_tc_clsact_ingress_def
    by (rule safe_then [OF safe_load_ebpf])
       (rule read_rules safe_then [OF safe_load_attach [OF tc]] safe_then [OF safe_register_tc] port | (simp; fail))+
qed

lemma safe_xdp_only:
  "safe (attach_uplink h iface) (\<lambda>_. True)"
  "safe (and_then (load_ebpf h) (attach_xdp h ''xdp_pass'' iface)) (\<lambda>_. True)"
  "safe (inspect_command h iface) (\<lambda>_. True)"
proof -
  have p: "(''uplink_rx'', Xdp) \<in> set object_programs" "(''xdp_pass'', Xdp) \<in> set object_programs"
    "(''xdp_inspect'', Xdp) \<in> set object_programs" by (simp_all add: object_programs_def)
  show "safe (attach_uplink h iface) (\<lambda>_. True)" "safe (and_then (load_ebpf h) (attach_xdp h ''xdp_pass'' iface)) (\<lambda>_. True)"
    unfolding attach_uplink_def by (auto intro!: safe_then [OF safe_load_ebpf] safe_mono [OF safe_attach_xdp] p)
  show "safe (inspect_command h iface) (\<lambda>_. True)"
    unfolding inspect_command_def load_program_def
    by (rule safe_then [OF safe_load_ebpf], rule safe_then [OF safe_load [OF p(3)]], simp)
       (auto intro!: safe_then [OF safe_attach(2)] simp: framed_def take_map_def object_maps_def)
qed

text \<open>C17: the commands use the loaded object correctly. Whatever the command line and whatever the
  environment, the files below \<^verbatim>\<open>/sys\<close> and the kernel answer, no command of \<^verbatim>\<open>xdp-dp\<close> fails because a
  program or table is missing or was already taken, because a program is loaded twice or attached
  before it is loaded, or by a panic (\<^verbatim>\<open>unwrap\<close> of a balancer's backends, index into them).\<close>

theorem commands_use_object_correctly: "run_command h pinned cmd = Inl x \<Longrightarrow> \<not> misuse x"
proof -
  have "safe (run_command h pinned cmd) (\<lambda>_. True)"
  proof (cases cmd)
    case (Pass_on iface)
    then show ?thesis using safe_xdp_only(2) [of h iface]
      by (auto simp: run_command_def safe_def and_then_def split: sum.splits)
  next
    case (Bringup a)
    then show ?thesis using safe_bringup [of h a]
      by (auto simp: run_command_def adopt_def safe_def misuse_def and_then_def Let_def split: sum.splits option.splits)
  qed (simp_all add: run_command_def case_prod_beta safe_then [OF safe_xdp_only(1)] safe_then [OF safe_xdp_only(3)]
      safe_then [OF safe_serve_command] safe_then [OF safe_tc_bringup])
  then show "run_command h pinned cmd = Inl x \<Longrightarrow> \<not> misuse x" by (simp add: safe_def)
qed

definition refusing_host :: host where
  "refusing_host = \<lparr>hs_var = \<lambda>_. None, hs_sys = \<lambda>_ _. None, hs_load = True, hs_verify = \<lambda>_. True, hs_attach = \<lambda>_ _. False,
     hs_fd_link = True, hs_pin = \<lambda>_. True, hs_prog_set = \<lambda>_. True, hs_listen = \<lambda>_. True\<rparr>"

theorem commands_use_object_correctly_witness:
  "run_command refusing_host (\<lambda>_. True) (Load (ascii ''eth0'')) = Inl (AttachFailed ''uplink_rx'' (ascii ''eth0'')) \<and>
   \<not> misuse (AttachFailed ''uplink_rx'' (ascii ''eth0''))"
proof -
  have "run_command refusing_host (\<lambda>_. True) (Load (ascii ''eth0'')) = Inl (AttachFailed ''uplink_rx'' (ascii ''eth0''))"
    by (simp add: run_command_def refusing_host_def attach_uplink_def load_ebpf_def size_vars_def apply_size_def attach_xdp_def
        program_def object_programs_def prog_load_def prog_attach_def)
  then show ?thesis using commands_use_object_correctly by blast
qed

end
