(* ===== verification/Boot_Firewall.thy ===== *)
theory Boot_Firewall
  imports Commands System
begin

text \<open>
  What \<^verbatim>\<open>Bringup\<close> puts into the firewall tables is what the datapath then enforces: for every interface
  the rules of the command line that name it, in their order. The command fills the tables itself,
  slot by slot, so this rests on the loop below and not on \<^verbatim>\<open>fw_reprogram\<close> of the control plane.
\<close>

section \<open>Other stages leave the firewall alone\<close>

definition fw_view :: "maps \<Rightarrow> (FwRuleKey, FwRule) hmap \<times> (u32, FwMeta) hmap \<times> u32 list" where
  "fw_view t = (FW_RULES t, FW_META t, FW_CONFIG t)"

definition post :: "cli_error + 'a \<Rightarrow> ('a \<Rightarrow> bool) \<Rightarrow> bool" where
  "post r Q = (case r of Inl _ \<Rightarrow> True | Inr y \<Rightarrow> Q y)"

lemma post_simps [simp]: "post (Inl x) Q" "post (Inr y) Q = Q y"
  by (simp_all add: post_def)

lemma post_D: "post r Q \<Longrightarrow> r = Inr y \<Longrightarrow> Q y"
  by simp

lemma post_then: "post r P \<Longrightarrow> (\<And>x. P x \<Longrightarrow> post (f x) Q) \<Longrightarrow> post (and_then r f) Q"
  by (cases r) simp_all

lemma post_skip: "(\<And>x. post (f x) Q) \<Longrightarrow> post (and_then r f) Q"
  by (cases r) simp_all

lemma post_mono: "post r P \<Longrightarrow> (\<And>y. P y \<Longrightarrow> Q y) \<Longrightarrow> post r Q"
  by (cases r) simp_all

lemma post_for_each:
  assumes "P s" "\<And>x s. P s \<Longrightarrow> post (f x s) P"
  shows "post (for_each f xs s) P"
  using assms(1)
proof (induction xs arbitrary: s)
  case (Cons x xs)
  then show ?case using assms(2) [of s x] by (auto intro: post_then)
qed simp

text \<open>\<open>sees v\<close>: the firewall part of the tables is \<open>v\<close>.\<close>

definition sees :: "(FwRuleKey, FwRule) hmap \<times> (u32, FwMeta) hmap \<times> u32 list \<Rightarrow> ebpf \<Rightarrow> bool" where
  "sees v e = (fw_view (eb_tabs e) = v)"

lemma sees_table_write:
  assumes "sees v e" "\<And>t m. fw_view (g t m) = fw_view t"
  shows "post (table_write (\<lambda>t. map_sum id (g t) (r t)) e) (sees v)"
  using assms by (cases "r (eb_tabs e)") (simp_all add: table_write_def sees_def)

lemma sees_writes:
  assumes "sees v e"
  shows "post (Interfaces_upsert a1 b1 e) (sees v)" "post (LocalMap_set b2 e) (sees v)" "post (PortMetaMap_upsert a3 b3 e) (sees v)"
    "post (Routes_upsert a4 b4 c4 d4 e) (sees v)" "post (Routes6_upsert a5 b5 c5 d5 e) (sees v)" "post (Vips_upsert a6 b6 e) (sees v)"
    "post (Lb_upsert a7 b7 e) (sees v)" "post (Maglev_upsert a8 b8 e) (sees v)" "post (Nat_upsert a9 b9 e) (sees v)"
    "post (Underlay_upsert a10 b10 e) (sees v)" "post (NeighborNat_upsert a11 b11 e) (sees v)" "post (Meter_upsert a12 b12 e) (sees v)"
    "post (NatIps_set a13 b13 e) (sees v)" "post (NeighborNatCount_set b14 e) (sees v)" "post (DhcpConfigMap_set b15 e) (sees v)"
  unfolding Interfaces_upsert_def LocalMap_set_def PortMetaMap_upsert_def Routes_upsert_def Routes6_upsert_def
    Vips_upsert_def Lb_upsert_def Maglev_upsert_def Nat_upsert_def Underlay_upsert_def NeighborNat_upsert_def Meter_upsert_def
    NatIps_set_def NeighborNatCount_set_def DhcpConfigMap_set_def
  by (rule sees_table_write [OF assms], simp add: fw_view_def)+

lemma sees_object:
  "sees v e \<Longrightarrow> post (take_map n e) (sees v)" "sees v e \<Longrightarrow> post (prog_load h n e) (sees v)"
  "sees v e \<Longrightarrow> post (prog_attach h n i m e) (sees v)" "sees v e \<Longrightarrow> post (attach_fallback h n i e) (sees v)"
  "sees v e \<Longrightarrow> post (pin h path e) (sees v)" "sees v e \<Longrightarrow> post (pin_map h n path e) (sees v)"
  by (auto simp: take_map_def prog_load_def prog_attach_def attach_fallback_def pin_def pin_map_def sees_def split: sum.splits)

lemmas text_skips = post_skip [where r = "arg_ipv4 s" for s] post_skip [where r = "arg_ipv6 s" for s]
  post_skip [where r = "parse_mac s" for s] post_skip [where r = "read_u32 s" for s] post_skip [where r = "parse_u64 s" for s]
  post_skip [where r = "ifindex h s" for h s] post_skip [where r = "mac_of h s" for h s] post_skip [where r = "opt_ipv6 s" for s]
  post_skip [where r = "split_prefix n s" for n s] post_skip [where r = "parse_lb_spec s" for s]
  post_skip [where r = "parse_nat_range t s" for t s] post_skip [where r = "collect_externals s" for s]
  post_skip [where r = "program k n" for k n] post_skip [where r = "for_each plan_target ts p" for ts p]

lemmas sees_then = sees_writes [THEN post_then] sees_object [THEN post_then]

lemma sees_items:
  "sees v (fst st) \<Longrightarrow> post (program_guest h gw g st) (\<lambda>st. sees v (fst st))"
  "sees v e \<Longrightarrow> post (program_guest6 h gw gw6 v4 g6 e) (sees v)"
  "sees v e \<Longrightarrow> post (program_remote6 r6 e) (sees v)"
  "sees v e \<Longrightarrow> post (program_remote ext r e) (sees v)"
  "sees v e \<Longrightarrow> post (program_vip vp e) (sees v)"
  "sees v e \<Longrightarrow> post (program_marker mk e) (sees v)"
  "sees v e \<Longrightarrow> post (program_meter h mt e) (sees v)"
  "sees v (fst lst) \<Longrightarrow> post (program_lb lb lst) (\<lambda>st. sees v (fst st))"
  "sees v (fst nst) \<Longrightarrow> post (program_neigh_nat nn nst) (\<lambda>st. sees v (fst st))"
  unfolding program_guest_def program_guest6_def program_remote6_def program_remote_def program_vip_def program_marker_def
    program_meter_def program_lb_def program_neigh_nat_def Let_def case_prod_beta
  by (auto split: list.splits option.splits intro!: sees_then sees_writes text_skips)

lemma sees_nat: "sees v e \<Longrightarrow> post (program_nat n e) (sees v)"
proof -
  have "post (case NatIps_set 0 ip e of Inl x \<Rightarrow> Inr e | Inr e' \<Rightarrow> Inr e') (sees v)" if "sees v e" for ip e
    using sees_writes(13) [OF that, of 0 ip] that by (auto split: sum.splits)
  then show "sees v e \<Longrightarrow> post (program_nat n e) (sees v)"
    unfolding program_nat_def case_prod_beta by (auto split: option.splits intro!: sees_then text_skips)
qed

lemma sees_slot: "sees v e \<Longrightarrow> post (write_slot t bs sb e) (sees v)"
  by (simp add: write_slot_def sees_writes)

lemma sees_table: "sees v e \<Longrightarrow> post (write_table tb e) (sees v)"
  by (auto simp: write_table_def sees_slot split: option.splits intro!: post_for_each)

lemma sees_attach: "sees v e \<Longrightarrow> post (attach_xdp h n i e) (sees v)" "sees v e \<Longrightarrow> post (attach_xdp_extra h n i e) (sees v)"
  "sees v e \<Longrightarrow> post (attach_xdp_pinned h n i d al e) (sees v)" "sees v e \<Longrightarrow> post (register_guest_dhcp h e) (sees v)"
  unfolding attach_xdp_def attach_xdp_extra_def attach_xdp_pinned_def register_guest_dhcp_def load_program_def
  by (auto intro!: sees_then sees_object text_skips post_then [where P = "sees v"]) (auto simp: sees_def)

lemma sees_attach_guest: "sees v e \<Longrightarrow> post (attach_guest h d ig e) (sees v)"
  by (auto simp: attach_guest_def Let_def sees_attach split: option.splits)

text \<open>The stages before and after the firewall.\<close>

lemmas loop_sees = post_for_each [where P = "sees v" for v]

lemma sees_attach_all: "sees v e \<Longrightarrow> post (attach_all h a e) (sees v)"
  unfolding attach_all_def
  by (auto split: option.splits intro!: post_then [where P = "sees v"] sees_attach loop_sees sees_attach_guest)

lemma sees_node: "sees v e \<Longrightarrow> post (program_node h a e) (sees v)"
  unfolding program_node_def set_local_def case_prod_beta
  by (auto intro!: sees_then sees_writes text_skips post_then [where P = "\<lambda>st. sees v (fst st)"]
      post_for_each [where P = "\<lambda>st. sees v (fst st)"] loop_sees sees_items
      post_then [where P = "sees v" and r = "and_then x y" for x y])

lemma sees_stages:
  "sees v e \<Longrightarrow> post (program_routes a e) (sees v)" "sees v e \<Longrightarrow> post (program_lbs a e) (sees v)"
  "sees v e \<Longrightarrow> post (program_nats a e) (sees v)" "sees v e \<Longrightarrow> post (program_rest h a e) (sees v)"
  "sees v e \<Longrightarrow> post (keep_conntrack h d e) (sees v)"
proof -
  note loops = post_for_each [where P = "\<lambda>st. sees v (fst st)"] loop_sees
  assume e: "sees v e"
  show "post (program_routes a e) (sees v)"
    unfolding program_routes_def using e
    by (auto intro!: sees_then text_skips post_then [where P = "sees v" and r = "for_each f xs s" for f xs s] loops sees_items)
  show "post (program_lbs a e) (sees v)"
    unfolding program_lbs_def case_prod_beta using e
    by (auto intro!: sees_then text_skips post_then [where P = "\<lambda>st. sees v (fst st)" and r = "for_each program_lb xs s" for xs s]
        loops sees_items sees_table)
  show "post (program_nats a e) (sees v)"
    unfolding program_nats_def using e by (auto intro!: sees_then loops sees_nat)
  show "post (program_rest h a e) (sees v)"
    unfolding program_rest_def program_neigh_nats_def program_dhcp_def case_prod_beta using e
    by (auto intro!: sees_then sees_writes post_then [where P = "sees v" and r = "for_each program_marker xs s" for xs s]
        post_then [where P = "sees v" and r = "for_each (program_meter h) xs s" for xs s]
        post_then [where P = "\<lambda>st. sees v (fst st)" and r = "for_each program_neigh_nat xs s" for xs s]
        post_then [where P = "sees v" and r = "and_then x y" for x y] loops sees_items)
  show "post (keep_conntrack h d e) (sees v)"
    unfolding keep_conntrack_def using e
    by (auto split: option.splits intro!: post_then [where P = "sees v"] sees_object)
qed

section \<open>Placing the rules\<close>

definition rules_for :: "(u32 \<times> FwRule) list \<Rightarrow> u32 \<Rightarrow> FwRule list" where
  "rules_for rs ix = map snd (filter (\<lambda>r. fst r = ix) rs)"

lemma rules_for_snoc: "rules_for (rs @ [r]) ix = (if fst r = ix then rules_for rs ix @ [snd r] else rules_for rs ix)"
  by (simp add: rules_for_def)

definition counted :: "FwRule list \<Rightarrow> FwMeta" where
  "counted rs = fw_counts (map (Pair []) rs)"

lemma counted_snoc:
  "counted (rs @ [r]) =
     (if fr_direction r = FW_DIR_EGRESS then (counted rs)\<lparr>fm_egress_count := fm_egress_count (counted rs) + 1\<rparr>
      else (counted rs)\<lparr>fm_ingress_count := fm_ingress_count (counted rs) + 1\<rparr>)"
  by (simp add: counted_def fw_counts_def)

text \<open>The state of the loop after the rules \<open>rs\<close>: every interface has its rules in its first slots, the
  next slot and the counts are up to date, and the counts are not in the table yet.\<close>

definition placed :: "u32 list \<Rightarrow> (u32, FwMeta) hmap \<Rightarrow> (u32 \<times> FwRule) list \<Rightarrow> ebpf \<times> fw_plan \<Rightarrow> bool" where
  "placed cfg meta rs st =
     ((\<forall>ix. length (rules_for rs ix) \<le> 16 \<and>
        (\<forall>j. hget (FW_RULES (eb_tabs (fst st))) \<lparr>fk_ifindex = ix, fk_idx = j\<rparr> =
           (if unat j < length (rules_for rs ix) then Some (rules_for rs ix ! unat j) else None)) \<and>
        (case map_of (fp_slots (snd st)) ix of Some n \<Rightarrow> n | None \<Rightarrow> 0) = of_nat (length (rules_for rs ix)) \<and>
        map_of (fp_counts (snd st)) ix = (if rules_for rs ix = [] then None else Some (counted (rules_for rs ix)))) \<and>
      distinct (map fst (fp_counts (snd st))) \<and>
      FW_META (eb_tabs (fst st)) = meta \<and> FW_CONFIG (eb_tabs (fst st)) = cfg)"

lemma placed_step:
  assumes p: "placed cfg meta rs st" and ok: "place_rule r st = Inr st'"
  shows "placed cfg meta (rs @ [r]) st'"
proof -
  let ?ix = "fst r" and ?n = "length (rules_for rs (fst r))"
  have n: "?n \<le> 16" and slotv: "(case map_of (fp_slots (snd st)) ?ix of Some n \<Rightarrow> n | None \<Rightarrow> 0) = of_nat ?n"
    and cv: "(case map_of (fp_counts (snd st)) ?ix of Some c \<Rightarrow> c | None \<Rightarrow> \<lparr>fm_ingress_count = 0, fm_egress_count = 0\<rparr>) =
      counted (rules_for rs ?ix)"
    using p by (auto simp: placed_def counted_def fw_counts_def)
  have small: "unat (of_nat ?n :: u32) = ?n" using n by (simp add: unat_of_nat)
  obtain m where slot: "?n < 16"
    and ins: "hinsert (FW_RULES (eb_tabs (fst st))) \<lparr>fk_ifindex = ?ix, fk_idx = of_nat ?n\<rparr> (snd r) = Inr m"
    and st': "st' = ((fst st)\<lparr>eb_tabs := (eb_tabs (fst st))\<lparr>FW_RULES := m\<rparr>\<rparr>,
      \<lparr>fp_slots = AList.update ?ix (of_nat ?n + 1) (fp_slots (snd st)),
       fp_counts = AList.update ?ix (counted (rules_for rs ?ix @ [snd r])) (fp_counts (snd st))\<rparr>)"
    using ok
    by (cases "hinsert (FW_RULES (eb_tabs (fst st))) \<lparr>fk_ifindex = ?ix, fk_idx = of_nat ?n\<rparr> (snd r)")
       (auto simp: place_rule_def Let_def slotv cv small FwRules_upsert_def table_write_def counted_snoc split: if_splits)
  have new: "\<lparr>fk_ifindex = ix, fk_idx = j\<rparr> = \<lparr>fk_ifindex = ?ix, fk_idx = of_nat ?n\<rparr> \<longleftrightarrow> ix = ?ix \<and> unat j = ?n" for ix j
    using small by (auto simp: word_unat_eq_iff)
  have "hget m \<lparr>fk_ifindex = ix, fk_idx = j\<rparr> =
      (if unat j < length (rules_for (rs @ [r]) ix) then Some (rules_for (rs @ [r]) ix ! unat j) else None)" for ix j
    using p new [of ix j] by (auto simp: hget_hinsert [OF ins] placed_def rules_for_snoc nth_append)
  then show ?thesis
    using p slot by (auto simp: placed_def st' update_conv' rules_for_snoc distinct_update)
qed

lemma placed_start:
  assumes "FW_RULES (eb_tabs e) = hnew n"
  shows "placed (FW_CONFIG (eb_tabs e)) (FW_META (eb_tabs e)) [] (e, \<lparr>fp_slots = [], fp_counts = []\<rparr>)"
  using assms by (simp add: placed_def rules_for_def hget_def hnew_def)

text \<open>The loop over the arguments: each is read and placed.\<close>

lemma placed_rules:
  assumes "for_each (program_fw_rule h) specs (e, \<lparr>fp_slots = [], fp_counts = []\<rparr>) = Inr st" "FW_RULES (eb_tabs e) = hnew n"
  shows "\<exists>rs. map (parse_fw_rule h) specs = map Inr rs \<and> placed (FW_CONFIG (eb_tabs e)) (FW_META (eb_tabs e)) rs st"
proof (rule for_each_trace [OF assms(1)])
  show "\<exists>rs. map (parse_fw_rule h) [] = map Inr rs \<and>
      placed (FW_CONFIG (eb_tabs e)) (FW_META (eb_tabs e)) rs (e, \<lparr>fp_slots = [], fp_counts = []\<rparr>)"
    using placed_start [OF assms(2)] by auto
  fix ys spec s s'
  assume step: "program_fw_rule h spec s = Inr s'"
    and "\<exists>rs. map (parse_fw_rule h) ys = map Inr rs \<and> placed (FW_CONFIG (eb_tabs e)) (FW_META (eb_tabs e)) rs s"
  then obtain rs r where "map (parse_fw_rule h) ys = map Inr rs" "placed (FW_CONFIG (eb_tabs e)) (FW_META (eb_tabs e)) rs s"
    "parse_fw_rule h spec = Inr r" "place_rule r s = Inr s'"
    by (auto simp: program_fw_rule_def and_then_Inr)
  then show "\<exists>rs. map (parse_fw_rule h) (ys @ [spec]) = map Inr rs \<and> placed (FW_CONFIG (eb_tabs e)) (FW_META (eb_tabs e)) rs s'"
    by (intro exI [of _ "rs @ [r]"]) (auto intro: placed_step)
qed

text \<open>Writing the counts.\<close>

lemma counts_written:
  assumes "for_each (\<lambda>(ix, c). FwMetaMap_upsert ix c) cs e = Inr e'" "distinct (map fst cs)"
  shows "hget (FW_META (eb_tabs e')) = hget (FW_META (eb_tabs e)) ++ map_of cs \<and>
    FW_RULES (eb_tabs e') = FW_RULES (eb_tabs e) \<and> FW_CONFIG (eb_tabs e') = FW_CONFIG (eb_tabs e)"
  using assms
proof (induction cs arbitrary: e)
  case (Cons c cs)
  obtain ix k where c: "c = (ix, k)" by force
  obtain e1 where e1: "FwMetaMap_upsert ix k e = Inr e1" "for_each (\<lambda>(ix, c). FwMetaMap_upsert ix c) cs e1 = Inr e'"
    using Cons.prems(1) by (auto simp: and_then_Inr c)
  obtain m where m: "hinsert (FW_META (eb_tabs e)) ix k = Inr m" "e1 = e\<lparr>eb_tabs := (eb_tabs e)\<lparr>FW_META := m\<rparr>\<rparr>"
    using e1(1) by (cases "hinsert (FW_META (eb_tabs e)) ix k") (auto simp: FwMetaMap_upsert_def table_write_def)
  have "ix \<notin> dom (map_of cs)" using Cons.prems(2) by (auto simp: c dom_map_of_conv_image_fst)
  then show ?case using Cons.IH [OF e1(2)] Cons.prems(2) m
    by (auto simp: c hget_hinsert [OF m(1)] map_add_def fun_eq_iff split: option.splits)
qed simp

section \<open>The command\<close>

lemma placed_verdict:
  assumes "placed cfg (hnew k) rs st" "hget (FW_META t) = map_of (fp_counts (snd st))" "FW_RULES t = FW_RULES (eb_tabs (fst st))"
  shows "fw_eval_dir t p off ix dir = fw_verdict (rules_for rs ix) dir p off"
proof -
  let ?rs = "rules_for rs ix"
  have len: "length (map (Pair []) ?rs) \<le> 16" and c: "hget (FW_META t) ix = (if ?rs = [] then None else Some (counted ?rs))"
    and slots: "hget (FW_RULES t) \<lparr>fk_ifindex = ix, fk_idx = j\<rparr> = (if unat j < length ?rs then Some (?rs ! unat j) else None)" for j
    using assms by (auto simp: placed_def)
  have "fw_slots t ix 0 = ?rs"
    unfolding fw_slots_def by (rule map_filter_prefix) (use len slots in \<open>auto simp: unat_of_nat\<close>)
  then show ?thesis
    using fw_counts_zero [OF len, of dir] c
    by (auto simp: fw_eval_dir_def fw_verdict_def fw_scan_first_match Let_def counted_def comp_def split: if_splits)
qed

lemma fresh_sizes:
  assumes "for_each (apply_size h) vs t = Inr t'"
  shows "fw_view t' = fw_view t"
  by (rule for_each_inv [OF assms refl])
     (auto simp: apply_size_def set_max_entries_def fw_view_def split: option.splits if_splits)

lemma load_sees: "post (load_ebpf h) (sees (hnew 16384, hnew 1024, [0]))"
  using fresh_sizes [of h size_vars fresh_maps]
  by (cases "for_each (apply_size h) size_vars fresh_maps") (simp_all add: load_ebpf_def sees_def fw_view_def fresh_maps_def)

lemma firewall_programmed:
  assumes "program_firewall h a e = Inr e'" "sees (hnew n, hnew k, [c]) e"
  shows "\<exists>rs. map (parse_fw_rule h) (br_fw_rules a) = map Inr rs \<and>
    (\<forall>p off ix dir. fw_eval_dir (eb_tabs e') p off ix dir = fw_verdict (rules_for rs ix) dir p off) \<and>
    fw_enforcing (eb_tabs e') = br_firewall_enforce a"
proof -
  let ?cfg = "[if br_firewall_enforce a then 1 else 0]"
  obtain ea eb ec e1 st where t: "take_map ''FW_RULES'' e = Inr ea" "take_map ''FW_META'' ea = Inr eb" "take_map ''FW_CONFIG'' eb = Inr ec"
    and cfg: "FwConfig_set (if br_firewall_enforce a then 1 else 0) ec = Inr e1"
    and loop: "for_each (program_fw_rule h) (br_fw_rules a) (e1, \<lparr>fp_slots = [], fp_counts = []\<rparr>) = Inr st"
    and counts: "for_each (\<lambda>(ix, c). FwMetaMap_upsert ix c) (fp_counts (snd st)) (fst st) = Inr e'"
    using assms(1) by (auto simp: program_firewall_def and_then_Inr)
  have "sees (hnew n, hnew k, [c]) ec"
    using assms(2) post_D [OF sees_object(1) t(1)] post_D [OF sees_object(1) t(2)] post_D [OF sees_object(1) t(3)] by blast
  then have e1: "fw_view (eb_tabs e1) = (hnew n, hnew k, ?cfg)"
    using cfg by (auto simp: FwConfig_set_def table_write_def aset_def sees_def fw_view_def)
  have fw: "FW_RULES (eb_tabs e1) = hnew n" "FW_META (eb_tabs e1) = hnew k" "FW_CONFIG (eb_tabs e1) = ?cfg"
    using e1 by (simp_all add: fw_view_def)
  obtain rs where rs: "map (parse_fw_rule h) (br_fw_rules a) = map Inr rs" and p: "placed ?cfg (hnew k) rs st"
    using placed_rules [OF loop fw(1)] fw by auto
  have w: "hget (FW_META (eb_tabs e')) = map_of (fp_counts (snd st))" "FW_RULES (eb_tabs e') = FW_RULES (eb_tabs (fst st))"
    "FW_CONFIG (eb_tabs e') = ?cfg"
    using counts_written [OF counts] p by (auto simp: placed_def hget_def hnew_def)
  show ?thesis
    using rs placed_verdict [OF p w(1,2)] w(3) by (auto simp: fw_enforcing_def aget_def)
qed

lemma fw_view_decides:
  assumes "fw_view t = fw_view t'"
  shows "fw_eval_dir t = fw_eval_dir t'" "fw_enforcing t = fw_enforcing t'"
proof -
  have v: "FW_RULES t = FW_RULES t'" "FW_META t = FW_META t'" "FW_CONFIG t = FW_CONFIG t'" using assms by (simp_all add: fw_view_def)
  have "fw_scan t = fw_scan t'" by (simp add: fun_eq_iff fw_scan_first_match fw_slots_def v)
  then show "fw_eval_dir t = fw_eval_dir t'" by (intro ext) (simp add: fw_eval_dir_def v split: option.splits)
  show "fw_enforcing t = fw_enforcing t'" by (simp add: fw_enforcing_def v)
qed

lemma host_vars: "parse_fw_rule (with_conntrack_max n h) = parse_fw_rule h"
proof -
  have same: "ifindex (with_conntrack_max n h) = ifindex h" by (simp add: fun_eq_iff ifindex_def with_conntrack_max_def split: option.splits)
  show ?thesis by (rule ext) (unfold parse_fw_rule_def same, rule refl)
qed

lemma bringup_firewall:
  assumes "bringup h a = Inr e"
  shows "\<exists>rs. map (parse_fw_rule h) (br_fw_rules a) = map Inr rs \<and>
    (\<forall>p off ix dir. fw_eval_dir (eb_tabs e) p off ix dir = fw_verdict (rules_for rs ix) dir p off) \<and>
    fw_enforcing (eb_tabs e) = br_firewall_enforce a"
proof -
  let ?h = "with_conntrack_max (br_conntrack_max a) h" and ?fresh = "(hnew 16384, hnew 1024, [0])"
  obtain e0 e1 e2 e3 e4 e5 e6 e7 where s: "load_ebpf ?h = Inr e0" "attach_all ?h a e0 = Inr e1" "program_node ?h a e1 = Inr e2"
    "program_routes a e2 = Inr e3" "program_lbs a e3 = Inr e4" "program_nats a e4 = Inr e5"
    and f: "program_firewall ?h a e5 = Inr e6" and r: "program_rest ?h a e6 = Inr e7" "keep_conntrack ?h (br_pin_dir a) e7 = Inr e"
    using assms by (auto simp: bringup_def Let_def and_then_Inr)
  have "sees ?fresh e5"
    using post_D [OF load_sees s(1)] post_D [OF sees_attach_all s(2)] post_D [OF sees_node s(3)] post_D [OF sees_stages(1) s(4)]
      post_D [OF sees_stages(2) s(5)] post_D [OF sees_stages(3) s(6)] by blast
  from firewall_programmed [OF f this] obtain rs where
    "map (parse_fw_rule ?h) (br_fw_rules a) = map Inr rs"
    "\<forall>p off ix dir. fw_eval_dir (eb_tabs e6) p off ix dir = fw_verdict (rules_for rs ix) dir p off"
    "fw_enforcing (eb_tabs e6) = br_firewall_enforce a" by blast
  moreover have "fw_view (eb_tabs e) = fw_view (eb_tabs e6)"
    using post_D [OF sees_stages(4) r(1)] post_D [OF sees_stages(5) r(2)] by (auto simp: sees_def)
  then have "fw_eval_dir (eb_tabs e) = fw_eval_dir (eb_tabs e6)" "fw_enforcing (eb_tabs e) = fw_enforcing (eb_tabs e6)"
    by (rule fw_view_decides)+
  ultimately show ?thesis by (intro exI [of _ rs]) (simp add: host_vars)
qed

text \<open>C8: the firewall rules of the command line are what the datapath enforces. When \<^verbatim>\<open>Bringup\<close> succeeds,
  every \<^verbatim>\<open>--fw-rule\<close> was well-formed, and from then on \<^verbatim>\<open>fw_eval_dir\<close> decides every packet of every
  interface, in both directions, by the first matching rule among those given for that interface, in
  the order given (accept when the direction has none); a denied packet is dropped exactly when
  \<^verbatim>\<open>--firewall-enforce\<close> was set.\<close>

theorem bringup_enforces_rules:
  assumes "bringup h a = Inr e"
  shows "\<exists>rs. map (parse_fw_rule h) (br_fw_rules a) = map Inr rs \<and>
    (\<forall>p off ix dir. fw_eval_dir (eb_tabs e) p off ix dir = fw_verdict (rules_for rs ix) dir p off) \<and>
    fw_enforcing (eb_tabs e) = br_firewall_enforce a"
  using assms by (rule bringup_firewall)


definition sample_host :: host where
  "sample_host =
     \<lparr>hs_var = (\<lambda>_. None),
      hs_sys = (\<lambda>_ attr. Some (ascii (if attr = ''ifindex'' then ''7'' else ''02:00:00:00:00:01'') @ [10])),
      hs_load = True, hs_verify = (\<lambda>_. True), hs_attach = (\<lambda>_ _. True), hs_fd_link = True, hs_pin = (\<lambda>_. True),
      hs_prog_set = (\<lambda>_. True),      hs_listen = (\<lambda>_. True)\<rparr>"

definition sample_spec :: bytes where
  "sample_spec = join_with 58 [ascii ''tap0'', ascii ''eg'', ascii ''drop'', ascii ''tcp'', show_ipv4 [10, 0, 0, 0] @ 47 # [56],
     show_ipv4 [0, 0, 0, 0] @ 47 # [48], [42]]"

text \<open>A guest 10.0.0.1 of VNI 100 at tap0, and the first rule for it.\<close>

definition sample_guest :: bytes where
  "sample_guest = join_with 61 [ascii ''tap0'', show_ipv4 [10, 0, 0, 1], ascii ''02:00:00:00:00:01'',
     show_ipv6 (replicate 15 0 @ [8]), ascii ''100'']"

definition guest_meta :: PortMeta where
  "guest_meta = \<lparr>pm_vni = 100, pm_guest_ipv4 = [10, 0, 0, 1], pm_gateway_ipv4 = [10, 0, 0, 1], pm_guest_mac = [2, 0, 0, 0, 0, 1],
     pm_underlay_ipv6 = replicate 15 0 @ [8], pm_gateway_ipv6 = replicate 16 0, pm_guest_ipv6 = replicate 16 0\<rparr>"

definition sample_args :: BringupArgs where
  "sample_args =
     \<lparr>br_uplink = ascii ''eth0'', br_local_underlay = show_ipv6 (replicate 15 0 @ [9]), br_gateway = show_ipv4 [10, 0, 0, 1],
      br_gateway_mac = ascii ''02:00:00:00:00:01'', br_guests = [sample_guest], br_remotes = [], br_vips = [], br_lbs = [], br_lb_targets = [],
      br_nats = [], br_externals = [], br_conntrack_max = None, br_fw_rules = [sample_spec], br_firewall_enforce = True,
      br_neigh_nats = [], br_underlay_markers = [], br_meters = [], br_pin_dir = None, br_adopt = False, br_gateway6 = None,
      br_guests6 = [], br_remotes6 = [], br_dhcp_mtu = None, br_dhcp_dns = [], br_dhcpv6_dns = []\<rparr>"

lemmas text_eval = ascii_def parse_uint_def number_def digits_val_def is_digit_def to_digit_def

lemma sample_ifindex: "ifindex sample_host i = Inr 7"
proof -
  have "trim [55, 10] = [55]" by (simp add: trim_def trim_by.simps skip_one_def ws_seqs_def)
  then show ?thesis by (simp add: ifindex_def sample_host_def text_eval read_u32_def)
qed

lemma sample_mac: "parse_mac (ascii ''02:00:00:00:00:01'') = Inr [2, 0, 0, 0, 0, 1]" "mac_of sample_host i = Inr [2, 0, 0, 0, 0, 1]"
proof -
  have six: "replicate 6 (0 :: u8) = [0, 0, 0, 0, 0, 0]" by (simp add: eval_nat_numeral)
  show m: "parse_mac (ascii ''02:00:00:00:00:01'') = Inr [2, 0, 0, 0, 0, 1]"
    by (simp add: parse_mac_def text_eval six)
  have "trim (ascii ''02:00:00:00:00:01'' @ [10]) = ascii ''02:00:00:00:00:01''"
    by (simp add: ascii_def trim_def trim_by.simps skip_one_def ws_seqs_def)
  then show "mac_of sample_host i = Inr [2, 0, 0, 0, 0, 1]" by (simp add: mac_of_def sample_host_def m)
qed

lemma split_once_free: "c \<notin> set a \<Longrightarrow> split_once c (a @ c # b) = Some (a, b)"
  by (induction a) auto

lemma sample_cidr:
  "parse_cidr (show_ipv4 [10, 0, 0, 0] @ 47 # [56]) = Inr ([10, 0, 0, 0], [255, 0, 0, 0])"
  "parse_cidr (show_ipv4 [0, 0, 0, 0] @ 47 # [48]) = Inr ([0, 0, 0, 0], [0, 0, 0, 0])"
proof -
  have m: "NOT (mask 24) = (0xff000000 :: u32)" by (simp add: mask_eq_exp_minus_1 not_eq_complement)
  have masks: "u32_be (NOT (mask 24)) = [255, 0, 0, 0]" "u32_be 0 = [0, 0, 0, 0]"
    unfolding m by (simp_all add: u32_be_def)
  have "47 \<notin> set (show_ipv4 [10, 0, 0, 0])" "47 \<notin> set (show_ipv4 [0, 0, 0, 0])"
    by (simp_all add: show_ipv4_def dec8_def byte_def)
  then show "parse_cidr (show_ipv4 [10, 0, 0, 0] @ 47 # [56]) = Inr ([10, 0, 0, 0], [255, 0, 0, 0])"
    "parse_cidr (show_ipv4 [0, 0, 0, 0] @ 47 # [48]) = Inr ([0, 0, 0, 0], [0, 0, 0, 0])"
    by (simp_all add: parse_cidr_def split_once_free arg_ipv4_def parse_show_ipv4 read_u32_def text_eval masks)
qed

lemma sample_spec_split:
  "split_on 58 sample_spec = [ascii ''tap0'', ascii ''eg'', ascii ''drop'', ascii ''tcp'', show_ipv4 [10, 0, 0, 0] @ 47 # [56],
     show_ipv4 [0, 0, 0, 0] @ 47 # [48], [42]]"
  unfolding sample_spec_def by (rule split_join) (auto simp: ascii_def show_ipv4_def dec8_def byte_def)

lemma sample_guest_split:
  "split_on 61 sample_guest = [ascii ''tap0'', show_ipv4 [10, 0, 0, 1], ascii ''02:00:00:00:00:01'',
     show_ipv6 (replicate 15 0 @ [8]), ascii ''100'']"
proof -
  have "61 \<notin> set (show_ipv6 (replicate 15 0 @ [8]))" by code_simp
  then show ?thesis
    unfolding sample_guest_def by (intro split_join) (auto simp: ascii_def show_ipv4_def dec8_def byte_def)
qed

lemma sample_guest_name: "hd (splitn 3 61 sample_guest) = ascii ''tap0''"
proof -
  have "sample_guest = ascii ''tap0'' @ 61 # join_with 61 [show_ipv4 [10, 0, 0, 1], ascii ''02:00:00:00:00:01'',
      show_ipv6 (replicate 15 0 @ [8]), ascii ''100'']" by (simp add: sample_guest_def)
  moreover have "61 \<notin> set (ascii ''tap0'')" by (simp add: ascii_def)
  ultimately have "\<exists>r. split_once 61 sample_guest = Some (ascii ''tap0'', r)" by (metis split_once_free)
  then show ?thesis by (auto simp: numeral_3_eq_3)
qed

definition guest_rule :: FwRule where
  "guest_rule = \<lparr>fr_src_ip = [10, 0, 0, 0], fr_src_mask = [255, 0, 0, 0], fr_dst_ip = [0, 0, 0, 0], fr_dst_mask = [0, 0, 0, 0],
     fr_src_port_min = 0, fr_src_port_max = 65535, fr_dst_port_min = 0, fr_dst_port_max = 65535, fr_icmp_type = 0xffff,
     fr_icmp_code = 0xffff, fr_proto = 6, fr_action = FW_ACTION_DROP, fr_direction = FW_DIR_EGRESS, fr_enabled = 1\<rparr>"

lemma sample_parse: "parse_fw_rule sample_host sample_spec = Inr (7, guest_rule)"
  by (simp add: parse_fw_rule_def sample_spec_split sample_ifindex sample_cidr lookup_word_def parse_dport_def ascii_def guest_rule_def)

definition sample_tabs :: "maps \<Rightarrow> bool" where
  "sample_tabs t = (hget (PORT_META t) 7 = Some guest_meta \<and> CONNTRACK t = Map.empty \<and> fw_view t = (hnew 16384, hnew 1024, [0]) \<and>
     NEIGHBOR_NAT_COUNT t = [0] \<and> DHCP_CONFIG t = [zero_dhcp_config])"

lemma sample_start:
  "\<exists>e0 e1 e2. load_ebpf sample_host = Inr e0 \<and> attach_all sample_host sample_args e0 = Inr e1 \<and>
     program_node sample_host sample_args e1 = Inr e2 \<and> sample_tabs (eb_tabs e2) \<and>
     eb_taken e2 = [''UNDERLAY'', ''INTERFACES'', ''PORT_META'', ''LOCAL'', ''GUEST_PROGS'']"
proof -
  have v6: "arg_ipv6 (show_ipv6 (replicate 15 0 @ [9])) = Inr (replicate 15 0 @ [9])" by (simp add: arg_ipv6_def parse_show_ipv6)
  have g6: "arg_ipv6 (show_ipv6 (replicate 15 0 @ [8])) = Inr (replicate 15 0 @ [8])" by (simp add: arg_ipv6_def parse_show_ipv6)
  have n100: "read_u32 (ascii ''100'') = Inr 100" by (simp add: read_u32_def text_eval)
  have v4: "arg_ipv4 (show_ipv4 [10, 0, 0, 1]) = Inr [10, 0, 0, 1]" by (simp add: arg_ipv4_def parse_show_ipv4)
  have h: "hs_var sample_host v = None" "hs_load sample_host" "hs_verify sample_host n" "hs_attach sample_host ls l"
    "hs_prog_set sample_host n" for v n ls l
    by (simp_all add: sample_host_def)
  obtain e0 where e0: "load_ebpf sample_host = Inr e0" "eb_tabs e0 = fresh_maps" "eb_taken e0 = []" "eb_loaded e0 = []"
    by (simp add: load_ebpf_def size_vars_def apply_size_def h)
  obtain e1 where e1: "attach_all sample_host sample_args e0 = Inr e1" "eb_taken e1 = [''GUEST_PROGS'']" "eb_tabs e1 = fresh_maps"
    using e0
    by (simp add: attach_all_def sample_args_def attach_xdp_def program_def object_programs_def prog_load_def prog_attach_def h
        register_guest_dhcp_def load_program_def take_map_def object_maps_def attach_guest_def sample_guest_name)
  have "\<exists>e2. program_node sample_host sample_args e1 = Inr e2 \<and> sample_tabs (eb_tabs e2) \<and>
     eb_taken e2 = [''UNDERLAY'', ''INTERFACES'', ''PORT_META'', ''LOCAL'', ''GUEST_PROGS'']"
    using e1(2,3)
    by (auto simp: program_node_def set_local_def sample_args_def take_map_def object_maps_def sample_ifindex sample_mac v6 v4 opt_ipv6_def
        LocalMap_set_def table_write_def aset_def fresh_maps_def program_guest_def sample_guest_split g6 n100 PortMetaMap_upsert_def
        Interfaces_upsert_def Underlay_upsert_def hinsert_def hget_def hnew_def sample_tabs_def guest_meta_def fw_view_def)
  then show ?thesis using e0(1) e1(1) by blast
qed

lemma sample_bringup:
  "\<exists>e. bringup sample_host sample_args = Inr e \<and> hget (PORT_META (eb_tabs e)) 7 = Some guest_meta \<and> CONNTRACK (eb_tabs e) = Map.empty"
proof -
  obtain e0 e1 e2 where load: "load_ebpf sample_host = Inr e0" and e1: "attach_all sample_host sample_args e0 = Inr e1"
    and e2: "program_node sample_host sample_args e1 = Inr e2"
      "eb_taken e2 = [''UNDERLAY'', ''INTERFACES'', ''PORT_META'', ''LOCAL'', ''GUEST_PROGS'']" "sample_tabs (eb_tabs e2)"
    using sample_start by blast
  obtain e3 where e3: "program_routes sample_args e2 = Inr e3" "eb_taken e3 = [''VIPS'', ''ROUTES'', ''ROUTES6''] @ eb_taken e2" "eb_tabs e3 = eb_tabs e2"
    using e2(2) by (simp add: program_routes_def sample_args_def take_map_def object_maps_def collect_externals_def)
  obtain e4 where e4: "program_lbs sample_args e3 = Inr e4" "eb_taken e4 = [''MAGLEV'', ''LB''] @ eb_taken e3" "eb_tabs e4 = eb_tabs e2"
    using e3 e2(2) by (simp add: program_lbs_def sample_args_def take_map_def object_maps_def)
  obtain e5 where e5: "program_nats sample_args e4 = Inr e5" "eb_taken e5 = [''NAT_IPS'', ''NAT''] @ eb_taken e4" "eb_tabs e5 = eb_tabs e2"
    using e4 e3 e2(2) by (simp add: program_nats_def sample_args_def take_map_def object_maps_def)
  obtain e6 where e6: "program_firewall sample_host sample_args e5 = Inr e6"
    "eb_taken e6 = [''FW_CONFIG'', ''FW_META'', ''FW_RULES''] @ eb_taken e5"
    "NEIGHBOR_NAT_COUNT (eb_tabs e6) = [0]" "DHCP_CONFIG (eb_tabs e6) = [zero_dhcp_config]"
    "hget (PORT_META (eb_tabs e6)) 7 = Some guest_meta" "CONNTRACK (eb_tabs e6) = Map.empty"
    using e5 e4 e3 e2(2,3)
    by (auto simp: program_firewall_def sample_args_def take_map_def object_maps_def FwConfig_set_def table_write_def aset_def
        sample_tabs_def fw_view_def program_fw_rule_def sample_parse place_rule_def FwRules_upsert_def FwMetaMap_upsert_def hinsert_def hget_def hnew_def Let_def)
  have "\<exists>e7. program_rest sample_host sample_args e6 = Inr e7 \<and> ''CONNTRACK'' \<notin> set (eb_taken e7) \<and>
      PORT_META (eb_tabs e7) = PORT_META (eb_tabs e6) \<and> CONNTRACK (eb_tabs e7) = CONNTRACK (eb_tabs e6)"
    using e6 e5(2) e4(2) e3(2) e2(2)
    by (simp add: program_rest_def sample_args_def program_neigh_nats_def take_map_def object_maps_def NeighborNatCount_set_def
        table_write_def aset_def program_dhcp_def DhcpConfigMap_set_def)
  then obtain e7 where e7: "program_rest sample_host sample_args e6 = Inr e7" "''CONNTRACK'' \<notin> set (eb_taken e7)"
      "PORT_META (eb_tabs e7) = PORT_META (eb_tabs e6)" "CONNTRACK (eb_tabs e7) = CONNTRACK (eb_tabs e6)" by blast
  have "with_conntrack_max (br_conntrack_max sample_args) sample_host = sample_host" "br_pin_dir sample_args = None"
    by (simp_all add: sample_args_def with_conntrack_max_def)
  then show ?thesis
    using e7(2-) e6(5,6) by (simp add: bringup_def load e1 e2(1) e3(1) e4(1) e5(1) e6(1) e7(1) keep_conntrack_def take_map_def object_maps_def)
qed

theorem bringup_enforces_rules_witness:
  "\<exists>e rs. bringup sample_host sample_args = Inr e \<and> map (parse_fw_rule sample_host) [sample_spec] = map Inr rs \<and>
     fw_eval_dir (eb_tabs e) sample_syn 14 7 FW_DIR_EGRESS = fw_verdict (rules_for rs 7) FW_DIR_EGRESS sample_syn 14 \<and>
     fw_enforcing (eb_tabs e)"
proof -
  obtain e where e: "bringup sample_host sample_args = Inr e" using sample_bringup by blast
  have "br_fw_rules sample_args = [sample_spec]" "br_firewall_enforce sample_args" by (simp_all add: sample_args_def)
  with bringup_enforces_rules [OF e] obtain rs where
    "map (parse_fw_rule sample_host) [sample_spec] = map Inr rs" "fw_enforcing (eb_tabs e)"
    "fw_eval_dir (eb_tabs e) sample_syn 14 7 FW_DIR_EGRESS = fw_verdict (rules_for rs 7) FW_DIR_EGRESS sample_syn 14"
    by (metis (full_types))
  then show ?thesis using e by blast
qed


end
