(* ===== verification/Boot_Serve.thy ===== *)
theory Boot_Serve
  imports Boot_Firewall Commands Grpc_Steps Fw_Serve
begin

text \<open>
  From the command line to the running service: what \<^verbatim>\<open>Serve\<close> builds satisfies the invariants of the
  system, whatever table sizes the environment asks for, and the requests and packets that follow, in
  any order, keep them.
\<close>

section \<open>The tables at the start\<close>

text \<open>The sizes that can be set are those of other tables.\<close>

lemma load_tables:
  assumes "load_ebpf h = Inr e"
  shows "LOCAL (eb_tabs e) = [zero_local]" "NEIGHBOR_NAT (eb_tabs e) = NEIGHBOR_NAT fresh_maps"
    "NEIGHBOR_NAT_COUNT (eb_tabs e) = [0]"
proof -
  let ?P = "\<lambda>t. LOCAL t = [zero_local] \<and> NEIGHBOR_NAT t = NEIGHBOR_NAT fresh_maps \<and> NEIGHBOR_NAT_COUNT t = [0]"
  obtain t where t: "for_each (apply_size h) size_vars fresh_maps = Inr t" "eb_tabs e = t"
    using assms by (auto simp: load_ebpf_def and_then_Inr split: if_splits)
  have "?P t"
    by (rule for_each_inv [OF t(1), where P = ?P])
       (auto simp: apply_size_def set_max_entries_def fresh_maps_def split: option.splits if_splits)
  then show "LOCAL (eb_tabs e) = [zero_local]" "NEIGHBOR_NAT (eb_tabs e) = NEIGHBOR_NAT fresh_maps"
    "NEIGHBOR_NAT_COUNT (eb_tabs e) = [0]" using t(2) by simp_all
qed

lemma tabs_attach: "attach_xdp h n i e = Inr e' \<Longrightarrow> eb_tabs e' = eb_tabs e"
  by (auto simp: attach_xdp_def and_then_Inr prog_load_def prog_attach_def split: if_splits)

lemma tabs_take: "take_map n e = Inr e' \<Longrightarrow> eb_tabs e' = eb_tabs e"
  by (auto simp: take_map_def split: if_splits)

lemma tabs_register: "register_guest h tc e = Inr e' \<Longrightarrow> eb_tabs e' = eb_tabs e"
  by (auto simp: register_guest_def register_guest_dhcp_def register_guest_dhcp_tc_def load_program_def load_program_tc_def
      and_then_Inr prog_load_def Let_def dest!: tabs_take split: if_splits)

lemma tabs_takes: "for_each take_map ns e = Inr e' \<Longrightarrow> eb_tabs e' = eb_tabs e"
  by (rule for_each_inv [where P = "\<lambda>x. eb_tabs x = eb_tabs e"]) (auto dest: tabs_take)

lemma control_bring_up_starts:
  assumes "control_bring_up h up ix mac gmac ul = Inr (e, g)"
  shows "LOCAL (tabs g) = [\<lparr>lo_uplink_ifindex = ix, lo_uplink_mac = mac, lo_gateway_mac = gmac, lo_underlay_ipv6 = ul\<rparr>]" "sys_inv g"
proof -
  let ?loc = "\<lparr>lo_uplink_ifindex = ix, lo_uplink_mac = mac, lo_gateway_mac = gmac, lo_underlay_ipv6 = ul\<rparr>"
  obtain e0 e1 e2 e3 e4 e5 where s: "load_ebpf h = Inr e0" "attach_xdp h ''uplink_rx'' up e0 = Inr e1"
    "register_guest h (guest_tc_mode h) e1 = Inr e2" "take_map ''LOCAL'' e2 = Inr e3" "LocalMap_set ?loc e3 = Inr e4"
    "for_each take_map control_maps e4 = Inr e5"
    and g: "tabs g = eb_tabs e5" "neigh_nats g = []" "by_id g = []"
    using assms by (auto simp: control_bring_up_def and_then_Inr)
  have "eb_tabs e3 = eb_tabs e0" using tabs_attach [OF s(2)] tabs_register [OF s(3)] tabs_take [OF s(4)] by simp
  then have "tabs g = (eb_tabs e0)\<lparr>LOCAL := [?loc]\<rparr>"
    using s(5) tabs_takes [OF s(6)] g(1) load_tables(1) [OF s(1)]
    by (auto simp: LocalMap_set_def table_write_def aset_def)
  then show "LOCAL (tabs g) = [?loc]" "sys_inv g"
    using g(2,3) load_tables(2,3) [OF s(1)]
    by (simp_all add: fresh_maps_def hnew_def sys_inv_def nb_synced_def nb_table_ok_def ifaces_ok_def)
qed

section \<open>The server\<close>

lemma start_service_Inr:
  assumes "start_service h a ul gw gw6 (e0, g) = Inr (e, svc)"
  shows "\<exists>g'. sv_control svc = Some g' \<and> sys_step env g g' \<and> sv_underlay svc = ul \<and> e = e0"
  using assms
  by (auto simp: start_service_def Let_def case_prod_beta split: sum.splits if_splits intro: sys_step.set_dhcp_config)

lemma arg_ipv6_length: "arg_ipv6 s = Inr a \<Longrightarrow> addr6 a"
  by (auto simp: arg_ipv6_def parse_ipv6_def addr6_def length_octets6 dest!: read_ipv6_length split: option.splits list.splits)

lemma with_control_underlay [simp]: "sv_underlay (snd (with_control h svc)) = sv_underlay svc"
  by (simp add: with_control_def Let_def case_prod_beta split: option.splits)

lemmas write_handlers = rpc_create_interface_def rpc_delete_interface_def rpc_create_route_def rpc_delete_route_def rpc_reset_vni_def
  rpc_create_prefix_def rpc_delete_prefix_def rpc_create_load_balancer_prefix_def rpc_delete_load_balancer_prefix_def
  rpc_create_vip_def rpc_delete_vip_def rpc_create_load_balancer_def rpc_delete_load_balancer_def
  rpc_create_load_balancer_target_def rpc_delete_load_balancer_target_def rpc_create_nat_def rpc_delete_nat_def
  rpc_create_neighbor_nat_def rpc_delete_neighbor_nat_def rpc_create_firewall_rule_def rpc_delete_firewall_rule_def

lemma serve_underlay_group:
  "sv_underlay (snd (serve_node lib env r1 svc)) = sv_underlay svc"
  "sv_underlay (snd (serve_interface lib env r2 svc)) = sv_underlay svc"
  "sv_underlay (snd (serve_route lib env r3 svc)) = sv_underlay svc"
  "sv_underlay (snd (serve_prefix lib env r4 svc)) = sv_underlay svc"
  "sv_underlay (snd (serve_vip lib env r5 svc)) = sv_underlay svc"
  "sv_underlay (snd (serve_lb lib env r6 svc)) = sv_underlay svc"
  "sv_underlay (snd (serve_nat lib env r7 svc)) = sv_underlay svc"
  "sv_underlay (snd (serve_fw lib env r8 svc)) = sv_underlay svc"
         apply (cases r1; simp add: read_handlers rpc_initialize_def Let_def case_prod_beta split: option.splits)
        apply (cases r2; simp add: read_handlers write_handlers Let_def)
       apply (cases r3; simp add: read_handlers write_handlers Let_def)
      apply (cases r4; simp add: read_handlers write_handlers Let_def)
     apply (cases r5; simp add: read_handlers write_handlers Let_def)
    apply (cases r6; simp add: read_handlers write_handlers Let_def)
   apply (cases r7; simp add: read_handlers write_handlers Let_def)
  apply (cases r8; simp add: read_handlers write_handlers Let_def)
  done

lemma serve_underlay: "sv_underlay (snd (serve lib env r svc)) = sv_underlay svc"
  by (cases r) (simp_all add: serve_underlay_group)

section \<open>Requests and packets\<close>

text \<open>What happens to the tables besides requests: packets at the hooks, the aging task, evictions.\<close>

inductive table_event :: "maps \<Rightarrow> maps \<Rightarrow> bool" where
  guest: "table_event s (snd (snd (guest_tx now tail_ok ctx s)))"
| tc_guest: "table_event s (snd (snd (tc_guest_tx now tails k s)))"
| uplink: "table_event s (snd (snd (uplink_rx now ctx s)))"
| gc: "table_event s (s\<lparr>CONNTRACK := gc_sweep now (CONNTRACK s)\<rparr>)"
| evict: "table_event s (s\<lparr>CONNTRACK := (CONNTRACK s)(ck := None)\<rparr>)"

text \<open>A run of the server: requests and table events in any order.\<close>

inductive served :: "(map_error \<Rightarrow> string) \<Rightarrow> netdev_env \<Rightarrow> Service \<Rightarrow> Service \<Rightarrow> bool" for lib env svc where
  start: "served lib env svc svc"
| request: "served lib env svc svc' \<Longrightarrow> served lib env svc (snd (serve lib env r svc'))"
| event: "served lib env svc svc' \<Longrightarrow> sv_control svc' = Some g \<Longrightarrow> table_event (tabs g) t \<Longrightarrow>
    served lib env svc (svc'\<lparr>sv_control := Some (g\<lparr>tabs := t\<rparr>)\<rparr>)"

lemma table_event_step: "table_event (tabs g) t \<Longrightarrow> sys_step env g (g\<lparr>tabs := t\<rparr>)"
  by (cases rule: table_event.cases) (auto intro: sys_step.intros)

definition node_ok :: "Local \<Rightarrow> ctl \<Rightarrow> bool" where
  "node_ok l g = (LOCAL (tabs g) = [l] \<and> sys_inv g)"

lemma node_ok_step: "sys_step env g g' \<Longrightarrow> node_ok l g \<Longrightarrow> node_ok l g'"
  using switch_step sys_step_inv by (auto simp: node_ok_def boot_view_def)

lemma node_ok_steps: "(sys_step env)\<^sup>*\<^sup>* g g' \<Longrightarrow> node_ok l g \<Longrightarrow> node_ok l g'"
  by (induction rule: rtranclp_induct) (auto intro: node_ok_step)

lemma served_node:
  assumes "served lib env svc svc'" "addr6 (sv_underlay svc)" "sv_control svc = Some g" "node_ok l g"
  shows "sv_underlay svc' = sv_underlay svc \<and> (\<exists>g'. sv_control svc' = Some g' \<and> node_ok l g')"
  using assms
proof (induction rule: served.induct)
  case (request svc' r)
  then obtain g' where "sv_control svc' = Some g'" "node_ok l g'" "addr6 (sv_underlay svc')" by auto
  then show ?case
    using request steps.serve_respects [of svc' env lib r] by (auto simp: option_rel_Some1 serve_underlay intro: node_ok_steps)
next
  case (event svc' h t)
  then show ?case using node_ok_step [OF table_event_step [OF event(3), of env]] by auto
qed auto

lemma serve_starts:
  assumes "serve_command h a = Inr (e, svc)"
  obtains ix mac gmac ul g where "ifindex h (sa_uplink a) = Inr ix" "mac_of h (sa_uplink a) = Inr mac"
    "parse_mac (sa_gateway_mac a) = Inr gmac" "arg_ipv6 (sa_local_underlay a) = Inr ul" "addr6 (sv_underlay svc)"
    "sv_control svc = Some g"
    "node_ok \<lparr>lo_uplink_ifindex = ix, lo_uplink_mac = mac, lo_gateway_mac = gmac, lo_underlay_ipv6 = ul\<rparr> g"
proof -
  let ?h = "with_conntrack_max (sa_conntrack_max a) h"
  obtain ul gw gw6 ix mac gmac e0 g where args: "ifindex ?h (sa_uplink a) = Inr ix" "mac_of ?h (sa_uplink a) = Inr mac"
      "parse_mac (sa_gateway_mac a) = Inr gmac" "arg_ipv6 (sa_local_underlay a) = Inr ul"
    and g: "control_bring_up ?h (sa_uplink a) ix mac gmac ul = Inr (e0, g)"
    and svc: "start_service ?h a ul gw gw6 (e0, g) = Inr (e, svc)"
    using assms by (auto simp: serve_command_def Let_def and_then_Inr)
  let ?loc = "\<lparr>lo_uplink_ifindex = ix, lo_uplink_mac = mac, lo_gateway_mac = gmac, lo_underlay_ipv6 = ul\<rparr>"
  have "node_ok ?loc g" using control_bring_up_starts [OF g] by (simp add: node_ok_def)
  then obtain g' where "sv_control svc = Some g'" "node_ok ?loc g'" "sv_underlay svc = ul"
    using start_service_Inr [OF svc] node_ok_step by blast
  moreover have "ifindex ?h i = ifindex h i" "mac_of ?h i = mac_of h i" for i
    by (simp_all add: with_conntrack_max_def ifindex_def mac_of_def split: option.splits)
  ultimately show thesis using args arg_ipv6_length [OF args(4)] by (intro that [of ix mac gmac ul g']) simp_all
qed

text \<open>C15: the state of a running server. When \<^verbatim>\<open>Serve\<close> has come up, then after any sequence of
  requests, packets, sweeps and evictions, whatever they carry and whether the requests succeed or
  fail: the \<^verbatim>\<open>LOCAL\<close> record the datapath uses for every outer header is the one of the command line
  (index and MAC of the uplink, MAC of the gateway, own underlay address); no two interfaces of a VNI
  have the same IPv4 address; and the datapath's neighbour NAT lookup finds exactly the owners the
  control plane lists.\<close>

theorem served_node_state:
  assumes "serve_command h a = Inr (e, svc)" "served lib env svc svc'"
  shows "\<exists>ix mac gmac ul g. ifindex h (sa_uplink a) = Inr ix \<and> mac_of h (sa_uplink a) = Inr mac \<and>
    parse_mac (sa_gateway_mac a) = Inr gmac \<and> arg_ipv6 (sa_local_underlay a) = Inr ul \<and> sv_control svc' = Some g \<and>
    LOCAL (tabs g) = [\<lparr>lo_uplink_ifindex = ix, lo_uplink_mac = mac, lo_gateway_mac = gmac, lo_underlay_ipv6 = ul\<rparr>] \<and>
    (\<forall>i j r q. map_of (by_id g) i = Some r \<and> map_of (by_id g) j = Some q \<and> i \<noteq> j \<longrightarrow>
       (ir_vni r, ir_ipv4 r) \<noteq> (ir_vni q, ir_ipv4 q)) \<and>
    (\<forall>vni dst dport u. neighbor_nat_lookup (tabs g) vni dst dport = Some u \<longleftrightarrow>
       (\<exists>n. n \<in> set (neigh_nats g) \<and> nb_hit vni dst dport n \<and> nn_underlay n = u))"
proof -
  obtain ix mac gmac ul g where args: "ifindex h (sa_uplink a) = Inr ix" "mac_of h (sa_uplink a) = Inr mac"
    "parse_mac (sa_gateway_mac a) = Inr gmac" "arg_ipv6 (sa_local_underlay a) = Inr ul" and g: "addr6 (sv_underlay svc)"
    "sv_control svc = Some g"
    "node_ok \<lparr>lo_uplink_ifindex = ix, lo_uplink_mac = mac, lo_gateway_mac = gmac, lo_underlay_ipv6 = ul\<rparr> g"
    using serve_starts [OF assms(1)] by metis
  from served_node [OF assms(2) g] obtain g' where g': "sv_control svc' = Some g'"
    "LOCAL (tabs g') = [\<lparr>lo_uplink_ifindex = ix, lo_uplink_mac = mac, lo_gateway_mac = gmac, lo_underlay_ipv6 = ul\<rparr>]" "sys_inv g'"
    by (auto simp: node_ok_def)
  show ?thesis
    using args g'(1,2) sys_inv_addresses [OF g'(3)] sys_inv_lookup [OF g'(3)]
    by (intro exI [of _ ix] exI [of _ mac] exI [of _ gmac] exI [of _ ul] exI [of _ g']) (intro conjI allI impI; blast)
qed

definition server_args :: ServeArgs where
  "server_args = \<lparr>sa_addr = [], sa_uplink = ascii ''eth0'', sa_local_underlay = show_ipv6 (replicate 15 0 @ [9]),
     sa_gateway_mac = ascii ''02:00:00:00:00:03'', sa_conntrack_max = None, sa_gateway = show_ipv4 [10, 0, 0, 1],
     sa_gateway6 = None, sa_pin_dir = None, sa_dhcp_mtu = None, sa_dhcp_dns = [], sa_dhcpv6_dns = []\<rparr>"

lemma sample_gateway_mac: "parse_mac (ascii ''02:00:00:00:00:03'') = Inr [2, 0, 0, 0, 0, 3]"
proof -
  have six: "replicate 6 (0 :: u8) = [0, 0, 0, 0, 0, 0]" by (simp add: eval_nat_numeral)
  show ?thesis by (simp add: parse_mac_def text_eval six)
qed

lemma sample_serve: "\<exists>e svc. serve_command sample_host server_args = Inr (e, svc)"
proof -
  have v6: "arg_ipv6 (show_ipv6 (replicate 15 0 @ [9])) = Inr (replicate 15 0 @ [9])" by (simp add: arg_ipv6_def parse_show_ipv6)
  have v4: "arg_ipv4 (show_ipv4 [10, 0, 0, 1]) = Inr [10, 0, 0, 1]" by (simp add: arg_ipv4_def parse_show_ipv4)
  have h: "hs_var sample_host v = None" "hs_load sample_host" "hs_verify sample_host n" "hs_attach sample_host ls l" "hs_listen sample_host b"
    "hs_prog_set sample_host n" for v n ls l b
    by (simp_all add: sample_host_def)
  obtain e0 where e0: "load_ebpf sample_host = Inr e0" "eb_tabs e0 = fresh_maps" "eb_taken e0 = []" "eb_loaded e0 = []"
    by (simp add: load_ebpf_def size_vars_def apply_size_def h)
  have up: "\<exists>e g. control_bring_up sample_host up ix mac gmac ul = Inr (e, g) \<and> DHCP_CONFIG (tabs g) = [zero_dhcp_config]" for up ix mac gmac ul
    using e0
    by (simp add: control_bring_up_def attach_xdp_def program_def object_programs_def prog_load_def prog_attach_def h
        register_guest_def guest_tc_mode_def register_guest_dhcp_tc_def load_program_tc_def take_map_def object_maps_def control_maps_def
        LocalMap_set_def table_write_def aset_def fresh_maps_def)
  have w: "with_conntrack_max (sa_conntrack_max server_args) sample_host = sample_host"
    by (simp add: server_args_def with_conntrack_max_def)
  obtain e g where eg: "control_bring_up sample_host (ascii ''eth0'') 7 [2, 0, 0, 0, 0, 1] [2, 0, 0, 0, 0, 3] (replicate 15 0 @ [9]) = Inr (e, g)"
      "DHCP_CONFIG (tabs g) = [zero_dhcp_config]" using up by blast
  show ?thesis
    unfolding serve_command_def w Let_def
    by (simp add: server_args_def v6 v4 opt_ipv6_def sample_ifindex sample_mac sample_gateway_mac eg start_service_def set_dhcp_config_def aset_def upd_def h)
qed

theorem served_node_state_witness:
  "\<exists>e svc g. serve_command sample_host server_args = Inr (e, svc) \<and>
     sv_control (snd (serve (\<lambda>_. []) sample_env (NodeRpc (Initialize [])) svc)) = Some g \<and>
     LOCAL (tabs g) = [\<lparr>lo_uplink_ifindex = 7, lo_uplink_mac = [2, 0, 0, 0, 0, 1], lo_gateway_mac = [2, 0, 0, 0, 0, 3],
       lo_underlay_ipv6 = replicate 15 0 @ [9]\<rparr>]"
proof -
  obtain e svc where s: "serve_command sample_host server_args = Inr (e, svc)" using sample_serve by blast
  have "served (\<lambda>_. []) sample_env svc (snd (serve (\<lambda>_. []) sample_env (NodeRpc (Initialize [])) svc))"
    by (intro served.request served.start)
  from served_node_state [OF s this] show ?thesis
    using s by (auto simp: server_args_def sample_ifindex sample_mac sample_gateway_mac arg_ipv6_def parse_show_ipv6)
qed

end
