(* ===== verification/Spec2Isabelle.thy ===== *)
theory Spec2Isabelle
  imports Conntrack_Props Nat64_Props Dhcp6_Props Nat_Flows Overlay Routing Services Tc_Props Grpc_Errors Fw_Serve Boot_Safety Boot_Firewall
    Boot_Serve
begin

text \<open>
  Verification of \<^verbatim>\<open>dpservice-xdp\<close>, an overlay network datapath in eBPF with its control plane.

  \<^bold>\<open>The program.\<close> The crate \<^verbatim>\<open>xdp-dp-ebpf\<close> holds the programs the kernel runs for every packet:
  \<^verbatim>\<open>guest_tx\<close> (or \<^verbatim>\<open>tc_guest_tx\<close>) for packets a guest sends, \<^verbatim>\<open>uplink_rx\<close> for packets from the underlay,
  and the tail-called DHCP and NAT64 programs. They share eBPF tables with the crate \<^verbatim>\<open>xdp-dp\<close>, whose
  commands load the object, fill the tables and, in \<^verbatim>\<open>Serve\<close>, change them on behalf of gRPC requests.
  \<^verbatim>\<open>xdp-dp-common\<close> has the record types of the tables, checksums and packet writers both sides use.

  \<^bold>\<open>Conventions.\<close> A packet is a list of bytes; reads and writes are at the offsets of the code, with its
  bounds checks. Integers keep their width (\<^typ>\<open>32 word\<close> and so on) and wrap where the code wraps.
  Structs are records, tables are maps with their size (\<^verbatim>\<open>Bpf_Maps\<close>), so that an insertion into a full
  table fails as in the kernel. The clock is an argument \<open>now\<close>. Errors are values: \<open>unit + 'a\<close> in the
  programs, \<open>ctl_error + 'a\<close> in the control plane, \<open>rpc_status + 'a\<close> in gRPC handlers, \<open>cli_error + 'a\<close> in
  commands. The control plane works on one record \<open>ctl\<close>, the contents of \<^verbatim>\<open>Inner\<close> in \<^verbatim>\<open>control.rs\<close>
  together with the tables; the mutex around it makes every operation one step.

  \<^bold>\<open>Theories of the datapath\<close> (below \<^verbatim>\<open>src/xdp-dp-ebpf/src\<close> unless said otherwise):
  \<^item> \<^verbatim>\<open>Prelude\<close>: byte access and generic lemmas; \<^verbatim>\<open>Bpf_Maps\<close>: hash, array and longest-prefix tables;
    \<^verbatim>\<open>Types\<close>: \<^verbatim>\<open>xdp-dp-common/src/lib.rs\<close> and \<^verbatim>\<open>maps.rs\<close>; \<^verbatim>\<open>Slots\<close>: tables filled slot by slot.
  \<^item> \<^verbatim>\<open>Parse\<close>, \<^verbatim>\<open>Csum\<close>: \<^verbatim>\<open>parse.rs\<close>, \<^verbatim>\<open>csum.rs\<close> and the checksums of the common crate. Incremental updates
    are related to the sum over the whole packet.
  \<^item> \<^verbatim>\<open>Conntrack\<close>, \<^verbatim>\<open>Conntrack_Props\<close>: \<^verbatim>\<open>conntrack.rs\<close> and the aging of \<^verbatim>\<open>xdp-dp/src/conntrack_gc.rs\<close>; checksums
    survive a translation, the translation of the opposite direction restores an echoed TCP packet, the TCP state as a
    function of the flags seen, a sweep removes exactly the stale entries.
  \<^item> \<^verbatim>\<open>Vip\<close>, \<^verbatim>\<open>Snat\<close>, \<^verbatim>\<open>Nat_Flows\<close>: \<^verbatim>\<open>vip.rs\<close>, \<^verbatim>\<open>nat.rs\<close>: port allocation, the way back of a reply, the
    echo of a packet through VIP or NAT byte for byte, and the loss of a port whose return entry ages out.
  \<^item> \<^verbatim>\<open>Firewall\<close>, \<^verbatim>\<open>Fw_Refinement\<close>: \<^verbatim>\<open>firewall.rs\<close>; the slot scan decides as the rule list of the control plane.
  \<^item> \<^verbatim>\<open>Meter\<close>: \<^verbatim>\<open>meter.rs\<close>, with a bound on what passes in any stretch of a run. \<^verbatim>\<open>Encap\<close>, \<^verbatim>\<open>Overlay\<close>: \<^verbatim>\<open>encap.rs\<close>; what
    one node encapsulates another delivers unchanged. \<^verbatim>\<open>Arp_Nd\<close>: \<^verbatim>\<open>arp_nd.rs\<close>. \<^verbatim>\<open>Lb\<close>: \<^verbatim>\<open>lb.rs\<close>.
  \<^item> \<^verbatim>\<open>Nat64\<close>, \<^verbatim>\<open>Nat64_Props\<close>: \<^verbatim>\<open>nat64.rs\<close>. \<^verbatim>\<open>Dhcp\<close>, \<^verbatim>\<open>Dhcp6\<close>: \<^verbatim>\<open>dhcp.rs\<close> and the DHCPv4 writer of the common crate;
    \<^verbatim>\<open>Dhcp_Props\<close>, \<^verbatim>\<open>Dhcp6_Props\<close>: what a client that follows RFC 2132 or RFC 8415 reads from the answer.
  \<^item> \<^verbatim>\<open>Egress\<close>: \<^verbatim>\<open>egress.rs\<close>, \<^verbatim>\<open>v6.rs\<close>; \<^verbatim>\<open>Ingress\<close>: \<^verbatim>\<open>ingress.rs\<close>, \<^verbatim>\<open>v6.rs\<close> and the entry points of \<^verbatim>\<open>main.rs\<close>.
  \<^item> \<^verbatim>\<open>Tc\<close>, \<^verbatim>\<open>Tc_Props\<close>: \<^verbatim>\<open>tc.rs\<close> and the skb variants in \<^verbatim>\<open>nat64.rs\<close> and \<^verbatim>\<open>dhcp.rs\<close>, on packet buffers with a
    linear part and fragments; on a packet in one piece the tc edge acts as the XDP edge.

  \<^bold>\<open>Theories of the control plane\<close> (below \<^verbatim>\<open>src/xdp-dp/src\<close>):
  \<^item> \<^verbatim>\<open>Maglev\<close>, \<^verbatim>\<open>Lb_Refinement\<close>: \<^verbatim>\<open>maglev.rs\<close>; the table is always built and balanced, and the datapath balances
    over exactly the recorded targets.
  \<^item> \<^verbatim>\<open>Control\<close>, \<^verbatim>\<open>Control_Services\<close>: \<^verbatim>\<open>control.rs\<close>, \<^verbatim>\<open>state.rs\<close> and the removals of \<^verbatim>\<open>maps.rs\<close>; \<^verbatim>\<open>Routing\<close>, \<^verbatim>\<open>Services\<close>,
    \<^verbatim>\<open>Nb_Refinement\<close>: what the operations establish for the datapath.
  \<^item> \<^verbatim>\<open>System\<close>, \<^verbatim>\<open>System_Inv\<close>: the running node as a step relation, one step per packet, aging sweep, eviction or
    control operation, and invariants of its reachable states. \<^verbatim>\<open>Fw_Serve\<close>: the \<^verbatim>\<open>LOCAL\<close> record and
    the enforcement switch of the firewall are never written again, so the switch stays off in all of them.
  \<^item> \<^verbatim>\<open>Ip_Text\<close>: the textual forms of addresses; \<^verbatim>\<open>Grpc_Types\<close>, \<^verbatim>\<open>Grpc\<close>, \<^verbatim>\<open>Grpc_Services\<close>, \<^verbatim>\<open>Grpc_Serve\<close>: \<^verbatim>\<open>grpc.rs\<close>, every
    handler and their dispatch; \<^verbatim>\<open>Grpc_Props\<close>, \<^verbatim>\<open>Grpc_Steps\<close>, \<^verbatim>\<open>Grpc_Errors\<close>: round trips of messages, what every
    request keeps (the locale \<open>control_api\<close> states what the handlers rely on, interpreted with the steps of
    the system and with well-formedness of the records), and that a refused request changes nothing.

  \<^bold>\<open>Theories of the commands\<close> (below \<^verbatim>\<open>src/xdp-dp/src\<close>):
  \<^item> \<^verbatim>\<open>Cli_Text\<close>: the string functions and parsers of \<^verbatim>\<open>main.rs\<close>; \<^verbatim>\<open>Loader\<close>: \<^verbatim>\<open>loader.rs\<close> and the writes of
    \<^verbatim>\<open>maps.rs\<close>, over a loaded object that records programs, attachments and tables taken; \<^verbatim>\<open>Bringup\<close>: the
    command of that name stage by stage; \<^verbatim>\<open>Commands\<close>: \<^verbatim>\<open>Serve\<close> with \<^verbatim>\<open>Control::bring_up\<close>, \<^verbatim>\<open>TcBringup\<close>, \<^verbatim>\<open>Load\<close>, \<^verbatim>\<open>Pass\<close>,
    \<^verbatim>\<open>Inspect\<close> with \<^verbatim>\<open>inspect.rs\<close>, and the dispatch of \<^verbatim>\<open>main\<close>.
  \<^item> \<^verbatim>\<open>Boot_Safety\<close>: no command misuses the object or panics. \<^verbatim>\<open>Boot_Firewall\<close>: after \<^verbatim>\<open>Bringup\<close> the datapath
    enforces the rules of the command line and \<^verbatim>\<open>guest_tx\<close> drops what they deny. \<^verbatim>\<open>Boot_Serve\<close>: the server starts
    with the invariants of the system and the \<^verbatim>\<open>LOCAL\<close> record of its arguments, and keeps them through requests and
    packets in any order.

  \<^bold>\<open>Arguments of the model.\<close> What the kernel decides is an argument: whether a program passes the verifier, an
  attachment or a resize of a packet succeeds, a tail call is taken (\<open>tail_ok\<close>), which devices exist
  (\<open>netdev_env\<close>, \<open>host\<close>). The text aya gives to a table error is the argument \<open>lib\<close> of the handlers. The
  conntrack table is modelled without size; that the kernel evicts its oldest entry is a step of the system.
  Hash tables whose iteration order the code exposes are association lists, and a claim about their order is
  made only where the code fixes it.

  \<^bold>\<open>Loops and bounds.\<close> The loops of the Maglev builder have no bound in the code; they are partial
  functions, shown to return for every list of backends. The DHCPv6 option walk carries the code's
  guard of 12 rounds, the NAT allocator its 64 probes, the firewall scan its rule limit, the
  neighbour NAT scan its 64 entries; all other recursion follows a list.

  \<^bold>\<open>Not modelled.\<close> The kernel, the verifier and the libraries aya, tonic and clap; the health service and
  transport of gRPC; the splitting of the command line into arguments; logging (\<^verbatim>\<open>dbg.rs\<close>), printing and
  signals; concurrent packets on several processors, each packet being one step; the build scripts.
\<close>

end
